(* ===== verification/Prelude.thy ===== *)
theory Prelude
  imports Main "HOL-Library.Sublist" "HOL-Library.Char_ord" "HOL-Library.List_Lexorder"
    "HOL-Library.Product_Lexorder"
begin

text \<open>
  Shared vocabulary of the development: the error monad on sums that stands for Go's
  \<open>(value, error)\<close> results, bounded loops that stop at the first error, conditional
  row updates (SQL's \<open>UPDATE ... WHERE\<close>), byte-string helpers of Go's \<open>strings\<close>
  package, and the list lemmas that several components use.
\<close>

named_theorems repo_defs "definitions of the repository operations"
named_theorems keeps "operations that keep a well-formedness invariant"

section \<open>Results\<close>

text \<open>
  \<open>Inl e\<close> is a Go call that returned the error \<open>e\<close>; \<open>Inr x\<close> is a call that
  returned \<open>x\<close> and a nil error. \<open>sum_bind\<close> is the \<open>if err != nil { return err }\<close> idiom.
\<close>

definition sum_bind :: "'e + 'a \<Rightarrow> ('a \<Rightarrow> 'e + 'b) \<Rightarrow> 'e + 'b" where
  "sum_bind m f = (case m of Inl e \<Rightarrow> Inl e | Inr x \<Rightarrow> f x)"

lemma sum_bind_simps [simp]:
  "sum_bind (Inl e) f = Inl e"
  "sum_bind (Inr x) f = f x"
  by (simp_all add: sum_bind_def)

lemma sum_bind_Inr_iff:
  "sum_bind m f = Inr y \<longleftrightarrow> (\<exists>x. m = Inr x \<and> f x = Inr y)"
  by (cases m) simp_all

lemma sum_bind_Inl_iff:
  "sum_bind m f = Inl e \<longleftrightarrow> m = Inl e \<or> (\<exists>x. m = Inr x \<and> f x = Inl e)"
  by (cases m) simp_all

lemma sum_bindE:
  assumes "sum_bind m f = Inr y" obtains x where "m = Inr x" "f x = Inr y"
  using assms by (auto simp: sum_bind_Inr_iff)

definition guard_err :: "'e \<Rightarrow> bool \<Rightarrow> 'e + unit" where
  "guard_err e ok = (if ok then Inr () else Inl e)"

lemma guard_err_Inr_iff [simp]: "guard_err e ok = Inr u \<longleftrightarrow> ok"
  by (simp add: guard_err_def)

lemma guard_err_Inl_iff [simp]: "guard_err e ok = Inl e' \<longleftrightarrow> \<not> ok \<and> e' = e"
  by (auto simp: guard_err_def)

definition map_err :: "('e \<Rightarrow> 'f) \<Rightarrow> 'e + 'a \<Rightarrow> 'f + 'a" where
  "map_err g m = (case m of Inl e \<Rightarrow> Inl (g e) | Inr x \<Rightarrow> Inr x)"

lemma map_err_simps [simp]:
  "map_err g (Inl e) = Inl (g e)"
  "map_err g (Inr x) = Inr x"
  by (simp_all add: map_err_def)

lemma map_err_Inr_iff [simp]: "map_err g m = Inr x \<longleftrightarrow> m = Inr x"
  by (cases m) simp_all

text \<open>A \<open>for ... range xs\<close> loop over a state whose body may return an error.\<close>

fun fold_sum :: "('s \<Rightarrow> 'a \<Rightarrow> 'e + 's) \<Rightarrow> 's \<Rightarrow> 'a list \<Rightarrow> 'e + 's" where
  "fold_sum f s [] = Inr s"
| "fold_sum f s (x # xs) = sum_bind (f s x) (\<lambda>s'. fold_sum f s' xs)"

lemma fold_sum_invariant:
  assumes "fold_sum f s xs = Inr s'" and "I s"
    and "\<And>s x s'. I s \<Longrightarrow> x \<in> set xs \<Longrightarrow> f s x = Inr s' \<Longrightarrow> I s'"
  shows "I s'"
  using assms
proof (induction xs arbitrary: s)
  case Nil
  then show ?case by simp
next
  case (Cons x xs)
  from Cons.prems(1) obtain t where t: "f s x = Inr t" "fold_sum f t xs = Inr s'"
    by (auto simp: sum_bind_Inr_iff)
  from Cons.prems(2,3) t(1) have "I t" by (meson list.set_intros(1))
  with t(2) show ?case using Cons.prems(3) by (intro Cons.IH) auto
qed

lemma fold_sum_append:
  "fold_sum f s (xs @ ys) = sum_bind (fold_sum f s xs) (\<lambda>t. fold_sum f t ys)"
proof (induction xs arbitrary: s)
  case Nil
  then show ?case by simp
next
  case (Cons x xs)
  then show ?case by (cases "f s x") simp_all
qed

section \<open>Rows\<close>

text \<open>\<open>update_where P f\<close> is SQL's \<open>UPDATE t SET f WHERE P\<close> on the list of a table's rows.\<close>

definition update_where :: "('a \<Rightarrow> bool) \<Rightarrow> ('a \<Rightarrow> 'a) \<Rightarrow> 'a list \<Rightarrow> 'a list" where
  "update_where P f xs = map (\<lambda>x. if P x then f x else x) xs"

lemma update_where_simps [simp]:
  "update_where P f [] = []"
  "update_where P f (x # xs) = (if P x then f x else x) # update_where P f xs"
  by (simp_all add: update_where_def)

lemma set_update_where: "set (update_where P f xs) = (\<lambda>x. if P x then f x else x) ` set xs"
  by (simp add: update_where_def)

lemma update_whereE:
  assumes "y \<in> set (update_where P f xs)"
  obtains x where "x \<in> set xs" "P x" "y = f x" | "y \<in> set xs" "\<not> P y"
  using assms by (induction xs) (auto split: if_splits)

lemma update_where_same: "x \<in> set xs \<Longrightarrow> \<not> P x \<Longrightarrow> x \<in> set (update_where P f xs)"
  by (induction xs) auto

lemma update_where_others:
  assumes "\<And>x. P x \<Longrightarrow> \<not> Q x \<and> \<not> Q (f x)"
  shows "y \<in> set (update_where P f xs) \<and> Q y \<longleftrightarrow> y \<in> set xs \<and> Q y"
proof (induction xs)
  case (Cons x xs)
  then show ?case using assms [of x] by (cases "P x") auto
qed simp

lemma length_update_where [simp]: "length (update_where P f xs) = length xs"
  by (simp add: update_where_def)

lemma map_update_where:
  "(\<And>x. x \<in> set xs \<Longrightarrow> P x \<Longrightarrow> k (f x) = k x) \<Longrightarrow> map k (update_where P f xs) = map k xs"
  by (simp add: update_where_def)

lemma update_where_None:
  "(\<And>x. x \<in> set xs \<Longrightarrow> \<not> P x) \<Longrightarrow> update_where P f xs = xs"
  by (induction xs) auto

lemma image_update_where:
  "(\<And>x. x \<in> set xs \<Longrightarrow> P x \<Longrightarrow> k (f x) = k x) \<Longrightarrow> k ` set (update_where P f xs) = k ` set xs"
  by (induction xs) auto

text \<open>
  A partial unique index constrains the key of the rows its \<open>WHERE\<close> clause selects. An update
  that keeps every key and adds no row to the index keeps it unique.
\<close>

lemma distinct_filter_update_where:
  assumes "distinct (map k (filter Q xs))"
    and "\<And>x. x \<in> set xs \<Longrightarrow> P x \<Longrightarrow> k (f x) = k x"
    and "\<And>x. x \<in> set xs \<Longrightarrow> P x \<Longrightarrow> Q (f x) \<Longrightarrow> Q x"
  shows "distinct (map k (filter Q (update_where P f xs)))"
proof -
  have "subseq (map k (filter Q (update_where P f xs))) (map k (filter Q xs))"
    using assms(2,3)
  proof (induction xs)
    case Nil
    then show ?case by simp
  next
    case (Cons x xs)
    then have IH: "subseq (map k (filter Q (update_where P f xs))) (map k (filter Q xs))" by simp
    show ?case
      using Cons.prems IH by (cases "P x"; cases "Q x"; cases "Q (f x)") (auto intro: list_emb_Cons)
  qed
  with assms(1) show ?thesis
    by (metis subseq_conv_nths distinct_nthsI)
qed

lemma distinct_map_filterI: "distinct (map k xs) \<Longrightarrow> distinct (map k (filter Q xs))"
  by (simp add: distinct_map_filter)

lemma distinct_map_eqD:
  "distinct (map k xs) \<Longrightarrow> x \<in> set xs \<Longrightarrow> y \<in> set xs \<Longrightarrow> k x = k y \<Longrightarrow> x = y"
  by (simp add: distinct_map inj_on_def)

lemma distinct_snoc_map:
  "distinct (map k (xs @ [x])) \<longleftrightarrow> distinct (map k xs) \<and> k x \<notin> k ` set xs"
  by (induction xs) auto

section \<open>Lookup\<close>

lemma find_SomeD: "List.find P xs = Some x \<Longrightarrow> x \<in> set xs \<and> P x"
  by (induction xs) (auto split: if_splits)

lemma find_NoneD: "List.find P xs = None \<Longrightarrow> x \<in> set xs \<Longrightarrow> \<not> P x"
  by (simp add: find_None_iff)

lemma find_exI: "x \<in> set xs \<Longrightarrow> P x \<Longrightarrow> \<exists>y. List.find P xs = Some y"
  by (metis find_None_iff not_Some_eq)

lemma find_distinct:
  assumes "distinct (map k xs)" "x \<in> set xs" "k x = v"
  shows "List.find (\<lambda>y. k y = v) xs = Some x"
proof -
  obtain y where y: "List.find (\<lambda>y. k y = v) xs = Some y"
    using find_exI [OF assms(2), of "\<lambda>y. k y = v"] assms(3) by auto
  then have "y \<in> set xs" "k y = v" using find_SomeD by fastforce+
  with assms have "y = x" by (auto intro: distinct_map_eqD)
  with y show ?thesis by simp
qed

section \<open>Byte strings\<close>

text \<open>
  Go strings are byte sequences; a \<open>string\<close> here is the list of its bytes. Case mapping is
  ASCII, which is what the identifiers, MAC addresses and endpoint schemes of the program need.
\<close>

definition lower_char :: "char \<Rightarrow> char" where
  "lower_char c = (let n = (of_char c :: nat) in if 65 \<le> n \<and> n \<le> 90 then char_of (n + 32) else c)"

definition upper_char :: "char \<Rightarrow> char" where
  "upper_char c = (let n = (of_char c :: nat) in if 97 \<le> n \<and> n \<le> 122 then char_of (n - 32) else c)"

definition to_lower :: "string \<Rightarrow> string" where
  "to_lower s = map lower_char s"

definition to_upper :: "string \<Rightarrow> string" where
  "to_upper s = map upper_char s"

definition trim_prefix :: "string \<Rightarrow> string \<Rightarrow> string" where
  "trim_prefix s p = (if prefix p s then drop (length p) s else s)"

definition replace_char :: "char \<Rightarrow> char \<Rightarrow> string \<Rightarrow> string" where
  "replace_char a b s = map (\<lambda>c. if c = a then b else c) s"

lemma trim_prefix_append [simp]: "trim_prefix (p @ s) p = s"
  by (simp add: trim_prefix_def)

lemma length_to_lower [simp]: "length (to_lower s) = length s"
  by (simp add: to_lower_def)

lemma lower_char_idem [simp]: "lower_char (lower_char c) = lower_char c"
proof (cases "65 \<le> (of_char c :: nat) \<and> (of_char c :: nat) \<le> 90")
  case True
  then have "(of_char (char_of (of_char c + 32 :: nat)) :: nat) = of_char c + 32"
    by (simp add: of_char_of)
  with True show ?thesis by (simp add: lower_char_def)
next
  case False
  then have "lower_char c = c" by (auto simp: lower_char_def)
  then show ?thesis by simp
qed

lemma to_lower_idem [simp]: "to_lower (to_lower s) = to_lower s"
  by (simp add: to_lower_def)

end
