(* ===== verification/TimeText.thy ===== *)
theory TimeText
  imports Prelude
begin

text \<open>
  Time as the agent stores it. A \<open>time.Time\<close> is a number of nanoseconds since Go's zero time
  (so \<open>IsZero\<close> is equality with 0). \<open>jobs.ts\<close> formats it as RFC 3339 text with a fraction of
  variable width, \<open>jobs.parseTS\<close> reads it back, and SQLite compares the texts. A text is
  modelled as a pair: the fixed-width date and time of day, which sorts like its number of
  seconds, and the characters after it (an optional fraction and the letter Z).
\<close>

type_synonym time = int
type_synonym stamp = "int \<times> nat list"

definition nanosecond :: time where "nanosecond = 1"
definition millisecond :: time where "millisecond = 1000000"
definition second :: time where "second = 1000000000"
definition hour :: time where "hour = 3600 * second"

definition is_zero_time :: "time \<Rightarrow> bool" where
  "is_zero_time t = (t = 0)"

text \<open>The nine digits of a nanosecond count; RFC3339Nano drops trailing zeros.\<close>

fun digits :: "nat \<Rightarrow> nat \<Rightarrow> nat list" where
  "digits 0 n = []"
| "digits (Suc k) n = digits k (n div 10) @ [n mod 10]"

definition digit_char :: "nat \<Rightarrow> char" where
  "digit_char n = char_of (48 + n)"

definition strip_zeros :: "nat list \<Rightarrow> nat list" where
  "strip_zeros ds = rev (dropWhile (\<lambda>d. d = 0) (rev ds))"

definition frac_text :: "nat \<Rightarrow> nat list" where
  "frac_text n = (if n = 0 then [] else 46 # map (\<lambda>d. 48 + d) (strip_zeros (digits 9 n))) @ [90]"

definition ts :: "time \<Rightarrow> stamp" where
  "ts t = (t div second, frac_text (nat (t mod second)))"

fun of_digits :: "nat \<Rightarrow> nat list \<Rightarrow> nat" where
  "of_digits a [] = a"
| "of_digits a (d # ds) = of_digits (10 * a + d) ds"

definition read_frac :: "nat list \<Rightarrow> nat option" where
  "read_frac cs =
     (case cs of
        [c] \<Rightarrow> if c = 90 then Some 0 else None
      | c # ds \<Rightarrow>
          (let body = butlast ds in
           if c = 46 \<and> last ds = 90 \<and> body \<noteq> [] \<and> length body \<le> 9 \<and> (\<forall>d \<in> set body. 48 \<le> d \<and> d \<le> 57)
           then Some (of_digits 0 (map (\<lambda>d. d - 48) body @ replicate (9 - length body) 0))
           else None)
      | [] \<Rightarrow> None)"

definition parse_ts :: "stamp \<Rightarrow> time option" where
  "parse_ts s = map_option (\<lambda>n. fst s * second + int n) (read_frac (snd s))"

section \<open>Round trip\<close>

lemma length_digits [simp]: "length (digits k n) = k"
  by (induction k arbitrary: n) simp_all

lemma digits_small: "d \<in> set (digits k n) \<Longrightarrow> d < 10"
  by (induction k arbitrary: n) auto

lemma of_digits_append: "of_digits a (xs @ ys) = of_digits (of_digits a xs) ys"
  by (induction xs arbitrary: a) simp_all

lemma of_digits_digits: "n < 10 ^ k \<Longrightarrow> of_digits 0 (digits k n) = n"
proof (induction k arbitrary: n)
  case 0
  then show ?case by simp
next
  case (Suc k)
  then have "n div 10 < 10 ^ k" by (simp add: less_mult_imp_div_less mult.commute)
  with Suc.IH show ?case by (simp add: of_digits_append)
qed

lemma strip_zeros_pad: "strip_zeros ds @ replicate (length ds - length (strip_zeros ds)) 0 = ds"
proof (induction ds rule: rev_induct)
  case Nil
  then show ?case by (simp add: strip_zeros_def)
next
  case (snoc d ds)
  show ?case
  proof (cases "d = 0")
    case True
    then have s: "strip_zeros (ds @ [d]) = strip_zeros ds" by (simp add: strip_zeros_def)
    have le: "length (strip_zeros ds) \<le> length ds"
      unfolding strip_zeros_def by (metis length_dropWhile_le length_rev)
    then have "Suc (length ds) - length (strip_zeros ds) = Suc (length ds - length (strip_zeros ds))"
      by simp
    moreover have "strip_zeros ds @ 0 # replicate (length ds - length (strip_zeros ds)) 0 =
        (strip_zeros ds @ replicate (length ds - length (strip_zeros ds)) 0) @ [0]"
      by (metis append_assoc replicate_append_same)
    ultimately show ?thesis using snoc True s by simp
  next
    case False
    then have "strip_zeros (ds @ [d]) = ds @ [d]" by (simp add: strip_zeros_def)
    then show ?thesis by simp
  qed
qed

lemma strip_zeros_subset: "set (strip_zeros ds) \<subseteq> set ds"
  unfolding strip_zeros_def by (auto dest: set_dropWhileD)

lemma length_strip_zeros: "length (strip_zeros ds) \<le> length ds"
  unfolding strip_zeros_def by (metis length_dropWhile_le length_rev)

lemma strip_zeros_digits_nonempty:
  assumes "n \<noteq> 0" "n < 10 ^ k"
  shows "strip_zeros (digits k n) \<noteq> []"
proof
  have zeros: "of_digits 0 (replicate j 0) = 0" for j
    by (induction j) simp_all
  assume "strip_zeros (digits k n) = []"
  then have "replicate k 0 = digits k n"
    using strip_zeros_pad [of "digits k n"] by simp
  then have "of_digits 0 (digits k n) = 0" using zeros [of k] by simp
  with assms of_digits_digits show False by simp
qed

lemma read_frac_dot:
  assumes "s \<noteq> []" "length s \<le> 9" "\<And>d. d \<in> set s \<Longrightarrow> d < 10"
  shows "read_frac (46 # map (\<lambda>d. 48 + d) s @ [90]) = Some (of_digits 0 (s @ replicate (9 - length s) 0))"
proof -
  obtain d ds where s: "s = d # ds" using assms(1) by (cases s) auto
  have undo: "map (\<lambda>d. d - 48) (map (\<lambda>d. 48 + d) s) = s" by (simp add: comp_def)
  have "\<forall>d \<in> set s. d \<le> 9" using assms(3) by force
  then show ?thesis
    using assms(1,2) undo s by (auto simp: read_frac_def Let_def)
qed

lemma read_frac_text:
  assumes "n < 1000000000"
  shows "read_frac (frac_text n) = Some n"
proof (cases "n = 0")
  case True
  then show ?thesis by (simp add: frac_text_def read_frac_def)
next
  case False
  define s where "s = strip_zeros (digits 9 n)"
  have ne: "s \<noteq> []" using strip_zeros_digits_nonempty [of n 9] False assms by (simp add: s_def)
  have len: "length s \<le> 9" using length_strip_zeros [of "digits 9 n"] by (simp add: s_def)
  have rng: "\<And>d. d \<in> set s \<Longrightarrow> d < 10"
    using strip_zeros_subset [of "digits 9 n"] digits_small [of _ 9 n] by (auto simp: s_def)
  have "s @ replicate (9 - length s) 0 = digits 9 n"
    using strip_zeros_pad [of "digits 9 n"] by (simp add: s_def)
  then have "of_digits 0 (s @ replicate (9 - length s) 0) = n"
    using of_digits_digits [of n 9] assms by simp
  then show ?thesis
    using False read_frac_dot [OF ne len rng] by (simp add: frac_text_def s_def)
qed

lemma parse_ts_ts [simp]: "parse_ts (ts t) = Some t"
proof -
  have "nat (t mod second) < 1000000000" by (simp add: second_def)
  then have "read_frac (frac_text (nat (t mod second))) = Some (nat (t mod second))"
    by (rule read_frac_text)
  moreover have "t div second * second + t mod second = t" by (rule div_mult_mod_eq)
  ultimately show ?thesis by (simp add: parse_ts_def ts_def second_def)
qed

lemma ts_inject [simp]: "ts t = ts u \<longleftrightarrow> t = u"
  by (metis option.inject parse_ts_ts)

section \<open>Text order\<close>

lemma ts_less_whole_second: "t div second < u div second \<Longrightarrow> ts t < ts u"
  by (simp add: ts_def)

lemma ts_less_far: "t + second \<le> u \<Longrightarrow> ts t < ts u"
proof -
  assume "t + second \<le> u"
  then have "(t + second) div second \<le> u div second"
    by (rule zdiv_mono1) (simp add: second_def)
  moreover have "(t + second) div second = t div second + 1" by (simp add: second_def)
  ultimately show ?thesis by (intro ts_less_whole_second) simp
qed

lemma ts_less_near: "ts t < ts u \<Longrightarrow> t < u + second"
proof (rule ccontr)
  assume lt: "ts t < ts u" and "\<not> t < u + second"
  then have "ts u < ts t" by (intro ts_less_far) simp
  with lt show False by simp
qed

end
