(* ===== verification/JobModels.thy ===== *)
theory JobModels
  imports TimeText
begin

text \<open>
  \<open>internal/jobs/models.go\<close>: Jobs, their original printers and their Print Runs, and
  \<open>DeriveJob\<close>, which computes the state the API shows from the rows of a Job. A nullable column,
  which Go reads as the empty string or a nil pointer, is an \<open>option\<close>.
\<close>

datatype run_status = RunQueued | RunProcessing | RunTransmitted | RunFailed | RunUncertain | RunCancelled

definition Terminal :: "run_status \<Rightarrow> bool" where
  "Terminal s = (s = RunTransmitted \<or> s = RunFailed \<or> s = RunUncertain \<or> s = RunCancelled)"

datatype run_trigger = TriggerInitial | TriggerAutomaticRetry | TriggerManualReprint

datatype content_mode = ContentNormal | ContentReprint

datatype run_resolution = ResolutionConfirmedPrinted | ResolutionReprintRequested

record job =
  j_uid :: string
  j_job_id :: string
  j_template :: string
  j_data :: string
  j_request_hash :: string
  j_source :: string
  j_owner_origin :: string
  j_created_at :: time
  j_expires_at :: time

record job_printer =
  t_job_uid :: string
  t_printer_id :: string
  t_target_order :: nat
  t_encoding :: string
  t_characters_per_line :: int
  t_accepted_content_hash :: string
  t_cancelled_at :: "time option"
  t_cancellation_reason :: "string option"

record print_run =
  r_queue_sequence :: nat
  r_uid :: string
  r_job_uid :: string
  r_printer_id :: string
  r_run_number :: nat
  r_trigger :: run_trigger
  r_content_mode :: content_mode
  r_previous_run_uid :: "string option"
  r_reprint_of_run_uid :: "string option"
  r_reprint_request_id :: "string option"
  r_reprint_reason :: "string option"
  r_expected_content_hash :: string
  r_status :: run_status
  r_retryable :: bool
  r_resolution :: "run_resolution option"
  r_error_code :: "string option"
  r_error_message :: "string option"
  r_bytes_accepted :: int
  r_created_at :: time
  r_started_at :: "time option"
  r_finished_at :: "time option"
  r_transmitted_at :: "time option"
  r_resolved_at :: "time option"

record fulfillment =
  f_printer_id :: string
  f_fulfilled :: bool
  f_fulfilled_at :: "time option"
  f_cancelled :: bool
  f_retry_pending :: bool
  f_latest_run :: "print_run option"
  f_runs :: "print_run list"

datatype job_state =
  Completed | Printing | Queued | AttentionRequired | PartiallyCompleted | Cancelled

record job_detail =
  d_job :: job
  d_updated_at :: time
  d_completed_at :: "time option"
  d_state :: job_state
  d_fulfilled_printer_count :: nat
  d_original_printer_count :: nat
  d_partially_fulfilled :: bool
  d_requires_attention :: bool
  d_has_uncertain_result :: bool
  d_has_manual_reprints :: bool
  d_manual_reprint_requires_attention :: bool
  d_duplicate :: bool
  d_original_printers :: "fulfillment list"

section \<open>DeriveJob\<close>

text \<open>The local variables of \<open>DeriveJob\<close> that its loops update.\<close>

record derive_vars =
  dv_updated_at :: time
  dv_fulfilled_count :: nat
  dv_has_uncertain :: bool
  dv_has_manual :: bool
  dv_manual_attention :: bool
  dv_fulfilled_times :: "time list"
  dv_any_processing :: bool
  dv_any_queued :: bool
  dv_any_attention :: bool
  dv_all_cancelled :: bool
  dv_printers :: "fulfillment list"

definition later :: "time \<Rightarrow> time option \<Rightarrow> time" where
  "later old stamp = (case stamp of None \<Rightarrow> old | Some s \<Rightarrow> if s > old then s else old)"

definition run_fulfils :: "print_run \<Rightarrow> bool" where
  "run_fulfils run = (r_status run = RunTransmitted \<or>
     (r_status run = RunUncertain \<and> r_resolution run = Some ResolutionConfirmedPrinted))"

definition fulfilled_stamp :: "print_run \<Rightarrow> time option" where
  "fulfilled_stamp run =
     (let stamp = (if r_status run = RunUncertain then r_resolved_at run else r_transmitted_at run)
      in if stamp = None then r_finished_at run else stamp)"

definition retry_pending_run :: "print_run \<Rightarrow> bool" where
  "retry_pending_run run = (r_status run = RunFailed \<and> r_retryable run \<and> r_resolution run = None)"

definition manual_attention_run :: "print_run \<Rightarrow> bool" where
  "manual_attention_run run = (r_content_mode run = ContentReprint \<and>
     (r_status run = RunFailed \<or> r_status run = RunUncertain) \<and> r_resolution run = None \<and> \<not> r_retryable run)"

definition derive_run :: "print_run \<Rightarrow> derive_vars \<times> fulfillment \<Rightarrow> derive_vars \<times> fulfillment" where
  "derive_run run vp = (case vp of (v, p) \<Rightarrow>
     (v\<lparr>dv_updated_at := fold (\<lambda>stamp old. later old stamp)
          [Some (r_created_at run), r_started_at run, r_finished_at run, r_resolved_at run] (dv_updated_at v),
        dv_has_uncertain := (dv_has_uncertain v \<or> r_status run = RunUncertain),
        dv_has_manual := (dv_has_manual v \<or> r_trigger run = TriggerManualReprint),
        dv_manual_attention := (dv_manual_attention v \<or> manual_attention_run run)\<rparr>,
      p\<lparr>f_fulfilled := (f_fulfilled p \<or> run_fulfils run),
        f_fulfilled_at := (if run_fulfils run \<and> f_fulfilled_at p = None then fulfilled_stamp run
                           else f_fulfilled_at p),
        f_retry_pending := (f_retry_pending p \<or> retry_pending_run run)\<rparr>))"

definition derive_unfulfilled_run :: "bool \<Rightarrow> print_run \<Rightarrow> derive_vars \<Rightarrow> derive_vars" where
  "derive_unfulfilled_run cancelled run v =
     (case r_status run of
        RunProcessing \<Rightarrow> v\<lparr>dv_any_processing := True\<rparr>
      | RunQueued \<Rightarrow> v\<lparr>dv_any_queued := True\<rparr>
      | RunFailed \<Rightarrow>
          (if r_retryable run \<and> r_resolution run = None then v\<lparr>dv_any_queued := True\<rparr>
           else if r_resolution run = None \<and> \<not> cancelled then v\<lparr>dv_any_attention := True\<rparr>
           else v)
      | RunUncertain \<Rightarrow>
          (if r_resolution run = None \<and> \<not> cancelled then v\<lparr>dv_any_attention := True\<rparr> else v)
      | _ \<Rightarrow> v)"

definition derive_target :: "print_run list \<Rightarrow> job_printer \<Rightarrow> derive_vars \<Rightarrow> derive_vars" where
  "derive_target runs target v =
     (let printerRuns = filter (\<lambda>r. r_printer_id r = t_printer_id target) runs;
          p = \<lparr>f_printer_id = t_printer_id target, f_fulfilled = False, f_fulfilled_at = None,
               f_cancelled = (t_cancelled_at target \<noteq> None), f_retry_pending = False,
               f_latest_run = (if printerRuns = [] then None else Some (last printerRuns)),
               f_runs = printerRuns\<rparr>;
          v = v\<lparr>dv_updated_at := later (dv_updated_at v) (t_cancelled_at target)\<rparr>;
          (v, p) = fold derive_run printerRuns (v, p);
          v = (if f_fulfilled p
               then v\<lparr>dv_fulfilled_count := dv_fulfilled_count v + 1,
                      dv_fulfilled_times := dv_fulfilled_times v @
                        (case f_fulfilled_at p of None \<Rightarrow> [] | Some s \<Rightarrow> [s])\<rparr>
               else fold (derive_unfulfilled_run (f_cancelled p)) printerRuns
                      (v\<lparr>dv_all_cancelled := (dv_all_cancelled v \<and> f_cancelled p)\<rparr>))
      in v\<lparr>dv_printers := dv_printers v @ [p]\<rparr>)"

definition completed_at :: "time list \<Rightarrow> time option" where
  "completed_at stamps =
     fold (\<lambda>s acc. case acc of None \<Rightarrow> Some s | Some c \<Rightarrow> if s > c then Some s else Some c) stamps None"

definition derive_loop :: "job \<Rightarrow> job_printer list \<Rightarrow> print_run list \<Rightarrow> derive_vars" where
  "derive_loop job printers runs =
     fold (derive_target runs) printers
       \<lparr>dv_updated_at = j_created_at job, dv_fulfilled_count = 0, dv_has_uncertain = False,
        dv_has_manual = False, dv_manual_attention = False, dv_fulfilled_times = [],
        dv_any_processing = False, dv_any_queued = False, dv_any_attention = False,
        dv_all_cancelled = True, dv_printers = []\<rparr>"

definition DeriveJob :: "job \<Rightarrow> job_printer list \<Rightarrow> print_run list \<Rightarrow> job_detail" where
  "DeriveJob job printers runs =
     (let v = derive_loop job printers runs;
          original = length printers;
          fulfilled = dv_fulfilled_count v;
          attention = (dv_any_attention v \<or> dv_manual_attention v);
          (state, completed, attention) =
            (if original > 0 \<and> fulfilled = original
               then (Completed, completed_at (dv_fulfilled_times v), attention)
             else if dv_any_processing v then (Printing, None, attention)
             else if dv_any_queued v then (Queued, None, attention)
             else if dv_any_attention v then (AttentionRequired, None, attention)
             else if fulfilled > 0 \<and> dv_all_cancelled v then (PartiallyCompleted, None, attention)
             else if fulfilled = 0 \<and> dv_all_cancelled v then (Cancelled, None, attention)
             else (AttentionRequired, None, True))
      in \<lparr>d_job = job, d_updated_at = dv_updated_at v, d_completed_at = completed, d_state = state,
          d_fulfilled_printer_count = fulfilled, d_original_printer_count = original,
          d_partially_fulfilled = (fulfilled > 0 \<and> fulfilled < original),
          d_requires_attention = attention, d_has_uncertain_result = dv_has_uncertain v,
          d_has_manual_reprints = dv_has_manual v,
          d_manual_reprint_requires_attention = dv_manual_attention v,
          d_duplicate = False, d_original_printers = dv_printers v\<rparr>)"

end
