(* ===== verification/Config.thy ===== *)
theory Config
  imports TimeText
begin

text \<open>
  \<open>internal/config/config.go\<close>: the configuration of one logical printer, the defaults filled
  into a new one and the validation every saved one passed. String-typed kinds
  (\<open>TransportKind\<close>, \<open>ConnectionPreference\<close>, parity) stay strings, because a request may carry
  any text there and \<open>Validate\<close> is what rejects it.
\<close>

definition TransportBluetoothSerial :: string where "TransportBluetoothSerial = ''bluetooth-serial''"
definition TransportMock :: string where "TransportMock = ''mock''"

definition ConnectionAuto :: string where "ConnectionAuto = ''auto''"
definition ConnectionRFCOMM :: string where "ConnectionRFCOMM = ''rfcomm''"
definition ConnectionBLE :: string where "ConnectionBLE = ''ble''"

definition ParityNone :: string where "ParityNone = ''none''"
definition ParityOdd :: string where "ParityOdd = ''odd''"
definition ParityEven :: string where "ParityEven = ''even''"

lemmas config_consts = TransportBluetoothSerial_def TransportMock_def ConnectionAuto_def
  ConnectionRFCOMM_def ConnectionBLE_def ParityNone_def ParityOdd_def ParityEven_def

record printer_config =
  pc_id :: string
  pc_display_name :: string
  pc_enabled :: bool
  pc_transport :: string
  pc_device_address :: string
  pc_endpoint :: string
  pc_connection_preference :: string
  pc_baud_rate :: int
  pc_data_bits :: int
  pc_stop_bits :: int
  pc_parity :: string
  pc_characters_per_line :: int
  pc_encoding :: string
  pc_auto_reconnect :: bool
  pc_retired_at :: "time option"
  pc_created_at :: time
  pc_updated_at :: time

section \<open>Printer identifiers: \<open>^[a-z0-9][a-z0-9_-]{0,31}$\<close>\<close>

definition id_head_char :: "char \<Rightarrow> bool" where
  "id_head_char c = ((CHR ''a'' \<le> c \<and> c \<le> CHR ''z'') \<or> (CHR ''0'' \<le> c \<and> c \<le> CHR ''9''))"

definition id_tail_char :: "char \<Rightarrow> bool" where
  "id_tail_char c = (id_head_char c \<or> c = CHR ''_'' \<or> c = CHR ''-'')"

definition printerIDRe :: "string \<Rightarrow> bool" where
  "printerIDRe s = (case s of [] \<Rightarrow> False
     | c # cs \<Rightarrow> id_head_char c \<and> length cs \<le> 31 \<and> list_all id_tail_char cs)"

section \<open>Defaults\<close>

definition or_default :: "'a \<Rightarrow> 'a \<Rightarrow> 'a \<Rightarrow> 'a" where
  "or_default zero dflt v = (if v = zero then dflt else v)"

definition ApplyDefaults :: "printer_config \<Rightarrow> printer_config" where
  "ApplyDefaults p = p\<lparr>
     pc_transport := or_default [] TransportBluetoothSerial (pc_transport p),
     pc_connection_preference := or_default [] ConnectionAuto (pc_connection_preference p),
     pc_baud_rate := or_default 0 9600 (pc_baud_rate p),
     pc_data_bits := or_default 0 8 (pc_data_bits p),
     pc_stop_bits := or_default 0 1 (pc_stop_bits p),
     pc_parity := or_default [] ParityNone (pc_parity p),
     pc_characters_per_line := or_default 0 32 (pc_characters_per_line p),
     pc_encoding := or_default [] ''CP858'' (pc_encoding p),
     pc_display_name := or_default [] (pc_id p) (pc_display_name p)\<rparr>"

section \<open>Validation\<close>

datatype config_error =
    BadPrinterID
  | UnsupportedTransport
  | EndpointRequired
  | UnsupportedPreference
  | DisplayNameTooLong
  | EndpointOrAddressTooLong
  | AddressMismatch
  | BaudRateOutOfRange
  | DataBitsOutOfRange
  | StopBitsInvalid
  | UnsupportedParity
  | CharactersPerLineOutOfRange

definition endpoint_address :: "string \<Rightarrow> string" where
  "endpoint_address lower = trim_prefix (trim_prefix lower ''rfcomm://'') ''ble://''"

definition endpoint_mismatch :: "printer_config \<Rightarrow> bool" where
  "endpoint_mismatch p =
     (let lowerEndpoint = to_lower (pc_endpoint p) in
      if prefix ''rfcomm://'' lowerEndpoint \<or> prefix ''ble://'' lowerEndpoint
      then (let normalizedDevice = to_lower (replace_char (CHR ''-'') (CHR '':'') (pc_device_address p))
            in normalizedDevice \<noteq> [] \<and> endpoint_address lowerEndpoint \<noteq> normalizedDevice)
      else False)"

definition Validate :: "printer_config \<Rightarrow> config_error + unit" where
  "Validate p =
    (if \<not> printerIDRe (pc_id p) then Inl BadPrinterID
     else if pc_transport p \<notin> {TransportBluetoothSerial, TransportMock} then Inl UnsupportedTransport
     else if pc_transport p = TransportBluetoothSerial \<and> pc_endpoint p = [] then Inl EndpointRequired
     else if pc_connection_preference p \<notin> {ConnectionAuto, ConnectionRFCOMM, ConnectionBLE}
       then Inl UnsupportedPreference
     else if length (pc_display_name p) > 100 then Inl DisplayNameTooLong
     else if length (pc_endpoint p) > 512 \<or> length (pc_device_address p) > 64
       then Inl EndpointOrAddressTooLong
     else if endpoint_mismatch p then Inl AddressMismatch
     else if pc_baud_rate p < 300 \<or> pc_baud_rate p > 1000000 then Inl BaudRateOutOfRange
     else if pc_data_bits p < 5 \<or> pc_data_bits p > 8 then Inl DataBitsOutOfRange
     else if pc_stop_bits p \<noteq> 1 \<and> pc_stop_bits p \<noteq> 2 then Inl StopBitsInvalid
     else if pc_parity p \<notin> {ParityNone, ParityOdd, ParityEven} then Inl UnsupportedParity
     else if pc_characters_per_line p < 8 \<or> pc_characters_per_line p > 96
       then Inl CharactersPerLineOutOfRange
     else Inr ())"

lemma ApplyDefaults_idem: "ApplyDefaults (ApplyDefaults p) = ApplyDefaults p"
  by (simp add: ApplyDefaults_def or_default_def config_consts)

lemma ApplyDefaults_keeps_id [simp]: "pc_id (ApplyDefaults p) = pc_id p"
  by (simp add: ApplyDefaults_def)

lemma Validate_width:
  "Validate p = Inr u \<Longrightarrow> 8 \<le> pc_characters_per_line p \<and> pc_characters_per_line p \<le> 96"
  by (simp add: Validate_def split: if_splits)

lemma Validate_id: "Validate p = Inr u \<Longrightarrow> printerIDRe (pc_id p)"
  by (simp add: Validate_def split: if_splits)

lemma ApplyDefaults_valid_if_unset:
  assumes "printerIDRe (pc_id p)" "pc_endpoint p \<noteq> []" "length (pc_endpoint p) \<le> 512"
    "pc_device_address p = []" "pc_transport p = []" "pc_connection_preference p = []"
    "pc_baud_rate p = 0" "pc_data_bits p = 0" "pc_stop_bits p = 0" "pc_parity p = []"
    "pc_characters_per_line p = 0" "pc_display_name p = []"
  shows "Validate (ApplyDefaults p) = Inr ()"
proof -
  have "length (pc_id p) \<le> 32"
    using assms(1) by (simp add: printerIDRe_def split: list.splits)
  moreover have "\<not> endpoint_mismatch (ApplyDefaults p)"
    using assms(4) by (simp add: endpoint_mismatch_def ApplyDefaults_def replace_char_def to_lower_def Let_def)
  ultimately show ?thesis
    using assms unfolding Validate_def
    by (simp add: ApplyDefaults_def or_default_def config_consts)
qed

end
