(* ===== verification/Database.thy ===== *)
theory Database
  imports JobModels Config
begin

text \<open>
  The SQLite schema of \<open>internal/storage/migrations\<close> and the statements the repositories run on
  it. A table is the list of its rows in insertion order. A statement returns the changed tables
  or the constraint it violates, in which case SQLite undoes the whole statement. Timestamps are
  kept as times and compared through \<open>ts\<close>, the text the columns hold.
\<close>

record dedup_row =
  dd_kind :: string
  dd_scope_uid :: string
  dd_request_id :: string
  dd_request_hash :: string
  dd_created_at :: time

record event_row =
  ev_id :: nat
  ev_type :: string
  ev_printer_id :: "string option"
  ev_run_uid :: "string option"
  ev_message :: string
  ev_created_at :: time

record db =
  db_printers :: "printer_config list"
  db_jobs :: "job list"
  db_targets :: "job_printer list"
  db_runs :: "print_run list"
  db_next_seq :: nat
  db_dedup :: "dedup_row list"
  db_events :: "event_row list"
  db_settings :: "(string \<times> string) list"

datatype db_err = UniqueViolation | CheckViolation | ForeignKeyViolation | TriggerAbort

section \<open>Constraints of \<open>print_runs\<close>\<close>

definition active_status :: "run_status \<Rightarrow> bool" where
  "active_status s = (s = RunQueued \<or> s = RunProcessing)"

definition run_target :: "print_run \<Rightarrow> string \<times> string" where
  "run_target r = (r_job_uid r, r_printer_id r)"

definition target_key :: "job_printer \<Rightarrow> string \<times> string" where
  "target_key t = (t_job_uid t, t_printer_id t)"

definition run_check :: "print_run \<Rightarrow> bool" where
  "run_check r \<longleftrightarrow>
     1 \<le> r_run_number r \<and> 0 \<le> r_bytes_accepted r \<and>
     (case r_trigger r of
        TriggerInitial \<Rightarrow> r_run_number r = 1 \<and> r_content_mode r = ContentNormal \<and>
          r_previous_run_uid r = None \<and> r_reprint_of_run_uid r = None \<and> r_reprint_request_id r = None
      | TriggerAutomaticRetry \<Rightarrow> 1 < r_run_number r \<and> r_previous_run_uid r \<noteq> None \<and>
          r_reprint_of_run_uid r = None \<and> r_reprint_request_id r = None
      | TriggerManualReprint \<Rightarrow> 1 < r_run_number r \<and> r_content_mode r = ContentReprint \<and>
          r_previous_run_uid r = None \<and> r_reprint_of_run_uid r \<noteq> None \<and>
          r_reprint_request_id r \<noteq> None) \<and>
     (r_retryable r \<longrightarrow> r_status r = RunFailed) \<and>
     (r_resolution r \<noteq> None \<longrightarrow> r_status r = RunFailed \<or> r_status r = RunUncertain)"

definition runs_unique :: "print_run list \<Rightarrow> bool" where
  "runs_unique rs \<longleftrightarrow>
     distinct (map r_queue_sequence rs) \<and>
     distinct (map r_uid rs) \<and>
     distinct (map (\<lambda>r. (run_target r, r_run_number r)) rs) \<and>
     distinct (map run_target (filter (\<lambda>r. r_trigger r = TriggerInitial) rs)) \<and>
     distinct (map r_previous_run_uid
       (filter (\<lambda>r. r_trigger r = TriggerAutomaticRetry \<and> r_previous_run_uid r \<noteq> None) rs)) \<and>
     distinct (map run_target (filter (\<lambda>r. active_status (r_status r)) rs)) \<and>
     distinct (map (\<lambda>r. (run_target r, r_reprint_request_id r))
       (filter (\<lambda>r. r_reprint_request_id r \<noteq> None) rs))"

text \<open>
  The foreign keys of a run: its target row and, for a retry or a reprint, the run it names
  in the same Job and printer. A reference is looked up in the table that holds the row itself.
\<close>

definition names_run :: "print_run list \<Rightarrow> print_run \<Rightarrow> string option \<Rightarrow> bool" where
  "names_run rs r ref = (case ref of None \<Rightarrow> True
     | Some u \<Rightarrow> \<exists>p \<in> set rs. r_uid p = u \<and> run_target p = run_target r)"

definition run_fk :: "job_printer list \<Rightarrow> print_run list \<Rightarrow> print_run \<Rightarrow> bool" where
  "run_fk targets rs r \<longleftrightarrow> run_target r \<in> target_key ` set targets \<and>
     names_run rs r (r_previous_run_uid r) \<and> names_run rs r (r_reprint_of_run_uid r)"

text \<open>The triggers \<open>print_runs_valid_status_transition\<close> and \<open>print_runs_identity_immutable\<close>.\<close>

definition status_edge :: "run_status \<Rightarrow> run_status \<Rightarrow> bool" where
  "status_edge old new \<longleftrightarrow>
     old = RunQueued \<and> (new = RunProcessing \<or> new = RunCancelled) \<or>
     old = RunProcessing \<and> (new = RunTransmitted \<or> new = RunFailed \<or> new = RunUncertain) \<or>
     old = new"

definition run_identity where
  "run_identity r = (r_queue_sequence r, r_uid r, r_job_uid r, r_printer_id r, r_run_number r,
     r_trigger r, r_content_mode r, r_previous_run_uid r, r_reprint_of_run_uid r,
     r_reprint_request_id r, r_reprint_reason r, r_expected_content_hash r, r_created_at r)"

definition run_update_allowed :: "print_run \<Rightarrow> print_run \<Rightarrow> bool" where
  "run_update_allowed old new \<longleftrightarrow>
     run_identity new = run_identity old \<and> status_edge (r_status old) (r_status new)"

section \<open>Statements on \<open>print_runs\<close>\<close>

definition insert_run :: "print_run \<Rightarrow> db \<Rightarrow> db_err + db" where
  "insert_run run d =
     (let row = run\<lparr>r_queue_sequence := db_next_seq d\<rparr>; rows = db_runs d @ [row]
      in if \<not> run_check row then Inl CheckViolation
         else if \<not> runs_unique rows then Inl UniqueViolation
         else if \<not> run_fk (db_targets d) rows row then Inl ForeignKeyViolation
         else Inr (d\<lparr>db_runs := rows, db_next_seq := db_next_seq d + 1\<rparr>))"

text \<open>
  \<open>UPDATE print_runs SET f WHERE P\<close>: the number of rows it changed and the new tables. The
  identity trigger is modelled by comparing the row before and after; no statement of the
  repository assigns one of its columns.
\<close>

definition update_runs :: "(print_run \<Rightarrow> bool) \<Rightarrow> (print_run \<Rightarrow> print_run) \<Rightarrow> db \<Rightarrow> db_err + (nat \<times> db)" where
  "update_runs P f d =
     (let rows = update_where P f (db_runs d)
      in if \<not> (\<forall>r \<in> set (db_runs d). P r \<longrightarrow> run_update_allowed r (f r)) then Inl TriggerAbort
         else if \<not> (\<forall>r \<in> set rows. run_check r) then Inl CheckViolation
         else if \<not> runs_unique rows then Inl UniqueViolation
         else Inr (length (filter P (db_runs d)), d\<lparr>db_runs := rows\<rparr>))"

section \<open>Statements on the other tables\<close>

definition insert_job :: "job \<Rightarrow> db \<Rightarrow> db_err + db" where
  "insert_job j d =
     (if (\<exists>k \<in> set (db_jobs d). j_uid k = j_uid j \<or>
            (j_job_id k = j_job_id j \<and> j_template k = j_template j)) then Inl UniqueViolation
      else Inr (d\<lparr>db_jobs := db_jobs d @ [j]\<rparr>))"

text \<open>
  \<open>INSERT INTO job_printers\<close> names neither \<open>cancelled_at\<close> nor \<open>cancellation_reason\<close>, so both
  start as NULL whatever the row passed in holds.
\<close>

definition insert_target :: "job_printer \<Rightarrow> db \<Rightarrow> db_err + db" where
  "insert_target t d =
     (let row = t\<lparr>t_cancelled_at := None, t_cancellation_reason := None\<rparr>
      in if \<not> (8 \<le> t_characters_per_line t \<and> t_characters_per_line t \<le> 96) then Inl CheckViolation
         else if (\<exists>u \<in> set (db_targets d). target_key u = target_key t \<or>
                   (t_job_uid u = t_job_uid t \<and> t_target_order u = t_target_order t))
           then Inl UniqueViolation
         else if \<not> (t_job_uid t \<in> j_uid ` set (db_jobs d) \<and> t_printer_id t \<in> pc_id ` set (db_printers d))
           then Inl ForeignKeyViolation
         else Inr (d\<lparr>db_targets := db_targets d @ [row]\<rparr>))"

definition insert_dedup :: "dedup_row \<Rightarrow> db \<Rightarrow> db_err + db" where
  "insert_dedup row d =
     (if (\<exists>x \<in> set (db_dedup d). dd_kind x = dd_kind row \<and> dd_scope_uid x = dd_scope_uid row \<and>
            dd_request_id x = dd_request_id row) then Inl UniqueViolation
      else if dd_scope_uid row \<notin> j_uid ` set (db_jobs d) then Inl ForeignKeyViolation
      else Inr (d\<lparr>db_dedup := db_dedup d @ [row]\<rparr>))"

text \<open>\<open>UPDATE jobs SET expires_at = t\<close> on the Jobs a predicate selects: the trigger
  \<open>jobs_immutable\<close> does not list that column.\<close>

definition update_expiry :: "(job \<Rightarrow> bool) \<Rightarrow> time \<Rightarrow> db \<Rightarrow> db" where
  "update_expiry P t d = d\<lparr>db_jobs := update_where P (\<lambda>j. j\<lparr>j_expires_at := t\<rparr>) (db_jobs d)\<rparr>"

definition update_cancellation ::
    "string \<Rightarrow> string \<Rightarrow> time option \<Rightarrow> string option \<Rightarrow> db \<Rightarrow> nat \<times> db" where
  "update_cancellation jobUID printerID at reason d =
     (let P = (\<lambda>t. t_job_uid t = jobUID \<and> t_printer_id t = printerID)
      in (length (filter P (db_targets d)),
          d\<lparr>db_targets := update_where P (\<lambda>t. t\<lparr>t_cancelled_at := at, t_cancellation_reason := reason\<rparr>)
              (db_targets d)\<rparr>))"

text \<open>
  \<open>DELETE FROM jobs WHERE P\<close> with \<open>ON DELETE CASCADE\<close>: targets, their runs and the request
  identifiers of the deleted Jobs go with them. A run's references stay inside its Job, so the
  cascades on \<open>previous_run_uid\<close> and \<open>reprint_of_run_uid\<close> remove no further rows.
\<close>

definition delete_jobs :: "(job \<Rightarrow> bool) \<Rightarrow> db \<Rightarrow> db" where
  "delete_jobs P d =
     (let gone = j_uid ` set (filter P (db_jobs d))
      in d\<lparr>db_jobs := filter (\<lambda>j. \<not> P j) (db_jobs d),
           db_targets := filter (\<lambda>t. t_job_uid t \<notin> gone) (db_targets d),
           db_runs := filter (\<lambda>r. r_job_uid r \<notin> gone) (db_runs d),
           db_dedup := filter (\<lambda>x. dd_scope_uid x \<notin> gone) (db_dedup d)\<rparr>)"

definition delete_events :: "(event_row \<Rightarrow> bool) \<Rightarrow> db \<Rightarrow> db" where
  "delete_events P d = d\<lparr>db_events := filter (\<lambda>e. \<not> P e) (db_events d)\<rparr>"

definition insert_event :: "event_row \<Rightarrow> db \<Rightarrow> db" where
  "insert_event e d = d\<lparr>db_events := db_events d @ [e]\<rparr>"

end
