(* ===== verification/DatabaseSafety.thy ===== *)
theory DatabaseSafety
  imports Database
begin

text \<open>
  The schema as an invariant: what the constraints of the tables say of a whole database, that
  every statement keeps it, and when an \<open>UPDATE print_runs\<close> is accepted.
\<close>

section \<open>The invariant\<close>

definition jobs_ok :: "db \<Rightarrow> bool" where
  "jobs_ok d \<longleftrightarrow> distinct (map j_uid (db_jobs d)) \<and>
     distinct (map (\<lambda>j. (j_job_id j, j_template j)) (db_jobs d))"

definition targets_ok :: "db \<Rightarrow> bool" where
  "targets_ok d \<longleftrightarrow> distinct (map target_key (db_targets d)) \<and>
     distinct (map (\<lambda>t. (t_job_uid t, t_target_order t)) (db_targets d)) \<and>
     (\<forall>t \<in> set (db_targets d). 8 \<le> t_characters_per_line t \<and> t_characters_per_line t \<le> 96 \<and>
        t_job_uid t \<in> j_uid ` set (db_jobs d) \<and> t_printer_id t \<in> pc_id ` set (db_printers d))"

definition dedup_ok :: "db \<Rightarrow> bool" where
  "dedup_ok d \<longleftrightarrow> distinct (map (\<lambda>x. (dd_kind x, dd_scope_uid x, dd_request_id x)) (db_dedup d)) \<and>
     (\<forall>x \<in> set (db_dedup d). dd_scope_uid x \<in> j_uid ` set (db_jobs d))"

definition runs_ok :: "db \<Rightarrow> bool" where
  "runs_ok d \<longleftrightarrow> runs_unique (db_runs d) \<and>
     (\<forall>r \<in> set (db_runs d). run_check r \<and> run_fk (db_targets d) (db_runs d) r \<and>
        r_queue_sequence r < db_next_seq d)"

definition schema_ok :: "db \<Rightarrow> bool" where
  "schema_ok d \<longleftrightarrow> distinct (map pc_id (db_printers d)) \<and> jobs_ok d \<and> targets_ok d \<and> dedup_ok d \<and> runs_ok d"

lemmas schema_defs = jobs_ok_def targets_ok_def dedup_ok_def runs_ok_def

section \<open>References\<close>

lemma names_run_mono: "names_run rs r ref \<Longrightarrow> set rs \<subseteq> set ss \<Longrightarrow> names_run ss r ref"
  unfolding names_run_def by (cases ref) auto

lemma run_fk_mono:
  "run_fk tgs rs r \<Longrightarrow> target_key ` set tgs \<subseteq> target_key ` set us \<Longrightarrow> set rs \<subseteq> set ss \<Longrightarrow> run_fk us ss r"
  unfolding run_fk_def using names_run_mono by blast

lemma run_identityD:
  assumes "run_identity s = run_identity r"
  shows "r_queue_sequence s = r_queue_sequence r" "r_uid s = r_uid r" "run_target s = run_target r"
    "r_job_uid s = r_job_uid r" "r_printer_id s = r_printer_id r"
    "r_run_number s = r_run_number r" "r_trigger s = r_trigger r"
    "r_content_mode s = r_content_mode r" "r_previous_run_uid s = r_previous_run_uid r"
    "r_reprint_of_run_uid s = r_reprint_of_run_uid r"
    "r_reprint_request_id s = r_reprint_request_id r"
    "r_expected_content_hash s = r_expected_content_hash r" "r_created_at s = r_created_at r"
  using assms by (simp_all add: run_identity_def run_target_def)

lemma run_fk_update:
  assumes keep: "\<And>r. r \<in> set rs \<Longrightarrow> P r \<Longrightarrow> run_identity (f r) = run_identity r"
    and r: "r \<in> set rs" "run_fk tgs rs r"
  shows "run_fk tgs (update_where P f rs) (if P r then f r else r)"
proof -
  let ?g = "\<lambda>r. if P r then f r else r"
  have id: "run_identity (?g s) = run_identity s" if "s \<in> set rs" for s using keep that by simp
  have moved: "names_run (update_where P f rs) (?g r) ref" if "names_run rs r ref" for ref
  proof (cases ref)
    case (Some u)
    with that obtain p where p: "p \<in> set rs" "r_uid p = u" "run_target p = run_target r"
      by (auto simp: names_run_def)
    have "?g p \<in> set (update_where P f rs)" using p(1) by (auto simp: set_update_where)
    moreover have "r_uid (?g p) = u" using run_identityD(2) [OF id [OF p(1)]] p(2) by metis
    moreover have "run_target (?g p) = run_target (?g r)"
      using run_identityD(3) [OF id [OF p(1)]] run_identityD(3) [OF id [OF r(1)]] p(3) by metis
    ultimately show ?thesis using Some unfolding names_run_def by auto
  qed (simp add: names_run_def)
  from r(2) have "names_run rs r (r_previous_run_uid r)" "names_run rs r (r_reprint_of_run_uid r)"
    and "run_target r \<in> target_key ` set tgs" by (auto simp: run_fk_def)
  with moved id [OF r(1)] show ?thesis
    unfolding run_fk_def by (metis run_identityD(3,9,10))
qed

section \<open>Statements on runs keep the schema\<close>

lemma insert_run_InrD:
  assumes "insert_run run d = Inr d'"
  obtains row where "row = run\<lparr>r_queue_sequence := db_next_seq d\<rparr>"
    "d' = d\<lparr>db_runs := db_runs d @ [row], db_next_seq := db_next_seq d + 1\<rparr>"
    "run_check row" "runs_unique (db_runs d @ [row])" "run_fk (db_targets d) (db_runs d @ [row]) row"
  using assms by (auto simp: insert_run_def Let_def split: if_splits)

lemma insert_run_keeps [keeps]:
  assumes "insert_run run d = Inr d'" "schema_ok d" shows "schema_ok d'"
proof -
  obtain row where row: "row = run\<lparr>r_queue_sequence := db_next_seq d\<rparr>"
    and d': "d' = d\<lparr>db_runs := db_runs d @ [row], db_next_seq := db_next_seq d + 1\<rparr>"
    and ok: "run_check row" "runs_unique (db_runs d @ [row])" "run_fk (db_targets d) (db_runs d @ [row]) row"
    using assms(1) by (rule insert_run_InrD)
  have "\<forall>r \<in> set (db_runs d). run_fk (db_targets d) (db_runs d @ [row]) r"
    using assms(2) run_fk_mono [of "db_targets d" "db_runs d" _ "db_targets d" "db_runs d @ [row]"]
    by (auto simp: schema_ok_def runs_ok_def)
  with assms(2) ok show ?thesis
    by (auto simp: schema_ok_def schema_defs d' row less_SucI)
qed

lemma update_runs_InrD:
  assumes "update_runs P f d = Inr (n, d')"
  shows "d' = d\<lparr>db_runs := update_where P f (db_runs d)\<rparr>" "n = length (filter P (db_runs d))"
    "\<And>r. r \<in> set (db_runs d) \<Longrightarrow> P r \<Longrightarrow> run_update_allowed r (f r)"
    "\<And>r. r \<in> set (update_where P f (db_runs d)) \<Longrightarrow> run_check r"
    "runs_unique (update_where P f (db_runs d))"
  using assms by (auto simp: update_runs_def Let_def split: if_splits)

lemma update_runs_keeps [keeps]:
  assumes "update_runs P f d = Inr (n, d')" "schema_ok d" shows "schema_ok d'"
proof -
  note u = update_runs_InrD [OF assms(1)]
  have keep: "run_identity (f r) = run_identity r" if "r \<in> set (db_runs d)" "P r" for r
    using u(3) [OF that] by (simp add: run_update_allowed_def)
  have "run_fk (db_targets d) (update_where P f (db_runs d)) s \<and> r_queue_sequence s < db_next_seq d"
    if s: "s \<in> set (update_where P f (db_runs d))" for s
  proof -
    obtain r where r: "r \<in> set (db_runs d)" "s = (if P r then f r else r)"
      using s by (auto simp: set_update_where)
    moreover have "run_identity s = run_identity r" using r keep by auto
    ultimately show ?thesis
      using assms(2) run_fk_update [OF keep, of "db_runs d" P r] run_identityD(1) [of s r]
      by (auto simp: schema_ok_def runs_ok_def)
  qed
  with assms(2) u show ?thesis
    by (auto simp: schema_ok_def schema_defs)
qed

lemma update_runs_accepts:
  assumes ok: "schema_ok d"
    and row: "\<And>r. r \<in> set (db_runs d) \<Longrightarrow> P r \<Longrightarrow>
      run_update_allowed r (f r) \<and> run_check (f r) \<and> (active_status (r_status (f r)) \<longrightarrow> active_status (r_status r))"
  shows "update_runs P f d =
    Inr (length (filter P (db_runs d)), d\<lparr>db_runs := update_where P f (db_runs d)\<rparr>)"
proof -
  have id: "run_identity (f r) = run_identity r" if "r \<in> set (db_runs d)" "P r" for r
    using row that by (simp add: run_update_allowed_def)
  note idD = run_identityD [OF id]
  have "runs_unique (update_where P f (db_runs d))"
    using ok row unfolding schema_ok_def runs_ok_def runs_unique_def
    by (auto simp: map_update_where idD intro!: distinct_filter_update_where)
  moreover have "\<forall>r \<in> set (update_where P f (db_runs d)). run_check r"
    using ok row by (auto simp: set_update_where schema_ok_def runs_ok_def)
  ultimately show ?thesis using row by (simp add: update_runs_def Let_def)
qed

section \<open>Statements on the other tables\<close>

lemma distinct_snocI:
  "distinct (map k xs) \<Longrightarrow> (\<And>y. y \<in> set xs \<Longrightarrow> k y \<noteq> k x) \<Longrightarrow> distinct (map k (xs @ [x]))"
  unfolding distinct_snoc_map by fastforce

lemma insert_job_keeps [keeps]:
  assumes "insert_job j d = Inr d'" "schema_ok d" shows "schema_ok d'"
proof -
  have d': "d' = d\<lparr>db_jobs := db_jobs d @ [j]\<rparr>"
    and new: "\<And>k. k \<in> set (db_jobs d) \<Longrightarrow> j_uid k \<noteq> j_uid j"
    "\<And>k. k \<in> set (db_jobs d) \<Longrightarrow> (j_job_id k, j_template k) \<noteq> (j_job_id j, j_template j)"
    using assms(1) by (auto simp: insert_job_def split: if_splits)
  have old: "distinct (map j_uid (db_jobs d))" "distinct (map (\<lambda>j. (j_job_id j, j_template j)) (db_jobs d))"
    using assms(2) by (simp_all add: schema_ok_def jobs_ok_def)
  have "jobs_ok d'" unfolding jobs_ok_def d'
    using distinct_snocI [OF old(1) new(1)] distinct_snocI [OF old(2) new(2)] by simp
  moreover have "targets_ok d'" "dedup_ok d'" "runs_ok d'"
    using assms(2) by (simp_all add: schema_ok_def schema_defs d')
  ultimately show ?thesis using assms(2) by (simp add: schema_ok_def d')
qed

lemma insert_target_keeps [keeps]:
  assumes "insert_target t d = Inr d'" "schema_ok d" shows "schema_ok d'"
proof -
  define row where "row = t\<lparr>t_cancelled_at := None, t_cancellation_reason := None\<rparr>"
  have d': "d' = d\<lparr>db_targets := db_targets d @ [row]\<rparr>"
    and new: "\<And>u. u \<in> set (db_targets d) \<Longrightarrow> target_key u \<noteq> target_key row"
    "\<And>u. u \<in> set (db_targets d) \<Longrightarrow> (t_job_uid u, t_target_order u) \<noteq> (t_job_uid row, t_target_order row)"
    and row: "8 \<le> t_characters_per_line row" "t_characters_per_line row \<le> 96"
    "t_job_uid row \<in> j_uid ` set (db_jobs d)" "t_printer_id row \<in> pc_id ` set (db_printers d)"
    using assms(1)
    by (auto simp: insert_target_def row_def target_key_def Let_def split: if_splits)
  have old: "distinct (map target_key (db_targets d))"
    "distinct (map (\<lambda>t. (t_job_uid t, t_target_order t)) (db_targets d))"
    "\<forall>t \<in> set (db_targets d). 8 \<le> t_characters_per_line t \<and> t_characters_per_line t \<le> 96 \<and>
        t_job_uid t \<in> j_uid ` set (db_jobs d) \<and> t_printer_id t \<in> pc_id ` set (db_printers d)"
    using assms(2) unfolding schema_ok_def targets_ok_def by blast+
  have sel: "db_targets d' = db_targets d @ [row]" "db_jobs d' = db_jobs d" "db_printers d' = db_printers d"
    by (simp_all add: d')
  have "targets_ok d'"
    using distinct_snocI [OF old(1) new(1)] distinct_snocI [OF old(2) new(2)] old(3) row
    unfolding targets_ok_def sel by simp
  moreover have fk: "run_fk (db_targets d @ [row]) (db_runs d) r" if "r \<in> set (db_runs d)" for r
    by (rule run_fk_mono [of "db_targets d" "db_runs d" r _ "db_runs d"])
      (use assms(2) that in \<open>auto simp: schema_ok_def runs_ok_def\<close>)
  have "runs_ok d'" using assms(2) fk by (simp add: schema_ok_def runs_ok_def d')
  moreover have "jobs_ok d'" "dedup_ok d'"
    using assms(2) by (simp_all add: schema_ok_def schema_defs d')
  ultimately show ?thesis using assms(2) by (simp add: schema_ok_def d')
qed

lemma insert_dedup_keeps [keeps]:
  assumes "insert_dedup x d = Inr d'" "schema_ok d" shows "schema_ok d'"
proof -
  have d': "d' = d\<lparr>db_dedup := db_dedup d @ [x]\<rparr>"
    and new: "\<And>y. y \<in> set (db_dedup d) \<Longrightarrow> (dd_kind y, dd_scope_uid y, dd_request_id y)
      \<noteq> (dd_kind x, dd_scope_uid x, dd_request_id x)"
    and fk: "dd_scope_uid x \<in> j_uid ` set (db_jobs d)"
    using assms(1) by (auto simp: insert_dedup_def split: if_splits)
  have old: "distinct (map (\<lambda>x. (dd_kind x, dd_scope_uid x, dd_request_id x)) (db_dedup d))"
    "\<forall>x \<in> set (db_dedup d). dd_scope_uid x \<in> j_uid ` set (db_jobs d)"
    using assms(2) by (simp_all add: schema_ok_def dedup_ok_def)
  have "dedup_ok d'"
    using distinct_snocI [OF old(1) new] old(2) fk unfolding dedup_ok_def d' by simp
  moreover have "jobs_ok d'" "targets_ok d'" "runs_ok d'"
    using assms(2) by (simp_all add: schema_ok_def schema_defs d')
  ultimately show ?thesis using assms(2) by (simp add: schema_ok_def d')
qed

lemma update_expiry_keeps [keeps]:
  assumes "schema_ok d" shows "schema_ok (update_expiry P t d)"
proof -
  have "map j_uid (update_where P (\<lambda>j. j\<lparr>j_expires_at := t\<rparr>) (db_jobs d)) = map j_uid (db_jobs d)"
    "map (\<lambda>j. (j_job_id j, j_template j)) (update_where P (\<lambda>j. j\<lparr>j_expires_at := t\<rparr>) (db_jobs d))
       = map (\<lambda>j. (j_job_id j, j_template j)) (db_jobs d)"
    by (simp_all add: map_update_where)
  moreover have "j_uid ` set (update_where P (\<lambda>j. j\<lparr>j_expires_at := t\<rparr>) (db_jobs d)) = j_uid ` set (db_jobs d)"
    by (simp add: image_update_where)
  ultimately show ?thesis using assms
    by (simp add: update_expiry_def schema_ok_def schema_defs)
qed

lemma update_cancellation_keeps [keeps]:
  assumes "update_cancellation u p at reason d = (n, d')" "schema_ok d" shows "schema_ok d'"
proof -
  define rows where "rows = update_where (\<lambda>t. t_job_uid t = u \<and> t_printer_id t = p)
    (\<lambda>t. t\<lparr>t_cancelled_at := at, t_cancellation_reason := reason\<rparr>) (db_targets d)"
  have d': "d' = d\<lparr>db_targets := rows\<rparr>"
    using assms(1) by (auto simp: update_cancellation_def Let_def rows_def)
  have m: "map target_key rows = map target_key (db_targets d)"
    "map (\<lambda>t. (t_job_uid t, t_target_order t)) rows = map (\<lambda>t. (t_job_uid t, t_target_order t)) (db_targets d)"
    unfolding rows_def by (rule map_update_where; simp add: target_key_def)+
  have k: "target_key ` set rows = target_key ` set (db_targets d)"
    unfolding rows_def by (rule image_update_where) (simp add: target_key_def)
  have c: "8 \<le> t_characters_per_line t \<and> t_characters_per_line t \<le> 96 \<and>
      t_job_uid t \<in> j_uid ` set (db_jobs d) \<and> t_printer_id t \<in> pc_id ` set (db_printers d)"
    if "t \<in> set rows" for t
    using that assms(2) by (auto simp: rows_def set_update_where schema_ok_def targets_ok_def)
  have "run_fk rows (db_runs d) r" if "r \<in> set (db_runs d)" for r
    using assms(2) that run_fk_mono [of "db_targets d" "db_runs d" r rows "db_runs d"] k
    by (auto simp: schema_ok_def runs_ok_def)
  with assms(2) m c show ?thesis
    unfolding schema_ok_def schema_defs d' by simp
qed

lemma runs_unique_filter: "runs_unique rs \<Longrightarrow> runs_unique (filter Q rs)"
  unfolding runs_unique_def by (simp add: distinct_map_filterI filter_filter conj_commute)
     (simp add: distinct_map inj_on_def)

lemma delete_jobs_keeps [keeps]:
  assumes "schema_ok d" shows "schema_ok (delete_jobs P d)"
proof -
  define gone where "gone = j_uid ` set (filter P (db_jobs d))"
  have d': "delete_jobs P d = d\<lparr>db_jobs := filter (\<lambda>j. \<not> P j) (db_jobs d),
      db_targets := filter (\<lambda>t. t_job_uid t \<notin> gone) (db_targets d),
      db_runs := filter (\<lambda>r. r_job_uid r \<notin> gone) (db_runs d),
      db_dedup := filter (\<lambda>x. dd_scope_uid x \<notin> gone) (db_dedup d)\<rparr>"
    by (simp add: delete_jobs_def gone_def Let_def)
  have left: "u \<in> j_uid ` set (filter (\<lambda>j. \<not> P j) (db_jobs d))"
    if "u \<in> j_uid ` set (db_jobs d)" "u \<notin> gone" for u
    using that by (auto simp: gone_def)
  have fk: "run_fk (filter (\<lambda>t. t_job_uid t \<notin> gone) (db_targets d))
      (filter (\<lambda>r. r_job_uid r \<notin> gone) (db_runs d)) r"
    if "r \<in> set (db_runs d)" "r_job_uid r \<notin> gone" for r
  proof -
    have ref: "names_run (filter (\<lambda>r. r_job_uid r \<notin> gone) (db_runs d)) r ref"
      if "names_run (db_runs d) r ref" for ref
      using that \<open>r_job_uid r \<notin> gone\<close> unfolding names_run_def run_target_def by (cases ref) auto
    have "run_fk (db_targets d) (db_runs d) r" using assms that(1) by (simp add: schema_ok_def runs_ok_def)
    with ref that(2) show ?thesis
      unfolding run_fk_def target_key_def run_target_def by auto
  qed
  have "runs_ok (delete_jobs P d)"
    using assms fk by (auto simp: schema_ok_def runs_ok_def d' runs_unique_filter)
  moreover have "targets_ok (delete_jobs P d)"
    using assms left by (auto simp: schema_ok_def targets_ok_def d' distinct_map_filterI)
  moreover have "dedup_ok (delete_jobs P d)"
    using assms left by (auto simp: schema_ok_def dedup_ok_def d' distinct_map_filterI)
  moreover have "jobs_ok (delete_jobs P d)"
    using assms by (auto simp: schema_ok_def jobs_ok_def d' distinct_map_filterI)
  ultimately show ?thesis using assms by (simp add: schema_ok_def d')
qed

lemma delete_events_keeps [keeps]: "schema_ok d \<Longrightarrow> schema_ok (delete_events P d)"
  by (simp add: delete_events_def schema_ok_def schema_defs)

lemma insert_event_keeps [keeps]: "schema_ok d \<Longrightarrow> schema_ok (insert_event e d)"
  by (simp add: insert_event_def schema_ok_def schema_defs)

end
