(* ===== verification/JobRepository.thy ===== *)
theory JobRepository
  imports DatabaseSafety
begin

text \<open>
  \<open>internal/jobs/repository.go\<close>. An operation takes the database and returns the error of the Go
  method, in which case its transaction is rolled back and the database is the one before the
  call, or the result with the database it commits. Readings of the clock and the identifiers
  \<open>newID\<close> draws (\<open>None\<close> when the random source fails) are arguments.
\<close>

datatype repo_err =
    ErrNotFound | ErrStateChanged | ErrDuplicateRequest | ErrTargetFulfilled
  | ErrInvalidResolution | ErrNoRows | ErrRandom | ErrDB db_err | ErrRender string

definition retentionWindow :: time where "retentionWindow = 48 * hour"

definition nullable :: "string \<Rightarrow> string option" where
  "nullable s = (if s = [] then None else Some s)"

definition newID :: "string option \<Rightarrow> repo_err + string" where
  "newID fresh = (case fresh of None \<Rightarrow> Inl ErrRandom | Some u \<Rightarrow> Inr u)"

definition lift_db :: "db_err + 'a \<Rightarrow> repo_err + 'a" where
  "lift_db m = map_err ErrDB m"

lemma lift_db_simps [simp]:
  "lift_db (Inl e) = Inl (ErrDB e)" "lift_db (Inr x) = Inr x"
  "lift_db m = Inr x \<longleftrightarrow> m = Inr x"
  by (simp_all add: lift_db_def)

section \<open>Reading\<close>

definition scan_one :: "repo_err \<Rightarrow> 'a option \<Rightarrow> repo_err + 'a" where
  "scan_one e row = (case row of None \<Rightarrow> Inl e | Some x \<Rightarrow> Inr x)"

lemma scan_one_simps [simp]:
  "scan_one e (Some x) = Inr x" "scan_one e None = Inl e" "scan_one e m = Inr x \<longleftrightarrow> m = Some x"
  by (auto simp: scan_one_def split: option.splits)

definition find_run :: "string \<Rightarrow> db \<Rightarrow> print_run option" where
  "find_run uid d = List.find (\<lambda>r. r_uid r = uid) (db_runs d)"

definition find_job :: "string \<Rightarrow> db \<Rightarrow> job option" where
  "find_job uid d = List.find (\<lambda>j. j_uid j = uid) (db_jobs d)"

definition find_target :: "string \<Rightarrow> string \<Rightarrow> db \<Rightarrow> job_printer option" where
  "find_target jobUID printerID d =
     List.find (\<lambda>t. t_job_uid t = jobUID \<and> t_printer_id t = printerID) (db_targets d)"

definition runsWhere :: "(print_run \<Rightarrow> bool) \<Rightarrow> db \<Rightarrow> print_run list" where
  "runsWhere P d = filter P (db_runs d)"

definition GetJob :: "string \<Rightarrow> db \<Rightarrow> repo_err + job" where
  "GetJob uid d = scan_one ErrNotFound (find_job uid d)"

definition GetJobByIdentity :: "string \<Rightarrow> string \<Rightarrow> db \<Rightarrow> repo_err + job" where
  "GetJobByIdentity jobID templ d =
     scan_one ErrNotFound (List.find (\<lambda>j. j_job_id j = jobID \<and> j_template j = templ) (db_jobs d))"

definition targetsFor :: "string \<Rightarrow> db \<Rightarrow> job_printer list" where
  "targetsFor jobUID d = sort_key t_target_order (filter (\<lambda>t. t_job_uid t = jobUID) (db_targets d))"

definition GetTarget :: "string \<Rightarrow> string \<Rightarrow> db \<Rightarrow> repo_err + job_printer" where
  "GetTarget jobUID printerID d = scan_one ErrNotFound (find_target jobUID printerID d)"

definition GetRun :: "string \<Rightarrow> db \<Rightarrow> repo_err + print_run" where
  "GetRun uid d = scan_one ErrNotFound (find_run uid d)"

definition GetDetail :: "string \<Rightarrow> db \<Rightarrow> repo_err + job_detail" where
  "GetDetail uid d = sum_bind (GetJob uid d) (\<lambda>job.
     let targets = targetsFor uid d;
         runs = sort_key (\<lambda>r. (r_printer_id r, r_run_number r)) (runsWhere (\<lambda>r. r_job_uid r = uid) d)
     in Inr (DeriveJob job targets runs))"

definition GetDeduplication :: "string \<Rightarrow> string \<Rightarrow> string \<Rightarrow> db \<Rightarrow> repo_err + dedup_row" where
  "GetDeduplication kind scope request d = scan_one ErrNotFound
     (List.find (\<lambda>x. dd_kind x = kind \<and> dd_scope_uid x = scope \<and> dd_request_id x = request) (db_dedup d))"

definition RunsForReprintRequest :: "string \<Rightarrow> string \<Rightarrow> db \<Rightarrow> print_run list" where
  "RunsForReprintRequest jobUID requestID d = sort_key r_printer_id
     (runsWhere (\<lambda>r. r_job_uid r = jobUID \<and> r_reprint_request_id r = Some requestID) d)"

text \<open>The rows \<open>status IN ('queued','processing')\<close> of one target, and its next run number.\<close>

definition active_count :: "string \<Rightarrow> string \<Rightarrow> db \<Rightarrow> nat" where
  "active_count jobUID printerID d =
     length (runsWhere (\<lambda>r. r_job_uid r = jobUID \<and> r_printer_id r = printerID \<and> active_status (r_status r)) d)"

definition next_run_number :: "string \<Rightarrow> string \<Rightarrow> db \<Rightarrow> nat" where
  "next_run_number jobUID printerID d =
     fold max (map r_run_number (runsWhere (\<lambda>r. r_job_uid r = jobUID \<and> r_printer_id r = printerID) d)) 0 + 1"

section \<open>The list of Jobs\<close>

definition attention_predicate :: "db \<Rightarrow> job \<Rightarrow> bool" where
  "attention_predicate d j \<longleftrightarrow> (\<exists>ar \<in> set (db_runs d). r_job_uid ar = j_uid j \<and>
     r_resolution ar = None \<and>
     (r_status ar = RunUncertain \<or> (r_status ar = RunFailed \<and> \<not> r_retryable ar)) \<and>
     (r_content_mode ar = ContentReprint \<or>
       (\<not> (\<exists>ok \<in> set (db_runs d). r_job_uid ok = r_job_uid ar \<and> r_printer_id ok = r_printer_id ar \<and>
            (r_status ok = RunTransmitted \<or>
             (r_status ok = RunUncertain \<and> r_resolution ok = Some ResolutionConfirmedPrinted))) \<and>
        \<not> (\<exists>cp \<in> set (db_targets d). t_job_uid cp = r_job_uid ar \<and> t_printer_id cp = r_printer_id ar \<and>
            t_cancelled_at cp \<noteq> None))))"

definition list_limit :: "int \<Rightarrow> nat" where
  "list_limit limit = (if limit \<le> 0 then 50 else if limit > 100 then 100 else nat limit)"

fun collect_details :: "db \<Rightarrow> job list \<Rightarrow> repo_err + job_detail list" where
  "collect_details d [] = Inr []"
| "collect_details d (j # js) = sum_bind (GetDetail (j_uid j) d) (\<lambda>x.
     sum_bind (collect_details d js) (\<lambda>xs. Inr (x # xs)))"

definition list_jobs ::
    "string \<Rightarrow> string \<Rightarrow> string \<Rightarrow> string \<Rightarrow> int \<Rightarrow> time option \<Rightarrow> string \<Rightarrow> db \<Rightarrow> job list" where
  "list_jobs jobID templ attention owner limit before beforeUID d =
     (let js = filter (\<lambda>j.
            (jobID \<noteq> [] \<longrightarrow> j_job_id j = jobID) \<and>
            (templ \<noteq> [] \<longrightarrow> j_template j = templ) \<and>
            (owner \<noteq> [] \<and> owner \<noteq> ''local'' \<longrightarrow> j_owner_origin j = owner) \<and>
            (attention \<noteq> [] \<longrightarrow> (if attention = ''true'' then attention_predicate d j
                                   else \<not> attention_predicate d j)) \<and>
            (case before of None \<Rightarrow> True
             | Some b \<Rightarrow> ts (j_created_at j) < ts b \<or> (ts (j_created_at j) = ts b \<and> j_uid j < beforeUID)))
          (db_jobs d)
      in take (list_limit limit) (rev (sort_key (\<lambda>j. (ts (j_created_at j), j_uid j)) js)))"

definition ListJobDetails ::
    "string \<Rightarrow> string \<Rightarrow> string \<Rightarrow> string \<Rightarrow> int \<Rightarrow> time option \<Rightarrow> string \<Rightarrow> db \<Rightarrow> repo_err + job_detail list" where
  "ListJobDetails jobID templ attention owner limit before beforeUID d =
     collect_details d (list_jobs jobID templ attention owner limit before beforeUID d)"

section \<open>Accepting a Job\<close>

definition InsertJob :: "job \<Rightarrow> job_printer list \<Rightarrow> print_run list \<Rightarrow> db \<Rightarrow> repo_err + db" where
  "InsertJob job targets runs d =
     lift_db (sum_bind (insert_job job d) (\<lambda>d.
       sum_bind (fold_sum (\<lambda>d t. insert_target t d) d targets) (\<lambda>d.
         fold_sum (\<lambda>d r. insert_run r d) d runs)))"

section \<open>The life of a run\<close>

definition ClaimNextQueued :: "string \<Rightarrow> time \<Rightarrow> db \<Rightarrow> repo_err + (print_run \<times> db)" where
  "ClaimNextQueued printerID now d =
     (case sort_key r_queue_sequence
             (filter (\<lambda>r. r_printer_id r = printerID \<and> r_status r = RunQueued) (db_runs d)) of
        [] \<Rightarrow> Inl ErrNotFound
      | nxt # _ \<Rightarrow>
          sum_bind (lift_db (update_runs (\<lambda>r. r_queue_sequence r = r_queue_sequence nxt)
             (\<lambda>r. r\<lparr>r_status := RunProcessing, r_started_at := Some now\<rparr>) d)) (\<lambda>(n, d').
          sum_bind (scan_one ErrNotFound (List.find (\<lambda>r. r_queue_sequence r = r_queue_sequence nxt) (db_runs d')))
            (\<lambda>run. Inr (run, d'))))"

definition extend_retention :: "string \<Rightarrow> time \<Rightarrow> db \<Rightarrow> db" where
  "extend_retention runUID expires d =
     update_expiry (\<lambda>j. case find_run runUID d of None \<Rightarrow> False | Some r \<Rightarrow> j_uid j = r_job_uid r) expires d"

definition transition ::
    "string \<Rightarrow> run_status \<Rightarrow> (print_run \<Rightarrow> bool) \<Rightarrow> (print_run \<Rightarrow> print_run) \<Rightarrow> time \<Rightarrow> db \<Rightarrow> repo_err + db" where
  "transition uid target P f now d =
     sum_bind (lift_db (update_runs P f d)) (\<lambda>(n, d').
     sum_bind (guard_err ErrStateChanged
        (n = 1 \<or> (case find_run uid d' of None \<Rightarrow> False | Some r \<Rightarrow> r_status r = target))) (\<lambda>_.
     Inr (extend_retention uid (now + retentionWindow) d')))"

definition MarkTransmitted :: "string \<Rightarrow> int \<Rightarrow> time \<Rightarrow> time \<Rightarrow> db \<Rightarrow> repo_err + db" where
  "MarkTransmitted uid bytesAccepted now later_now =
     transition uid RunTransmitted (\<lambda>r. r_uid r = uid \<and> r_status r = RunProcessing)
       (\<lambda>r. r\<lparr>r_status := RunTransmitted, r_retryable := False, r_bytes_accepted := bytesAccepted,
              r_transmitted_at := Some now, r_finished_at := Some now,
              r_error_code := None, r_error_message := None\<rparr>) later_now"

definition MarkFailed :: "string \<Rightarrow> int \<Rightarrow> string \<Rightarrow> string \<Rightarrow> bool \<Rightarrow> time \<Rightarrow> time \<Rightarrow> db \<Rightarrow> repo_err + db" where
  "MarkFailed uid bytesAccepted code message retryable now later_now =
     transition uid RunFailed (\<lambda>r. r_uid r = uid \<and> r_status r = RunProcessing)
       (\<lambda>r. r\<lparr>r_status := RunFailed, r_retryable := retryable, r_bytes_accepted := bytesAccepted,
              r_error_code := Some code, r_error_message := Some message,
              r_finished_at := Some now\<rparr>) later_now"

definition MarkUncertain :: "string \<Rightarrow> int \<Rightarrow> string \<Rightarrow> string \<Rightarrow> time \<Rightarrow> time \<Rightarrow> db \<Rightarrow> repo_err + db" where
  "MarkUncertain uid bytesAccepted code message now later_now =
     transition uid RunUncertain (\<lambda>r. r_uid r = uid \<and> r_status r = RunProcessing)
       (\<lambda>r. r\<lparr>r_status := RunUncertain, r_retryable := False, r_bytes_accepted := bytesAccepted,
              r_error_code := Some code, r_error_message := Some message,
              r_finished_at := Some now\<rparr>) later_now"

definition CancelRun :: "string \<Rightarrow> time \<Rightarrow> time \<Rightarrow> db \<Rightarrow> repo_err + db" where
  "CancelRun uid now later_now =
     transition uid RunCancelled (\<lambda>r. r_uid r = uid \<and> r_status r = RunQueued)
       (\<lambda>r. r\<lparr>r_status := RunCancelled, r_retryable := False, r_finished_at := Some now\<rparr>) later_now"

text \<open>Go's \<open>RunResolution\<close> is a string type; \<open>None\<close> is any value but the two constants.\<close>

definition ResolveUncertain :: "string \<Rightarrow> run_resolution option \<Rightarrow> time \<Rightarrow> db \<Rightarrow> repo_err + db" where
  "ResolveUncertain uid resolution now d =
     (case resolution of None \<Rightarrow> Inl ErrInvalidResolution
      | Some res \<Rightarrow>
          sum_bind (lift_db (update_runs
             (\<lambda>r. r_uid r = uid \<and> r_status r = RunUncertain \<and> r_resolution r = None)
             (\<lambda>r. r\<lparr>r_resolution := Some res, r_resolved_at := Some now\<rparr>) d)) (\<lambda>(n, d').
          sum_bind (guard_err ErrStateChanged (n = 1)) (\<lambda>_.
          Inr (extend_retention uid (now + retentionWindow) d'))))"

section \<open>Cancelling targets\<close>

definition fulfilled_count :: "string \<Rightarrow> string \<Rightarrow> db \<Rightarrow> nat" where
  "fulfilled_count jobUID printerID d =
     length (runsWhere (\<lambda>r. r_job_uid r = jobUID \<and> r_printer_id r = printerID \<and>
       (r_status r = RunTransmitted \<or>
        (r_status r = RunUncertain \<and> r_resolution r = Some ResolutionConfirmedPrinted))) d)"

definition processing_count :: "string \<Rightarrow> string \<Rightarrow> db \<Rightarrow> nat" where
  "processing_count jobUID printerID d =
     length (runsWhere (\<lambda>r. r_job_uid r = jobUID \<and> r_printer_id r = printerID \<and> r_status r = RunProcessing) d)"

definition cancel_target :: "string \<Rightarrow> string \<Rightarrow> time \<Rightarrow> db \<Rightarrow> string \<Rightarrow> repo_err + db" where
  "cancel_target jobUID reason now d printerID =
     sum_bind (guard_err ErrTargetFulfilled (fulfilled_count jobUID printerID d = 0)) (\<lambda>_.
     sum_bind (guard_err ErrStateChanged (processing_count jobUID printerID d = 0)) (\<lambda>_.
     case update_cancellation jobUID printerID (Some now) (nullable reason) d of (n, d) \<Rightarrow>
     sum_bind (guard_err ErrNotFound (n = 1)) (\<lambda>_.
     sum_bind (lift_db (update_runs
         (\<lambda>r. r_job_uid r = jobUID \<and> r_printer_id r = printerID \<and> r_status r = RunQueued)
         (\<lambda>r. r\<lparr>r_status := RunCancelled, r_retryable := False, r_finished_at := Some now\<rparr>) d)) (\<lambda>(_, d).
     sum_bind (lift_db (update_runs
         (\<lambda>r. r_job_uid r = jobUID \<and> r_printer_id r = printerID \<and> r_status r = RunFailed \<and>
              r_retryable r \<and> r_resolution r = None)
         (\<lambda>r. r\<lparr>r_retryable := False\<rparr>) d)) (\<lambda>(_, d). Inr d)))))"

definition CancelTargets :: "string \<Rightarrow> string list \<Rightarrow> string \<Rightarrow> time \<Rightarrow> db \<Rightarrow> repo_err + db" where
  "CancelTargets jobUID printerIDs reason now d =
     sum_bind (fold_sum (cancel_target jobUID reason now) d printerIDs) (\<lambda>d.
       Inr (update_expiry (\<lambda>j. j_uid j = jobUID) (now + retentionWindow) d))"

section \<open>Manual reprints\<close>

text \<open>
  The body of the loop of \<open>InsertManualReprints\<close>. A Go \<open>PrintRun\<close> literal leaves the fields it
  does not name at their zero value; \<open>fresh_run\<close> is that literal.
\<close>

definition fresh_run :: "string \<Rightarrow> string \<Rightarrow> string \<Rightarrow> nat \<Rightarrow> run_trigger \<Rightarrow> content_mode \<Rightarrow> string \<Rightarrow> time \<Rightarrow> print_run" where
  "fresh_run uid jobUID printerID runNumber trigger mode hash now =
     \<lparr>r_queue_sequence = 0, r_uid = uid, r_job_uid = jobUID, r_printer_id = printerID,
      r_run_number = runNumber, r_trigger = trigger, r_content_mode = mode,
      r_previous_run_uid = None, r_reprint_of_run_uid = None, r_reprint_request_id = None,
      r_reprint_reason = None, r_expected_content_hash = hash, r_status = RunQueued,
      r_retryable = False, r_resolution = None, r_error_code = None, r_error_message = None,
      r_bytes_accepted = 0, r_created_at = now, r_started_at = None, r_finished_at = None,
      r_transmitted_at = None, r_resolved_at = None\<rparr>"

type_synonym reprint_render = "job \<Rightarrow> job_printer \<Rightarrow> nat \<Rightarrow> string + string"
type_synonym retry_render = "job \<Rightarrow> job_printer \<Rightarrow> print_run \<Rightarrow> nat \<Rightarrow> string + string"

definition reprint_target ::
    "job \<Rightarrow> string \<Rightarrow> string \<Rightarrow> time \<Rightarrow> (string \<Rightarrow> string option) \<Rightarrow> reprint_render \<Rightarrow>
     db \<times> print_run list \<Rightarrow> string \<Rightarrow> repo_err + (db \<times> print_run list)" where
  "reprint_target job requestID reason now fresh render dc printerID = (case dc of (d, created) \<Rightarrow>
     let jobUID = j_uid job in
     sum_bind (GetTarget jobUID printerID d) (\<lambda>target.
     sum_bind (guard_err ErrStateChanged (active_count jobUID printerID d = 0)) (\<lambda>_.
     sum_bind (scan_one ErrNoRows (List.find (\<lambda>r. r_job_uid r = jobUID \<and> r_printer_id r = printerID \<and>
                 r_trigger r = TriggerInitial) (db_runs d))) (\<lambda>initial.
     let runNumber = next_run_number jobUID printerID d in
     sum_bind (map_err ErrRender (render job target runNumber)) (\<lambda>hash.
     sum_bind (newID (fresh printerID)) (\<lambda>uid.
     let run = (fresh_run uid jobUID printerID runNumber TriggerManualReprint ContentReprint hash now)
                 \<lparr>r_reprint_of_run_uid := nullable (r_uid initial),
                  r_reprint_request_id := nullable requestID, r_reprint_reason := nullable reason\<rparr> in
     sum_bind (lift_db (insert_run run d)) (\<lambda>d.
     case update_cancellation jobUID printerID None None d of (_, d) \<Rightarrow>
     sum_bind (lift_db (update_runs
         (\<lambda>r. r_job_uid r = jobUID \<and> r_printer_id r = printerID \<and>
              (r_status r = RunFailed \<or> r_status r = RunUncertain) \<and> r_resolution r = None)
         (\<lambda>r. r\<lparr>r_retryable := False, r_resolution := Some ResolutionReprintRequested,
                r_resolved_at := Some now\<rparr>) d)) (\<lambda>(_, d).
     Inr (d, created @ [run])))))))))"

definition InsertManualReprints ::
    "string \<Rightarrow> string \<Rightarrow> string \<Rightarrow> string \<Rightarrow> string list \<Rightarrow> time \<Rightarrow> (string \<Rightarrow> string option) \<Rightarrow>
     reprint_render \<Rightarrow> db \<Rightarrow> repo_err + (print_run list \<times> db)" where
  "InsertManualReprints jobUID requestID requestHash reason printerIDs now fresh render d =
     (case insert_dedup \<lparr>dd_kind = ''manual_reprint'', dd_scope_uid = jobUID, dd_request_id = requestID,
                         dd_request_hash = requestHash, dd_created_at = now\<rparr> d of
        Inl UniqueViolation \<Rightarrow> Inl ErrDuplicateRequest
      | Inl e \<Rightarrow> Inl (ErrDB e)
      | Inr d \<Rightarrow>
          sum_bind (GetJob jobUID d) (\<lambda>job.
          sum_bind (fold_sum (reprint_target job requestID reason now fresh render) (d, []) (sort printerIDs))
            (\<lambda>(d, created).
          Inr (created, update_expiry (\<lambda>j. j_uid j = jobUID) (now + retentionWindow) d))))"

section \<open>Automatic retries\<close>

definition retry_candidate :: "print_run \<Rightarrow> bool" where
  "retry_candidate r = (r_status r = RunFailed \<and> r_retryable r \<and> r_resolution r = None)"

text \<open>
  The loop that follows \<open>previous_run_uid\<close> to count the retries before a run. Nothing in it
  bounds the number of its iterations, so a loop that does not end is the value \<open>None\<close>.
\<close>

partial_function (option) retry_depth :: "print_run list \<Rightarrow> print_run \<Rightarrow> nat \<Rightarrow> (repo_err + nat) option" where
  "retry_depth rows cursor depth =
     (if r_trigger cursor \<noteq> TriggerAutomaticRetry then Some (Inr depth)
      else case r_previous_run_uid cursor of
          None \<Rightarrow> Some (Inr (depth + 1))
        | Some u \<Rightarrow>
            (case List.find (\<lambda>r. r_uid r = u) rows of
               None \<Rightarrow> Some (Inl ErrNoRows)
             | Some previous \<Rightarrow> retry_depth rows previous (depth + 1)))"

definition clear_retryable :: "string \<Rightarrow> db \<Rightarrow> repo_err + db" where
  "clear_retryable uid d =
     sum_bind (lift_db (update_runs (\<lambda>r. r_uid r = uid \<and> r_retryable r) (\<lambda>r. r\<lparr>r_retryable := False\<rparr>) d))
       (\<lambda>(_, d). Inr d)"

definition clear_retryable_always :: "string \<Rightarrow> db \<Rightarrow> repo_err + db" where
  "clear_retryable_always uid d =
     sum_bind (lift_db (update_runs (\<lambda>r. r_uid r = uid) (\<lambda>r. r\<lparr>r_retryable := False\<rparr>) d))
       (\<lambda>(_, d). Inr d)"

text \<open>
  \<open>materializeRetry\<close> once the loop has counted \<open>depth\<close>. The result is the run it made, if
  any (\<open>made\<close> in the code), and the database it commits.
\<close>

definition materialize_at ::
    "print_run \<Rightarrow> nat \<Rightarrow> int \<Rightarrow> retry_render \<Rightarrow> string option \<Rightarrow> time \<Rightarrow> db \<Rightarrow> repo_err + (print_run option \<times> db)" where
  "materialize_at previous depth maxRetries render fresh now d =
     (if int depth \<ge> maxRetries then sum_bind (clear_retryable (r_uid previous) d) (\<lambda>d. Inr (None, d))
      else
        sum_bind (guard_err ErrStateChanged (active_count (r_job_uid previous) (r_printer_id previous) d = 0)) (\<lambda>_.
        sum_bind (scan_one ErrNoRows (find_job (r_job_uid previous) d)) (\<lambda>job.
        sum_bind (scan_one ErrNoRows (find_target (r_job_uid previous) (r_printer_id previous) d)) (\<lambda>target.
        sum_bind (guard_err ErrStateChanged (t_cancelled_at target = None)) (\<lambda>_.
        let runNumber = next_run_number (r_job_uid previous) (r_printer_id previous) d in
        (case render job target previous runNumber of
           Inl message \<Rightarrow>
             sum_bind (newID fresh) (\<lambda>uid.
             let failed = (fresh_run uid (r_job_uid previous) (r_printer_id previous) runNumber
                             TriggerAutomaticRetry (r_content_mode previous) [] now)
                   \<lparr>r_previous_run_uid := Some (r_uid previous), r_status := RunFailed,
                    r_error_code := Some ''content_changed'', r_error_message := nullable message,
                    r_finished_at := Some now\<rparr> in
             sum_bind (lift_db (insert_run failed d)) (\<lambda>d.
             sum_bind (clear_retryable_always (r_uid previous) d) (\<lambda>d. Inr (Some failed, d))))
         | Inr hash \<Rightarrow>
             sum_bind (newID fresh) (\<lambda>uid.
             let run = (fresh_run uid (r_job_uid previous) (r_printer_id previous) runNumber
                          TriggerAutomaticRetry (r_content_mode previous) hash now)
                   \<lparr>r_previous_run_uid := Some (r_uid previous)\<rparr> in
             sum_bind (lift_db (insert_run run d)) (\<lambda>d.
             sum_bind (clear_retryable (r_uid previous) d) (\<lambda>d. Inr (Some run, d))))))))))"

definition materializeRetry ::
    "string \<Rightarrow> int \<Rightarrow> retry_render \<Rightarrow> string option \<Rightarrow> time \<Rightarrow> db \<Rightarrow> (repo_err + (print_run option \<times> db)) option" where
  "materializeRetry previousUID maxRetries render fresh now d =
     (case List.find (\<lambda>r. r_uid r = previousUID \<and> retry_candidate r) (db_runs d) of
        None \<Rightarrow> Some (Inl ErrStateChanged)
      | Some previous \<Rightarrow>
          (case retry_depth (db_runs d) previous 0 of
             None \<Rightarrow> None
           | Some (Inl e) \<Rightarrow> Some (Inl e)
           | Some (Inr depth) \<Rightarrow> Some (materialize_at previous depth maxRetries render fresh now d)))"

text \<open>
  The loop over the candidates. Each one is a transaction of its own, so an error that stops the
  loop leaves the retries already made in the database: the result is the list of runs made, the
  error that stopped the loop and the database. \<open>fresh\<close> and \<open>clock\<close> give the identifier
  and the time drawn for a candidate.
\<close>

fun materialize_loop ::
    "int \<Rightarrow> retry_render \<Rightarrow> (string \<Rightarrow> string option) \<Rightarrow> (string \<Rightarrow> time) \<Rightarrow> print_run list \<Rightarrow>
     print_run list \<Rightarrow> db \<Rightarrow> (print_run list \<times> repo_err option \<times> db) option" where
  "materialize_loop maxRetries render fresh clock [] created d = Some (created, None, d)"
| "materialize_loop maxRetries render fresh clock (c # cs) created d =
     (case materializeRetry (r_uid c) maxRetries render (fresh (r_uid c)) (clock (r_uid c)) d of
        None \<Rightarrow> None
      | Some (Inl e) \<Rightarrow>
          if e = ErrStateChanged \<or> e = ErrNotFound
          then materialize_loop maxRetries render fresh clock cs created d
          else Some (created, Some e, d)
      | Some (Inr (made, d')) \<Rightarrow>
          materialize_loop maxRetries render fresh clock cs
            (created @ (case made of None \<Rightarrow> [] | Some run \<Rightarrow> [run])) d')"

definition MaterializeRetries ::
    "string \<Rightarrow> int \<Rightarrow> retry_render \<Rightarrow> (string \<Rightarrow> string option) \<Rightarrow> (string \<Rightarrow> time) \<Rightarrow> db \<Rightarrow>
     (print_run list \<times> repo_err option \<times> db) option" where
  "MaterializeRetries printerID maxRetries render fresh clock d =
     materialize_loop maxRetries render fresh clock
       (sort_key r_queue_sequence (runsWhere (\<lambda>r. r_printer_id r = printerID \<and> retry_candidate r) d)) [] d"

section \<open>Queues\<close>

definition status_rank :: "run_status \<Rightarrow> nat" where
  "status_rank s = (case s of RunProcessing \<Rightarrow> 0 | RunQueued \<Rightarrow> 1 | RunFailed \<Rightarrow> 2
     | RunUncertain \<Rightarrow> 3 | _ \<Rightarrow> 4)"

definition run_limit :: "int \<Rightarrow> nat" where
  "run_limit limit = (if limit \<le> 0 \<or> limit > 500 then 100 else nat limit)"

definition ListPrinterRuns :: "string \<Rightarrow> int \<Rightarrow> db \<Rightarrow> print_run list" where
  "ListPrinterRuns printerID limit d =
     take (run_limit limit)
       (sort_key (\<lambda>r. (status_rank (r_status r),
           if active_status (r_status r) then int (r_queue_sequence r) else - int (r_queue_sequence r)))
         (runsWhere (\<lambda>r. r_printer_id r = printerID) d))"

definition open_run :: "print_run \<Rightarrow> bool" where
  "open_run r = (active_status (r_status r) \<or> retry_candidate r)"

definition attention_run :: "print_run \<Rightarrow> bool" where
  "attention_run r = ((r_status r = RunUncertain \<and> r_resolution r = None) \<or>
     (r_status r = RunFailed \<and> \<not> r_retryable r \<and> r_resolution r = None))"

definition HasActiveRuns :: "string \<Rightarrow> db \<Rightarrow> bool" where
  "HasActiveRuns printerID d = (length (runsWhere (\<lambda>r. r_printer_id r = printerID \<and> open_run r) d) > 0)"

definition HasProcessingRun :: "string \<Rightarrow> db \<Rightarrow> bool" where
  "HasProcessingRun printerID d =
     (length (runsWhere (\<lambda>r. r_printer_id r = printerID \<and> r_status r = RunProcessing) d) > 0)"

definition countByPrinter :: "(print_run \<Rightarrow> bool) \<Rightarrow> db \<Rightarrow> string \<Rightarrow> nat option" where
  "countByPrinter P d printerID =
     (let n = length (filter (\<lambda>r. r_printer_id r = printerID) (runsWhere P d))
      in if n = 0 then None else Some n)"

definition QueueDepth :: "db \<Rightarrow> string \<Rightarrow> nat option" where
  "QueueDepth = countByPrinter open_run"

definition AttentionCount :: "db \<Rightarrow> string \<Rightarrow> nat option" where
  "AttentionCount = countByPrinter attention_run"

section \<open>Restart and retention\<close>

definition abandon :: "time \<Rightarrow> print_run \<Rightarrow> print_run" where
  "abandon now r = r\<lparr>r_status := RunUncertain, r_retryable := False,
     r_error_code := Some ''agent_restart_during_processing'',
     r_error_message := Some ''agent restarted while processing'', r_finished_at := Some now\<rparr>"

definition RecoverAbandoned :: "time \<Rightarrow> db \<Rightarrow> repo_err + (print_run list \<times> db)" where
  "RecoverAbandoned now d =
     sum_bind (lift_db (update_runs (\<lambda>r. r_status r = RunProcessing) (abandon now) d)) (\<lambda>(_, d').
       Inr (map (abandon now) (filter (\<lambda>r. r_status r = RunProcessing) (db_runs d)), d'))"

definition unresolved_work :: "db \<Rightarrow> job \<Rightarrow> bool" where
  "unresolved_work d j \<longleftrightarrow> (\<exists>r \<in> set (db_runs d). r_job_uid r = j_uid j \<and>
     (active_status (r_status r) \<or>
      ((r_status r = RunFailed \<or> r_status r = RunUncertain) \<and> r_resolution r = None \<and>
       \<not> (\<exists>jp \<in> set (db_targets d). t_job_uid jp = r_job_uid r \<and> t_printer_id jp = r_printer_id r \<and>
            t_cancelled_at jp \<noteq> None))))"

text \<open>Printer events are stored with three digits after the second, unlike everything else here.\<close>

definition event_ts :: "time \<Rightarrow> stamp" where
  "event_ts t = (t div second, 46 # map (\<lambda>d. 48 + d) (digits 3 (nat (t mod second div millisecond))) @ [90])"

definition PurgeExpired :: "time \<Rightarrow> db \<Rightarrow> db" where
  "PurgeExpired now d =
     delete_events (\<lambda>e. event_ts (ev_created_at e) < ts (now - retentionWindow))
       (delete_jobs (\<lambda>j. ts (j_expires_at j) < ts now \<and> \<not> unresolved_work d j) d)"

definition isUniqueViolation :: "repo_err \<Rightarrow> bool" where
  "isUniqueViolation e = (e = ErrDB UniqueViolation)"

lemmas [repo_defs] = InsertJob_def ClaimNextQueued_def transition_def MarkTransmitted_def
  MarkFailed_def MarkUncertain_def CancelRun_def ResolveUncertain_def cancel_target_def
  CancelTargets_def reprint_target_def InsertManualReprints_def materialize_at_def
  materializeRetry_def MaterializeRetries_def RecoverAbandoned_def PurgeExpired_def
  clear_retryable_def clear_retryable_always_def extend_retention_def

end
