(* ===== verification/EscposText.thy ===== *)
theory EscposText
  imports TimeText "HOL-Library.Word"
begin

text \<open>
  \<open>internal/escpos/builder.go\<close> and \<open>encoding.go\<close>: the document builder. Text is a list of
  runes (\<open>[]rune\<close>, code points), a document a list of bytes. The single-byte character maps
  of golang.org/x/text are not under src/: the encoder is the parameter \<open>enc\<close>, which returns
  the bytes of one rune or \<open>None\<close> for the error of an unmappable one.
\<close>

type_synonym byte = "8 word"
type_synonym runes = "nat list"

definition lit :: "string \<Rightarrow> runes" where
  "lit s = map of_char s"

section \<open>Code pages\<close>

datatype charmap = CodePage437 | CodePage850 | CodePage858 | Windows1252

record code_page =
  cp_enc :: charmap
  cp_escposN :: byte

type_synonym encoder = "charmap \<Rightarrow> nat \<Rightarrow> byte list option"

definition codePages :: "string \<rightharpoonup> code_page" where
  "codePages = [
     ''CP437'' \<mapsto> \<lparr>cp_enc = CodePage437, cp_escposN = 0\<rparr>,
     ''CP850'' \<mapsto> \<lparr>cp_enc = CodePage850, cp_escposN = 2\<rparr>,
     ''CP858'' \<mapsto> \<lparr>cp_enc = CodePage858, cp_escposN = 19\<rparr>,
     ''CP1252'' \<mapsto> \<lparr>cp_enc = Windows1252, cp_escposN = 16\<rparr>,
     ''WINDOWS-1252'' \<mapsto> \<lparr>cp_enc = Windows1252, cp_escposN = 16\<rparr>]"

definition SupportedEncodings :: "string list" where
  "SupportedEncodings = [''CP437'', ''CP850'', ''CP858'', ''CP1252'']"

definition lookupCodePage :: "string \<Rightarrow> code_page option" where
  "lookupCodePage name = codePages (to_upper name)"

text \<open>\<open>unicode.IsControl\<close>: the code points of category Cc.\<close>

definition is_control :: "nat \<Rightarrow> bool" where
  "is_control r = (r < 32 \<or> (127 \<le> r \<and> r \<le> 159))"

definition encode_rune :: "encoder \<Rightarrow> code_page \<Rightarrow> nat \<Rightarrow> byte list" where
  "encode_rune enc cp r =
     (if is_control r then [63]
      else case enc (cp_enc cp) r of
             None \<Rightarrow> [63]
           | Some bs \<Rightarrow> if bs = [] then [63] else bs)"

definition encodeText :: "encoder \<Rightarrow> code_page \<Rightarrow> runes \<Rightarrow> byte list" where
  "encodeText enc cp s = concat (map (encode_rune enc cp) s)"

section \<open>Line wrapping\<close>

fun split_on :: "nat \<Rightarrow> runes \<Rightarrow> runes list" where
  "split_on c [] = [[]]"
| "split_on c (x # xs) =
     (if x = c then [] # split_on c xs
      else case split_on c xs of [] \<Rightarrow> [[x]] | p # ps \<Rightarrow> (x # p) # ps)"

text \<open>\<open>for i := width; i > 0; i--\<close>: the last space at an index between 1 and \<open>width\<close>.\<close>

fun find_space :: "nat \<Rightarrow> runes \<Rightarrow> nat option" where
  "find_space 0 rs = None"
| "find_space (Suc i) rs = (if rs ! Suc i = 32 then Some (Suc i) else find_space i rs)"

definition cut_at :: "nat \<Rightarrow> runes \<Rightarrow> nat" where
  "cut_at width rs = (case find_space width rs of None \<Rightarrow> width | Some i \<Rightarrow> i)"

definition trim_right :: "runes \<Rightarrow> runes" where
  "trim_right rs = rev (dropWhile (\<lambda>r. r = 32) (rev rs))"

lemma find_space_bounds: "find_space w rs = Some i \<Longrightarrow> 0 < i \<and> i \<le> w"
  by (induction w) (auto split: if_splits)

lemma cut_at_bounds: "0 < w \<Longrightarrow> 0 < cut_at w rs \<and> cut_at w rs \<le> w"
  by (auto simp: cut_at_def dest: find_space_bounds split: option.splits)

lemma length_dropWhile_drop:
  "0 < n \<Longrightarrow> rs \<noteq> [] \<Longrightarrow> length (dropWhile P (drop n rs)) < length rs"
  by (metis drop_eq_Nil diff_less le_less_trans length_drop length_dropWhile_le length_greater_0_conv)

text \<open>
  The loop over one paragraph. \<open>wrap\<close> replaces a width below 1 by 32 before it starts, so the
  width is positive here; with width 0 the cut would not move.
\<close>

function wrap_para :: "nat \<Rightarrow> runes \<Rightarrow> runes list" where
  "wrap_para width rs =
     (if rs = [] \<or> width = 0 then []
      else if length rs \<le> width then [rs]
      else (let cut = cut_at width rs in
            trim_right (take cut rs) # wrap_para width (dropWhile (\<lambda>r. r = 32) (drop cut rs))))"
  by pat_completeness auto
termination
  by (relation "measure (\<lambda>(w, rs). length rs)") (auto intro: length_dropWhile_drop simp: cut_at_bounds)

declare wrap_para.simps [simp del]

definition effective_width :: "int \<Rightarrow> nat" where
  "effective_width width = (if width \<le> 0 then 32 else nat width)"

definition wrap :: "runes \<Rightarrow> int \<Rightarrow> runes list" where
  "wrap s width =
     concat (map (\<lambda>para. if para = [] then [[]] else wrap_para (effective_width width) para) (split_on 10 s))"

section \<open>The builder\<close>

record builder =
  b_buf :: "byte list"
  b_cp :: code_page
  b_width :: int
  b_double :: bool

definition AlignLeft :: byte where "AlignLeft = 0"
definition AlignCenter :: byte where "AlignCenter = 1"
definition AlignRight :: byte where "AlignRight = 2"

definition NewBuilder :: "string \<Rightarrow> int \<Rightarrow> builder option" where
  "NewBuilder encodingName width =
     (case lookupCodePage encodingName of
        None \<Rightarrow> None
      | Some cp \<Rightarrow> Some \<lparr>b_buf = [], b_cp = cp, b_width = (if width \<le> 0 then 32 else width), b_double = False\<rparr>)"

definition emit_raw :: "byte list \<Rightarrow> builder \<Rightarrow> builder" where
  "emit_raw bs b = b\<lparr>b_buf := b_buf b @ bs\<rparr>"

definition Init :: "builder \<Rightarrow> builder" where
  "Init b = emit_raw [0x1B, 116, cp_escposN (b_cp b)] (emit_raw [0x1B, 64] b)"

definition Align :: "byte \<Rightarrow> builder \<Rightarrow> builder" where
  "Align a = emit_raw [0x1B, 97, a]"

definition Bold :: "bool \<Rightarrow> builder \<Rightarrow> builder" where
  "Bold on = emit_raw [0x1B, 69, if on then 1 else 0]"

definition DoubleSize :: "bool \<Rightarrow> builder \<Rightarrow> builder" where
  "DoubleSize on b = emit_raw [0x1D, 33, if on then 0x30 else 0] (b\<lparr>b_double := on\<rparr>)"

definition textWidth :: "builder \<Rightarrow> int" where
  "textWidth b = (if b_double b then max 1 (b_width b div 2) else b_width b)"

definition emit_line :: "encoder \<Rightarrow> runes \<Rightarrow> builder \<Rightarrow> builder" where
  "emit_line enc line b = b\<lparr>b_buf := b_buf b @ encodeText enc (b_cp b) line @ [10]\<rparr>"

definition Text :: "encoder \<Rightarrow> runes \<Rightarrow> builder \<Rightarrow> builder" where
  "Text enc s b = fold (emit_line enc) (wrap s (textWidth b)) b"

definition TextDouble :: "encoder \<Rightarrow> runes \<Rightarrow> builder \<Rightarrow> builder" where
  "TextDouble enc s b = fold (emit_line enc) (wrap s (b_width b div 2)) b"

text \<open>
  \<open>strings.Repeat\<close> panics on a negative count; \<open>two_columns_pad\<close> below shows that the count is
  at least 1 here.
\<close>

definition two_columns_pad :: "int \<Rightarrow> runes \<Rightarrow> runes \<Rightarrow> int" where
  "two_columns_pad width line right = width - int (length line) - int (length right)"

definition TwoColumns :: "encoder \<Rightarrow> runes \<Rightarrow> runes \<Rightarrow> builder \<Rightarrow> builder" where
  "TwoColumns enc left right b =
     (let width = textWidth b;
          avail = width - int (length right) - 1 in
      if avail < 4
      then Align AlignLeft (Text enc right (Align AlignRight (Text enc left b)))
      else (let lines = wrap left avail in
            Text enc (last lines @ replicate (nat (two_columns_pad width (last lines) right)) 32 @ right)
              (fold (Text enc) (butlast lines) b)))"

definition Separator :: "encoder \<Rightarrow> builder \<Rightarrow> builder" where
  "Separator enc b = Text enc (replicate (nat (b_width b)) 45) b"

definition Feed :: "byte \<Rightarrow> builder \<Rightarrow> builder" where
  "Feed n = emit_raw [0x1B, 100, n]"

definition Cut :: "builder \<Rightarrow> builder" where
  "Cut = emit_raw [0x1D, 86, 66, 3]"

definition DrawerPulse :: "builder \<Rightarrow> builder" where
  "DrawerPulse = emit_raw [0x1B, 112, 0, 60, 120]"

lemmas builder_defs = emit_raw_def Init_def Align_def Bold_def DoubleSize_def emit_line_def Feed_def
  Cut_def DrawerPulse_def


section \<open>Wrapping: width, content, shape\<close>

lemma length_trim_right: "length (trim_right rs) \<le> length rs"
  unfolding trim_right_def by (metis length_dropWhile_le length_rev)

lemma set_trim_right: "set (trim_right rs) \<subseteq> set rs"
  unfolding trim_right_def by (auto dest: set_dropWhileD)

lemma filter_dropWhile_space: "filter (\<lambda>r. r \<noteq> 32) (dropWhile (\<lambda>r. r = 32) rs) = filter (\<lambda>r. r \<noteq> (32::nat)) rs"
  by (induction rs) auto

lemma filter_trim_right: "filter (\<lambda>r. r \<noteq> 32) (trim_right rs) = filter (\<lambda>r. r \<noteq> 32) rs"
  unfolding trim_right_def by (simp add: filter_dropWhile_space flip: rev_filter)

lemma wrap_para_width: "0 < w \<Longrightarrow> l \<in> set (wrap_para w rs) \<Longrightarrow> length l \<le> w"
proof (induction w rs rule: wrap_para.induct)
  case (1 w rs)
  have "length (trim_right (take (cut_at w rs) rs)) \<le> w"
    using cut_at_bounds [OF "1.prems"(1), of rs] length_trim_right [of "take (cut_at w rs) rs"] by simp
  with 1 show ?case
    by (subst (asm) wrap_para.simps) (auto simp: Let_def split: if_splits)
qed

lemma wrap_para_content:
  "0 < w \<Longrightarrow> filter (\<lambda>r. r \<noteq> 32) (concat (wrap_para w rs)) = filter (\<lambda>r. r \<noteq> 32) rs"
proof (induction w rs rule: wrap_para.induct)
  case (1 w rs)
  have split: "filter (\<lambda>r. r \<noteq> 32) (take n rs) @ filter (\<lambda>r. r \<noteq> 32) (drop n rs) = filter (\<lambda>r. r \<noteq> 32) rs" for n
    by (metis append_take_drop_id filter_append)
  from 1 show ?case
    by (subst wrap_para.simps) (auto simp: Let_def filter_trim_right filter_dropWhile_space split)
qed

lemma wrap_para_set: "l \<in> set (wrap_para w rs) \<Longrightarrow> set l \<subseteq> set rs"
proof (induction w rs rule: wrap_para.induct)
  case (1 w rs)
  have a: "set (trim_right (take (cut_at w rs) rs)) \<subseteq> set rs"
    using set_trim_right [of "take (cut_at w rs) rs"] set_take_subset by fastforce
  have b: "set (dropWhile (\<lambda>r. r = 32) (drop (cut_at w rs) rs)) \<subseteq> set rs"
    by (meson set_drop_subset set_dropWhileD subset_iff)
  from "1.prems" show ?case
    by (subst (asm) wrap_para.simps) (use a b "1.IH" in \<open>auto simp: Let_def split: if_splits\<close>)
qed

lemma wrap_para_nonempty: "0 < w \<Longrightarrow> rs \<noteq> [] \<Longrightarrow> wrap_para w rs \<noteq> []"
  by (subst wrap_para.simps) (simp add: Let_def)

lemma effective_width_pos [simp]: "0 < effective_width w"
  by (simp add: effective_width_def)

lemma split_on_nonempty [simp]: "split_on c s \<noteq> []"
  by (cases s) (auto split: list.splits)

lemma concat_split_on: "concat (split_on c s) = filter (\<lambda>r. r \<noteq> c) s"
  by (induction s) (auto split: list.splits)

lemma split_on_notin: "p \<in> set (split_on c s) \<Longrightarrow> c \<notin> set p"
  by (induction s arbitrary: p) (auto split: list.splits if_splits)

lemma split_on_single: "c \<notin> set s \<Longrightarrow> split_on c s = [s]"
  by (induction s) auto

lemma wrap_line_width: "l \<in> set (wrap s w) \<Longrightarrow> length l \<le> effective_width w"
  by (auto simp: wrap_def wrap_para_width split: if_splits)

lemma wrap_no_newline: "l \<in> set (wrap s w) \<Longrightarrow> 10 \<notin> set l"
  by (auto simp: wrap_def dest: split_on_notin wrap_para_set split: if_splits)

lemma wrap_nonempty: "wrap s w \<noteq> []"
proof -
  obtain p ps where "split_on 10 s = p # ps" by (cases "split_on 10 s") auto
  then show ?thesis by (simp add: wrap_def wrap_para_nonempty)
qed

lemma wrap_content:
  "filter (\<lambda>r. r \<noteq> 32) (concat (wrap s w)) = filter (\<lambda>r. r \<noteq> 32 \<and> r \<noteq> 10) s"
proof -
  have "filter (\<lambda>r. r \<noteq> 32) (concat (concat (map (\<lambda>p. if p = [] then [[]] else wrap_para (effective_width w) p) ps)))
      = filter (\<lambda>r. r \<noteq> 32) (concat ps)" for ps
    by (induction ps) (auto simp: wrap_para_content)
  then show ?thesis by (simp add: wrap_def concat_split_on conj_commute)
qed

lemma wrap_single: "10 \<notin> set s \<Longrightarrow> length s \<le> effective_width w \<Longrightarrow> wrap s w = [s]"
  by (subst wrap_def) (auto simp: split_on_single wrap_para.simps)

section \<open>Encoding\<close>

definition single_byte :: "encoder \<Rightarrow> bool" where
  "single_byte enc = (\<forall>cp r bs. enc cp r = Some bs \<longrightarrow> length bs = 1)"

definition keeps_control_apart :: "encoder \<Rightarrow> bool" where
  "keeps_control_apart enc =
     (\<forall>cp r bs b. enc cp r = Some bs \<longrightarrow> \<not> is_control r \<longrightarrow> b \<in> set bs \<longrightarrow> 32 \<le> unat b \<and> unat b \<noteq> 127)"

lemma length_encode_rune: "single_byte enc \<Longrightarrow> length (encode_rune enc cp r) = 1"
  by (auto simp: encode_rune_def single_byte_def split: option.splits)

lemma length_encodeText: "single_byte enc \<Longrightarrow> length (encodeText enc cp s) = length s"
  by (induction s) (simp_all add: encodeText_def length_encode_rune)

lemma encodeText_printable:
  assumes "keeps_control_apart enc" "b \<in> set (encodeText enc cp s)"
  shows "32 \<le> unat b \<and> unat b \<noteq> 127"
proof -
  obtain r where r: "b \<in> set (encode_rune enc cp r)"
    using assms(2) by (auto simp: encodeText_def)
  show ?thesis
  proof (cases "is_control r \<or> enc (cp_enc cp) r = None \<or> enc (cp_enc cp) r = Some []")
    case True
    with r have "b = 63" by (auto simp: encode_rune_def split: if_splits)
    then show ?thesis by simp
  next
    case False
    then obtain bs where "enc (cp_enc cp) r = Some bs" "b \<in> set bs"
      using r by (auto simp: encode_rune_def split: if_splits)
    then show ?thesis using assms(1) False unfolding keeps_control_apart_def by blast
  qed
qed

section \<open>What the builder appends\<close>

definition line_bytes :: "encoder \<Rightarrow> code_page \<Rightarrow> runes list \<Rightarrow> byte list" where
  "line_bytes enc cp ls = concat (map (\<lambda>l. encodeText enc cp l @ [10]) ls)"

lemma line_bytes_append [simp]: "line_bytes enc cp (xs @ ys) = line_bytes enc cp xs @ line_bytes enc cp ys"
  by (simp add: line_bytes_def)

lemma fold_emit_line:
  "fold (emit_line enc) ls b = b\<lparr>b_buf := b_buf b @ line_bytes enc (b_cp b) ls\<rparr>"
  by (induction ls arbitrary: b) (simp_all add: emit_line_def line_bytes_def)

lemma Text_buf: "Text enc s b = b\<lparr>b_buf := b_buf b @ line_bytes enc (b_cp b) (wrap s (textWidth b))\<rparr>"
  by (simp add: Text_def fold_emit_line)

lemma TextDouble_buf:
  "TextDouble enc s b = b\<lparr>b_buf := b_buf b @ line_bytes enc (b_cp b) (wrap s (b_width b div 2))\<rparr>"
  by (simp add: TextDouble_def fold_emit_line)

lemma textWidth_update [simp]: "textWidth (b\<lparr>b_buf := x\<rparr>) = textWidth b"
  by (simp add: textWidth_def)

lemma textWidth_pos: "0 < b_width b \<Longrightarrow> 0 < textWidth b"
  by (auto simp: textWidth_def less_max_iff_disj)

lemma fold_Text_single:
  assumes "\<And>l. l \<in> set ls \<Longrightarrow> wrap l (textWidth b) = [l]"
  shows "fold (Text enc) ls b = b\<lparr>b_buf := b_buf b @ line_bytes enc (b_cp b) ls\<rparr>"
  using assms
proof (induction ls arbitrary: b)
  case Nil
  then show ?case by (simp add: line_bytes_def)
next
  case (Cons l ls)
  define b' where "b' = b\<lparr>b_buf := b_buf b @ line_bytes enc (b_cp b) [l]\<rparr>"
  have hd: "Text enc l b = b'" using Cons.prems by (simp add: Text_buf b'_def)
  have "fold (Text enc) ls b' = b'\<lparr>b_buf := b_buf b' @ line_bytes enc (b_cp b') ls\<rparr>"
    using Cons.prems by (intro Cons.IH) (simp add: b'_def)
  then show ?case by (simp add: hd) (simp add: b'_def line_bytes_def)
qed

lemma two_columns_pad_pos:
  assumes "line \<in> set (wrap left (width - int (length right) - 1))" "4 \<le> width - int (length right) - 1"
  shows "1 \<le> two_columns_pad width line right"
  using wrap_line_width [OF assms(1)] assms(2)
  by (simp add: two_columns_pad_def effective_width_def split: if_splits)

text \<open>
  The two-column branch of \<open>TwoColumns\<close>: the appended lines are those of the wrapped left column,
  the last of them padded to the full width and ended by the right column.
\<close>

lemma TwoColumns_lines:
  fixes left right :: runes
  assumes "0 < b_width b" "10 \<notin> set right" "4 \<le> textWidth b - int (length right) - 1"
  defines "lines \<equiv> wrap left (textWidth b - int (length right) - 1)"
  shows "TwoColumns enc left right b = b\<lparr>b_buf := b_buf b @ line_bytes enc (b_cp b)
      (butlast lines @ [last lines @ replicate (nat (two_columns_pad (textWidth b) (last lines) right)) 32 @ right])\<rparr>"
proof -
  define w where "w = textWidth b"
  define pad where "pad = replicate (nat (two_columns_pad w (last lines) right)) (32::nat)"
  have w: "0 < w" "effective_width w = nat w"
    using textWidth_pos [OF assms(1)] by (simp_all add: w_def effective_width_def)
  have ne: "lines \<noteq> []" by (simp add: lines_def wrap_nonempty)
  have narrow: "length l \<le> effective_width (w - int (length right) - 1)" "10 \<notin> set l" if "l \<in> set lines" for l
    using that wrap_line_width wrap_no_newline by (auto simp: lines_def w_def)
  have fit: "wrap l w = [l]" if "l \<in> set lines" for l
    using narrow [OF that] assms(3) w
    by (intro wrap_single) (auto simp: effective_width_def w_def split: if_splits)
  have pos: "1 \<le> two_columns_pad w (last lines) right"
    using two_columns_pad_pos [of "last lines" left w right] assms(3) ne
    by (simp add: lines_def w_def)
  have last: "wrap (last lines @ pad @ right) w = [last lines @ pad @ right]"
    using narrow [of "last lines"] ne assms(2) pos w
    by (intro wrap_single) (auto simp: pad_def two_columns_pad_def)
  have body: "fold (Text enc) (butlast lines) b = b\<lparr>b_buf := b_buf b @ line_bytes enc (b_cp b) (butlast lines)\<rparr>"
    by (intro fold_Text_single) (metis fit in_set_butlastD w_def)
  have "TwoColumns enc left right b =
      Text enc (last lines @ pad @ right) (fold (Text enc) (butlast lines) b)"
    using assms(3) by (simp add: TwoColumns_def Let_def lines_def pad_def w_def)
  then show ?thesis
    using last by (simp add: body Text_buf w_def pad_def)
qed

end
