(* ===== verification/EscposTemplates.thy ===== *)
theory EscposTemplates
  imports EscposText Config "HOL-Library.Signed_Division"
begin

text \<open>
  \<open>internal/escpos/templates.go\<close>: the receipt templates, the validation of their data and
  \<open>Renderer.Render\<close>. What comes from outside src/ or from the host is a field of
  \<open>escpos_env\<close>: the character maps, the reflective decoding of encoding/json into the template
  structs (with unknown fields and trailing values refused), local time formatting and the
  clock. Money is \<open>int64\<close>, a \<open>64 word\<close> read with \<open>sint\<close>.
\<close>

type_synonym int64 = "64 word"

definition TemplateCustomerReceipt :: string where "TemplateCustomerReceipt = ''customer-receipt''"
definition TemplateKitchenTicket :: string where "TemplateKitchenTicket = ''kitchen-ticket''"
definition TemplateBarTicket :: string where "TemplateBarTicket = ''bar-ticket''"
definition TemplateTestPage :: string where "TemplateTestPage = ''test-page''"

lemmas template_names = TemplateCustomerReceipt_def TemplateKitchenTicket_def
  TemplateBarTicket_def TemplateTestPage_def

record item =
  it_name :: runes
  it_quantity :: int
  it_price_cents :: int64
  it_notes :: runes

record station_data =
  sd_order_number :: runes
  sd_created_at :: time
  sd_items :: "item list"

record receipt_data =
  rd_store_name :: runes
  rd_header_lines :: "runes list"
  rd_order_number :: runes
  rd_created_at :: time
  rd_items :: "item list"
  rd_total_cents :: "int64 option"
  rd_currency :: runes
  rd_payment_method :: runes
  rd_footer_lines :: "runes list"
  rd_open_drawer :: bool

record test_page_data =
  tp_printer_id :: runes
  tp_line :: runes

record render_options =
  ro_reprint :: bool
  ro_run_number :: int
  ro_accepted_at :: time

record escpos_env =
  ee_enc :: encoder
  ee_station :: "string \<Rightarrow> station_data option"
  ee_receipt :: "string \<Rightarrow> receipt_data option"
  ee_test_page :: "string \<Rightarrow> test_page_data option"
  ee_local_format :: "string \<Rightarrow> time \<Rightarrow> runes"
  ee_now :: time

datatype field_name = Field string | ItemName nat | ItemNotes nat | HeaderFooterLine nat

datatype template_error =
    DataRequired
  | InvalidJSON
  | FieldRequired field_name
  | FieldTooLong field_name nat
  | FieldControlCharacter field_name
  | ItemCount
  | QuantityRange nat
  | PriceOverflow nat
  | TotalRequired
  | TooManyLines
  | UnknownTemplate string
  | UnsupportedEncoding string
  | NilDereference

section \<open>Validation\<close>

definition strictDecode :: "(string \<Rightarrow> 'a option) \<Rightarrow> string \<Rightarrow> template_error + 'a" where
  "strictDecode dec raw =
     (if raw = [] then Inl DataRequired
      else case dec raw of None \<Rightarrow> Inl InvalidJSON | Some d \<Rightarrow> Inr d)"

definition validateText :: "field_name \<Rightarrow> runes \<Rightarrow> nat \<Rightarrow> bool \<Rightarrow> template_error + unit" where
  "validateText name value maxRunes required =
     (if required \<and> value = [] then Inl (FieldRequired name)
      else if length value > maxRunes then Inl (FieldTooLong name maxRunes)
      else if \<exists>r \<in> set value. is_control r then Inl (FieldControlCharacter name)
      else Inr ())"

definition MaxInt64 :: int where "MaxInt64 = 2 ^ 63 - 1"
definition MinInt64 :: int where "MinInt64 = - (2 ^ 63)"

definition price_overflows :: "item \<Rightarrow> bool" where
  "price_overflows it =
     (let q = it_quantity it; p = sint (it_price_cents it) in
      (p > 0 \<and> p > MaxInt64 sdiv q) \<or> (p < 0 \<and> p < MinInt64 sdiv q))"

definition validateItem :: "bool \<Rightarrow> nat \<Rightarrow> item \<Rightarrow> template_error + unit" where
  "validateItem prices i it =
     sum_bind (validateText (ItemName i) (it_name it) 200 True) (\<lambda>_.
     sum_bind (validateText (ItemNotes i) (it_notes it) 500 False) (\<lambda>_.
     if it_quantity it < 1 \<or> it_quantity it > 999 then Inl (QuantityRange i)
     else if prices \<and> price_overflows it then Inl (PriceOverflow i)
     else Inr ()))"

definition validateItems :: "item list \<Rightarrow> bool \<Rightarrow> template_error + unit" where
  "validateItems items prices =
     (if items = [] \<or> length items > 100 then Inl ItemCount
      else fold_sum (\<lambda>_ (i, it). validateItem prices i it) () (enumerate 0 items))"

text \<open>
  The three optional texts of a receipt are checked in the iteration order of a Go map; any order
  accepts the same data, and the model takes the order of the literal.
\<close>

definition ValidateTemplateData :: "escpos_env \<Rightarrow> string \<Rightarrow> string \<Rightarrow> template_error + unit" where
  "ValidateTemplateData env template rawdata =
    (if template = TemplateKitchenTicket \<or> template = TemplateBarTicket then
       sum_bind (strictDecode (ee_station env) rawdata) (\<lambda>d.
       sum_bind (validateText (Field ''orderNumber'') (sd_order_number d) 100 True) (\<lambda>_.
       validateItems (sd_items d) False))
     else if template = TemplateCustomerReceipt then
       sum_bind (strictDecode (ee_receipt env) rawdata) (\<lambda>d.
       sum_bind (validateText (Field ''orderNumber'') (rd_order_number d) 100 True) (\<lambda>_.
       if rd_total_cents d = None then Inl TotalRequired
       else if length (rd_header_lines d) > 20 \<or> length (rd_footer_lines d) > 20 then Inl TooManyLines
       else
       sum_bind (fold_sum (\<lambda>_ (name, value). validateText name value 200 False) ()
          [(Field ''storeName'', rd_store_name d), (Field ''currency'', rd_currency d),
           (Field ''paymentMethod'', rd_payment_method d)]) (\<lambda>_.
       sum_bind (fold_sum (\<lambda>_ (i, l). validateText (HeaderFooterLine i) l 200 False) ()
          (enumerate 0 (rd_header_lines d @ rd_footer_lines d))) (\<lambda>_.
       validateItems (rd_items d) True))))
     else if template = TemplateTestPage then
       sum_bind (strictDecode (ee_test_page env) (if rawdata = [] then ''{}'' else rawdata)) (\<lambda>d.
       sum_bind (validateText (Field ''printerId'') (tp_printer_id d) 100 False) (\<lambda>_.
       validateText (Field ''line'') (tp_line d) 500 False))
     else Inl (UnknownTemplate template))"

section \<open>Formatting\<close>

fun decimal :: "nat \<Rightarrow> runes" where
  "decimal n = (if n < 10 then [48 + n] else decimal (n div 10) @ [48 + n mod 10])"

declare decimal.simps [simp del]

definition decimal_int :: "int \<Rightarrow> runes" where
  "decimal_int i = (if i < 0 then 45 # decimal (nat (- i)) else decimal (nat i))"

definition two_digits :: "nat \<Rightarrow> runes" where
  "two_digits n = (if n < 10 then 48 # decimal n else decimal n)"

definition magnitude :: "int64 \<Rightarrow> int64" where
  "magnitude cents = (if sint cents < 0 then - (cents + 1) + 1 else cents)"

definition money :: "int64 \<Rightarrow> runes \<Rightarrow> runes" where
  "money cents currency =
     (let currency = (if currency = [] then [8364] else currency);
          m = magnitude cents;
          sign = (if sint cents < 0 then [45] else []) in
      sign @ decimal (unat (m div 100)) @ [46] @ two_digits (unat (m mod 100)) @ [32] @ currency)"

definition item_title :: "item \<Rightarrow> runes" where
  "item_title it = decimal_int (it_quantity it) @ lit ''x '' @ it_name it"

definition item_total :: "item \<Rightarrow> int64" where
  "item_total it = it_price_cents it * word_of_int (it_quantity it)"

section \<open>The templates\<close>

definition renderTimestamp :: "escpos_env \<Rightarrow> time \<Rightarrow> builder \<Rightarrow> builder" where
  "renderTimestamp env value b =
     (if \<not> is_zero_time value
      then Text (ee_enc env) (ee_local_format env ''02/01/2006 15:04'' value) b else b)"

definition receipt_item :: "escpos_env \<Rightarrow> runes \<Rightarrow> item \<Rightarrow> builder \<Rightarrow> builder" where
  "receipt_item env currency it b =
     (let b = TwoColumns (ee_enc env) (item_title it) (money (item_total it) currency) b in
      if it_notes it \<noteq> [] then Text (ee_enc env) (lit ''   '' @ it_notes it) b else b)"

definition renderCustomerReceipt :: "escpos_env \<Rightarrow> string \<Rightarrow> builder \<Rightarrow> template_error + builder" where
  "renderCustomerReceipt env rawdata b =
     sum_bind (strictDecode (ee_receipt env) rawdata) (\<lambda>d.
     (let enc = ee_enc env;
          b = Align AlignCenter b;
          b = (if rd_store_name d \<noteq> []
               then Bold False (TextDouble enc (rd_store_name d) (Bold True b)) else b);
          b = fold (Text enc) (rd_header_lines d) b;
          b = Bold False (Text enc (lit ''Pedido '' @ rd_order_number d)
                (Bold True (Separator enc (Align AlignLeft b))));
          b = renderTimestamp env (rd_created_at d) b;
          b = Separator enc b;
          b = fold (receipt_item env (rd_currency d)) (rd_items d) b;
          b = DoubleSize True (Bold True (Separator enc b)) in
      case rd_total_cents d of
        None \<Rightarrow> Inl NilDereference
      | Some cents \<Rightarrow>
         (let b = TwoColumns enc (lit ''TOTAL'') (money cents (rd_currency d)) b;
              b = Bold False (DoubleSize False b);
              b = (if rd_payment_method d \<noteq> []
                   then Text enc (lit ''Pago: '' @ rd_payment_method d) b else b);
              b = (if rd_footer_lines d \<noteq> []
                   then Align AlignLeft (fold (Text enc) (rd_footer_lines d)
                          (Align AlignCenter (Separator enc b)))
                   else b) in
          Inr (if rd_open_drawer d then DrawerPulse b else b))))"

definition station_item :: "escpos_env \<Rightarrow> item \<Rightarrow> builder \<Rightarrow> builder" where
  "station_item env it b =
     (let b = Bold False (TextDouble (ee_enc env) (item_title it) (Bold True b)) in
      if it_notes it \<noteq> [] then Text (ee_enc env) (lit ''   >> '' @ it_notes it) b else b)"

definition renderStationTicket :: "runes \<Rightarrow> escpos_env \<Rightarrow> string \<Rightarrow> builder \<Rightarrow> template_error + builder" where
  "renderStationTicket title env rawdata b =
     sum_bind (strictDecode (ee_station env) rawdata) (\<lambda>d.
     (let enc = ee_enc env;
          b = Bold False (Text enc title (Bold True (Align AlignCenter b)));
          b = DoubleSize False (Bold False (TextDouble enc (35 # sd_order_number d)
                (Bold True (DoubleSize True b))));
          b = renderTimestamp env (sd_created_at d) b;
          b = Separator enc (Align AlignLeft b) in
      Inr (fold (station_item env) (sd_items d) b)))"

definition renderKitchenTicket :: "escpos_env \<Rightarrow> string \<Rightarrow> builder \<Rightarrow> template_error + builder" where
  "renderKitchenTicket = renderStationTicket (lit ''COCINA'')"

definition renderBarTicket :: "escpos_env \<Rightarrow> string \<Rightarrow> builder \<Rightarrow> template_error + builder" where
  "renderBarTicket = renderStationTicket (lit ''BARRA'')"

definition charset_line :: runes where
  "charset_line = lit ''Charset: '' @ [225, 32, 233, 32, 237, 32, 243, 32, 250, 32, 241, 32, 209, 32, 191, 32, 161, 32, 8364]"

definition renderTestPage :: "escpos_env \<Rightarrow> string \<Rightarrow> render_options \<Rightarrow> builder \<Rightarrow> template_error + builder" where
  "renderTestPage env rawdata opts b =
     sum_bind (if rawdata \<noteq> [] then strictDecode (ee_test_page env) rawdata
               else Inr \<lparr>tp_printer_id = [], tp_line = []\<rparr>) (\<lambda>d.
     (let enc = ee_enc env;
          b = Text enc (lit ''Test page'') (Bold False (Text enc (lit ''PRINT AGENT'')
                (Bold True (Align AlignCenter b))));
          b = (if tp_printer_id d \<noteq> [] then TextDouble enc (tp_printer_id d) b else b);
          stamp = (if is_zero_time (ro_accepted_at opts) then ee_now env else ro_accepted_at opts);
          b = Text enc (ee_local_format env ''02/01/2006 15:04:05'' stamp) (Separator enc (Align AlignLeft b));
          b = Text enc (lit ''Normal text 1234567890'') (Text enc charset_line b);
          b = Bold False (Text enc (lit ''Bold text'') (Bold True b));
          b = DoubleSize False (TextDouble enc (lit ''Double size'') (DoubleSize True b));
          b = Text enc (lit ''left'') (Align AlignLeft (Text enc (lit ''center'') (Align AlignCenter
                (Text enc (lit ''right'') (Align AlignRight b)))));
          b = (if tp_line d \<noteq> [] then Text enc (tp_line d) (Separator enc b) else b) in
      Inr (Text enc (lit ''OK'') (Separator enc b))))"

section \<open>Render\<close>

definition KnownTemplate :: "string \<Rightarrow> bool" where
  "KnownTemplate name =
     (name \<in> {TemplateCustomerReceipt, TemplateKitchenTicket, TemplateBarTicket, TemplateTestPage})"

definition TemplateNames :: "string list" where
  "TemplateNames = sort [TemplateCustomerReceipt, TemplateKitchenTicket, TemplateBarTicket, TemplateTestPage]"

definition render_body ::
  "escpos_env \<Rightarrow> string \<Rightarrow> string \<Rightarrow> render_options \<Rightarrow> builder \<Rightarrow> template_error + builder" where
  "render_body env template rawdata opts b =
     (if template = TemplateCustomerReceipt then renderCustomerReceipt env rawdata b
      else if template = TemplateKitchenTicket then renderKitchenTicket env rawdata b
      else if template = TemplateBarTicket then renderBarTicket env rawdata b
      else renderTestPage env rawdata opts b)"

definition reprint_marker :: "int \<Rightarrow> runes" where
  "reprint_marker runNumber =
     (if runNumber > 0 then lit ''*** REPRINT - RUN '' @ decimal_int runNumber @ lit '' ***''
      else lit ''*** REPRINT ***'')"

definition render_marker :: "escpos_env \<Rightarrow> render_options \<Rightarrow> builder \<Rightarrow> builder" where
  "render_marker env opts b =
     (if ro_reprint opts
      then Align AlignLeft (Bold False (Text (ee_enc env) (reprint_marker (ro_run_number opts))
             (Bold True (Align AlignCenter b))))
      else b)"

definition Render ::
  "escpos_env \<Rightarrow> string \<Rightarrow> string \<Rightarrow> string \<Rightarrow> int \<Rightarrow> render_options \<Rightarrow> template_error + byte list" where
  "Render env template rawdata encodingName charactersPerLine opts =
     (if \<not> KnownTemplate template then Inl (UnknownTemplate template)
      else sum_bind (ValidateTemplateData env template rawdata) (\<lambda>_.
      case NewBuilder encodingName charactersPerLine of
        None \<Rightarrow> Inl (UnsupportedEncoding encodingName)
      | Some b \<Rightarrow>
         sum_bind (render_body env template rawdata opts (render_marker env opts (Init b))) (\<lambda>b.
         Inr (b_buf (Cut (Feed 4 b))))))"

end
