(* ===== verification/Json.thy ===== *)
theory Json
  imports Prelude "HOL-Library.Multiset"
begin

text \<open>
  The JSON values \<open>canonicalJSON\<close> and the request hashes of \<open>internal/jobs/service.go\<close> go through.
  \<open>json\<close> is the syntax of a text (members in the order written, duplicates kept); \<open>go_value\<close>
  is what decoding into an \<open>any\<close> with \<open>UseNumber\<close> makes of it: objects become maps, in which the last
  member of a name wins and which \<open>json.Marshal\<close> writes in the order of their keys. Scanning the
  text and quoting a string are parameters.
\<close>

datatype json =
    JNull
  | JBool bool
  | JNumber string
  | JString string
  | JArray "json list"
  | JObject "(string \<times> json) list"

definition json_space :: "char \<Rightarrow> bool" where
  "json_space c = (c = CHR '' '' \<or> of_char c = (9::nat) \<or> of_char c = (10::nat) \<or> of_char c = (13::nat))"

fun separated :: "string \<Rightarrow> string list \<Rightarrow> string" where
  "separated s [] = []"
| "separated s [x] = x"
| "separated s (x # y # xs) = x @ s @ separated s (y # xs)"

section \<open>Decoding into \<open>any\<close>\<close>

text \<open>The map of an object, as the list of its entries in key order.\<close>

definition map_entries :: "(string \<times> 'a) list \<Rightarrow> (string \<times> 'a) list" where
  "map_entries kvs =
     map (\<lambda>k. (k, the (map_of (rev kvs) k))) (sorted_list_of_set (fst ` set kvs))"

fun go_value :: "json \<Rightarrow> json" where
  "go_value (JArray xs) = JArray (map go_value xs)"
| "go_value (JObject kvs) = JObject (map_entries (map (map_prod id go_value) kvs))"
| "go_value v = v"

section \<open>Writing\<close>

fun marshal :: "(string \<Rightarrow> string) \<Rightarrow> json \<Rightarrow> string" where
  "marshal quote JNull = ''null''"
| "marshal quote (JBool b) = (if b then ''true'' else ''false'')"
| "marshal quote (JNumber n) = n"
| "marshal quote (JString s) = quote s"
| "marshal quote (JArray xs) = ''['' @ separated '','' (map (marshal quote) xs) @ '']''"
| "marshal quote (JObject kvs) =
     ''{'' @ separated '','' (map (\<lambda>(k, v). quote k @ '':'' @ marshal quote v) kvs) @ ''}''"

section \<open>Order of members\<close>

text \<open>The order of the members of an object, when their names differ, is not part of its value.\<close>

lemma map_entries_perm:
  assumes "distinct (map fst kvs)" "mset kvs = mset kvs'"
  shows "map_entries kvs' = map_entries kvs"
proof -
  have s: "set kvs' = set kvs" using assms(2) by (metis set_mset_mset)
  have "distinct (map fst kvs')" using assms by (metis mset_eq_imp_distinct_iff mset_map)
  then have "map_of (rev kvs') = map_of (rev kvs)"
    using assms(1) s by (metis distinct_rev map_of_inject_set rev_map set_rev)
  then show ?thesis using s by (simp add: map_entries_def)
qed

text \<open>A later member of a name replaces an earlier one.\<close>

lemma map_entries_last_wins:
  "k \<in> fst ` set after \<Longrightarrow> map_entries (before @ (k, v) # after) = map_entries (before @ after)"
proof -
  assume k: "k \<in> fst ` set after"
  have "map_of (rev (before @ (k, v) # after)) = map_of (rev (before @ after))"
  proof
    fix x
    obtain w where "map_of (rev after) k = Some w"
      using k by (metis map_of_eq_None_iff not_None_eq set_rev)
    then show "map_of (rev (before @ (k, v) # after)) x = map_of (rev (before @ after)) x"
      by (cases "map_of (rev after) x") (auto simp: map_add_def)
  qed
  moreover have "fst ` set (before @ (k, v) # after) = fst ` set (before @ after)"
    using k by auto
  ultimately show ?thesis by (simp add: map_entries_def)
qed

end
