(* ===== verification/JobService.thy ===== *)
theory JobService
  imports JobRepository EscposTemplates Json
begin

text \<open>
  \<open>internal/jobs/service.go\<close>. Each call of the repository is a transaction of its own, so what other
  goroutines commit between two of them is an argument \<open>other\<close> of the operations that make more
  than one decision. The clock, the random identifiers, JSON scanning, string quoting and SHA-256
  are parameters; the printer directory is the interface the service declares.
\<close>

record service_env =
  se_escpos :: escpos_env
  se_scan :: "string \<Rightarrow> (json \<times> string) option"
  se_quote :: "string \<Rightarrow> string"
  se_sha256 :: "byte list \<Rightarrow> string"

record printer_dir =
  PrinterExists :: "string \<Rightarrow> bool"
  PrinterConfig :: "string \<Rightarrow> printer_config option"

record create_request =
  cr_job_id :: string
  cr_template :: string
  cr_data :: string
  cr_printer_ids :: "string list"
  cr_source :: string
  cr_owner :: string

record reprint_request =
  rq_request_id :: string
  rq_printer_ids :: "string list"
  rq_reason :: string

record reprint_result =
  rr_job_uid :: string
  rr_request_id :: string
  rr_duplicate :: bool
  rr_print_runs :: "print_run list"

datatype validation_error =
    JobIDLength | TemplateLength | DataLength | DataNotJSON
  | PrinterCount | PrinterEmpty nat | PrinterTwice string
  | TemplateUnknown | DataRejected template_error | PrinterUnknown string
  | PrinterGone string | RenderFailed string template_error
  | RequestIDLength | ReasonLength

datatype conflict_code =
    idempotency_conflict | printer_unavailable | active_print_run | invalid_state
  | content_changed

datatype service_err =
    Invalid validation_error
  | Conflict conflict_code
  | Repo repo_err

datatype effect =
    JobAccepted string string
  | PrintRunQueued string string
  | PrintRunResolved string string
  | PrintRunCancelled string string
  | WakePrinter string

definition maxPayloadBytes :: nat where "maxPayloadBytes = 64 * 1024"
definition maxPrinters :: nat where "maxPrinters = 20"

text \<open>The bytes of a Go string.\<close>

definition string_bytes :: "string \<Rightarrow> byte list" where
  "string_bytes s = map (\<lambda>c. word_of_nat (of_char c)) s"

section \<open>Canonical requests and their hashes\<close>

definition canonicalJSON :: "service_env \<Rightarrow> string \<Rightarrow> string option" where
  "canonicalJSON env raw_json = (case se_scan env raw_json of
     None \<Rightarrow> None
   | Some (v, rest) \<Rightarrow> if list_all json_space rest then Some (marshal (se_quote env) (go_value v)) else None)"

definition check_id :: "string list \<Rightarrow> nat \<Rightarrow> service_err + unit" where
  "check_id out i =
     (if out ! i = [] then Inl (Invalid (PrinterEmpty i))
      else if i > 0 \<and> out ! i = out ! (i - 1) then Inl (Invalid (PrinterTwice (out ! i)))
      else Inr ())"

definition canonicalPrinterIDs :: "string list \<Rightarrow> service_err + string list" where
  "canonicalPrinterIDs ids =
     (if ids = [] \<or> length ids > maxPrinters then Inl (Invalid PrinterCount)
      else (let out = sort ids in
            sum_bind (fold_sum (\<lambda>_. check_id out) () [0..<length out]) (\<lambda>_. Inr out)))"

definition hashBytes :: "service_env \<Rightarrow> byte list \<Rightarrow> string" where
  "hashBytes env bytes = se_sha256 env bytes"

definition ContentHash :: "service_env \<Rightarrow> byte list \<Rightarrow> string" where
  "ContentHash = hashBytes"

definition id_list :: "service_env \<Rightarrow> string list \<Rightarrow> string" where
  "id_list env ids = marshal (se_quote env) (JArray (map JString ids))"

definition jobRequestHash :: "service_env \<Rightarrow> string \<Rightarrow> string \<Rightarrow> string \<Rightarrow> string list \<Rightarrow> string" where
  "jobRequestHash env jobID templ canonical ids = hashBytes env (string_bytes
     (''{\"version\":1,\"jobId\":'' @ se_quote env jobID @ '',\"template\":'' @ se_quote env templ @
      '',\"data\":'' @ canonical @ '',\"printerIds\":'' @ id_list env ids @ ''}''))"

definition reprintRequestHash :: "service_env \<Rightarrow> reprint_request \<Rightarrow> string list \<Rightarrow> string" where
  "reprintRequestHash env req ids = hashBytes env (string_bytes
     (''{\"version\":1,\"printerIds\":'' @ id_list env ids @ '',\"reason\":'' @ se_quote env (rq_reason req) @ ''}''))"

section \<open>Content hashes\<close>

datatype content_err = CannotRender template_error | AcceptedOutputChanged string

definition renderHash ::
    "service_env \<Rightarrow> job \<Rightarrow> job_printer \<Rightarrow> content_mode \<Rightarrow> nat \<Rightarrow> content_err + string" where
  "renderHash env job target mode runNumber =
     (let render = Render (se_escpos env) (j_template job) (j_data job) (t_encoding target) (t_characters_per_line target) in
      sum_bind (map_err CannotRender
          (render \<lparr>ro_reprint = False, ro_run_number = 0, ro_accepted_at = j_created_at job\<rparr>)) (\<lambda>normal.
      let normalHash = hashBytes env normal in
      if t_accepted_content_hash target \<noteq> [] \<and> normalHash \<noteq> t_accepted_content_hash target
      then Inl (AcceptedOutputChanged (t_printer_id target))
      else if mode = ContentNormal then Inr normalHash
      else sum_bind (map_err CannotRender
          (render \<lparr>ro_reprint = True, ro_run_number = int runNumber, ro_accepted_at = j_created_at job\<rparr>))
        (\<lambda>reprint. Inr (hashBytes env reprint))))"

definition ExpectedContentHash where
  "ExpectedContentHash = renderHash"

section \<open>Accept\<close>

definition duplicateResult :: "job \<Rightarrow> string \<Rightarrow> string \<Rightarrow> db \<Rightarrow> service_err + job_detail" where
  "duplicateResult existing owner hash d =
     (if owner \<noteq> ''local'' \<and> j_owner_origin existing \<noteq> owner then Inl (Conflict idempotency_conflict)
      else if j_request_hash existing \<noteq> hash then Inl (Conflict idempotency_conflict)
      else sum_bind (map_err Repo (GetDetail (j_uid existing) d)) (\<lambda>detail. Inr (detail\<lparr>d_duplicate := True\<rparr>)))"

definition publishQueued :: "print_run \<Rightarrow> effect list" where
  "publishQueued run = [PrintRunQueued (r_printer_id run) (r_uid run), WakePrinter (r_printer_id run)]"

text \<open>The body of the loop over the printers of the request, in the order of the request.\<close>

definition accept_target ::
    "service_env \<Rightarrow> printer_dir \<Rightarrow> job \<Rightarrow> (string \<Rightarrow> string option) \<Rightarrow>
     job_printer list \<times> print_run list \<Rightarrow> nat \<times> string \<Rightarrow>
     service_err + (job_printer list \<times> print_run list)" where
  "accept_target env dir job fresh acc x = (case acc of (targets, runs) \<Rightarrow> case x of (order, printerID) \<Rightarrow>
     (case PrinterConfig dir printerID of
        None \<Rightarrow> Inl (Invalid (PrinterGone printerID))
      | Some cfg \<Rightarrow>
          sum_bind (map_err (\<lambda>e. Invalid (RenderFailed printerID e))
              (Render (se_escpos env) (j_template job) (j_data job) (pc_encoding cfg) (pc_characters_per_line cfg)
                 \<lparr>ro_reprint = False, ro_run_number = 0, ro_accepted_at = j_created_at job\<rparr>)) (\<lambda>content.
          let target = \<lparr>t_job_uid = j_uid job, t_printer_id = printerID, t_target_order = order,
                        t_encoding = pc_encoding cfg, t_characters_per_line = pc_characters_per_line cfg,
                        t_accepted_content_hash = hashBytes env content, t_cancelled_at = None,
                        t_cancellation_reason = None\<rparr> in
          sum_bind (map_err Repo (newID (fresh printerID))) (\<lambda>runUID.
          Inr (targets @ [target],
               runs @ [fresh_run runUID (j_uid job) printerID 1 TriggerInitial ContentNormal
                         (t_accepted_content_hash target) (j_created_at job)])))))"

definition accept_inputs :: "service_env \<Rightarrow> create_request \<Rightarrow> service_err + (string \<times> string list \<times> string)" where
  "accept_inputs env req =
     sum_bind (guard_err (Invalid JobIDLength) (cr_job_id req \<noteq> [] \<and> length (cr_job_id req) \<le> 200)) (\<lambda>_.
     sum_bind (guard_err (Invalid TemplateLength) (cr_template req \<noteq> [] \<and> length (cr_template req) \<le> 100)) (\<lambda>_.
     sum_bind (guard_err (Invalid DataLength) (cr_data req \<noteq> [] \<and> length (cr_data req) \<le> maxPayloadBytes)) (\<lambda>_.
     case canonicalJSON env (cr_data req) of
       None \<Rightarrow> Inl (Invalid DataNotJSON)
     | Some canonical \<Rightarrow>
         sum_bind (canonicalPrinterIDs (cr_printer_ids req)) (\<lambda>ids.
         Inr (canonical, ids, jobRequestHash env (cr_job_id req) (cr_template req) canonical ids)))))"

definition accept_checks ::
    "service_env \<Rightarrow> printer_dir \<Rightarrow> create_request \<Rightarrow> string \<Rightarrow> string list \<Rightarrow> service_err + unit" where
  "accept_checks env dir req canonical ids =
     sum_bind (guard_err (Invalid TemplateUnknown) (KnownTemplate (cr_template req))) (\<lambda>_.
     sum_bind (map_err (\<lambda>e. Invalid (DataRejected e))
        (ValidateTemplateData (se_escpos env) (cr_template req) canonical)) (\<lambda>_.
     fold_sum (\<lambda>_ p. guard_err (Invalid (PrinterUnknown p)) (PrinterExists dir p)) () ids))"

definition accepted_job :: "create_request \<Rightarrow> string \<Rightarrow> string \<Rightarrow> string \<Rightarrow> time \<Rightarrow> job" where
  "accepted_job req uid canonical hash now =
     (let owner = or_default [] ''local'' (cr_owner req) in
      \<lparr>j_uid = uid, j_job_id = cr_job_id req, j_template = cr_template req, j_data = canonical,
       j_request_hash = hash, j_source = or_default [] owner (cr_source req), j_owner_origin = owner,
       j_created_at = now, j_expires_at = now + retentionWindow\<rparr>)"

text \<open>
  The result, the database after the call and the events published. \<open>other\<close> is what other
  goroutines commit between the lookup of the identity and the insertion.
\<close>

definition Accept ::
    "service_env \<Rightarrow> printer_dir \<Rightarrow> create_request \<Rightarrow> time \<Rightarrow> string option \<Rightarrow> (string \<Rightarrow> string option) \<Rightarrow>
     (db \<Rightarrow> db) \<Rightarrow> db \<Rightarrow> (service_err + job_detail) \<times> db \<times> effect list" where
  "Accept env dir req now fresh_job fresh_runs other d =
    (let owner = or_default [] ''local'' (cr_owner req) in
     case accept_inputs env req of
       Inl e \<Rightarrow> (Inl e, d, [])
     | Inr (canonical, ids, hash) \<Rightarrow>
        (case GetJobByIdentity (cr_job_id req) (cr_template req) d of
           Inr existing \<Rightarrow> (duplicateResult existing owner hash d, d, [])
         | Inl _ \<Rightarrow>
            (case sum_bind (accept_checks env dir req canonical ids) (\<lambda>_.
                  sum_bind (map_err Repo (newID fresh_job)) (\<lambda>uid.
                  let job = accepted_job req uid canonical hash now in
                  sum_bind (fold_sum (accept_target env dir job fresh_runs) ([], [])
                              (enumerate 0 (cr_printer_ids req))) (\<lambda>(targets, runs).
                  Inr (job, targets, runs)))) of
               Inl e \<Rightarrow> (Inl e, d, [])
             | Inr (job, targets, runs) \<Rightarrow>
                (let d = other d in
                 case InsertJob job targets runs d of
                   Inr d' \<Rightarrow> (Inr (DeriveJob job targets runs), d',
                              JobAccepted (j_job_id job) (j_uid job) # concat (map publishQueued runs))
                 | Inl e \<Rightarrow>
                    (case (if isUniqueViolation e then GetJobByIdentity (cr_job_id req) (cr_template req) d
                           else Inl ErrNotFound) of
                       Inr existing \<Rightarrow> (duplicateResult existing owner hash d, d, [])
                     | Inl _ \<Rightarrow> (Inl (Repo e), d, []))))))"

section \<open>Reading\<close>

definition owner_sees :: "string \<Rightarrow> job \<Rightarrow> bool" where
  "owner_sees owner j = (owner = [] \<or> owner = ''local'' \<or> j_owner_origin j = owner)"

definition Get :: "string \<Rightarrow> string \<Rightarrow> db \<Rightarrow> service_err + job_detail" where
  "Get uid owner d = sum_bind (map_err Repo (GetDetail uid d)) (\<lambda>detail.
     if owner_sees owner (d_job detail) then Inr detail else Inl (Repo ErrNotFound))"

record job_list_item =
  li_uid :: string
  li_job_id :: string
  li_template :: string
  li_created_at :: time
  li_updated_at :: time
  li_completed_at :: "time option"
  li_state :: job_state
  li_fulfilled_printer_count :: nat
  li_original_printer_count :: nat
  li_partially_fulfilled :: bool
  li_requires_attention :: bool
  li_has_uncertain_result :: bool
  li_has_manual_reprints :: bool
  li_manual_reprint_requires_attention :: bool

definition ListItem :: "job_detail \<Rightarrow> job_list_item" where
  "ListItem d = \<lparr>li_uid = j_uid (d_job d), li_job_id = j_job_id (d_job d), li_template = j_template (d_job d),
     li_created_at = j_created_at (d_job d), li_updated_at = d_updated_at d, li_completed_at = d_completed_at d,
     li_state = d_state d, li_fulfilled_printer_count = d_fulfilled_printer_count d,
     li_original_printer_count = d_original_printer_count d, li_partially_fulfilled = d_partially_fulfilled d,
     li_requires_attention = d_requires_attention d, li_has_uncertain_result = d_has_uncertain_result d,
     li_has_manual_reprints = d_has_manual_reprints d,
     li_manual_reprint_requires_attention = d_manual_reprint_requires_attention d\<rparr>"

definition List_jobs ::
    "string \<Rightarrow> string \<Rightarrow> string \<Rightarrow> string \<Rightarrow> int \<Rightarrow> time option \<Rightarrow> string \<Rightarrow> db \<Rightarrow>
     service_err + job_list_item list" where
  "List_jobs jobID templ attention owner limit before beforeUID d =
     sum_bind (map_err Repo (ListJobDetails jobID templ attention owner limit before beforeUID d))
       (\<lambda>details. Inr (map ListItem details))"

definition service_GetRun :: "string \<Rightarrow> string \<Rightarrow> db \<Rightarrow> service_err + print_run" where
  "service_GetRun uid owner d =
     sum_bind (map_err Repo (GetRun uid d)) (\<lambda>run.
     sum_bind (map_err Repo (GetJob (r_job_uid run) d)) (\<lambda>job.
     if owner_sees owner job then Inr run else Inl (Repo ErrNotFound)))"

section \<open>Reprint\<close>

definition reprintDuplicate ::
    "string \<Rightarrow> string \<Rightarrow> string \<Rightarrow> dedup_row \<Rightarrow> db \<Rightarrow> service_err + reprint_result" where
  "reprintDuplicate jobUID requestID hash rec d =
     (if dd_request_hash rec \<noteq> hash then Inl (Conflict idempotency_conflict)
      else Inr \<lparr>rr_job_uid = jobUID, rr_request_id = requestID, rr_duplicate = True,
                rr_print_runs = RunsForReprintRequest jobUID requestID d\<rparr>)"

definition reprint_render_of :: "service_env \<Rightarrow> reprint_render" where
  "reprint_render_of env job target runNumber =
     (case renderHash env job target ContentReprint runNumber of
        Inl _ \<Rightarrow> Inl ''content_changed'' | Inr h \<Rightarrow> Inr h)"

definition reprint_error :: "repo_err \<Rightarrow> service_err" where
  "reprint_error e =
     (if e = ErrStateChanged \<or> isUniqueViolation e then Conflict active_print_run
      else case e of ErrRender _ \<Rightarrow> Conflict content_changed | _ \<Rightarrow> Repo e)"

definition Reprint ::
    "service_env \<Rightarrow> printer_dir \<Rightarrow> string \<Rightarrow> reprint_request \<Rightarrow> string \<Rightarrow> time \<Rightarrow> (string \<Rightarrow> string option) \<Rightarrow>
     (db \<Rightarrow> db) \<Rightarrow> db \<Rightarrow> (service_err + reprint_result) \<times> db \<times> effect list" where
  "Reprint env dir jobUID req owner now fresh other d =
    (case sum_bind (guard_err (Invalid RequestIDLength)
             (rq_request_id req \<noteq> [] \<and> length (rq_request_id req) \<le> 250)) (\<lambda>_.
          sum_bind (guard_err (Invalid ReasonLength) (length (rq_reason req) \<le> 500)) (\<lambda>_.
          sum_bind (canonicalPrinterIDs (rq_printer_ids req)) (\<lambda>ids.
          sum_bind (map_err Repo (GetJob jobUID d)) (\<lambda>job.
          if owner_sees owner job then Inr ids else Inl (Repo ErrNotFound))))) of
       Inl e \<Rightarrow> (Inl e, d, [])
     | Inr ids \<Rightarrow>
        (let hash = reprintRequestHash env req ids in
         case GetDeduplication ''manual_reprint'' jobUID (rq_request_id req) d of
           Inr rec \<Rightarrow> (reprintDuplicate jobUID (rq_request_id req) hash rec d, d, [])
         | Inl _ \<Rightarrow>
            (case fold_sum (\<lambda>_ p. guard_err (Conflict printer_unavailable) (PrinterExists dir p)) () ids of
               Inl e \<Rightarrow> (Inl e, d, [])
             | Inr _ \<Rightarrow>
                (let d = other d in
                 case InsertManualReprints jobUID (rq_request_id req) hash (rq_reason req) ids now fresh
                        (reprint_render_of env) d of
                   Inr (runs, d') \<Rightarrow>
                     (Inr \<lparr>rr_job_uid = jobUID, rr_request_id = rq_request_id req, rr_duplicate = False,
                           rr_print_runs = runs\<rparr>, d', concat (map publishQueued runs))
                 | Inl e \<Rightarrow>
                     (if e = ErrDuplicateRequest
                      then (sum_bind (map_err Repo (GetDeduplication ''manual_reprint'' jobUID (rq_request_id req) d))
                              (\<lambda>rec. reprintDuplicate jobUID (rq_request_id req) hash rec d), d, [])
                      else (Inl (reprint_error e), d, []))))))"

section \<open>The operator's decisions\<close>

definition ConfirmPrinted :: "string \<Rightarrow> time \<Rightarrow> db \<Rightarrow> (service_err + unit) \<times> db \<times> effect list" where
  "ConfirmPrinted runUID now d =
     (case GetRun runUID d of
        Inl e \<Rightarrow> (Inl (Repo e), d, [])
      | Inr run \<Rightarrow>
         (case ResolveUncertain runUID (Some ResolutionConfirmedPrinted) now d of
            Inl _ \<Rightarrow> (Inl (Conflict invalid_state), d, [])
          | Inr d' \<Rightarrow> (Inr (), d', [PrintRunResolved (r_printer_id run) (r_uid run)])))"

definition service_CancelRun :: "string \<Rightarrow> time \<Rightarrow> time \<Rightarrow> db \<Rightarrow> (service_err + unit) \<times> db \<times> effect list" where
  "service_CancelRun runUID now later_now d =
     (case GetRun runUID d of
        Inl e \<Rightarrow> (Inl (Repo e), d, [])
      | Inr run \<Rightarrow>
         (case CancelRun runUID now later_now d of
            Inl _ \<Rightarrow> (Inl (Conflict invalid_state), d, [])
          | Inr d' \<Rightarrow> (Inr (), d', [PrintRunCancelled (r_printer_id run) (r_uid run)])))"

definition CancelJobTargets ::
    "string \<Rightarrow> string list \<Rightarrow> string \<Rightarrow> time \<Rightarrow> db \<Rightarrow> (service_err + unit) \<times> db" where
  "CancelJobTargets jobUID printerIDs reason now d =
     (case sum_bind (canonicalPrinterIDs printerIDs) (\<lambda>ids.
           sum_bind (guard_err (Invalid ReasonLength) (length reason \<le> 500)) (\<lambda>_. Inr ids)) of
        Inl e \<Rightarrow> (Inl e, d)
      | Inr ids \<Rightarrow>
         (case CancelTargets jobUID ids reason now d of
            Inr d' \<Rightarrow> (Inr (), d')
          | Inl e \<Rightarrow>
             (Inl (if e = ErrTargetFulfilled then Conflict invalid_state
                   else if e = ErrStateChanged then Conflict active_print_run else Repo e), d)))"

end
