(* ===== verification/Transport.thy ===== *)
theory Transport
  imports EscposText Config
begin

text \<open>
  \<open>internal/transport\<close> and the two Linux transports (\<open>platform/linux/rfcomm.go\<close>,
  \<open>platform/linux/gatt.go\<close>): how a document is handed to the operating system in chunks, and how a
  failure is classified. What the system does with the k-th chunk (it returns, a timer fires first,
  the context ends first) is an argument \<open>ev\<close>. Next to each loop stands the question the
  classification has to answer: may a byte of the document have left the agent?
\<close>

section \<open>Errors\<close>

datatype ctx_err = Canceled | DeadlineExceeded

datatype write_cause =
    NotConnected
  | ErrWriteTimeout
  | CtxErr ctx_err
  | OSError string
  | ShortWrite nat nat

datatype write_outcome = WriteNotSent | WriteAmbiguous

record write_error =
  we_bytes_written :: nat
  we_outcome :: write_outcome
  we_err :: write_cause

definition Ambiguous :: "write_error \<Rightarrow> bool" where
  "Ambiguous e = (we_outcome e = WriteAmbiguous \<or> we_bytes_written e > 0 \<or> we_err e = ErrWriteTimeout)"

section \<open>Serial ports and RFCOMM sockets\<close>

datatype io_event = Returned nat "string option" | TimerFired | CtxDone ctx_err

definition writeChunkSize :: nat where "writeChunkSize = 512"
definition rfcommWriteChunkSize :: nat where "rfcommWriteChunkSize = 512"

definition serial_writeChunk :: "io_event \<Rightarrow> byte list \<Rightarrow> nat \<times> write_cause option" where
  "serial_writeChunk ev chunk = (case ev of
     Returned n (Some e) \<Rightarrow> (n, Some (OSError e))
   | Returned n None \<Rightarrow> if n < length chunk then (n, Some (ShortWrite n (length chunk))) else (n, None)
   | TimerFired \<Rightarrow> (0, Some ErrWriteTimeout)
   | CtxDone e \<Rightarrow> (0, Some (CtxErr e)))"

definition rfcomm_writeChunk :: "io_event \<Rightarrow> byte list \<Rightarrow> nat \<times> write_cause option" where
  "rfcomm_writeChunk ev chunk = (case ev of
     Returned n (Some e) \<Rightarrow> (n, Some (OSError e))
   | Returned n None \<Rightarrow> if n \<noteq> length chunk then (n, Some (ShortWrite n (length chunk))) else (n, None)
   | CtxDone e \<Rightarrow> (0, Some (CtxErr e))
   | TimerFired \<Rightarrow> (0, Some ErrWriteTimeout))"

definition chunk_outcome :: "nat \<Rightarrow> write_cause \<Rightarrow> write_outcome" where
  "chunk_outcome written err =
     (if written > 0 \<or> err = ErrWriteTimeout \<or> err = CtxErr Canceled then WriteAmbiguous else WriteNotSent)"

text \<open>
  The loops of the two \<open>Write\<close> methods: \<open>k\<close> counts the chunks handed over. The result is the
  error, if any, and, for the specification, the chunks with what became of each. A chunk is never
  empty, so a chunk without error makes progress.
\<close>

function serial_loop ::
    "(nat \<Rightarrow> io_event) \<Rightarrow> nat \<Rightarrow> nat \<Rightarrow> byte list \<Rightarrow> write_error option \<times> (io_event \<times> byte list) list" where
  "serial_loop ev k written doc =
     (if written < length doc then
        (let chunk = take writeChunkSize (drop written doc) in
         case serial_writeChunk (ev k) chunk of
           (n, Some e) \<Rightarrow>
             (Some \<lparr>we_bytes_written = written + n, we_outcome = chunk_outcome (written + n) e, we_err = e\<rparr>,
              [(ev k, chunk)])
         | (n, None) \<Rightarrow> apsnd (\<lambda>handed. (ev k, chunk) # handed) (serial_loop ev (k + 1) (written + n) doc))
      else (None, []))"
  by pat_completeness auto
termination
  by (relation "measure (\<lambda>(ev, k, written, doc). length doc - written)")
    (auto simp: serial_writeChunk_def writeChunkSize_def split: io_event.split_asm option.split_asm if_split_asm)

function rfcomm_loop ::
    "(nat \<Rightarrow> io_event) \<Rightarrow> nat \<Rightarrow> nat \<Rightarrow> byte list \<Rightarrow> write_error option \<times> (io_event \<times> byte list) list" where
  "rfcomm_loop ev k written doc =
     (if written < length doc then
        (let chunk = take rfcommWriteChunkSize (drop written doc) in
         case rfcomm_writeChunk (ev k) chunk of
           (n, Some e) \<Rightarrow>
             (Some \<lparr>we_bytes_written = written + n, we_outcome = chunk_outcome (written + n) e, we_err = e\<rparr>,
              [(ev k, chunk)])
         | (n, None) \<Rightarrow> apsnd (\<lambda>handed. (ev k, chunk) # handed) (rfcomm_loop ev (k + 1) (written + n) doc))
      else (None, []))"
  by pat_completeness auto
termination
  by (relation "measure (\<lambda>(ev, k, written, doc). length doc - written)")
    (auto simp: rfcomm_writeChunk_def rfcommWriteChunkSize_def split: io_event.split_asm option.split_asm if_split_asm)

declare serial_loop.simps [simp del] rfcomm_loop.simps [simp del]

text \<open>A connection is open or closed; an error closes it.\<close>

definition not_connected :: write_error where
  "not_connected = \<lparr>we_bytes_written = 0, we_outcome = WriteNotSent, we_err = NotConnected\<rparr>"

definition serial_Write :: "(nat \<Rightarrow> io_event) \<Rightarrow> bool \<Rightarrow> byte list \<Rightarrow> write_error option \<times> bool" where
  "serial_Write ev connected doc =
     (if \<not> connected then (Some not_connected, connected)
      else case fst (serial_loop ev 0 0 doc) of None \<Rightarrow> (None, connected) | Some e \<Rightarrow> (Some e, False))"

definition rfcomm_Write :: "(nat \<Rightarrow> io_event) \<Rightarrow> bool \<Rightarrow> byte list \<Rightarrow> write_error option \<times> bool" where
  "rfcomm_Write ev connected doc =
     (if \<not> connected then (Some not_connected, connected)
      else case fst (rfcomm_loop ev 0 0 doc) of None \<Rightarrow> (None, connected) | Some e \<Rightarrow> (Some e, False))"

text \<open>Opening: an open transport stays as it is; the outcome of the system call, or the watchdog or the
  context that fires before it.\<close>

datatype open_event = Opened | OpenFailed string | OpenTimeout | OpenCancelled ctx_err

datatype connect_err = OpenError string | OpenTimedOut | OpenCtx ctx_err | NoConnector | BadAddress

definition serial_Connect :: "open_event \<Rightarrow> bool \<Rightarrow> connect_err option \<times> bool" where
  "serial_Connect ev connected =
     (if connected then (None, True)
      else case ev of
        Opened \<Rightarrow> (None, True)
      | OpenFailed e \<Rightarrow> (Some (OpenError e), False)
      | OpenTimeout \<Rightarrow> (Some OpenTimedOut, False)
      | OpenCancelled e \<Rightarrow> (Some (OpenCtx e), False))"

datatype stop_bits = OneStopBit | TwoStopBits
datatype serial_parity = NoParity | OddParity | EvenParity

definition serial_mode :: "printer_config \<Rightarrow> int \<times> int \<times> stop_bits \<times> serial_parity" where
  "serial_mode cfg = (pc_baud_rate cfg, pc_data_bits cfg,
     if pc_stop_bits cfg = 2 then TwoStopBits else OneStopBit,
     if pc_parity cfg = ParityOdd then OddParity else if pc_parity cfg = ParityEven then EvenParity else NoParity)"

section \<open>BLE\<close>

text \<open>
  \<open>WriteValue\<close> answers without error, or with one: \<open>timed_out\<close> when the deadline of this write had
  passed, \<open>ctx\<close> the error of the surrounding context, if it had ended, and whether the error is that
  one. Between two chunks the context may end.
\<close>

datatype gatt_event = Wrote | WroteThenCancelled ctx_err | WriteFailed bool "ctx_err option" bool string

definition gatt_chunk_size :: "int \<Rightarrow> int" where
  "gatt_chunk_size mtu =
     (let chunkSize = mtu - 3; chunkSize = (if chunkSize < 20 then 20 else chunkSize) in
      if chunkSize > 512 then 512 else chunkSize)"

function gatt_loop ::
    "int \<Rightarrow> (nat \<Rightarrow> gatt_event) \<Rightarrow> nat \<Rightarrow> nat \<Rightarrow> byte list \<Rightarrow> write_error option \<times> (gatt_event \<times> byte list) list" where
  "gatt_loop mtu ev k written doc =
     (if written < length doc then
        (let chunk = take (nat (gatt_chunk_size mtu)) (drop written doc);
             end = written + length chunk in
         case ev k of
           WriteFailed deadline ctx is_ctx e \<Rightarrow>
             (let timedOut = (deadline \<and> ctx = None);
                  err = (if timedOut \<or> (ctx \<noteq> None \<and> is_ctx) then ErrWriteTimeout else OSError e) in
              (Some \<lparr>we_bytes_written = written,
                     we_outcome = (if written > 0 \<or> timedOut \<or> ctx \<noteq> None then WriteAmbiguous else WriteNotSent),
                     we_err = err\<rparr>, [(ev k, chunk)]))
         | WroteThenCancelled e \<Rightarrow>
             if end < length doc
             then (Some \<lparr>we_bytes_written = end, we_outcome = WriteAmbiguous, we_err = CtxErr e\<rparr>, [(ev k, chunk)])
             else apsnd (\<lambda>handed. (ev k, chunk) # handed) (gatt_loop mtu ev (k + 1) end doc)
         | Wrote \<Rightarrow> apsnd (\<lambda>handed. (ev k, chunk) # handed) (gatt_loop mtu ev (k + 1) end doc))
      else (None, []))"
  by pat_completeness auto
termination
  by (relation "measure (\<lambda>(mtu, ev, k, written, doc). length doc - written)")
    (auto simp: gatt_chunk_size_def Let_def)

declare gatt_loop.simps [simp del]

definition gatt_Write :: "int \<Rightarrow> (nat \<Rightarrow> gatt_event) \<Rightarrow> bool \<Rightarrow> byte list \<Rightarrow> write_error option \<times> bool" where
  "gatt_Write mtu ev connected doc =
     (if \<not> connected then (Some not_connected, connected)
      else case fst (gatt_loop mtu ev 0 0 doc) of None \<Rightarrow> (None, connected) | Some e \<Rightarrow> (Some e, False))"

section \<open>The mock printer\<close>

record mock =
  mk_endpoint :: string
  mk_connected :: bool
  mk_writes :: "byte list list"
  mk_fail_connect :: "string option"
  mk_fail_write :: "write_cause option"
  mk_fail_after :: nat
  mk_hang_on_write :: bool
  mk_fail_write_once :: bool

definition NewMock :: "string \<Rightarrow> mock" where
  "NewMock endpoint = \<lparr>mk_endpoint = or_default [] ''mock'' endpoint, mk_connected = False, mk_writes = [],
     mk_fail_connect = None, mk_fail_write = None, mk_fail_after = 0, mk_hang_on_write = False,
     mk_fail_write_once = False\<rparr>"

definition mock_Connect :: "mock \<Rightarrow> string option \<times> mock" where
  "mock_Connect m = (case mk_fail_connect m of
     Some e \<Rightarrow> (Some e, m) | None \<Rightarrow> (None, m\<lparr>mk_connected := True\<rparr>))"

definition mock_Close :: "mock \<Rightarrow> mock" where
  "mock_Close m = m\<lparr>mk_connected := False\<rparr>"

definition mock_Write :: "byte list \<Rightarrow> mock \<Rightarrow> write_error option \<times> mock" where
  "mock_Write doc m =
     (if \<not> mk_connected m then (Some not_connected, m)
      else if mk_hang_on_write m
      then (Some \<lparr>we_bytes_written = 0, we_outcome = WriteAmbiguous, we_err = ErrWriteTimeout\<rparr>, mock_Close m)
      else case mk_fail_write m of
        Some err \<Rightarrow>
          (let n = min (mk_fail_after m) (length doc) in
           (Some \<lparr>we_bytes_written = n, we_outcome = chunk_outcome n err, we_err = err\<rparr>,
            m\<lparr>mk_writes := mk_writes m @ [take n doc],
              mk_fail_write := (if mk_fail_write_once m then None else mk_fail_write m),
              mk_connected := False\<rparr>))
      | None \<Rightarrow> (None, m\<lparr>mk_writes := mk_writes m @ [doc]\<rparr>))"

definition FailNextWrite :: "write_cause \<Rightarrow> nat \<Rightarrow> mock \<Rightarrow> mock" where
  "FailNextWrite err afterBytes m = m\<lparr>mk_fail_write := Some err, mk_fail_after := afterBytes, mk_fail_write_once := True\<rparr>"

definition SetConnectFailure :: "string option \<Rightarrow> mock \<Rightarrow> mock" where
  "SetConnectFailure err m = m\<lparr>mk_fail_connect := err\<rparr>"

section \<open>The contract\<close>

text \<open>
  \<open>send c doc\<close> is a write on the connection \<open>c\<close>: its error, and the connection afterwards.
  \<open>touched c doc\<close> is true when a byte of the document may have left the agent during it,
  \<open>accepted\<close> when the system accepted all of them. \<open>fair\<close> is what the code relies on: a write
  never reports more bytes than it was given, and the contexts of the agent are cancelled but carry
  no deadline. The classification is sound when an error that is not ambiguous means that nothing
  left.
\<close>

locale byte_channel =
  fixes send :: "'c \<Rightarrow> byte list \<Rightarrow> write_error option \<times> 'c"
    and is_open :: "'c \<Rightarrow> bool"
    and touched :: "'c \<Rightarrow> byte list \<Rightarrow> bool"
    and accepted :: "'c \<Rightarrow> byte list \<Rightarrow> bool"
    and fair :: "'c \<Rightarrow> bool"
  assumes success: "fair c \<Longrightarrow> send c doc = (None, c') \<Longrightarrow> accepted c doc"
    and failure_closes: "send c doc = (Some e, c') \<Longrightarrow> \<not> is_open c'"
    and not_sent: "fair c \<Longrightarrow> send c doc = (Some e, c') \<Longrightarrow> \<not> Ambiguous e \<Longrightarrow>
      \<not> touched c doc \<and> we_bytes_written e = 0"
    and closed_refuses: "\<not> is_open c \<Longrightarrow> send c doc = (Some not_connected, c)"
begin

text \<open>A connection that failed refuses every later document until it is opened again.\<close>

lemma fails_until_reopened: "send c doc = (Some e, c') \<Longrightarrow> send c' doc2 = (Some not_connected, c')"
  using failure_closes closed_refuses by blast

text \<open>An error is reported as ambiguous whenever a byte may have left.\<close>

lemma touched_is_ambiguous: "fair c \<Longrightarrow> send c doc = (Some e, c') \<Longrightarrow> touched c doc \<Longrightarrow> Ambiguous e"
  using not_sent by blast

end

subsection \<open>Serial ports and RFCOMM sockets\<close>

definition io_may_send :: "io_event \<Rightarrow> bool" where
  "io_may_send ev = (case ev of Returned n _ \<Rightarrow> n > 0 | _ \<Rightarrow> True)"

definition io_fair :: "(nat \<Rightarrow> io_event) \<Rightarrow> bool" where
  "io_fair ev \<longleftrightarrow> (\<forall>k. ev k \<noteq> CtxDone DeadlineExceeded \<and> (\<forall>n e. ev k = Returned n e \<longrightarrow> n \<le> 512))"

definition io_touched :: "(io_event \<times> byte list) list \<Rightarrow> bool" where
  "io_touched handed \<longleftrightarrow> (\<exists>x \<in> set handed. io_may_send (fst x))"

definition io_accepted :: "(io_event \<times> byte list) list \<Rightarrow> byte list \<Rightarrow> bool" where
  "io_accepted handed doc \<longleftrightarrow> concat (map snd handed) = doc \<and>
     (\<forall>x \<in> set handed. \<exists>n. fst x = Returned n None \<and> length (snd x) \<le> n)"

lemma serial_chunk_ok:
  "serial_writeChunk ev chunk = (n, None) \<Longrightarrow> ev = Returned n None \<and> length chunk \<le> n"
  "rfcomm_writeChunk ev chunk = (n, None) \<Longrightarrow> ev = Returned n None \<and> length chunk = n"
  by (auto simp: serial_writeChunk_def rfcomm_writeChunk_def split: io_event.split_asm option.split_asm if_split_asm)

lemma chunk_not_sent:
  assumes "wc = serial_writeChunk \<or> wc = rfcomm_writeChunk" "wc ev chunk = (n, Some e)"
    "\<not> Ambiguous \<lparr>we_bytes_written = w + n, we_outcome = chunk_outcome (w + n) e, we_err = e\<rparr>"
    "ev \<noteq> CtxDone DeadlineExceeded"
  shows "w = 0 \<and> \<not> io_may_send ev"
  using assms
  by (auto simp: Ambiguous_def chunk_outcome_def io_may_send_def serial_writeChunk_def rfcomm_writeChunk_def
      split: io_event.split_asm option.split_asm if_split_asm ctx_err.split) (metis ctx_err.exhaust)+

lemma serial_loop_not_sent:
  "io_fair ev \<Longrightarrow> serial_loop ev k w doc = (Some e, h) \<Longrightarrow> \<not> Ambiguous e \<Longrightarrow>
     w = 0 \<and> \<not> io_touched h \<and> we_bytes_written e = 0"
proof (induction ev k w doc arbitrary: h rule: serial_loop.induct)
  case (1 ev k w doc)
  obtain n r where c: "serial_writeChunk (ev k) (take writeChunkSize (drop w doc)) = (n, r)" by fastforce
  have w: "w < length doc" using "1.prems"(2) by (auto simp: serial_loop.simps [of ev k w] split: if_split_asm)
  show ?case
  proof (cases r)
    case None
    with c serial_chunk_ok(1) have "0 < n" using w by (fastforce simp: writeChunkSize_def)
    moreover obtain h' where "serial_loop ev (k + 1) (w + n) doc = (Some e, h')"
      using "1.prems"(2) w c None by (auto simp: serial_loop.simps [of ev k w] apsnd_def map_prod_def split: prod.split_asm)
    ultimately show ?thesis using "1.IH" [OF w refl c [symmetric] None "1.prems"(1)] "1.prems"(3) by simp
  next
    case (Some x)
    with "1.prems" w c have e: "e = \<lparr>we_bytes_written = w + n, we_outcome = chunk_outcome (w + n) x, we_err = x\<rparr>"
      "h = [(ev k, take writeChunkSize (drop w doc))]"
      by (auto simp: serial_loop.simps [of ev k w])
    have "w = 0 \<and> \<not> io_may_send (ev k)"
      using chunk_not_sent [of serial_writeChunk, OF _ c [unfolded Some] "1.prems"(3) [unfolded e(1)]] "1.prems"(1)
      by (simp add: io_fair_def)
    with e "1.prems"(3) show ?thesis by (auto simp: io_touched_def Ambiguous_def)
  qed
qed

lemma serial_loop_success:
  "io_fair ev \<Longrightarrow> serial_loop ev k w doc = (None, h) \<Longrightarrow> io_accepted h (drop w doc)"
proof (induction ev k w doc arbitrary: h rule: serial_loop.induct)
  case (1 ev k w doc)
  show ?case
  proof (cases "w < length doc")
    case False
    with "1.prems"(2) show ?thesis by (simp add: serial_loop.simps [of ev k w] io_accepted_def)
  next
    case w: True
    let ?chunk = "take writeChunkSize (drop w doc)"
    obtain n r where c: "serial_writeChunk (ev k) ?chunk = (n, r)" by fastforce
    with "1.prems"(2) w have r: "r = None"
      by (cases r) (auto simp: serial_loop.simps [of ev k w] Let_def)
    obtain h' where h': "serial_loop ev (k + 1) (w + n) doc = (None, h')" "h = (ev k, ?chunk) # h'"
      using "1.prems"(2) w c r by (auto simp: serial_loop.simps [of ev k w] apsnd_def map_prod_def split: prod.split_asm)
    from serial_chunk_ok(1) [OF c [unfolded r]] have n: "ev k = Returned n None" "length ?chunk \<le> n" by simp_all
    have "n \<le> 512" using "1.prems"(1) n(1) unfolding io_fair_def by blast
    then have "?chunk @ drop (w + n) doc = drop w doc"
    proof (cases "512 \<le> length doc - w")
      case True
      with n(2) \<open>n \<le> 512\<close> have "n = 512" by (simp add: writeChunkSize_def)
      then show ?thesis by (metis append_take_drop_id drop_drop add.commute writeChunkSize_def)
    qed (use n(2) w in \<open>simp add: writeChunkSize_def\<close>)
    with "1.IH" [OF w refl c [symmetric] r "1.prems"(1) h'(1)] n show ?thesis
      by (auto simp: h'(2) io_accepted_def)
  qed
qed

lemma rfcomm_loop_not_sent:
  "io_fair ev \<Longrightarrow> rfcomm_loop ev k w doc = (Some e, h) \<Longrightarrow> \<not> Ambiguous e \<Longrightarrow>
     w = 0 \<and> \<not> io_touched h \<and> we_bytes_written e = 0"
proof (induction ev k w doc arbitrary: h rule: rfcomm_loop.induct)
  case (1 ev k w doc)
  obtain n r where c: "rfcomm_writeChunk (ev k) (take rfcommWriteChunkSize (drop w doc)) = (n, r)" by fastforce
  have w: "w < length doc" using "1.prems"(2) by (auto simp: rfcomm_loop.simps [of ev k w] split: if_split_asm)
  show ?case
  proof (cases r)
    case None
    with c serial_chunk_ok(2) have "0 < n" using w by (fastforce simp: rfcommWriteChunkSize_def)
    moreover obtain h' where "rfcomm_loop ev (k + 1) (w + n) doc = (Some e, h')"
      using "1.prems"(2) w c None by (auto simp: rfcomm_loop.simps [of ev k w] apsnd_def map_prod_def split: prod.split_asm)
    ultimately show ?thesis using "1.IH" [OF w refl c [symmetric] None "1.prems"(1)] "1.prems"(3) by simp
  next
    case (Some x)
    with "1.prems" w c have e: "e = \<lparr>we_bytes_written = w + n, we_outcome = chunk_outcome (w + n) x, we_err = x\<rparr>"
      "h = [(ev k, take rfcommWriteChunkSize (drop w doc))]"
      by (auto simp: rfcomm_loop.simps [of ev k w])
    have "w = 0 \<and> \<not> io_may_send (ev k)"
      using chunk_not_sent [of rfcomm_writeChunk, OF _ c [unfolded Some] "1.prems"(3) [unfolded e(1)]] "1.prems"(1)
      by (simp add: io_fair_def)
    with e "1.prems"(3) show ?thesis by (auto simp: io_touched_def Ambiguous_def)
  qed
qed

lemma rfcomm_loop_success:
  "io_fair ev \<Longrightarrow> rfcomm_loop ev k w doc = (None, h) \<Longrightarrow> io_accepted h (drop w doc)"
proof (induction ev k w doc arbitrary: h rule: rfcomm_loop.induct)
  case (1 ev k w doc)
  show ?case
  proof (cases "w < length doc")
    case False
    with "1.prems"(2) show ?thesis by (simp add: rfcomm_loop.simps [of ev k w] io_accepted_def)
  next
    case w: True
    let ?chunk = "take rfcommWriteChunkSize (drop w doc)"
    obtain n r where c: "rfcomm_writeChunk (ev k) ?chunk = (n, r)" by fastforce
    with "1.prems"(2) w have r: "r = None"
      by (cases r) (auto simp: rfcomm_loop.simps [of ev k w] Let_def)
    obtain h' where h': "rfcomm_loop ev (k + 1) (w + n) doc = (None, h')" "h = (ev k, ?chunk) # h'"
      using "1.prems"(2) w c r by (auto simp: rfcomm_loop.simps [of ev k w] apsnd_def map_prod_def split: prod.split_asm)
    from serial_chunk_ok(2) [OF c [unfolded r]] have n: "ev k = Returned n None" "length ?chunk \<le> n" by simp_all
    have "n \<le> 512" using "1.prems"(1) n(1) unfolding io_fair_def by blast
    then have "?chunk @ drop (w + n) doc = drop w doc"
    proof (cases "512 \<le> length doc - w")
      case True
      with n(2) \<open>n \<le> 512\<close> have "n = 512" by (simp add: rfcommWriteChunkSize_def)
      then show ?thesis by (metis append_take_drop_id drop_drop add.commute rfcommWriteChunkSize_def)
    qed (use n(2) w in \<open>simp add: rfcommWriteChunkSize_def\<close>)
    with "1.IH" [OF w refl c [symmetric] r "1.prems"(1) h'(1)] n show ?thesis
      by (auto simp: h'(2) io_accepted_def)
  qed
qed

text \<open>The two transports as connections: the state of the port with the events to come.\<close>

record io_conn =
  io_open :: bool
  io_events :: "nat \<Rightarrow> io_event"

definition serial_send :: "io_conn \<Rightarrow> byte list \<Rightarrow> write_error option \<times> io_conn" where
  "serial_send c doc = apsnd (\<lambda>v. c\<lparr>io_open := v\<rparr>) (serial_Write (io_events c) (io_open c) doc)"

definition rfcomm_send :: "io_conn \<Rightarrow> byte list \<Rightarrow> write_error option \<times> io_conn" where
  "rfcomm_send c doc = apsnd (\<lambda>v. c\<lparr>io_open := v\<rparr>) (rfcomm_Write (io_events c) (io_open c) doc)"

definition serial_handed :: "io_conn \<Rightarrow> byte list \<Rightarrow> (io_event \<times> byte list) list" where
  "serial_handed c doc = (if io_open c then snd (serial_loop (io_events c) 0 0 doc) else [])"

definition rfcomm_handed :: "io_conn \<Rightarrow> byte list \<Rightarrow> (io_event \<times> byte list) list" where
  "rfcomm_handed c doc = (if io_open c then snd (rfcomm_loop (io_events c) 0 0 doc) else [])"

lemma no_chunk_untouched [simp]: "\<not> io_touched []"
  by (simp add: io_touched_def)

interpretation serial: byte_channel serial_send io_open "\<lambda>c doc. io_touched (serial_handed c doc)"
  "\<lambda>c doc. io_accepted (serial_handed c doc) doc" "\<lambda>c. io_fair (io_events c)"
proof unfold_locales
  fix c doc c' assume "io_fair (io_events c)" "serial_send c doc = (None, c')"
  then show "io_accepted (serial_handed c doc) doc"
    using serial_loop_success [of "io_events c" 0 0 doc "snd (serial_loop (io_events c) 0 0 doc)"]
    by (auto simp: serial_send_def serial_Write_def serial_handed_def prod_eq_iff split: if_split_asm option.split_asm)
next
  fix c doc e c' assume "io_fair (io_events c)" "serial_send c doc = (Some e, c')" "\<not> Ambiguous e"
  then show "\<not> io_touched (serial_handed c doc) \<and> we_bytes_written e = 0"
    using serial_loop_not_sent [of "io_events c" 0 0 doc e "snd (serial_loop (io_events c) 0 0 doc)"]
    by (auto simp: serial_send_def serial_Write_def serial_handed_def not_connected_def prod_eq_iff
        split: if_split_asm option.split_asm)
qed (auto simp: serial_send_def serial_Write_def not_connected_def split: if_split_asm option.split_asm)

interpretation rfcomm: byte_channel rfcomm_send io_open "\<lambda>c doc. io_touched (rfcomm_handed c doc)"
  "\<lambda>c doc. io_accepted (rfcomm_handed c doc) doc" "\<lambda>c. io_fair (io_events c)"
proof unfold_locales
  fix c doc c' assume "io_fair (io_events c)" "rfcomm_send c doc = (None, c')"
  then show "io_accepted (rfcomm_handed c doc) doc"
    using rfcomm_loop_success [of "io_events c" 0 0 doc "snd (rfcomm_loop (io_events c) 0 0 doc)"]
    by (auto simp: rfcomm_send_def rfcomm_Write_def rfcomm_handed_def prod_eq_iff split: if_split_asm option.split_asm)
next
  fix c doc e c' assume "io_fair (io_events c)" "rfcomm_send c doc = (Some e, c')" "\<not> Ambiguous e"
  then show "\<not> io_touched (rfcomm_handed c doc) \<and> we_bytes_written e = 0"
    using rfcomm_loop_not_sent [of "io_events c" 0 0 doc e "snd (rfcomm_loop (io_events c) 0 0 doc)"]
    by (auto simp: rfcomm_send_def rfcomm_Write_def rfcomm_handed_def not_connected_def prod_eq_iff
        split: if_split_asm option.split_asm)
qed (auto simp: rfcomm_send_def rfcomm_Write_def not_connected_def split: if_split_asm option.split_asm)

text \<open>
  Fairness matters: a context that ends by its deadline while the first chunk is in flight is
  reported as not sent by both, although \<open>gatt.go\<close> treats the same case as ambiguous.
\<close>

lemma deadline_counts_as_not_sent:
  "\<exists>e. serial_send \<lparr>io_open = True, io_events = (\<lambda>_. CtxDone DeadlineExceeded)\<rparr> [65] =
      (Some e, \<lparr>io_open = False, io_events = (\<lambda>_. CtxDone DeadlineExceeded)\<rparr>) \<and> \<not> Ambiguous e \<and>
    io_touched (serial_handed \<lparr>io_open = True, io_events = (\<lambda>_. CtxDone DeadlineExceeded)\<rparr> [65])"
  by (simp add: serial_send_def serial_Write_def serial_handed_def serial_loop.simps [of _ 0 0] serial_writeChunk_def writeChunkSize_def
      io_touched_def io_may_send_def Ambiguous_def chunk_outcome_def)

subsection \<open>BLE\<close>

definition gatt_may_send :: "gatt_event \<Rightarrow> bool" where
  "gatt_may_send ev = (case ev of WriteFailed deadline ctx _ _ \<Rightarrow> deadline \<or> ctx \<noteq> None | _ \<Rightarrow> True)"

definition gatt_touched :: "(gatt_event \<times> byte list) list \<Rightarrow> bool" where
  "gatt_touched handed \<longleftrightarrow> (\<exists>x \<in> set handed. gatt_may_send (fst x))"

definition gatt_accepted :: "(gatt_event \<times> byte list) list \<Rightarrow> byte list \<Rightarrow> bool" where
  "gatt_accepted handed doc \<longleftrightarrow> concat (map snd handed) = doc \<and>
     (\<forall>x \<in> set handed. fst x = Wrote \<or> (\<exists>e. fst x = WroteThenCancelled e))"

lemma gatt_chunk_positive: "0 < nat (gatt_chunk_size mtu)"
  by (simp add: gatt_chunk_size_def Let_def)

lemma gatt_loop_continues:
  assumes "w < length doc" "gatt_loop mtu ev k w doc = (r, h)" "\<not> (\<exists>d c i e. ev k = WriteFailed d c i e)"
    "r = None \<or> (\<exists>e. r = Some e \<and> we_outcome e = WriteNotSent)"
  shows "\<exists>h'. gatt_loop mtu ev (k + 1) (w + length (take (nat (gatt_chunk_size mtu)) (drop w doc))) doc = (r, h') \<and>
    h = (ev k, take (nat (gatt_chunk_size mtu)) (drop w doc)) # h'"
proof -
  let ?chunk = "take (nat (gatt_chunk_size mtu)) (drop w doc)"
  let ?rest = "gatt_loop mtu ev (k + 1) (w + length ?chunk) doc"
  have "gatt_loop mtu ev k w doc = apsnd (\<lambda>handed. (ev k, ?chunk) # handed) ?rest"
  proof (cases "ev k")
    case Wrote
    then show ?thesis using assms(1) by (simp only: gatt_loop.simps [of mtu ev k w doc] Let_def gatt_event.case if_True)
  next
    case (WroteThenCancelled x)
    have "gatt_loop mtu ev k w doc = (if w + length ?chunk < length doc
        then (Some \<lparr>we_bytes_written = w + length ?chunk, we_outcome = WriteAmbiguous, we_err = CtxErr x\<rparr>, [(ev k, ?chunk)])
        else apsnd (\<lambda>handed. (ev k, ?chunk) # handed) ?rest)"
      using assms(1) WroteThenCancelled by (simp only: gatt_loop.simps [of mtu ev k w doc] Let_def gatt_event.case if_True)
    with assms(2,4) show ?thesis by (auto split: if_split_asm)
  qed (use assms(3) in blast)
  with assms(2) show ?thesis by (cases ?rest) simp
qed

lemma gatt_loop_success:
  "gatt_loop mtu ev k w doc = (None, h) \<Longrightarrow> gatt_accepted h (drop w doc)"
proof (induction "length doc - w" arbitrary: k w h rule: less_induct)
  case less
  show ?case
  proof (cases "w < length doc")
    case False
    with less.prems show ?thesis by (simp add: gatt_loop.simps [of mtu ev k w] gatt_accepted_def)
  next
    case w: True
    let ?chunk = "take (nat (gatt_chunk_size mtu)) (drop w doc)"
    have nf: "\<not> (\<exists>d c i e. ev k = WriteFailed d c i e)"
      using less.prems w by (auto simp: gatt_loop.simps [of mtu ev k w] Let_def)
    obtain h' where h': "gatt_loop mtu ev (k + 1) (w + length ?chunk) doc = (None, h')" "h = (ev k, ?chunk) # h'"
      using gatt_loop_continues [OF w less.prems nf] by auto
    have "0 < length ?chunk" using w gatt_chunk_positive [of mtu] by simp
    then have "gatt_accepted h' (drop (w + length ?chunk) doc)"
      using w by (intro less.hyps [OF _ h'(1)]) linarith
    moreover have "?chunk @ drop (w + length ?chunk) doc = drop w doc"
      by (metis add.commute append_take_drop_id drop_drop length_take min.commute append_eq_conv_conj)
    ultimately show ?thesis using nf by (cases "ev k") (auto simp: h'(2) gatt_accepted_def)
  qed
qed

lemma gatt_loop_not_sent:
  "gatt_loop mtu ev k w doc = (Some e, h) \<Longrightarrow> \<not> Ambiguous e \<Longrightarrow> w = 0 \<and> \<not> gatt_touched h \<and> we_bytes_written e = 0"
proof (induction "length doc - w" arbitrary: k w h rule: less_induct)
  case less
  have w: "w < length doc" using less.prems(1) by (auto simp: gatt_loop.simps [of mtu ev k w] split: if_split_asm)
  have o: "we_outcome e = WriteNotSent" using less.prems(2) by (cases "we_outcome e") (auto simp: Ambiguous_def)
  let ?chunk = "take (nat (gatt_chunk_size mtu)) (drop w doc)"
  show ?case
  proof (cases "\<exists>d c i x. ev k = WriteFailed d c i x")
    case False
    obtain h' where h': "gatt_loop mtu ev (k + 1) (w + length ?chunk) doc = (Some e, h')"
      using gatt_loop_continues [OF w less.prems(1) False] o by auto
    have "0 < length ?chunk" using w gatt_chunk_positive [of mtu] by simp
    then have "w + length ?chunk = 0" using less.hyps [OF _ h' less.prems(2)] w by linarith
    with \<open>0 < length ?chunk\<close> show ?thesis by (metis add_is_0 less_irrefl)
  next
    case True
    with less.prems w show ?thesis
      by (auto simp: gatt_loop.simps [of mtu ev k w] Let_def gatt_touched_def gatt_may_send_def Ambiguous_def split: if_split_asm)
  qed
qed

record gatt_conn =
  gc_open :: bool
  gc_mtu :: int
  gc_events :: "nat \<Rightarrow> gatt_event"

definition gatt_send :: "gatt_conn \<Rightarrow> byte list \<Rightarrow> write_error option \<times> gatt_conn" where
  "gatt_send c doc = apsnd (\<lambda>v. c\<lparr>gc_open := v\<rparr>) (gatt_Write (gc_mtu c) (gc_events c) (gc_open c) doc)"

definition gatt_handed :: "gatt_conn \<Rightarrow> byte list \<Rightarrow> (gatt_event \<times> byte list) list" where
  "gatt_handed c doc = (if gc_open c then snd (gatt_loop (gc_mtu c) (gc_events c) 0 0 doc) else [])"

interpretation gatt: byte_channel gatt_send gc_open "\<lambda>c doc. gatt_touched (gatt_handed c doc)"
  "\<lambda>c doc. gatt_accepted (gatt_handed c doc) doc" "\<lambda>c. True"
proof unfold_locales
  fix c doc c' assume "gatt_send c doc = (None, c')"
  then show "gatt_accepted (gatt_handed c doc) doc"
    using gatt_loop_success [of "gc_mtu c" "gc_events c" 0 0 doc "snd (gatt_loop (gc_mtu c) (gc_events c) 0 0 doc)"]
    by (auto simp: gatt_send_def gatt_Write_def gatt_handed_def prod_eq_iff split: if_split_asm option.split_asm)
next
  fix c doc e c' assume "gatt_send c doc = (Some e, c')" "\<not> Ambiguous e"
  then show "\<not> gatt_touched (gatt_handed c doc) \<and> we_bytes_written e = 0"
    using gatt_loop_not_sent [of "gc_mtu c" "gc_events c" 0 0 doc e "snd (gatt_loop (gc_mtu c) (gc_events c) 0 0 doc)"]
    by (auto simp: gatt_send_def gatt_Write_def gatt_handed_def not_connected_def gatt_touched_def prod_eq_iff
        split: if_split_asm option.split_asm)
qed (auto simp: gatt_send_def gatt_Write_def not_connected_def split: if_split_asm option.split_asm)

subsection \<open>The mock\<close>

definition mock_send :: "mock \<Rightarrow> byte list \<Rightarrow> write_error option \<times> mock" where
  "mock_send m doc = mock_Write doc m"

definition mock_touched :: "mock \<Rightarrow> byte list \<Rightarrow> bool" where
  "mock_touched m doc = (concat (mk_writes (snd (mock_Write doc m))) \<noteq> concat (mk_writes m))"

interpretation mock: byte_channel mock_send mk_connected mock_touched
  "\<lambda>m doc. mk_writes (snd (mock_Write doc m)) = mk_writes m @ [doc]" "\<lambda>m. True"
  by unfold_locales
    (auto simp: mock_send_def mock_touched_def mock_Write_def mock_Close_def not_connected_def Ambiguous_def
      chunk_outcome_def Let_def split: if_split_asm option.split_asm)

section \<open>Any transport\<close>

text \<open>The values of the Go interface \<open>transport.Transport\<close>: calls go to the transport at hand.\<close>

datatype conn = Serial io_conn | RFCOMM io_conn | GATT gatt_conn | Mock mock

definition conn_send :: "conn \<Rightarrow> byte list \<Rightarrow> write_error option \<times> conn" where
  "conn_send c doc = (case c of
     Serial x \<Rightarrow> apsnd Serial (serial_send x doc)
   | RFCOMM x \<Rightarrow> apsnd RFCOMM (rfcomm_send x doc)
   | GATT x \<Rightarrow> apsnd GATT (gatt_send x doc)
   | Mock x \<Rightarrow> apsnd Mock (mock_send x doc))"

definition conn_open :: "conn \<Rightarrow> bool" where
  "conn_open c = (case c of Serial x \<Rightarrow> io_open x | RFCOMM x \<Rightarrow> io_open x | GATT x \<Rightarrow> gc_open x | Mock x \<Rightarrow> mk_connected x)"

definition conn_touched :: "conn \<Rightarrow> byte list \<Rightarrow> bool" where
  "conn_touched c doc = (case c of Serial x \<Rightarrow> io_touched (serial_handed x doc) | RFCOMM x \<Rightarrow> io_touched (rfcomm_handed x doc)
     | GATT x \<Rightarrow> gatt_touched (gatt_handed x doc) | Mock x \<Rightarrow> mock_touched x doc)"

definition conn_accepted :: "conn \<Rightarrow> byte list \<Rightarrow> bool" where
  "conn_accepted c doc = (case c of Serial x \<Rightarrow> io_accepted (serial_handed x doc) doc
     | RFCOMM x \<Rightarrow> io_accepted (rfcomm_handed x doc) doc
     | GATT x \<Rightarrow> gatt_accepted (gatt_handed x doc) doc
     | Mock x \<Rightarrow> mk_writes (snd (mock_Write doc x)) = mk_writes x @ [doc])"

definition conn_fair :: "conn \<Rightarrow> bool" where
  "conn_fair c = (case c of Serial x \<Rightarrow> io_fair (io_events x) | RFCOMM x \<Rightarrow> io_fair (io_events x) | _ \<Rightarrow> True)"

interpretation conn: byte_channel conn_send conn_open conn_touched conn_accepted conn_fair
proof unfold_locales
  fix c doc c' assume "conn_fair c" "conn_send c doc = (None, c')"
  then show "conn_accepted c doc"
    by (cases c) (auto simp: conn_fair_def conn_send_def conn_accepted_def apsnd_def map_prod_def split: prod.split_asm
        intro: serial.success rfcomm.success gatt.success mock.success)
next
  fix c doc e c' assume "conn_send c doc = (Some e, c')"
  then show "\<not> conn_open c'"
    by (cases c) (auto simp: conn_send_def conn_open_def apsnd_def map_prod_def split: prod.split_asm
        dest: serial.failure_closes rfcomm.failure_closes gatt.failure_closes mock.failure_closes)
next
  fix c doc e c' assume "conn_fair c" "conn_send c doc = (Some e, c')" "\<not> Ambiguous e"
  then show "\<not> conn_touched c doc \<and> we_bytes_written e = 0"
    by (cases c) (auto simp: conn_fair_def conn_send_def conn_touched_def apsnd_def map_prod_def split: prod.split_asm
        dest: serial.not_sent rfcomm.not_sent gatt.not_sent [OF TrueI] mock.not_sent [OF TrueI])
next
  fix c doc assume "\<not> conn_open c"
  then show "conn_send c doc = (Some not_connected, c)"
    by (cases c) (auto simp: conn_send_def conn_open_def
        serial.closed_refuses rfcomm.closed_refuses gatt.closed_refuses mock.closed_refuses)
qed

section \<open>Closing\<close>

text \<open>\<open>Close\<close> of each transport; \<open>err\<close> is what the port, the socket or the connection answers.\<close>

definition serial_Close :: "string option \<Rightarrow> io_conn \<Rightarrow> string option \<times> io_conn" where
  "serial_Close err c = (if \<not> io_open c then (None, c) else (err, c\<lparr>io_open := False\<rparr>))"

definition rfcomm_Close :: "string option \<Rightarrow> io_conn \<Rightarrow> string option \<times> io_conn" where
  "rfcomm_Close err c = (if io_open c then (err, c\<lparr>io_open := False\<rparr>) else (None, c))"

text \<open>The connection of BlueZ has nothing to close: its \<open>Close\<close> answers nil.\<close>

definition gatt_Close :: "gatt_conn \<Rightarrow> string option \<times> gatt_conn" where
  "gatt_Close c = (None, c\<lparr>gc_open := False\<rparr>)"

definition conn_Close :: "string option \<Rightarrow> conn \<Rightarrow> string option \<times> conn" where
  "conn_Close err c = (case c of
     Serial x \<Rightarrow> apsnd Serial (serial_Close err x) | RFCOMM x \<Rightarrow> apsnd RFCOMM (rfcomm_Close err x)
   | GATT x \<Rightarrow> apsnd GATT (gatt_Close x) | Mock x \<Rightarrow> (None, Mock (mock_Close x)))"

text \<open>No transport can ask a printer for its status.\<close>

definition conn_Probe :: "conn \<Rightarrow> string option" where
  "conn_Probe c = Some ''operation not supported by this transport''"

locale closable_channel = byte_channel +
  fixes close :: "string option \<Rightarrow> 'c \<Rightarrow> string option \<times> 'c"
  assumes close_closes: "\<not> is_open (snd (close err c))"
    and close_again: "\<not> is_open c \<Longrightarrow> fst (close err c) = None"
begin

lemma nothing_after_close: "send (snd (close err c)) doc = (Some not_connected, snd (close err c))"
  by (rule closed_refuses [OF close_closes])

lemma second_close_is_quiet: "fst (close err' (snd (close err c))) = None"
  by (rule close_again [OF close_closes])

end

interpretation conn_close: closable_channel conn_send conn_open conn_touched conn_accepted conn_fair conn_Close
  by unfold_locales
    (auto simp: conn_open_def conn_Close_def serial_Close_def rfcomm_Close_def gatt_Close_def mock_Close_def
      split: conn.split)

text \<open>A closed transport sends nothing, whatever its \<open>Close\<close> answered.\<close>

lemma closed_sends_nothing: "conn_send (snd (conn_Close err c)) doc = (Some not_connected, snd (conn_Close err c))"
  by (rule conn_close.nothing_after_close)

end
