(* ===== verification/Gates.thy ===== *)
theory Gates
  imports Config
begin

text \<open>
  The small state machines of \<open>internal/printers\<close>: the connection states and the reconnect schedule
  (\<open>states.go\<close>), the gate that pauses all printing while an outcome can not be stored
  (\<open>persistence.go\<close>), the permit that serialises transmissions (\<open>transmission_gate.go\<close>) and the
  delays of the database retry loops (\<open>worker.go\<close>).
\<close>

datatype connection_state =
    StateDisabled | StateDisconnected | StateConnecting | StateConnected
  | StatePrinting | StateReconnecting | StateError

definition reconnectDelay :: "int \<Rightarrow> time" where
  "reconnectDelay attempt =
     (if attempt \<le> 1 then 2 * second
      else if attempt = 2 then 5 * second
      else if attempt = 3 then 10 * second
      else 30 * second)"

lemma reconnectDelay_bounds: "2 * second \<le> reconnectDelay n \<and> reconnectDelay n \<le> 30 * second"
  by (simp add: reconnectDelay_def second_def)

lemma reconnectDelay_mono: "m \<le> n \<Longrightarrow> reconnectDelay m \<le> reconnectDelay n"
  by (simp add: reconnectDelay_def second_def)

section \<open>The delays of the database retry loops\<close>

definition first_delay :: time where "first_delay = 250 * millisecond"

definition next_delay :: "time \<Rightarrow> time" where
  "next_delay delay =
     (if delay < 30 * second
      then (let delay = delay * 2 in if delay > 30 * second then 30 * second else delay)
      else delay)"

definition retry_delay :: "nat \<Rightarrow> time" where
  "retry_delay k = (next_delay ^^ k) first_delay"

lemma next_delay_bounds: "first_delay \<le> d \<Longrightarrow> d \<le> 30 * second \<Longrightarrow> first_delay \<le> next_delay d \<and> next_delay d \<le> 30 * second"
  by (simp add: next_delay_def first_delay_def second_def millisecond_def Let_def)

lemma retry_delay_bounds: "first_delay \<le> retry_delay k \<and> retry_delay k \<le> 30 * second"
proof (induction k)
  case 0
  then show ?case by (simp add: retry_delay_def first_delay_def second_def millisecond_def)
next
  case (Suc k)
  then show ?case using next_delay_bounds by (simp add: retry_delay_def)
qed

lemma retry_delay_settles: "7 \<le> k \<Longrightarrow> retry_delay k = 30 * second"
proof (induction k rule: dec_induct)
  case base
  then show ?case by (simp add: retry_delay_def next_delay_def first_delay_def second_def millisecond_def eval_nat_numeral)
next
  case (step k)
  then show ?case by (simp add: retry_delay_def next_delay_def second_def)
qed

section \<open>The persistence gate\<close>

text \<open>
  \<open>resume_open\<close> is true while the channel \<open>resume\<close> is not closed. Closing a closed channel panics,
  which is the value \<open>None\<close> of \<open>gate_end\<close>.
\<close>

record gate =
  pg_failures :: nat
  pg_reason :: string
  pg_since :: "time option"
  pg_resume_open :: bool

definition newPersistenceGate :: gate where
  "newPersistenceGate = \<lparr>pg_failures = 0, pg_reason = [], pg_since = None, pg_resume_open = True\<rparr>"

definition gate_passes :: "gate \<Rightarrow> bool" where
  "gate_passes g = (pg_failures g = 0)"

definition gate_begin :: "string \<Rightarrow> time \<Rightarrow> gate \<Rightarrow> gate" where
  "gate_begin err now g =
     (let g = g\<lparr>pg_failures := pg_failures g + 1\<rparr>;
          g = (if pg_failures g = 1 then g\<lparr>pg_since := Some now, pg_resume_open := True\<rparr> else g)
      in g\<lparr>pg_reason := err\<rparr>)"

definition gate_update :: "string \<Rightarrow> gate \<Rightarrow> gate" where
  "gate_update err g = g\<lparr>pg_reason := err\<rparr>"

definition gate_end :: "gate \<Rightarrow> gate option" where
  "gate_end g =
     (let g = (if pg_failures g > 0 then g\<lparr>pg_failures := pg_failures g - 1\<rparr> else g) in
      if pg_failures g = 0
      then (if pg_resume_open g then Some (g\<lparr>pg_reason := [], pg_since := None, pg_resume_open := False\<rparr>) else None)
      else Some g)"

record persistence_status =
  ps_paused :: bool
  ps_reason :: string
  ps_since :: "time option"

definition gate_status :: "gate \<Rightarrow> persistence_status" where
  "gate_status g = \<lparr>ps_paused = (pg_failures g > 0), ps_reason = pg_reason g, ps_since = pg_since g\<rparr>"

text \<open>\<open>holders\<close> is the number of workers between their \<open>begin\<close> and their \<open>end\<close>.\<close>

definition gate_ok :: "nat \<Rightarrow> gate \<Rightarrow> bool" where
  "gate_ok holders g \<longleftrightarrow> pg_failures g = holders \<and> (holders > 0 \<longrightarrow> pg_resume_open g \<and> pg_since g \<noteq> None) \<and>
     (holders = 0 \<longrightarrow> pg_reason g = [] \<and> pg_since g = None)"

lemma gate_ok_new: "gate_ok 0 newPersistenceGate"
  by (simp add: gate_ok_def newPersistenceGate_def)

lemma gate_ok_begin: "gate_ok n g \<Longrightarrow> gate_ok (n + 1) (gate_begin err now g)"
  by (auto simp: gate_ok_def gate_begin_def Let_def)

lemma gate_ok_update: "gate_ok n g \<Longrightarrow> n > 0 \<Longrightarrow> gate_ok n (gate_update err g)"
  by (simp add: gate_ok_def gate_update_def)

lemma gate_ok_end: "gate_ok (Suc n) g \<Longrightarrow> \<exists>g'. gate_end g = Some g' \<and> gate_ok n g'"
  by (auto simp: gate_ok_def gate_end_def Let_def)

lemma gate_ok_passes: "gate_ok n g \<Longrightarrow> gate_passes g \<longleftrightarrow> n = 0"
  by (simp add: gate_ok_def gate_passes_def)

section \<open>The transmission permit\<close>

text \<open>The channel of capacity one: \<open>acquire\<close> takes the token, or blocks or ends with the context
  (\<open>None\<close>); \<open>release\<close> puts it back and would block on a full channel.\<close>

definition newTransmissionGate :: nat where "newTransmissionGate = 1"

definition acquire :: "nat \<Rightarrow> nat option" where
  "acquire permits = (if permits = 0 then None else Some (permits - 1))"

definition release :: "nat \<Rightarrow> nat option" where
  "release permits = (if permits < 1 then Some (permits + 1) else None)"

lemma acquire_release: "acquire newTransmissionGate = Some p \<Longrightarrow> acquire p = None \<and> release p = Some newTransmissionGate"
  by (simp add: acquire_def release_def newTransmissionGate_def split: if_splits)

section \<open>Status\<close>

record status =
  st_printer :: printer_config
  st_state :: connection_state
  st_endpoint :: string
  st_last_error :: string
  st_last_transmission :: "time option"
  st_queue_depth :: nat
  st_attention_count :: nat
  st_reconnect_attempt :: int
  st_next_retry_at :: "time option"

end
