(* ===== verification/Worker.thy ===== *)
theory Worker
  imports JobService Transport Gates
begin

text \<open>
  \<open>internal/printers/worker.go\<close>: the goroutine that owns one printer. It keeps a connection open,
  claims the queued runs of its printer one at a time, renders and writes them, and stores the
  outcome of each, for as long as that takes. The transport is a type parameter; what the platform
  driver, the clock and the database do at each moment are arguments, and so are the texts of the
  errors that come from the renderer and the transport. An operation that does not
  return (it waits for ever, or it panics) is the value \<open>None\<close>.
\<close>

section \<open>Links\<close>

datatype link_state = LinkUnknown | LinkConnected | LinkDisconnected

definition link_name :: "link_state \<Rightarrow> string" where
  "link_name st = (case st of LinkUnknown \<Rightarrow> ''unknown'' | LinkConnected \<Rightarrow> ''connected'' | LinkDisconnected \<Rightarrow> ''disconnected'')"

datatype verify_answer = VerifyOK | ErrNotConnected | VerifyError string

record driver =
  dr_link_state :: "(printer_config \<Rightarrow> link_state \<times> string option) option"
  dr_verify :: "printer_config \<Rightarrow> verify_answer"
  dr_ensure :: "printer_config \<Rightarrow> string + string"

definition linkState :: "driver \<Rightarrow> printer_config \<Rightarrow> link_state \<times> string option" where
  "linkState drv cfg =
     (if pc_transport cfg = TransportMock then (LinkConnected, None)
      else case dr_link_state drv of
        Some verifier \<Rightarrow> verifier cfg
      | None \<Rightarrow> (case dr_verify drv cfg of
            ErrNotConnected \<Rightarrow> (LinkDisconnected, None)
          | VerifyError e \<Rightarrow> (LinkUnknown, Some e)
          | VerifyOK \<Rightarrow> (LinkConnected, None)))"

definition link_up :: "driver \<Rightarrow> printer_config \<Rightarrow> bool" where
  "link_up drv cfg = (linkState drv cfg = (LinkConnected, None))"

section \<open>The state of a worker\<close>

record 'c worker =
  wk_cfg :: printer_config
  wk_state :: connection_state
  wk_tr :: "'c option"
  wk_active_cfg :: "printer_config option"
  wk_last_error :: string
  wk_last_tx :: "time option"
  wk_attempt :: int
  wk_next_retry :: "time option"
  wk_wake :: bool
  wk_reconnect_now :: bool

record 'c worker_env =
  wv_service :: service_env
  wv_factory :: "printer_config \<Rightarrow> 'c"
  wv_open :: "'c \<Rightarrow> string option \<times> 'c"
  wv_send :: "'c \<Rightarrow> byte list \<Rightarrow> write_error option \<times> 'c"
  wv_endpoint :: "'c \<Rightarrow> string"
  wv_render_text :: "template_error \<Rightarrow> string"
  wv_content_text :: "content_err \<Rightarrow> string"
  wv_write_text :: "write_error \<Rightarrow> string"

datatype worker_event =
    WConnected string | WDisconnected string | WReconnecting int | WError string
  | WProcessing string | WTransmitted string nat | WFailed string | WUncertain string | WQueued string

definition newWorker :: "printer_config \<Rightarrow> 'c worker" where
  "newWorker cfg = \<lparr>wk_cfg = cfg, wk_state = StateDisconnected, wk_tr = None, wk_active_cfg = None,
     wk_last_error = [], wk_last_tx = None, wk_attempt = 0, wk_next_retry = None, wk_wake = False,
     wk_reconnect_now = False\<rparr>"

definition worker_Wake :: "'c worker \<Rightarrow> 'c worker" where
  "worker_Wake w = w\<lparr>wk_wake := True\<rparr>"

definition ReconnectNow :: "'c worker \<Rightarrow> 'c worker" where
  "ReconnectNow w = w\<lparr>wk_reconnect_now := True\<rparr>"

definition setState :: "connection_state \<Rightarrow> 'c worker \<Rightarrow> 'c worker" where
  "setState s w = w\<lparr>wk_state := s\<rparr>"

definition closeTransport :: "connection_state \<Rightarrow> string \<Rightarrow> 'c worker \<Rightarrow> 'c worker" where
  "closeTransport s reason w =
     w\<lparr>wk_tr := None, wk_active_cfg := (if wk_tr w = None then wk_active_cfg w else None), wk_state := s,
       wk_last_error := (if reason \<noteq> [] then reason else wk_last_error w)\<rparr>"

definition connectionConfig :: "'c worker \<Rightarrow> printer_config" where
  "connectionConfig w = (case (wk_tr w, wk_active_cfg w) of (Some _, Some cfg) \<Rightarrow> cfg | _ \<Rightarrow> wk_cfg w)"

definition worker_status :: "'c worker_env \<Rightarrow> 'c worker \<Rightarrow> status" where
  "worker_status env w = \<lparr>st_printer = wk_cfg w, st_state = wk_state w,
     st_endpoint = (case wk_tr w of None \<Rightarrow> pc_endpoint (wk_cfg w) | Some c \<Rightarrow> wv_endpoint env c),
     st_last_error = wk_last_error w, st_last_transmission = wk_last_tx w, st_queue_depth = 0,
     st_attention_count = 0, st_reconnect_attempt = wk_attempt w, st_next_retry_at = wk_next_retry w\<rparr>"

section \<open>Storing an outcome\<close>

text \<open>
  One try to write to the database. Before it other goroutines have committed \<open>at_other\<close>. The
  database may be unavailable, may commit and lose the answer, or fail the ping that follows a
  repeated try.
\<close>

datatype fault = NoFault | Unavailable string | CommitLost string | PingFailed string

record attempt =
  at_fault :: fault
  at_other :: "db \<Rightarrow> db"
  at_now :: time
  at_later :: time

type_synonym mark = "time \<Rightarrow> time \<Rightarrow> db \<Rightarrow> repo_err + db"

definition err_text :: "repo_err \<Rightarrow> string" where
  "err_text e = (case e of ErrNotFound \<Rightarrow> ''not found''
     | ErrStateChanged \<Rightarrow> ''print run state changed concurrently'' | _ \<Rightarrow> ''database error'')"

definition try_mark :: "mark \<Rightarrow> bool \<Rightarrow> attempt \<Rightarrow> db \<Rightarrow> string option \<times> db" where
  "try_mark mark ping a d =
     (let d = at_other a d in
      case at_fault a of
        Unavailable e \<Rightarrow> (Some e, d)
      | f \<Rightarrow> (case mark (at_now a) (at_later a) d of
            Inl e \<Rightarrow> (Some (err_text e), d)
          | Inr d' \<Rightarrow> (case f of CommitLost e \<Rightarrow> (Some e, d')
                      | PingFailed e \<Rightarrow> (if ping then Some e else None, d')
                      | _ \<Rightarrow> (None, d'))))"

text \<open>The loop after a first failure: sleep, try, ping, until both succeed. \<open>delay\<close> is the time slept.\<close>

partial_function (option) persist_loop ::
    "mark \<Rightarrow> (nat \<Rightarrow> attempt) \<Rightarrow> nat \<Rightarrow> time \<Rightarrow> gate \<Rightarrow> db \<Rightarrow> (gate \<times> db) option" where
  "persist_loop mark sched k delay g d =
     (case try_mark mark True (sched k) d of
        (None, d') \<Rightarrow> (case gate_end g of None \<Rightarrow> None | Some g' \<Rightarrow> Some (g', d'))
      | (Some e, d') \<Rightarrow> persist_loop mark sched (k + 1) (next_delay delay) (gate_update e g) d')"

text \<open>A worker, the gate and the database, as the operations of the worker pass them on.\<close>

type_synonym 'c wstate = "'c worker \<times> gate \<times> db"

definition persist ::
    "mark \<Rightarrow> (nat \<Rightarrow> attempt) \<Rightarrow> 'c wstate \<Rightarrow> ('c wstate \<times> worker_event list) option" where
  "persist mark sched s = (case s of (w, g, d) \<Rightarrow>
     (case try_mark mark False (sched 0) d of
        (None, d') \<Rightarrow> Some ((w, g, d'), [])
      | (Some e, d') \<Rightarrow>
          (case persist_loop mark sched 1 first_delay (gate_begin e (at_now (sched 0)) g) d' of
             None \<Rightarrow> None
           | Some (g', d'') \<Rightarrow>
               Some ((w\<lparr>wk_last_error := []\<rparr>, g', d''),
                     [WError (''database unavailable; all queue claims paused: '' @ e)]))))"

section \<open>One run\<close>

datatype outcome = Transmitted nat | Uncertain nat string string | Failed nat string string bool

definition mark_outcome :: "string \<Rightarrow> outcome \<Rightarrow> mark" where
  "mark_outcome uid oc now l = (case oc of
     Transmitted n \<Rightarrow> MarkTransmitted uid (int n) now l
   | Uncertain n code msg \<Rightarrow> MarkUncertain uid (int n) code msg now l
   | Failed n code msg retryable \<Rightarrow> MarkFailed uid (int n) code msg retryable now l)"

text \<open>
  What \<open>process\<close> decides: the outcome to store, the worker while it is being stored, the events
  before, and the worker and the events after.
\<close>

record 'c decision =
  dn_outcome :: outcome
  dn_before :: "'c worker"
  dn_events_before :: "worker_event list"
  dn_after :: "'c worker \<Rightarrow> 'c worker"
  dn_events_after :: "worker_event list"

definition render_run :: "service_env \<Rightarrow> job \<Rightarrow> job_printer \<Rightarrow> print_run \<Rightarrow> template_error + byte list" where
  "render_run env job target run =
     Render (se_escpos env) (j_template job) (j_data job) (t_encoding target) (t_characters_per_line target)
       \<lparr>ro_reprint = (r_content_mode run = ContentReprint), ro_run_number = int (r_run_number run),
        ro_accepted_at = j_created_at job\<rparr>"

definition fail_quietly :: "'c worker \<Rightarrow> string \<Rightarrow> string \<Rightarrow> 'c decision" where
  "fail_quietly w code msg = \<lparr>dn_outcome = Failed 0 code msg False, dn_before = w, dn_events_before = [],
     dn_after = setState StateConnected, dn_events_after = []\<rparr>"

definition link_reason :: "link_state \<times> string option \<Rightarrow> string" where
  "link_reason answer = ''bytes accepted but Bluetooth link state is '' @ link_name (fst answer) @
     (case snd answer of None \<Rightarrow> [] | Some e \<Rightarrow> '': '' @ e)"

definition mismatch_text :: "'c worker_env \<Rightarrow> content_err + string \<Rightarrow> string" where
  "mismatch_text env expected = (case expected of
     Inl e \<Rightarrow> wv_content_text env e
   | Inr _ \<Rightarrow> ''rendered content no longer matches accepted content'')"

definition decide ::
    "'c worker_env \<Rightarrow> driver \<Rightarrow> bool \<Rightarrow> bool \<Rightarrow> time \<Rightarrow> print_run \<Rightarrow> db \<Rightarrow> 'c worker \<Rightarrow> 'c decision option" where
  "decide env drv job_read target_read now run d w0 =
    (let w = setState StatePrinting w0; uid = r_uid run in
     case (if job_read then GetJob (r_job_uid run) d else Inl ErrNoRows) of
       Inl e \<Rightarrow> Some (fail_quietly w ''job_unavailable'' (err_text e))
     | Inr job \<Rightarrow>
     case (if target_read then GetTarget (r_job_uid run) (r_printer_id run) d else Inl ErrNoRows) of
       Inl e \<Rightarrow> Some (fail_quietly w ''target_unavailable'' (err_text e))
     | Inr target \<Rightarrow>
     case render_run (wv_service env) job target run of
       Inl e \<Rightarrow> Some ((fail_quietly w ''render_failed'' (wv_render_text env e))\<lparr>dn_events_after := [WFailed uid]\<rparr>)
     | Inr doc \<Rightarrow>
     (let expected = ExpectedContentHash (wv_service env) job target (r_content_mode run) (r_run_number run) in
      if expected \<noteq> Inr (r_expected_content_hash run) \<or>
         ContentHash (wv_service env) doc \<noteq> r_expected_content_hash run
      then Some ((fail_quietly w ''content_hash_mismatch'' (mismatch_text env expected))
                   \<lparr>dn_events_after := [WFailed uid]\<rparr>)
      else
     case wk_tr w of
       None \<Rightarrow> None
     | Some c \<Rightarrow>
        (case wv_send env c doc of
           (None, c') \<Rightarrow>
             (let w = w\<lparr>wk_tr := Some c'\<rparr>; reason = link_reason (linkState drv (connectionConfig w)) in
              if \<not> link_up drv (connectionConfig w)
              then Some \<lparr>dn_outcome = Uncertain (length doc) ''link_unknown_after_write'' reason,
                         dn_before = closeTransport StateDisconnected reason w, dn_events_before = [],
                         dn_after = (\<lambda>w. w),
                         dn_events_after = [WUncertain uid, WDisconnected ''OS reports the printer disconnected'']\<rparr>
              else Some \<lparr>dn_outcome = Transmitted (length doc), dn_before = w, dn_events_before = [],
                         dn_after = (\<lambda>w. w\<lparr>wk_last_tx := Some now, wk_state := StateConnected\<rparr>),
                         dn_events_after = [WTransmitted uid (length doc)]\<rparr>)
         | (Some e, c') \<Rightarrow>
             (let msg = wv_write_text env e; w = closeTransport StateDisconnected msg w in
              if Ambiguous e
              then Some \<lparr>dn_outcome = Uncertain (we_bytes_written e) ''ambiguous_write'' msg, dn_before = w,
                         dn_events_before = [WDisconnected msg], dn_after = (\<lambda>w. w), dn_events_after = [WUncertain uid]\<rparr>
              else Some \<lparr>dn_outcome = Failed (we_bytes_written e) ''not_sent'' msg True, dn_before = w,
                         dn_events_before = [WDisconnected msg], dn_after = (\<lambda>w. w), dn_events_after = [WFailed uid]\<rparr>))))"

text \<open>\<open>process\<close>: decide, store, continue.\<close>

definition process ::
    "'c worker_env \<Rightarrow> driver \<Rightarrow> bool \<Rightarrow> bool \<Rightarrow> time \<Rightarrow> (nat \<Rightarrow> attempt) \<Rightarrow> print_run \<Rightarrow> 'c wstate \<Rightarrow>
     ('c wstate \<times> worker_event list) option" where
  "process env drv job_read target_read now sched run s = (case s of (w, g, d) \<Rightarrow>
     (case decide env drv job_read target_read now run d w of
        None \<Rightarrow> None
      | Some n \<Rightarrow>
         (case persist (mark_outcome (r_uid run) (dn_outcome n)) sched (dn_before n, g, d) of
            None \<Rightarrow> None
          | Some ((w', g', d'), evs) \<Rightarrow>
              Some ((dn_after n w', g', d'), dn_events_before n @ evs @ dn_events_after n))))"

section \<open>Claiming\<close>

text \<open>\<open>ClaimNextQueued\<close> on the database at the time of the try: an error of the database is retried.\<close>

definition try_claim :: "string \<Rightarrow> attempt \<Rightarrow> db \<Rightarrow> string + (print_run option \<times> db)" where
  "try_claim pid a d =
     (let d = at_other a d in
      case at_fault a of
        Unavailable e \<Rightarrow> Inl e
      | _ \<Rightarrow> (case ClaimNextQueued pid (at_now a) d of
            Inr (run, d') \<Rightarrow> Inr (Some run, d')
          | Inl ErrNotFound \<Rightarrow> Inr (None, d)
          | Inl e \<Rightarrow> Inl (err_text e)))"

partial_function (option) claim_loop ::
    "string \<Rightarrow> (nat \<Rightarrow> attempt) \<Rightarrow> nat \<Rightarrow> time \<Rightarrow> gate \<Rightarrow> db \<Rightarrow> (print_run option \<times> gate \<times> db) option" where
  "claim_loop pid sched k delay g d =
     (case try_claim pid (sched k) d of
        Inr (r, d') \<Rightarrow> (case gate_end g of None \<Rightarrow> None | Some g' \<Rightarrow> Some (r, g', d'))
      | Inl e \<Rightarrow> claim_loop pid sched (k + 1) (next_delay delay) (gate_update e g) (at_other (sched k) d))"

definition claimNext ::
    "(nat \<Rightarrow> attempt) \<Rightarrow> 'c wstate \<Rightarrow> (print_run option \<times> 'c wstate \<times> worker_event list) option" where
  "claimNext sched s = (case s of (w, g, d) \<Rightarrow>
     (let pid = pc_id (wk_cfg w) in
      case try_claim pid (sched 0) d of
        Inr (r, d') \<Rightarrow> Some (r, (w, g, d'), [])
      | Inl e \<Rightarrow>
          (case claim_loop pid sched 1 first_delay (gate_begin e (at_now (sched 0)) g) (at_other (sched 0) d) of
             None \<Rightarrow> None
           | Some (r, g', d') \<Rightarrow>
               Some (r, (w\<lparr>wk_last_error := []\<rparr>, g', d'),
                     [WError (''database unavailable; all queue claims paused: '' @ e)]))))"

section \<open>Retries after a reconnection\<close>

definition retry_render_of :: "service_env \<Rightarrow> retry_render" where
  "retry_render_of env job target previous runNumber =
     (case ExpectedContentHash env job target (r_content_mode previous) runNumber of
        Inl _ \<Rightarrow> Inl ''accepted template output changed'' | Inr h \<Rightarrow> Inr h)"

definition retry_event :: "print_run \<Rightarrow> worker_event" where
  "retry_event run = (if r_status run = RunFailed then WFailed (r_uid run) else WQueued (r_uid run))"

definition worker_materializeRetries ::
    "'c worker_env \<Rightarrow> (string \<Rightarrow> string option) \<Rightarrow> (string \<Rightarrow> time) \<Rightarrow> 'c worker \<Rightarrow> db \<Rightarrow>
     (worker_event list \<times> db) option" where
  "worker_materializeRetries env fresh clock w d =
     (case MaterializeRetries (pc_id (wk_cfg w)) 3 (retry_render_of (wv_service env)) fresh clock d of
        None \<Rightarrow> None
      | Some (runs, err, d') \<Rightarrow>
          Some (map retry_event runs @ (case err of None \<Rightarrow> [] | Some e \<Rightarrow> [WError (err_text e)]), d'))"

section \<open>Connecting\<close>

text \<open>
  \<open>connectOnce\<close>: \<open>drv\<close> answers before and \<open>drv2\<close> after the four seconds of grace, during which the
  context may end.
\<close>

definition connectOnce ::
    "'c worker_env \<Rightarrow> driver \<Rightarrow> driver \<Rightarrow> bool \<Rightarrow> 'c worker \<Rightarrow> string + 'c worker" where
  "connectOnce env drv drv2 cancelled w =
     sum_bind (if pc_transport (wk_cfg w) = TransportBluetoothSerial
               then map_sum id (\<lambda>e. (wk_cfg w)\<lparr>pc_endpoint := e\<rparr>) (dr_ensure drv (wk_cfg w))
               else Inr (wk_cfg w)) (\<lambda>cfg.
     case wv_open env (wv_factory env cfg) of
       (Some e, _) \<Rightarrow> Inl e
     | (None, c) \<Rightarrow>
         (let connected = w\<lparr>wk_tr := Some c, wk_active_cfg := Some cfg\<rparr> in
          if link_up drv cfg then Inr connected
          else if cancelled then Inl ''context canceled''
          else if link_up drv2 cfg then Inr connected
          else (case linkState drv2 cfg of
              (_, Some e) \<Rightarrow> Inl (''verify endpoint '' @ pc_endpoint cfg @ '': '' @ e)
            | (st, None) \<Rightarrow> Inl (''endpoint '' @ pc_endpoint cfg @ '' opened but Bluetooth link is '' @ link_name st))))"

datatype wait_end = WaitElapsed | WaitCtxDone | WaitReconnect

record connect_events =
  ce_ctx_done :: bool
  ce_drv :: driver
  ce_drv2 :: driver
  ce_cancelled :: bool
  ce_ctx_done_after :: bool
  ce_now :: time
  ce_wait :: wait_end

definition connect_failed :: "string \<Rightarrow> int \<Rightarrow> time \<Rightarrow> 'c worker \<Rightarrow> 'c worker" where
  "connect_failed e attempt now w =
     (let manualOnly = \<not> pc_auto_reconnect (wk_cfg w) in
      w\<lparr>wk_last_error := e, wk_attempt := attempt,
        wk_next_retry := (if manualOnly then None else Some (now + reconnectDelay attempt)),
        wk_state := (if manualOnly then StateError else wk_state w)\<rparr>)"

definition connect_succeeded :: "'c worker \<Rightarrow> 'c worker" where
  "connect_succeeded w = w\<lparr>wk_state := StateConnected, wk_last_error := [], wk_attempt := 0, wk_next_retry := None\<rparr>"

text \<open>The loop over the attempts; a parked worker (\<open>manualOnly\<close>) is woken by the operator only.\<close>

partial_function (option) connect_attempts ::
    "'c worker_env \<Rightarrow> (nat \<Rightarrow> connect_events) \<Rightarrow> nat \<Rightarrow> 'c worker \<Rightarrow> worker_event list \<Rightarrow>
     (bool \<times> 'c worker \<times> worker_event list) option" where
  "connect_attempts env sched k w evs =
     (if ce_ctx_done (sched k) then Some (False, w, evs)
      else
        (let w = setState (if k = 0 then StateConnecting else StateReconnecting) w;
             evs = (if k = 0 then evs else evs @ [WReconnecting (int k + 1)]) in
         case connectOnce env (ce_drv (sched k)) (ce_drv2 (sched k)) (ce_cancelled (sched k)) w of
           Inr w \<Rightarrow> Some (True, connect_succeeded w,
              evs @ [WConnected (case wk_tr w of None \<Rightarrow> [] | Some c \<Rightarrow> wv_endpoint env c)])
         | Inl e \<Rightarrow>
             if ce_ctx_done_after (sched k) then Some (False, w, evs)
             else
               (let w = connect_failed e (int k + 1) (ce_now (sched k)) w; evs = evs @ [WError e] in
                case ce_wait (sched k) of
                  WaitCtxDone \<Rightarrow> Some (False, w, evs)
                | WaitReconnect \<Rightarrow> connect_attempts env sched (k + 1) (w\<lparr>wk_reconnect_now := False\<rparr>) evs
                | WaitElapsed \<Rightarrow>
                    if pc_auto_reconnect (wk_cfg w) then connect_attempts env sched (k + 1) w evs else None)))"

text \<open>\<open>connectLoop\<close>, with the retries that a confirmed connection releases.\<close>

definition connectLoop ::
    "'c worker_env \<Rightarrow> driver \<Rightarrow> (nat \<Rightarrow> connect_events) \<Rightarrow> (string \<Rightarrow> string option) \<Rightarrow> (string \<Rightarrow> time) \<Rightarrow>
     'c worker \<Rightarrow> db \<Rightarrow> (bool \<times> 'c worker \<times> db \<times> worker_event list) option" where
  "connectLoop env drv sched fresh clock w d =
    (let retries = (\<lambda>w evs. case worker_materializeRetries env fresh clock w d of
            None \<Rightarrow> None | Some (evs', d') \<Rightarrow> Some (True, w, d', evs @ evs'));
         connect = (\<lambda>w evs. case connect_attempts env sched 0 w evs of
            None \<Rightarrow> None
          | Some (True, w, evs) \<Rightarrow> retries w evs
          | Some (False, w, evs) \<Rightarrow> Some (False, w, d, evs)) in
     if wk_tr w \<noteq> None \<and> wk_state w = StateConnected
     then (if link_up drv (connectionConfig w) then retries w []
           else connect (closeTransport StateDisconnected ''bluetooth link lost'' w)
                  [WDisconnected ''OS reports the printer disconnected''])
     else connect w [])"

section \<open>Draining the queue\<close>

text \<open>
  One turn of \<open>drainQueue\<close>: what the other workers did to the gate and the permit since the last
  one, and whether the context ended while waiting for them.
\<close>

record drain_events =
  de_ctx_done :: bool
  de_gate :: gate
  de_permit :: nat
  de_claim :: "nat \<Rightarrow> attempt"
  de_drv :: driver
  de_job_read :: bool
  de_target_read :: bool
  de_now :: time
  de_store :: "nat \<Rightarrow> attempt"

partial_function (option) drainQueue ::
    "'c worker_env \<Rightarrow> (nat \<Rightarrow> drain_events) \<Rightarrow> nat \<Rightarrow> 'c wstate \<Rightarrow> worker_event list \<Rightarrow>
     ('c wstate \<times> worker_event list) option" where
  "drainQueue env sched k s evs =
     (if de_ctx_done (sched k) \<or> wk_state (fst s) \<noteq> StateConnected then Some (s, evs)
      else if \<not> gate_passes (de_gate (sched k)) \<or> acquire (de_permit (sched k)) = None then Some (s, evs)
      else
        (case claimNext (de_claim (sched k)) (fst s, de_gate (sched k), snd (snd s)) of
           None \<Rightarrow> None
         | Some (None, s, evs') \<Rightarrow> Some (s, evs @ evs')
         | Some (Some run, s, evs') \<Rightarrow>
            (case process env (de_drv (sched k)) (de_job_read (sched k)) (de_target_read (sched k)) (de_now (sched k))
                    (de_store (sched k)) run s of
               None \<Rightarrow> None
             | Some (s, evs'') \<Rightarrow> drainQueue env sched (k + 1) s (evs @ evs' @ WProcessing (r_uid run) # evs''))))"

text \<open>The wait of \<open>run\<close> between two rounds: a wake signal, the poll, the operator or the end.\<close>

datatype idle_end = IdleCtxDone | IdleWoken | IdlePoll | IdleReconnect

definition idle :: "idle_end \<Rightarrow> 'c worker \<Rightarrow> 'c worker option" where
  "idle ev w =
     (if wk_state w \<noteq> StateConnected then Some w
      else case ev of
        IdleCtxDone \<Rightarrow> None
      | IdleWoken \<Rightarrow> Some (w\<lparr>wk_wake := False\<rparr>)
      | IdlePoll \<Rightarrow> Some w
      | IdleReconnect \<Rightarrow> Some (closeTransport StateDisconnected ''manual reconnect'' (w\<lparr>wk_reconnect_now := False\<rparr>)))"

record run_events =
  re_ctx_done :: bool
  re_drv :: driver
  re_connect :: "nat \<Rightarrow> connect_events"
  re_fresh :: "string \<Rightarrow> string option"
  re_clock :: "string \<Rightarrow> time"
  re_other :: "db \<Rightarrow> db"
  re_drain :: "nat \<Rightarrow> drain_events"
  re_idle :: idle_end

definition stopped :: "'c wstate \<Rightarrow> 'c wstate" where
  "stopped s = (closeTransport StateDisconnected ''worker stopped'' (fst s), snd s)"

text \<open>One round of \<open>run\<close>: connecting, draining and waiting; the flag is false when the loop ends.\<close>

definition run_round ::
    "'c worker_env \<Rightarrow> run_events \<Rightarrow> 'c wstate \<Rightarrow> (bool \<times> 'c wstate \<times> worker_event list) option" where
  "run_round env ev s = (case s of (w, g, d) \<Rightarrow>
     if re_ctx_done ev then Some (False, stopped (w, g, d), [])
     else
       (case connectLoop env (re_drv ev) (re_connect ev) (re_fresh ev) (re_clock ev) w (re_other ev d) of
          None \<Rightarrow> None
        | Some (connected, w, d, evs) \<Rightarrow>
           if \<not> connected then Some (False, stopped (w, g, d), evs)
           else
             (case drainQueue env (re_drain ev) 0 (w, g, d) [] of
                None \<Rightarrow> None
              | Some ((w, g, d), evs') \<Rightarrow>
                 (case idle (re_idle ev) w of
                    None \<Rightarrow> Some (False, stopped (w, g, d), evs @ evs')
                  | Some w \<Rightarrow> Some (True, (w, g, d), evs @ evs')))))"

partial_function (option) run_worker ::
    "'c worker_env \<Rightarrow> (nat \<Rightarrow> run_events) \<Rightarrow> nat \<Rightarrow> 'c wstate \<Rightarrow> worker_event list \<Rightarrow>
     ('c wstate \<times> worker_event list) option" where
  "run_worker env sched k s evs =
     (case run_round env (sched k) s of
        None \<Rightarrow> None
      | Some (go, s, evs') \<Rightarrow> if go then run_worker env sched (k + 1) s (evs @ evs') else Some (s, evs @ evs'))"

end
