(* ===== verification/RepositorySafety.thy ===== *)
theory RepositorySafety
  imports JobRepository
begin

text \<open>
  What every transaction of the Job repository keeps. \<open>stmt\<close> is the abstract contract: the
  statements a transaction may be made of, each with the condition on rows that makes it safe.
  The invariant \<open>db_ok\<close> and the history of a run are proved once for \<open>stmt\<close>, and every
  repository operation is shown to be a sequence of such statements.
\<close>

section \<open>What may happen to a run\<close>

text \<open>The statuses a run can reach by any number of the trigger's edges.\<close>

definition status_path :: "run_status \<Rightarrow> run_status \<Rightarrow> bool" where
  "status_path old new \<longleftrightarrow> old = new \<or> old = RunQueued \<or>
     old = RunProcessing \<and> (new = RunTransmitted \<or> new = RunFailed \<or> new = RunUncertain)"

lemma status_path_refl [simp]: "status_path s s"
  by (simp add: status_path_def)

lemma status_path_trans: "status_path a b \<Longrightarrow> status_path b c \<Longrightarrow> status_path a c"
  by (cases a; cases b; cases c) (simp_all add: status_path_def)

text \<open>The statuses are ordered by what can still follow: a run starts at the least one, and the finished
  statuses are the maximal ones.\<close>

instantiation run_status :: order
begin

definition less_eq_run_status :: "run_status \<Rightarrow> run_status \<Rightarrow> bool" where
  "less_eq_run_status old new = status_path old new"

definition less_run_status :: "run_status \<Rightarrow> run_status \<Rightarrow> bool" where
  "less_run_status old new \<longleftrightarrow> status_path old new \<and> \<not> status_path new old"

instance
proof
  fix a b c :: run_status
  show "a < b \<longleftrightarrow> a \<le> b \<and> \<not> b \<le> a" by (simp add: less_eq_run_status_def less_run_status_def)
  show "a \<le> a" by (simp add: less_eq_run_status_def)
  show "a \<le> b \<Longrightarrow> b \<le> c \<Longrightarrow> a \<le> c" unfolding less_eq_run_status_def by (rule status_path_trans)
  show "a \<le> b \<Longrightarrow> b \<le> a \<Longrightarrow> a = b" by (cases a; cases b) (simp_all add: less_eq_run_status_def status_path_def)
qed

end

lemma queued_is_least: "RunQueued \<le> s"
  by (simp add: less_eq_run_status_def status_path_def)

lemma finished_is_maximal: "Terminal s \<longleftrightarrow> (\<forall>t \<ge> s. t = s)"
  by (cases s) (auto simp: Terminal_def less_eq_run_status_def status_path_def)

lemma status_edge_path: "status_edge a b \<Longrightarrow> status_path a b"
  by (auto simp: status_edge_def status_path_def)

lemma terminal_edge: "status_edge a b \<Longrightarrow> Terminal a \<Longrightarrow> b = a"
  by (auto simp: status_edge_def Terminal_def)

text \<open>
  The evidence of a finished run: what it printed, how it failed and when. Only the three fields
  outside it, the retry flag and the operator's resolution, may change afterwards.
\<close>

definition run_evidence where
  "run_evidence r = (r_status r, r_bytes_accepted r, r_error_code r, r_error_message r,
     r_started_at r, r_finished_at r, r_transmitted_at r)"

definition run_evolves :: "print_run \<Rightarrow> print_run \<Rightarrow> bool" where
  "run_evolves old new \<longleftrightarrow>
     run_identity new = run_identity old \<and>
     status_path (r_status old) (r_status new) \<and>
     (Terminal (r_status old) \<longrightarrow>
        run_evidence new = run_evidence old \<and>
        (r_retryable new \<longrightarrow> r_retryable old) \<and>
        (r_resolution old \<noteq> None \<longrightarrow>
           r_resolution new = r_resolution old \<and> r_resolved_at new = r_resolved_at old))"

lemma run_evolves_refl [simp]: "run_evolves r r"
  by (simp add: run_evolves_def)

lemma run_evolves_trans:
  assumes "run_evolves a b" "run_evolves b c" shows "run_evolves a c"
proof -
  have t: "Terminal (r_status b)" if "Terminal (r_status a)"
    using assms(1) that by (auto simp: run_evolves_def run_evidence_def)
  show ?thesis using assms t unfolding run_evolves_def by (auto intro: status_path_trans)
qed

lemma run_evolves_status: "run_evolves r s \<Longrightarrow> r_status r \<le> r_status s"
  by (simp add: run_evolves_def less_eq_run_status_def)

lemma run_evolves_both_ways: "run_evolves r s \<Longrightarrow> run_evolves s r \<Longrightarrow> r_status r = r_status s"
  by (blast intro: order_antisym run_evolves_status)

lemma run_evolves_failed:
  "run_evolves r s \<Longrightarrow> r_status r = RunFailed \<Longrightarrow> r_status s = RunFailed \<and> r_bytes_accepted s = r_bytes_accepted r"
  by (auto simp: run_evolves_def run_evidence_def Terminal_def)

definition runs_evolve :: "print_run list \<Rightarrow> print_run list \<Rightarrow> bool" where
  "runs_evolve rs ss \<longleftrightarrow> (\<forall>r \<in> set rs. \<exists>s \<in> set ss. run_evolves r s)"

lemma runs_evolve_refl [simp]: "runs_evolve rs rs"
  unfolding runs_evolve_def using run_evolves_refl by blast

lemma runs_evolve_trans: "runs_evolve rs ss \<Longrightarrow> runs_evolve ss ss' \<Longrightarrow> runs_evolve rs ss'"
  unfolding runs_evolve_def using run_evolves_trans by blast

lemma runs_evolve_append [simp]: "runs_evolve rs (rs @ ss)"
  unfolding runs_evolve_def by (metis run_evolves_refl Un_iff set_append)

lemma runs_evolve_update:
  "(\<And>r. r \<in> set rs \<Longrightarrow> P r \<Longrightarrow> run_evolves r (f r)) \<Longrightarrow> runs_evolve rs (update_where P f rs)"
  unfolding runs_evolve_def set_update_where
  by (intro ballI bexI [OF _ imageI]) (simp_all split: if_splits)

section \<open>Chains of automatic retries\<close>

inductive retry_chain :: "print_run list \<Rightarrow> nat \<Rightarrow> print_run \<Rightarrow> bool" for rs where
  chain_start: "r_trigger r \<noteq> TriggerAutomaticRetry \<Longrightarrow> retry_chain rs 0 r"
| chain_retry: "r_trigger r = TriggerAutomaticRetry \<Longrightarrow> p \<in> set rs \<Longrightarrow>
    r_previous_run_uid r = Some (r_uid p) \<Longrightarrow> retry_chain rs n p \<Longrightarrow> retry_chain rs (Suc n) r"

text \<open>The loop of \<open>materializeRetry\<close> ends on such a chain and counts its length.\<close>

lemma retry_chain_depth:
  assumes "retry_chain rs n r" "distinct (map r_uid rs)"
  shows "retry_depth rs r k = Some (Inr (k + n))"
  using assms
proof (induction arbitrary: k)
  case (chain_start r)
  then show ?case by (simp add: retry_depth.simps)
next
  case (chain_retry r p n)
  then show ?case by (simp add: retry_depth.simps find_distinct)
qed

lemma retry_chain_mono:
  assumes "retry_chain rs n r"
    and "\<And>p. p \<in> set rs \<Longrightarrow> \<exists>q \<in> set ss. run_identity q = run_identity p"
    and "run_identity s = run_identity r"
  shows "retry_chain ss n s"
  using assms(1,3)
proof (induction arbitrary: s)
  case (chain_start r)
  then show ?case by (metis retry_chain.chain_start run_identityD(7))
next
  case (chain_retry r p n)
  obtain q where q: "q \<in> set ss" "run_identity q = run_identity p" using assms(2) chain_retry by blast
  show ?case
  proof (rule retry_chain.chain_retry)
    show "r_trigger s = TriggerAutomaticRetry" using chain_retry run_identityD(7) by metis
    show "q \<in> set ss" by (rule q)
    show "r_previous_run_uid s = Some (r_uid q)"
      using run_identityD(9) [OF chain_retry.prems] run_identityD(2) [OF q(2)] chain_retry.hyps(3)
      by simp
    show "retry_chain ss n q" using chain_retry.IH q(2) by blast
  qed
qed

section \<open>The invariant\<close>

definition MaxAutomaticRetries :: nat where "MaxAutomaticRetries = 3"

text \<open>
  Beside the schema: a run is retryable only when the printer took none of its bytes, an automatic
  retry follows a failed run of the same target that the printer took no byte of, and no chain of
  retries is longer than the limit. \<open>initial_ok\<close> says that each accepted target has its first run.
\<close>

definition retry_source :: "db \<Rightarrow> print_run \<Rightarrow> print_run \<Rightarrow> bool" where
  "retry_source d r p \<longleftrightarrow> p \<in> set (db_runs d) \<and> r_previous_run_uid r = Some (r_uid p) \<and>
     run_target p = run_target r \<and> r_status p = RunFailed \<and> r_bytes_accepted p = 0"

definition lineage_ok :: "db \<Rightarrow> bool" where
  "lineage_ok d \<longleftrightarrow> (\<forall>r \<in> set (db_runs d).
     (r_retryable r \<longrightarrow> r_bytes_accepted r = 0) \<and>
     (r_trigger r = TriggerAutomaticRetry \<longrightarrow> (\<exists>p. retry_source d r p)) \<and>
     (\<exists>n \<le> MaxAutomaticRetries. retry_chain (db_runs d) n r))"

definition initial_ok :: "db \<Rightarrow> bool" where
  "initial_ok d \<longleftrightarrow> (\<forall>t \<in> set (db_targets d). \<exists>r \<in> set (db_runs d).
     target_key t = run_target r \<and> r_trigger r = TriggerInitial)"

text \<open>A failed run that has been retried is no longer retryable: it is retried at most once.\<close>

definition child_ok :: "db \<Rightarrow> bool" where
  "child_ok d \<longleftrightarrow> (\<forall>r \<in> set (db_runs d). \<forall>p \<in> set (db_runs d).
     r_trigger r = TriggerAutomaticRetry \<and> r_previous_run_uid r = Some (r_uid p) \<longrightarrow> \<not> r_retryable p)"

definition db_ok :: "db \<Rightarrow> bool" where
  "db_ok d \<longleftrightarrow> schema_ok d \<and> lineage_ok d \<and> initial_ok d \<and> child_ok d"

section \<open>Safe statements\<close>

definition legit_run :: "db \<Rightarrow> print_run \<Rightarrow> bool" where
  "legit_run d run \<longleftrightarrow> \<not> r_retryable run \<and>
     (r_trigger run = TriggerAutomaticRetry \<longrightarrow>
        (\<exists>p n. retry_source d run p \<and> retry_chain (db_runs d) n p \<and> n < MaxAutomaticRetries))"

text \<open>The flag says whether the statement may insert an automatic retry.\<close>

inductive stmt :: "bool \<Rightarrow> db \<Rightarrow> db \<Rightarrow> bool" for retries where
  stmt_update: "update_runs P f d = Inr (n, d') \<Longrightarrow>
    (\<And>r. r \<in> set (db_runs d) \<Longrightarrow> P r \<Longrightarrow> run_evolves r (f r)) \<Longrightarrow>
    (\<And>r. r \<in> set (db_runs d) \<Longrightarrow> P r \<Longrightarrow> r_retryable (f r) \<Longrightarrow> r_bytes_accepted (f r) = 0) \<Longrightarrow> stmt retries d d'"
| stmt_insert: "insert_run run d = Inr d' \<Longrightarrow> legit_run d run \<Longrightarrow>
    (r_trigger run = TriggerAutomaticRetry \<Longrightarrow> retries) \<Longrightarrow> stmt retries d d'"
| stmt_expiry: "stmt retries d (update_expiry Q t d)"
| stmt_cancellation: "update_cancellation u p at reason d = (n, d') \<Longrightarrow> stmt retries d d'"
| stmt_dedup: "insert_dedup x d = Inr d' \<Longrightarrow> stmt retries d d'"

abbreviation stmts :: "db \<Rightarrow> db \<Rightarrow> bool" where "stmts \<equiv> (stmt False)\<^sup>*\<^sup>*"
abbreviation retry_stmts :: "db \<Rightarrow> db \<Rightarrow> bool" where "retry_stmts \<equiv> (stmt True)\<^sup>*\<^sup>*"

lemma stmt_evolves: "stmt b d d' \<Longrightarrow> runs_evolve (db_runs d) (db_runs d')"
proof (induction rule: stmt.induct)
  case (stmt_update P f d n d')
  then show ?case using update_runs_InrD(1) [OF stmt_update(1)] by (simp add: runs_evolve_update)
next
  case (stmt_insert run d d')
  then show ?case by (auto elim: insert_run_InrD)
next
  case (stmt_cancellation u p at reason d n d')
  then show ?case by (auto simp: update_cancellation_def Let_def)
next
  case (stmt_dedup x d d')
  then show ?case by (auto simp: insert_dedup_def split: if_splits)
qed (simp add: update_expiry_def)

lemma stmts_evolve: "(stmt b)\<^sup>*\<^sup>* d d' \<Longrightarrow> runs_evolve (db_runs d) (db_runs d')"
  by (induction rule: rtranclp_induct) (auto intro: runs_evolve_trans stmt_evolves)

lemma stmt_schema: "stmt b d d' \<Longrightarrow> schema_ok d \<Longrightarrow> schema_ok d'"
  by (induction rule: stmt.induct) (auto intro: keeps)

text \<open>A reference to the source of a retry survives every statement.\<close>

lemma retry_source_evolves:
  assumes "retry_source d r p" "run_identity s = run_identity r" "runs_evolve (db_runs d) (db_runs d')"
  shows "\<exists>q. retry_source d' s q"
proof -
  obtain q where q: "q \<in> set (db_runs d')" "run_evolves p q"
    using assms(1,3) unfolding retry_source_def runs_evolve_def by blast
  then have "run_identity q = run_identity p" by (simp add: run_evolves_def)
  then have "retry_source d' s q"
    using assms(1) q(1) run_evolves_failed [OF q(2)] run_identityD [OF assms(2)] run_identityD [of q p]
    unfolding retry_source_def by simp
  then show ?thesis ..
qed

lemma retry_chain_evolves:
  assumes "retry_chain (db_runs d) n r" "run_identity s = run_identity r"
    "runs_evolve (db_runs d) (db_runs d')"
  shows "retry_chain (db_runs d') n s"
  using assms(1) _ assms(2)
proof (rule retry_chain_mono)
  fix p assume "p \<in> set (db_runs d)"
  then show "\<exists>q \<in> set (db_runs d'). run_identity q = run_identity p"
    using assms(3) unfolding runs_evolve_def run_evolves_def by blast
qed

lemma lineage_from:
  assumes "lineage_ok d" "runs_evolve (db_runs d) (db_runs d')"
    and r: "r \<in> set (db_runs d)" "run_identity s = run_identity r"
  shows "(r_trigger s = TriggerAutomaticRetry \<longrightarrow> (\<exists>p. retry_source d' s p)) \<and>
     (\<exists>n \<le> MaxAutomaticRetries. retry_chain (db_runs d') n s)"
proof
  have l: "r_trigger r = TriggerAutomaticRetry \<longrightarrow> (\<exists>p. retry_source d r p)"
    "\<exists>n \<le> MaxAutomaticRetries. retry_chain (db_runs d) n r"
    using assms(1) r(1) by (simp_all add: lineage_ok_def)
  show "r_trigger s = TriggerAutomaticRetry \<longrightarrow> (\<exists>p. retry_source d' s p)"
    using l(1) retry_source_evolves [OF _ r(2) assms(2)] run_identityD(7) [OF r(2)] by metis
  show "\<exists>n \<le> MaxAutomaticRetries. retry_chain (db_runs d') n s"
    using l(2) retry_chain_evolves [OF _ r(2) assms(2)] by blast
qed

lemma lineage_unchanged:
  "lineage_ok d \<Longrightarrow> db_runs d' = db_runs d \<Longrightarrow> lineage_ok d'"
  by (simp add: lineage_ok_def retry_source_def)

lemma stmt_lineage:
  assumes st: "stmt b d d'" and l: "lineage_ok d" shows "lineage_ok d'"
  using st
proof cases
  case (stmt_update P f n)
  note u = stmt_update(1) and ev = stmt_update(2) and z = stmt_update(3)
  show "lineage_ok d'" unfolding lineage_ok_def
  proof
    fix s assume "s \<in> set (db_runs d')"
    then obtain r where r: "r \<in> set (db_runs d)" "s = (if P r then f r else r)"
      using update_runs_InrD(1) [OF u] by (auto simp: set_update_where)
    have "run_identity s = run_identity r" using ev r by (auto simp: run_evolves_def)
    moreover have "r_retryable s \<longrightarrow> r_bytes_accepted s = 0"
      using z r l by (auto simp: lineage_ok_def)
    ultimately show "(r_retryable s \<longrightarrow> r_bytes_accepted s = 0) \<and>
        (r_trigger s = TriggerAutomaticRetry \<longrightarrow> (\<exists>p. retry_source d' s p)) \<and>
        (\<exists>n \<le> MaxAutomaticRetries. retry_chain (db_runs d') n s)"
      using lineage_from [OF l stmt_evolves [OF st] r(1)] by blast
  qed
next
  case (stmt_insert run)
  note legit = stmt_insert(2)
  obtain row where row: "row = run\<lparr>r_queue_sequence := db_next_seq d\<rparr>"
    "db_runs d' = db_runs d @ [row]" using stmt_insert(1) by (auto elim: insert_run_InrD)
  note ev = stmt_evolves [OF st]
  have new: "(r_retryable row \<longrightarrow> r_bytes_accepted row = 0) \<and>
        (r_trigger row = TriggerAutomaticRetry \<longrightarrow> (\<exists>p. retry_source d' row p)) \<and>
        (\<exists>n \<le> MaxAutomaticRetries. retry_chain (db_runs d') n row)"
  proof (cases "r_trigger run = TriggerAutomaticRetry")
    case True
    with legit obtain p n where p: "retry_source d run p" "retry_chain (db_runs d) n p" "n < MaxAutomaticRetries"
      by (auto simp: legit_run_def)
    have s: "retry_source d' row p" using p(1) by (simp add: retry_source_def row run_target_def)
    have "retry_chain (db_runs d') n p"
      by (rule retry_chain_evolves [OF p(2) refl ev])
    then have "retry_chain (db_runs d') (Suc n) row"
      using s True by (auto simp: retry_source_def row intro: chain_retry)
    moreover have "Suc n \<le> MaxAutomaticRetries" using p(3) by simp
    ultimately show ?thesis using s legit by (auto simp: legit_run_def row(1))
  next
    case False
    then have "retry_chain (db_runs d') 0 row" by (simp add: row(1) chain_start)
    with False legit show ?thesis by (auto simp: legit_run_def row(1))
  qed
  show "lineage_ok d'" unfolding lineage_ok_def
  proof
    fix s assume "s \<in> set (db_runs d')"
    then consider "s = row" | "s \<in> set (db_runs d)" by (auto simp: row(2))
    then show "(r_retryable s \<longrightarrow> r_bytes_accepted s = 0) \<and>
        (r_trigger s = TriggerAutomaticRetry \<longrightarrow> (\<exists>p. retry_source d' s p)) \<and>
        (\<exists>n \<le> MaxAutomaticRetries. retry_chain (db_runs d') n s)"
      using new lineage_from [OF l ev _ refl] l by cases (auto simp: lineage_ok_def)
  qed
qed (use l in \<open>auto simp: update_cancellation_def insert_dedup_def update_expiry_def Let_def
      split: if_splits intro: lineage_unchanged\<close>)

lemma stmt_targets: "stmt b d d' \<Longrightarrow> target_key ` set (db_targets d') = target_key ` set (db_targets d)"
proof (induction rule: stmt.induct)
  case (stmt_update P f d n d')
  then show ?case using update_runs_InrD(1) [OF stmt_update(1)] by simp
next
  case (stmt_insert run d d')
  then show ?case by (auto elim: insert_run_InrD)
next
  case (stmt_cancellation u p at reason d n d')
  have "target_key ` set (update_where (\<lambda>t. t_job_uid t = u \<and> t_printer_id t = p)
      (\<lambda>t. t\<lparr>t_cancelled_at := at, t_cancellation_reason := reason\<rparr>) (db_targets d))
    = target_key ` set (db_targets d)" by (rule image_update_where) (simp add: target_key_def)
  with stmt_cancellation show ?case by (auto simp: update_cancellation_def Let_def)
next
  case (stmt_dedup x d d')
  then show ?case by (auto simp: insert_dedup_def split: if_splits)
qed (simp add: update_expiry_def)

lemma initial_ok_alt:
  "initial_ok d \<longleftrightarrow> target_key ` set (db_targets d) \<subseteq>
     run_target ` {r \<in> set (db_runs d). r_trigger r = TriggerInitial}"
  unfolding initial_ok_def image_subset_iff image_iff by blast

lemma initial_runs_evolve:
  assumes "runs_evolve rs ss"
  shows "run_target ` {r \<in> set rs. r_trigger r = TriggerInitial}
    \<subseteq> run_target ` {s \<in> set ss. r_trigger s = TriggerInitial}"
proof
  fix k assume "k \<in> run_target ` {r \<in> set rs. r_trigger r = TriggerInitial}"
  then obtain r where r: "r \<in> set rs" "r_trigger r = TriggerInitial" "k = run_target r" by blast
  then obtain s where s: "s \<in> set ss" "run_identity s = run_identity r"
    using assms unfolding runs_evolve_def run_evolves_def by blast
  then show "k \<in> run_target ` {s \<in> set ss. r_trigger s = TriggerInitial}"
    using r run_identityD(3,7) [OF s(2)] by (auto intro!: image_eqI [of _ _ s])
qed

lemma stmt_initial: "stmt b d d' \<Longrightarrow> initial_ok d \<Longrightarrow> initial_ok d'"
  unfolding initial_ok_alt stmt_targets by (erule subset_trans) (rule initial_runs_evolve [OF stmt_evolves])

lemma same_uid:
  "schema_ok d \<Longrightarrow> r \<in> set (db_runs d) \<Longrightarrow> s \<in> set (db_runs d) \<Longrightarrow> r_uid r = r_uid s \<Longrightarrow> r = s"
  unfolding schema_ok_def runs_ok_def runs_unique_def by (blast intro: distinct_map_eqD)

lemma child_okI:
  assumes "child_ok d" "schema_ok d" "lineage_ok d"
    and "\<And>s. s \<in> set (db_runs d') \<Longrightarrow> r_trigger s = TriggerAutomaticRetry \<Longrightarrow>
      \<exists>r \<in> set (db_runs d). run_identity s = run_identity r"
    and "\<And>q p. q \<in> set (db_runs d') \<Longrightarrow> p \<in> set (db_runs d) \<Longrightarrow> r_uid q = r_uid p \<Longrightarrow>
      r_status p = RunFailed \<Longrightarrow> r_retryable q \<Longrightarrow> r_retryable p"
  shows "child_ok d'"
  unfolding child_ok_def
proof (intro ballI impI)
  fix s q assume sq: "s \<in> set (db_runs d')" "q \<in> set (db_runs d')"
    "r_trigger s = TriggerAutomaticRetry \<and> r_previous_run_uid s = Some (r_uid q)"
  then obtain r where r: "r \<in> set (db_runs d)" "run_identity s = run_identity r" using assms(4) by blast
  then have t: "r_trigger r = TriggerAutomaticRetry" "r_previous_run_uid r = Some (r_uid q)"
    using sq(3) run_identityD(7,9) [OF r(2)] by simp_all
  then obtain p where p: "retry_source d r p" using assms(3) r(1) by (auto simp: lineage_ok_def)
  then have "\<not> r_retryable p" using assms(1) r(1) t(1) by (auto simp: child_ok_def retry_source_def)
  then show "\<not> r_retryable q" using assms(5) [OF sq(2), of p] p t(2) by (auto simp: retry_source_def)
qed

lemma child_unchanged: "child_ok d \<Longrightarrow> db_runs d' = db_runs d \<Longrightarrow> child_ok d'"
  by (simp add: child_ok_def)

lemma stmt_child:
  assumes "stmt False d d'" "child_ok d" "schema_ok d" "lineage_ok d" shows "child_ok d'"
  using assms(1)
proof cases
  case (stmt_update P f n)
  note u = update_runs_InrD [OF stmt_update(1)]
  show ?thesis
  proof (rule child_okI [OF assms(2-4)])
    fix s assume "s \<in> set (db_runs d')"
    then obtain r where "r \<in> set (db_runs d)" "s = (if P r then f r else r)"
      using u(1) by (auto simp: set_update_where)
    then show "\<exists>r \<in> set (db_runs d). run_identity s = run_identity r"
      using stmt_update(2) by (auto simp: run_evolves_def)
  next
    fix q p assume q: "q \<in> set (db_runs d')" "p \<in> set (db_runs d)" "r_uid q = r_uid p"
      "r_status p = RunFailed" "r_retryable q"
    then obtain r where r: "r \<in> set (db_runs d)" "q = (if P r then f r else r)"
      using u(1) by (auto simp: set_update_where)
    have ev: "run_evolves r q" using stmt_update(2) r by auto
    then have "r_uid q = r_uid r" unfolding run_evolves_def by (blast dest: run_identityD(2))
    with q(3) have "r_uid r = r_uid p" by metis
    then have "r = p" by (rule same_uid [OF assms(3) r(1) q(2)])
    with ev q(4,5) show "r_retryable p" unfolding run_evolves_def Terminal_def by blast
  qed
next
  case (stmt_insert run)
  then obtain row where row: "row = run\<lparr>r_queue_sequence := db_next_seq d\<rparr>"
    "db_runs d' = db_runs d @ [row]" "runs_unique (db_runs d @ [row])" by (auto elim: insert_run_InrD)
  have new: "r_trigger row \<noteq> TriggerAutomaticRetry" "\<not> r_retryable row"
    using stmt_insert by (auto simp: row(1) legit_run_def)
  show ?thesis
  proof (rule child_okI [OF assms(2-4)])
    fix s assume "s \<in> set (db_runs d')" "r_trigger s = TriggerAutomaticRetry"
    then show "\<exists>r \<in> set (db_runs d). run_identity s = run_identity r" using new row(2) by auto
  next
    fix q p assume q: "q \<in> set (db_runs d')" "p \<in> set (db_runs d)" "r_uid q = r_uid p" "r_retryable q"
    then have "q \<in> set (db_runs d)" using new row(2) by auto
    then show "r_retryable p" using same_uid [OF assms(3) _ q(2)] q by blast
  qed
qed (use assms(2) in \<open>auto simp: child_ok_def update_cancellation_def insert_dedup_def update_expiry_def Let_def
      split: if_splits\<close>)

lemma stmt_keeps: "stmt False d d' \<Longrightarrow> db_ok d \<Longrightarrow> db_ok d'"
  unfolding db_ok_def using stmt_schema stmt_lineage stmt_initial stmt_child by blast

lemma retry_stmts_keep:
  "(stmt b)\<^sup>*\<^sup>* d d' \<Longrightarrow> schema_ok d \<and> lineage_ok d \<and> initial_ok d \<Longrightarrow> schema_ok d' \<and> lineage_ok d' \<and> initial_ok d'"
  by (induction rule: rtranclp_induct) (blast intro: stmt_schema stmt_lineage stmt_initial)+

lemma stmts_keep [keeps]: "stmts d d' \<Longrightarrow> db_ok d \<Longrightarrow> db_ok d'"
  by (induction rule: rtranclp_induct) (auto intro: stmt_keeps)

lemma stmts_trans: "(stmt f)\<^sup>*\<^sup>* a b \<Longrightarrow> (stmt f)\<^sup>*\<^sup>* b c \<Longrightarrow> (stmt f)\<^sup>*\<^sup>* a c"
  by (rule rtranclp_trans)

lemma one_stmt: "stmt f a b \<Longrightarrow> (stmt f)\<^sup>*\<^sup>* a b"
  by (rule r_into_rtranclp)

lemmas stmt_rules = stmt.intros [THEN one_stmt]

section \<open>Every operation is a sequence of safe statements\<close>

lemmas evolves_simps = run_evolves_def run_identity_def run_evidence_def status_path_def Terminal_def

lemma extend_retention_stmts: "stmts d (extend_retention u t d)"
  unfolding extend_retention_def by (rule stmt_rules(3))

lemma transition_stmts:
  assumes "transition uid target P f now d = Inr d'"
    and "\<And>r. r \<in> set (db_runs d) \<Longrightarrow> P r \<Longrightarrow> run_evolves r (f r)"
    and "\<And>r. r \<in> set (db_runs d) \<Longrightarrow> P r \<Longrightarrow> r_retryable (f r) \<Longrightarrow> r_bytes_accepted (f r) = 0"
  shows "stmts d d'"
proof -
  obtain n e where e: "update_runs P f d = Inr (n, e)" "d' = extend_retention uid (now + retentionWindow) e"
    using assms(1) by (auto simp: transition_def sum_bind_Inr_iff)
  have "stmts d e" by (rule stmt_rules(1) [OF e(1)]) (use assms in auto)
  then show ?thesis unfolding e(2) by (rule stmts_trans) (rule extend_retention_stmts)
qed

lemma ClaimNextQueued_InrD:
  assumes "ClaimNextQueued p now d = Inr (run, d')"
  obtains nxt rest n where
    "sort_key r_queue_sequence (filter (\<lambda>r. r_printer_id r = p \<and> r_status r = RunQueued) (db_runs d)) = nxt # rest"
    "nxt \<in> set (db_runs d)" "r_printer_id nxt = p" "r_status nxt = RunQueued"
    "update_runs (\<lambda>r. r_queue_sequence r = r_queue_sequence nxt)
       (\<lambda>r. r\<lparr>r_status := RunProcessing, r_started_at := Some now\<rparr>) d = Inr (n, d')"
    "List.find (\<lambda>r. r_queue_sequence r = r_queue_sequence nxt) (db_runs d') = Some run"
proof -
  let ?q = "sort_key r_queue_sequence (filter (\<lambda>r. r_printer_id r = p \<and> r_status r = RunQueued) (db_runs d))"
  obtain nxt rest where q: "?q = nxt # rest"
    using assms by (cases ?q) (auto simp: ClaimNextQueued_def)
  have "nxt \<in> set ?q" by (simp add: q)
  then have "nxt \<in> set (db_runs d)" "r_printer_id nxt = p" "r_status nxt = RunQueued" by auto
  moreover obtain n where
    "update_runs (\<lambda>r. r_queue_sequence r = r_queue_sequence nxt)
       (\<lambda>r. r\<lparr>r_status := RunProcessing, r_started_at := Some now\<rparr>) d = Inr (n, d')"
    "List.find (\<lambda>r. r_queue_sequence r = r_queue_sequence nxt) (db_runs d') = Some run"
    using assms by (auto simp: ClaimNextQueued_def q sum_bind_Inr_iff)
  ultimately show thesis using that q by blast
qed

lemma same_sequence:
  "schema_ok d \<Longrightarrow> r \<in> set (db_runs d) \<Longrightarrow> s \<in> set (db_runs d) \<Longrightarrow>
   r_queue_sequence r = r_queue_sequence s \<Longrightarrow> r = s"
  unfolding schema_ok_def runs_ok_def runs_unique_def by (blast intro: distinct_map_eqD)

lemma ClaimNextQueued_stmts:
  assumes "ClaimNextQueued p now d = Inr (run, d')" "db_ok d" shows "stmts d d'"
  using assms(1)
proof (rule ClaimNextQueued_InrD)
  fix nxt n assume n: "nxt \<in> set (db_runs d)" "r_status nxt = RunQueued"
    and u: "update_runs (\<lambda>r. r_queue_sequence r = r_queue_sequence nxt)
       (\<lambda>r. r\<lparr>r_status := RunProcessing, r_started_at := Some now\<rparr>) d = Inr (n, d')"
  have only: "r = nxt" if "r \<in> set (db_runs d)" "r_queue_sequence r = r_queue_sequence nxt" for r
    using same_sequence [of d r nxt] that n(1) assms(2) by (simp add: db_ok_def)
  have z: "r_retryable nxt \<longrightarrow> r_bytes_accepted nxt = 0"
    using n(1) assms(2) by (simp add: db_ok_def lineage_ok_def)
  show "stmts d d'"
    by (rule stmt_rules(1) [OF u]) (use only n(2) z in \<open>force simp: evolves_simps\<close>)+
qed

lemma MarkTransmitted_stmts: "MarkTransmitted uid n now l d = Inr d' \<Longrightarrow> stmts d d'"
  unfolding MarkTransmitted_def by (erule transition_stmts) (auto simp: evolves_simps)

lemma MarkFailed_stmts:
  "MarkFailed uid n code msg retryable now l d = Inr d' \<Longrightarrow> (retryable \<Longrightarrow> n = 0) \<Longrightarrow> stmts d d'"
  unfolding MarkFailed_def by (erule transition_stmts) (auto simp: evolves_simps)

lemma MarkUncertain_stmts: "MarkUncertain uid n code msg now l d = Inr d' \<Longrightarrow> stmts d d'"
  unfolding MarkUncertain_def by (erule transition_stmts) (auto simp: evolves_simps)

lemma CancelRun_stmts: "CancelRun uid now l d = Inr d' \<Longrightarrow> stmts d d'"
  unfolding CancelRun_def by (erule transition_stmts) (auto simp: evolves_simps)

lemma ResolveUncertain_stmts:
  assumes "ResolveUncertain uid res now d = Inr d'" "lineage_ok d" shows "stmts d d'"
proof -
  obtain r n e where e: "update_runs (\<lambda>r. r_uid r = uid \<and> r_status r = RunUncertain \<and> r_resolution r = None)
      (\<lambda>x. x\<lparr>r_resolution := Some r, r_resolved_at := Some now\<rparr>) d = Inr (n, e)"
    "d' = extend_retention uid (now + retentionWindow) e"
    using assms(1) by (auto simp: ResolveUncertain_def sum_bind_Inr_iff split: option.splits)
  have "stmts d e"
    by (rule stmt_rules(1) [OF e(1)]) (use assms(2) in \<open>auto simp: evolves_simps lineage_ok_def\<close>)
  then show ?thesis unfolding e(2) by (rule stmts_trans) (rule extend_retention_stmts)
qed

lemma cancel_target_stmts:
  assumes "cancel_target u reason now d p = Inr d'" shows "stmts d d'"
proof -
  obtain n d1 d2 n2 n3 where s: "update_cancellation u p (Some now) (nullable reason) d = (n, d1)"
    "update_runs (\<lambda>r. r_job_uid r = u \<and> r_printer_id r = p \<and> r_status r = RunQueued)
      (\<lambda>r. r\<lparr>r_status := RunCancelled, r_retryable := False, r_finished_at := Some now\<rparr>) d1 = Inr (n2, d2)"
    "update_runs (\<lambda>r. r_job_uid r = u \<and> r_printer_id r = p \<and> r_status r = RunFailed \<and>
        r_retryable r \<and> r_resolution r = None) (\<lambda>r. r\<lparr>r_retryable := False\<rparr>) d2 = Inr (n3, d')"
    using assms by (auto simp: cancel_target_def sum_bind_Inr_iff split: prod.splits)
  have "stmts d d1" by (rule stmt_rules(4) [OF s(1)])
  moreover have "stmts d1 d2" by (rule stmt_rules(1) [OF s(2)]) (auto simp: evolves_simps)
  moreover have "stmts d2 d'" by (rule stmt_rules(1) [OF s(3)]) (auto simp: evolves_simps)
  ultimately show ?thesis by (blast intro: stmts_trans)
qed

lemma fold_sum_stmts:
  assumes "fold_sum F s xs = Inr s'" "db_ok (g s)"
    and "\<And>s x s'. db_ok (g s) \<Longrightarrow> x \<in> set xs \<Longrightarrow> F s x = Inr s' \<Longrightarrow> stmts (g s) (g s')"
  shows "stmts (g s) (g s')"
proof -
  have "stmts (g s) (g s') \<and> db_ok (g s')"
    by (rule fold_sum_invariant [where I = "\<lambda>t. stmts (g s) (g t) \<and> db_ok (g t)", OF assms(1)])
      (use assms(2,3) in \<open>blast intro: stmts_trans stmts_keep\<close>)+
  then show ?thesis ..
qed

lemma CancelTargets_stmts:
  assumes "CancelTargets u ps reason now d = Inr d'" "db_ok d" shows "stmts d d'"
proof -
  obtain e where e: "fold_sum (cancel_target u reason now) d ps = Inr e"
    "d' = update_expiry (\<lambda>j. j_uid j = u) (now + retentionWindow) e"
    using assms(1) by (auto simp: CancelTargets_def sum_bind_Inr_iff)
  have "stmts d e"
    using fold_sum_stmts [where g = "\<lambda>d. d", OF e(1) assms(2)] cancel_target_stmts by blast
  then show ?thesis unfolding e(2) by (rule stmts_trans) (rule stmt_rules(3))
qed

lemma RecoverAbandoned_stmts:
  assumes "RecoverAbandoned now d = Inr (rs, d')" shows "stmts d d'"
proof -
  obtain n where u: "update_runs (\<lambda>r. r_status r = RunProcessing) (abandon now) d = Inr (n, d')"
    using assms by (auto simp: RecoverAbandoned_def sum_bind_Inr_iff)
  show ?thesis by (rule stmt_rules(1) [OF u]) (auto simp: evolves_simps abandon_def)
qed

lemma update_cancellation_runs: "update_cancellation u p at reason d = (n, d') \<Longrightarrow> db_runs d' = db_runs d"
  by (auto simp: update_cancellation_def Let_def)

definition reprint_run ::
    "job \<Rightarrow> string \<Rightarrow> string \<Rightarrow> time \<Rightarrow> string \<Rightarrow> string \<Rightarrow> string \<Rightarrow> string \<Rightarrow> nat \<Rightarrow> print_run" where
  "reprint_run job req reason now uid p initial hash number =
     (fresh_run uid (j_uid job) p number TriggerManualReprint ContentReprint hash now)
        \<lparr>r_reprint_of_run_uid := nullable initial,
         r_reprint_request_id := nullable req, r_reprint_reason := nullable reason\<rparr>"

lemma reprint_target_InrD:
  assumes "reprint_target job req reason now fresh render (d, c) p = Inr (d', c')"
  obtains target initial hash uid d1 n d2 n2 where
    "find_target (j_uid job) p d = Some target"
    "active_count (j_uid job) p d = 0"
    "List.find (\<lambda>r. r_job_uid r = j_uid job \<and> r_printer_id r = p \<and> r_trigger r = TriggerInitial) (db_runs d) = Some initial"
    "render job target (next_run_number (j_uid job) p d) = Inr hash"
    "fresh p = Some uid"
    "insert_run (reprint_run job req reason now uid p (r_uid initial) hash (next_run_number (j_uid job) p d)) d = Inr d1"
    "update_cancellation (j_uid job) p None None d1 = (n, d2)"
    "update_runs (\<lambda>r. r_job_uid r = j_uid job \<and> r_printer_id r = p \<and>
          (r_status r = RunFailed \<or> r_status r = RunUncertain) \<and> r_resolution r = None)
        (\<lambda>r. r\<lparr>r_retryable := False, r_resolution := Some ResolutionReprintRequested,
               r_resolved_at := Some now\<rparr>) d2 = Inr (n2, d')"
    "c' = c @ [reprint_run job req reason now uid p (r_uid initial) hash (next_run_number (j_uid job) p d)]"
  using assms unfolding reprint_target_def Let_def prod.case
  by (elim sum_bindE) (clarsimp simp: GetTarget_def newID_def reprint_run_def [symmetric] elim!: sum_bindE
      split: prod.split_asm option.split_asm)

lemma reprint_target_stmts:
  assumes "reprint_target job req reason now fresh render (d, c) p = Inr (d', c')"
  shows "stmts d d'"
  using assms
proof (rule reprint_target_InrD)
  fix uid initial hash d1 d2 n n2
  assume i: "insert_run (reprint_run job req reason now uid p initial hash (next_run_number (j_uid job) p d)) d = Inr d1"
    and c: "update_cancellation (j_uid job) p None None d1 = (n, d2)"
    and u: "update_runs (\<lambda>r. r_job_uid r = j_uid job \<and> r_printer_id r = p \<and>
          (r_status r = RunFailed \<or> r_status r = RunUncertain) \<and> r_resolution r = None)
        (\<lambda>r. r\<lparr>r_retryable := False, r_resolution := Some ResolutionReprintRequested,
               r_resolved_at := Some now\<rparr>) d2 = Inr (n2, d')"
  have "stmts d d1" by (rule stmt_rules(2) [OF i]) (simp_all add: legit_run_def reprint_run_def fresh_run_def)
  moreover have "stmts d1 d2" by (rule stmt_rules(4) [OF c])
  moreover have "stmts d2 d'" by (rule stmt_rules(1) [OF u]) (auto simp: evolves_simps)
  ultimately show "stmts d d'" by (blast intro: stmts_trans)
qed

lemma InsertManualReprints_stmts:
  assumes "InsertManualReprints u req hash reason ps now fresh render d = Inr (created, d')" "db_ok d"
  shows "stmts d d'"
proof -
  obtain x job d1 d2 where s: "insert_dedup x d = Inr d1"
    "fold_sum (reprint_target job req reason now fresh render) (d1, []) (sort ps) = Inr (d2, created)"
    "d' = update_expiry (\<lambda>j. j_uid j = u) (now + retentionWindow) d2"
    using assms(1) by (auto simp: InsertManualReprints_def sum_bind_Inr_iff split: sum.splits db_err.splits)
  have a: "stmts d d1" by (rule stmt_rules(5) [OF s(1)])
  have "stmts (fst (d1, [] :: print_run list)) (fst (d2, created))"
    by (rule fold_sum_stmts [where g = fst, OF s(2)])
      (use reprint_target_stmts stmts_keep [OF a assms(2)] in auto)
  then have "stmts d1 d2" by simp
  moreover have "stmts d2 d'" unfolding s(3) by (rule stmt_rules(3))
  ultimately show ?thesis using a by (blast intro: stmts_trans)
qed

lemma clear_retryable_stmts:
  assumes "clear_retryable u d = Inr d'" shows "(stmt b)\<^sup>*\<^sup>* d d'"
proof -
  obtain n where u: "update_runs (\<lambda>r. r_uid r = u \<and> r_retryable r) (\<lambda>r. r\<lparr>r_retryable := False\<rparr>) d = Inr (n, d')"
    using assms by (auto simp: clear_retryable_def sum_bind_Inr_iff)
  show ?thesis by (rule stmt_rules(1) [OF u]) (auto simp: evolves_simps)
qed

lemma clear_retryable_always_stmts:
  assumes "clear_retryable_always u d = Inr d'" shows "(stmt b)\<^sup>*\<^sup>* d d'"
proof -
  obtain n where u: "update_runs (\<lambda>r. r_uid r = u) (\<lambda>r. r\<lparr>r_retryable := False\<rparr>) d = Inr (n, d')"
    using assms by (auto simp: clear_retryable_always_def sum_bind_Inr_iff)
  show ?thesis by (rule stmt_rules(1) [OF u]) (auto simp: evolves_simps)
qed

text \<open>Under the invariant the depth loop ends and counts at most three retries.\<close>

lemma candidate_depth:
  assumes "db_ok d" "p \<in> set (db_runs d)"
  obtains n where "retry_depth (db_runs d) p 0 = Some (Inr n)" "n \<le> MaxAutomaticRetries"
    "retry_chain (db_runs d) n p"
proof -
  obtain n where n: "n \<le> MaxAutomaticRetries" "retry_chain (db_runs d) n p"
    using assms by (auto simp: db_ok_def lineage_ok_def)
  moreover have "distinct (map r_uid (db_runs d))"
    using assms(1) by (simp add: db_ok_def schema_ok_def runs_ok_def runs_unique_def)
  ultimately show thesis using that retry_chain_depth [of "db_runs d" n p 0] by simp
qed

lemma retry_run_legit:
  assumes "db_ok d" "p \<in> set (db_runs d)" "retry_candidate p" "retry_chain (db_runs d) n p"
    "n < MaxAutomaticRetries"
    "r_previous_run_uid run = Some (r_uid p)" "run_target run = run_target p" "\<not> r_retryable run"
  shows "legit_run d run"
proof -
  have "retry_source d run p"
    using assms by (auto simp: retry_source_def retry_candidate_def db_ok_def lineage_ok_def)
  with assms(4,5,8) show ?thesis unfolding legit_run_def by blast
qed

lemma child_after_retry:
  assumes d: "db_ok d" and i: "insert_run run d = Inr d1"
    and run: "r_previous_run_uid run = Some (r_uid p)" "\<not> r_retryable run"
    and u: "update_runs P (\<lambda>r. r\<lparr>r_retryable := False\<rparr>) d1 = Inr (n, d')"
    and P: "\<And>r. r_uid r = r_uid p \<Longrightarrow> r_retryable r \<Longrightarrow> P r"
  shows "child_ok d'"
  unfolding child_ok_def
proof (intro ballI impI)
  fix s q assume sq: "s \<in> set (db_runs d')" "q \<in> set (db_runs d')"
    "r_trigger s = TriggerAutomaticRetry \<and> r_previous_run_uid s = Some (r_uid q)"
  obtain row where row: "row = run\<lparr>r_queue_sequence := db_next_seq d\<rparr>" "db_runs d1 = db_runs d @ [row]"
    using i by (auto elim: insert_run_InrD)
  let ?g = "\<lambda>r. if P r then r\<lparr>r_retryable := False\<rparr> else r"
  obtain s0 q0 where o: "s0 \<in> set (db_runs d1)" "s = ?g s0" "q0 \<in> set (db_runs d1)" "q = ?g q0"
    using sq(1,2) update_runs_InrD(1) [OF u] by (auto simp: set_update_where)
  have same: "r_trigger s0 = TriggerAutomaticRetry" "r_previous_run_uid s0 = Some (r_uid q0)"
    using sq(3) o(2,4) by (auto split: if_splits)
  have q: "r_retryable q \<longleftrightarrow> r_retryable q0 \<and> \<not> P q0" using o(4) by simp
  consider "s0 = row" | "q0 = row" | "s0 \<in> set (db_runs d)" "q0 \<in> set (db_runs d)"
    using o(1,3) by (auto simp: row(2))
  then show "\<not> r_retryable q"
  proof cases
    case 1
    then have "r_uid q0 = r_uid p" using same(2) run(1) by (simp add: row(1))
    then show ?thesis using q P by blast
  next
    case 2
    then show ?thesis using q run(2) by (simp add: row(1))
  next
    case 3
    then show ?thesis using q same d by (auto simp: db_ok_def child_ok_def)
  qed
qed

lemma materialize_at_InrD:
  assumes "materialize_at p depth m render fresh now d = Inr (made, d')"
  obtains (given_up) "m \<le> int depth" "clear_retryable (r_uid p) d = Inr d'"
  | (made) run d1 where "int depth < m" "insert_run run d = Inr d1" "r_trigger run = TriggerAutomaticRetry"
      "r_previous_run_uid run = Some (r_uid p)" "run_target run = run_target p" "\<not> r_retryable run"
      "clear_retryable (r_uid p) d1 = Inr d' \<or> clear_retryable_always (r_uid p) d1 = Inr d'"
proof (cases "m \<le> int depth")
  case True
  then show ?thesis using assms given_up by (auto simp: materialize_at_def sum_bind_Inr_iff)
next
  case False
  then show ?thesis using assms made unfolding materialize_at_def Let_def
    by (auto simp: fresh_run_def run_target_def elim!: sum_bindE split: sum.split_asm)
qed

lemma materialize_at_keeps:
  assumes m: "materialize_at p depth (int MaxAutomaticRetries) render fresh now d = Inr (made, d')"
    and p: "db_ok d" "p \<in> set (db_runs d)" "retry_candidate p" "retry_chain (db_runs d) depth p"
  shows "retry_stmts d d' \<and> db_ok d'"
  using m
proof (cases rule: materialize_at_InrD)
  case given_up
  then show ?thesis using clear_retryable_stmts stmts_keep p(1) by blast
next
  case (made run d1)
  note i = made(2,4-7)
  have "legit_run d run" using retry_run_legit [OF p, of run] made(1) i by simp
  then have "retry_stmts d d1" by (intro stmt_rules(2) [OF i(1)]) simp_all
  moreover have "retry_stmts d1 d'"
    using i(5) clear_retryable_stmts clear_retryable_always_stmts by blast
  ultimately have st: "retry_stmts d d'" by (rule stmts_trans)
  moreover obtain P n where "update_runs P (\<lambda>r. r\<lparr>r_retryable := False\<rparr>) d1 = Inr (n, d')"
      "\<And>r. r_uid r = r_uid p \<Longrightarrow> r_retryable r \<Longrightarrow> P r"
    using i(5) unfolding clear_retryable_def clear_retryable_always_def
    by (auto elim!: sum_bindE)
  then have "child_ok d'" using child_after_retry [OF p(1) i(1,2,4)] by blast
  ultimately show ?thesis using retry_stmts_keep [OF st] p(1) by (auto simp: db_ok_def)
qed

lemma materializeRetry_keeps:
  assumes "materializeRetry u (int MaxAutomaticRetries) render fresh now d = Some (Inr (made, d'))" "db_ok d"
  shows "retry_stmts d d' \<and> db_ok d'"
proof -
  obtain p where p: "p \<in> set (db_runs d)" "retry_candidate p"
    "List.find (\<lambda>r. r_uid r = u \<and> retry_candidate r) (db_runs d) = Some p"
    using assms(1) find_SomeD unfolding materializeRetry_def by (fastforce split: option.splits)
  obtain n where n: "retry_depth (db_runs d) p 0 = Some (Inr n)" "retry_chain (db_runs d) n p"
    by (rule candidate_depth [OF assms(2) p(1)])
  have "materialize_at p n (int MaxAutomaticRetries) render fresh now d = Inr (made, d')"
    using assms(1) by (simp add: materializeRetry_def p(3) n(1))
  then show ?thesis by (rule materialize_at_keeps) (use assms(2) p n in auto)
qed

text \<open>Accepting a Job: one initial run per target, as \<open>Service.Accept\<close> builds them.\<close>

definition accepted_shape :: "job_printer list \<Rightarrow> print_run list \<Rightarrow> bool" where
  "accepted_shape targets runs \<longleftrightarrow> map run_target runs = map target_key targets \<and>
     (\<forall>r \<in> set runs. r_trigger r = TriggerInitial \<and> \<not> r_retryable r)"

lemma insert_targets_result:
  assumes "fold_sum (\<lambda>d t. insert_target t d) d targets = Inr d'"
  shows "db_runs d' = db_runs d \<and> db_jobs d' = db_jobs d \<and>
    target_key ` set (db_targets d') = target_key ` set (db_targets d) \<union> target_key ` set targets"
  using assms
proof (induction targets arbitrary: d)
  case Nil
  then show ?case by simp
next
  case (Cons t targets)
  then obtain e where e: "insert_target t d = Inr e" "fold_sum (\<lambda>d t. insert_target t d) e targets = Inr d'"
    by (auto elim: sum_bindE)
  have "db_runs e = db_runs d \<and> db_jobs e = db_jobs d \<and>
      target_key ` set (db_targets e) = insert (target_key t) (target_key ` set (db_targets d))"
    using e(1) by (auto simp: insert_target_def Let_def target_key_def split: if_splits)
  with Cons.IH [OF e(2)] show ?case by auto
qed

lemma insert_runs_result:
  assumes "fold_sum (\<lambda>d r. insert_run r d) d runs = Inr d'"
    and "\<forall>r \<in> set runs. r_trigger r = TriggerInitial \<and> \<not> r_retryable r"
  shows "stmts d d' \<and> run_target ` set runs \<subseteq> run_target ` {r \<in> set (db_runs d'). r_trigger r = TriggerInitial}"
  using assms
proof (induction runs arbitrary: d)
  case Nil
  then show ?case by simp
next
  case (Cons r runs)
  then obtain e where e: "insert_run r d = Inr e" "fold_sum (\<lambda>d r. insert_run r d) e runs = Inr d'"
    by (auto elim: sum_bindE)
  have st: "stmts d e" using Cons.prems(2) by (intro stmt_rules(2) [OF e(1)]) (simp_all add: legit_run_def)
  have IH: "stmts e d'" "run_target ` set runs \<subseteq> run_target ` {r \<in> set (db_runs d'). r_trigger r = TriggerInitial}"
    using Cons.IH [OF e(2)] Cons.prems(2) by auto
  obtain row where row: "row = r\<lparr>r_queue_sequence := db_next_seq d\<rparr>" "db_runs e = db_runs d @ [row]"
    using e(1) by (auto elim: insert_run_InrD)
  have "run_target r \<in> run_target ` {r \<in> set (db_runs e). r_trigger r = TriggerInitial}"
    using Cons.prems(2) row by (intro image_eqI [of _ _ row]) (simp_all add: run_target_def)
  then have "run_target r \<in> run_target ` {r \<in> set (db_runs d'). r_trigger r = TriggerInitial}"
    using initial_runs_evolve [OF stmts_evolve [OF IH(1)]] by blast
  with st IH show ?case by (auto intro: stmts_trans)
qed

lemma stmts_targets: "(stmt b)\<^sup>*\<^sup>* d d' \<Longrightarrow> target_key ` set (db_targets d') = target_key ` set (db_targets d)"
  by (induction rule: rtranclp_induct) (simp_all add: stmt_targets)

lemma InsertJob_InrD:
  assumes "InsertJob job targets runs d = Inr d'"
  obtains d1 d2 where "insert_job job d = Inr d1"
    "fold_sum (\<lambda>d t. insert_target t d) d1 targets = Inr d2"
    "fold_sum (\<lambda>d r. insert_run r d) d2 runs = Inr d'"
  using assms by (auto simp: InsertJob_def elim!: sum_bindE)

lemma insert_job_result:
  "insert_job j d = Inr d' \<Longrightarrow> db_runs d' = db_runs d \<and> db_targets d' = db_targets d \<and> db_jobs d' = db_jobs d @ [j]"
  by (auto simp: insert_job_def split: if_splits)

lemma InsertJob_evolves:
  assumes "InsertJob job targets runs d = Inr d'" "accepted_shape targets runs"
  shows "runs_evolve (db_runs d) (db_runs d')"
  using assms(1)
proof (rule InsertJob_InrD)
  fix d1 d2 assume s: "insert_job job d = Inr d1" "fold_sum (\<lambda>d t. insert_target t d) d1 targets = Inr d2"
    "fold_sum (\<lambda>d r. insert_run r d) d2 runs = Inr d'"
  have "db_runs d2 = db_runs d" using insert_job_result [OF s(1)] insert_targets_result [OF s(2)] by simp
  moreover have "stmts d2 d'"
    using insert_runs_result [OF s(3)] assms(2) by (simp add: accepted_shape_def)
  ultimately show ?thesis using stmts_evolve by fastforce
qed

lemma InsertJob_keeps [keeps]:
  assumes "InsertJob job targets runs d = Inr d'" "accepted_shape targets runs" "db_ok d"
  shows "db_ok d'"
  using assms(1)
proof (rule InsertJob_InrD)
  fix d1 d2 assume s: "insert_job job d = Inr d1" "fold_sum (\<lambda>d t. insert_target t d) d1 targets = Inr d2"
    "fold_sum (\<lambda>d r. insert_run r d) d2 runs = Inr d'"
  have schema: "schema_ok d2"
  proof (rule fold_sum_invariant [where I = schema_ok, OF s(2)])
    show "schema_ok d1" using assms(3) insert_job_keeps [OF s(1)] by (simp add: db_ok_def)
  qed (rule insert_target_keeps)
  have r2: "db_runs d2 = db_runs d"
    and t2: "target_key ` set (db_targets d2) = target_key ` set (db_targets d) \<union> target_key ` set targets"
    using insert_job_result [OF s(1)] insert_targets_result [OF s(2)] by simp_all
  have runs: "stmts d2 d'"
    "run_target ` set runs \<subseteq> run_target ` {r \<in> set (db_runs d'). r_trigger r = TriggerInitial}"
    using insert_runs_result [OF s(3)] assms(2) by (simp_all add: accepted_shape_def)
  have "schema_ok d' \<and> lineage_ok d' \<and> child_ok d'"
    using runs(1) schema lineage_unchanged [OF _ r2] child_unchanged [OF _ r2] assms(3)
    by (induction rule: rtranclp_induct) (auto intro: stmt_child stmt_schema stmt_lineage simp: db_ok_def)
  moreover have "initial_ok d'" unfolding initial_ok_alt
  proof -
    have "target_key ` set targets = run_target ` set runs"
      using assms(2) by (metis accepted_shape_def image_set)
    moreover have "target_key ` set (db_targets d)
        \<subseteq> run_target ` {r \<in> set (db_runs d'). r_trigger r = TriggerInitial}"
      using assms(3) initial_runs_evolve [OF stmts_evolve [OF runs(1)]]
      unfolding db_ok_def initial_ok_alt r2 by blast
    ultimately show "target_key ` set (db_targets d')
        \<subseteq> run_target ` {r \<in> set (db_runs d'). r_trigger r = TriggerInitial}"
      using runs(2) t2 stmts_targets [OF runs(1)] by auto
  qed
  ultimately show ?thesis by (simp add: db_ok_def)
qed

section \<open>Retention\<close>

lemma retry_chain_job:
  assumes "retry_chain (db_runs d) n r" "r \<in> set (db_runs d)" "db_ok d" "r_job_uid r \<notin> gone"
  shows "retry_chain (filter (\<lambda>r. r_job_uid r \<notin> gone) (db_runs d)) n r"
  using assms(1,2,4)
proof (induction)
  case (chain_start r)
  then show ?case by (simp add: retry_chain.chain_start)
next
  case (chain_retry r p n)
  obtain q where q: "retry_source d r q"
    using assms(3) chain_retry by (auto simp: db_ok_def lineage_ok_def)
  have "q = p"
    using same_uid [of d q p] assms(3) q chain_retry by (simp add: db_ok_def retry_source_def)
  then have job: "r_job_uid p = r_job_uid r" using q by (simp add: retry_source_def run_target_def)
  show ?case
    by (rule retry_chain.chain_retry [of _ p]) (use chain_retry job in auto)
qed

lemma delete_jobs_db_ok: assumes "db_ok d" shows "db_ok (delete_jobs P d)"
proof -
  define gone where "gone = j_uid ` set (filter P (db_jobs d))"
  have runs: "db_runs (delete_jobs P d) = filter (\<lambda>r. r_job_uid r \<notin> gone) (db_runs d)"
    and targets: "db_targets (delete_jobs P d) = filter (\<lambda>t. t_job_uid t \<notin> gone) (db_targets d)"
    by (simp_all add: delete_jobs_def gone_def Let_def)
  have src: "retry_source (delete_jobs P d) r p" if "retry_source d r p" "r_job_uid r \<notin> gone" for r p
    using that by (simp add: retry_source_def runs run_target_def)
  have "lineage_ok (delete_jobs P d)"
    using assms src retry_chain_job [OF _ _ assms]
    unfolding lineage_ok_def db_ok_def runs by (auto; metis)
  moreover have "initial_ok (delete_jobs P d)"
    using assms unfolding initial_ok_def db_ok_def runs targets
    by (fastforce simp: target_key_def run_target_def)
  moreover have "child_ok (delete_jobs P d)"
    using assms unfolding db_ok_def child_ok_def runs by auto
  ultimately show ?thesis using assms delete_jobs_keeps by (simp add: db_ok_def)
qed

lemma delete_events_db_ok: "db_ok d \<Longrightarrow> db_ok (delete_events P d)"
  using delete_events_keeps [of d P]
  by (simp add: db_ok_def lineage_ok_def initial_ok_def child_ok_def retry_source_def delete_events_def)

lemma PurgeExpired_keeps [keeps]: "db_ok d \<Longrightarrow> db_ok (PurgeExpired now d)"
  unfolding PurgeExpired_def by (intro delete_events_db_ok delete_jobs_db_ok)

text \<open>Only expired Jobs with nothing left to do are purged; every other run stays as it is.\<close>

lemma PurgeExpired_runs:
  assumes "db_ok d" "r \<in> set (db_runs d)" "r \<notin> set (db_runs (PurgeExpired now d))"
  obtains j where "j \<in> set (db_jobs d)" "j_uid j = r_job_uid r" "ts (j_expires_at j) < ts now"
    "\<not> unresolved_work d j"
  using assms(2,3)
  by (auto simp: PurgeExpired_def delete_events_def delete_jobs_def Let_def image_iff)

section \<open>Histories of the database\<close>

text \<open>
  A step is one committed operation of the Job repository. The guard of \<open>step_failed\<close> is the
  worker's: it marks a run retryable only when the transport accepted none of its bytes.
\<close>

inductive repo_step :: "db \<Rightarrow> db \<Rightarrow> bool" where
  step_accept: "InsertJob job targets runs d = Inr d' \<Longrightarrow> accepted_shape targets runs \<Longrightarrow> repo_step d d'"
| step_claim: "ClaimNextQueued p now d = Inr (run, d') \<Longrightarrow> repo_step d d'"
| step_transmitted: "MarkTransmitted uid n now l d = Inr d' \<Longrightarrow> repo_step d d'"
| step_failed: "MarkFailed uid n code msg retryable now l d = Inr d' \<Longrightarrow> (retryable \<Longrightarrow> n = 0) \<Longrightarrow> repo_step d d'"
| step_uncertain: "MarkUncertain uid n code msg now l d = Inr d' \<Longrightarrow> repo_step d d'"
| step_cancel: "CancelRun uid now l d = Inr d' \<Longrightarrow> repo_step d d'"
| step_resolve: "ResolveUncertain uid res now d = Inr d' \<Longrightarrow> repo_step d d'"
| step_cancel_targets: "CancelTargets u ps reason now d = Inr d' \<Longrightarrow> repo_step d d'"
| step_reprint: "InsertManualReprints u req hash reason ps now fresh reprint d = Inr (created, d') \<Longrightarrow> repo_step d d'"
| step_retry: "materializeRetry u (int MaxAutomaticRetries) render fresh1 now d = Some (Inr (made, d')) \<Longrightarrow> repo_step d d'"
| step_recover: "RecoverAbandoned now d = Inr (rs, d') \<Longrightarrow> repo_step d d'"
| step_purge: "repo_step d (PurgeExpired now d)"

definition purged :: "db \<Rightarrow> print_run \<Rightarrow> bool" where
  "purged d' r \<longleftrightarrow> r_job_uid r \<notin> j_uid ` set (db_jobs d') \<and> \<not> active_status (r_status r)"

lemma repo_step_cases_stmts:
  assumes "repo_step d d'" "db_ok d"
  shows "stmts d d' \<or> (retry_stmts d d' \<and> db_ok d') \<or> (\<exists>job targets runs. InsertJob job targets runs d = Inr d' \<and> accepted_shape targets runs) \<or>
    (\<exists>now. d' = PurgeExpired now d)"
  using assms
proof (induction rule: repo_step.induct)
  case (step_failed uid n code msg retryable now l d d')
  then show ?case using MarkFailed_stmts by blast
next
  case (step_resolve uid res now d d')
  then show ?case using ResolveUncertain_stmts by (auto simp: db_ok_def)
qed (auto intro: ClaimNextQueued_stmts MarkTransmitted_stmts MarkUncertain_stmts CancelRun_stmts
      CancelTargets_stmts InsertManualReprints_stmts RecoverAbandoned_stmts materializeRetry_keeps
      [THEN conjunct1] materializeRetry_keeps [THEN conjunct2])

lemma repo_step_keeps: "repo_step d d' \<Longrightarrow> db_ok d \<Longrightarrow> db_ok d'"
  using repo_step_cases_stmts stmts_keep InsertJob_keeps PurgeExpired_keeps by metis

lemma repo_steps_keep: "repo_step\<^sup>*\<^sup>* d d' \<Longrightarrow> db_ok d \<Longrightarrow> db_ok d'"
  by (induction rule: rtranclp_induct) (auto intro: repo_step_keeps)

lemma repo_step_run:
  assumes "repo_step d d'" "db_ok d" "r \<in> set (db_runs d)"
  shows "(\<exists>s \<in> set (db_runs d'). run_evolves r s) \<or> purged d' r"
proof -
  consider "runs_evolve (db_runs d) (db_runs d')" | now where "d' = PurgeExpired now d"
    using repo_step_cases_stmts [OF assms(1,2)] stmts_evolve InsertJob_evolves by metis
  then show ?thesis
  proof cases
    case 1
    then show ?thesis using assms(3) by (auto simp: runs_evolve_def)
  next
    case 2
    show ?thesis
    proof (cases "r \<in> set (db_runs d')")
      case True
      then show ?thesis using run_evolves_refl by blast
    next
      case False
      then obtain j where j: "j \<in> set (db_jobs d)" "j_uid j = r_job_uid r" "ts (j_expires_at j) < ts now"
          "\<not> unresolved_work d j"
        using PurgeExpired_runs [OF assms(2,3)] 2 by metis
      have "\<not> active_status (r_status r)" using j(2,4) assms(3) by (auto simp: unresolved_work_def)
      moreover have "k = j" if "k \<in> set (db_jobs d)" "j_uid k = r_job_uid r" for k
        using that j(1,2) assms(2) distinct_map_eqD [of j_uid "db_jobs d" k j]
        by (simp add: db_ok_def schema_ok_def jobs_ok_def)
      then have "r_job_uid r \<notin> j_uid ` set (db_jobs d')"
        using j(3,4) by (auto simp: 2 PurgeExpired_def delete_events_def delete_jobs_def Let_def)
      ultimately show ?thesis by (simp add: purged_def)
    qed
  qed
qed

end
