(* ===== verification/RepositoryLaws.thy ===== *)
theory RepositoryLaws
  imports RepositorySafety
begin

text \<open>
  What the repository operations promise their callers: which run a claim takes, that marking an
  outcome succeeds and can be repeated, that retries and reprints are made or refused for the
  stated reasons, what a restart and a purge leave behind. No operation on a database that
  satisfies the invariant is aborted by a trigger.
\<close>

section \<open>Rows by identifier\<close>

lemma db_ok_uids: "db_ok d \<Longrightarrow> distinct (map r_uid (db_runs d))"
  by (simp add: db_ok_def schema_ok_def runs_ok_def runs_unique_def)

lemma db_ok_schema: "db_ok d \<Longrightarrow> schema_ok d"
  by (simp add: db_ok_def)

lemma db_ok_check: "db_ok d \<Longrightarrow> r \<in> set (db_runs d) \<Longrightarrow> run_check r"
  by (simp add: db_ok_def schema_ok_def runs_ok_def)

lemma find_run_SomeD: "find_run u d = Some r \<Longrightarrow> r \<in> set (db_runs d) \<and> r_uid r = u"
  unfolding find_run_def by (blast dest: find_SomeD)

lemma find_run_iff: "db_ok d \<Longrightarrow> find_run u d = Some r \<longleftrightarrow> r \<in> set (db_runs d) \<and> r_uid r = u"
  unfolding find_run_def using find_distinct [OF db_ok_uids] find_SomeD by fast

lemma run_check_update:
  assumes "run_check r" "run_identity s = run_identity r" "0 \<le> r_bytes_accepted s"
    "r_retryable s \<longrightarrow> r_status s = RunFailed"
    "r_resolution s \<noteq> None \<longrightarrow> r_status s = RunFailed \<or> r_status s = RunUncertain"
  shows "run_check s"
  using assms(1,3-5) run_identityD [OF assms(2)]
  unfolding run_check_def by (cases "r_trigger r") simp_all

lemma find_update_where:
  assumes "\<And>r. k (f r) = k r"
  shows "List.find (\<lambda>r. k r = v) (update_where P f rs) =
    map_option (\<lambda>r. if P r then f r else r) (List.find (\<lambda>r. k r = v) rs)"
  using assms by (induction rs) auto

lemma count_uid:
  assumes "distinct (map r_uid rs)" "r \<in> set rs" "P r" "\<And>s. s \<in> set rs \<Longrightarrow> P s \<Longrightarrow> r_uid s = r_uid r"
  shows "length (filter P rs) = 1"
proof -
  have "distinct (filter P rs)" using assms(1) by (simp add: distinct_map)
  moreover have "set (filter P rs) = {r}"
    using assms by (auto intro: distinct_map_eqD)
  ultimately show ?thesis by (metis distinct_card card.empty card_insert_disjoint empty_iff finite.emptyI One_nat_def)
qed

section \<open>Marking an outcome\<close>

text \<open>
  \<open>marks\<close>: a transition of the run \<open>uid\<close> from one status to another, written the way
  \<open>transition\<close> is called.
\<close>

definition mark_update :: "run_status \<Rightarrow> run_status \<Rightarrow> (print_run \<Rightarrow> print_run) \<Rightarrow> bool" where
  "mark_update source target f \<longleftrightarrow> (\<forall>r. run_identity (f r) = run_identity r \<and> r_status (f r) = target \<and>
     r_resolution (f r) = r_resolution r)"

lemma transition_first:
  assumes ok: "db_ok d" and r: "find_run u d = Some r" "r_status r = source"
    and f: "mark_update source target f" and edge: "status_edge source target" "\<not> active_status target"
    and check: "run_check (f r)"
  shows "transition u target (\<lambda>r. r_uid r = u \<and> r_status r = source) f now d = Inr
    (extend_retention u (now + retentionWindow)
       (d\<lparr>db_runs := update_where (\<lambda>r. r_uid r = u \<and> r_status r = source) f (db_runs d)\<rparr>))"
proof -
  let ?P = "\<lambda>r. r_uid r = u \<and> r_status r = source"
  have r': "r \<in> set (db_runs d)" "r_uid r = u" using find_run_SomeD [OF r(1)] by simp_all
  have only: "s = r" if "s \<in> set (db_runs d)" "?P s" for s
    using that r' same_uid [OF db_ok_schema [OF ok], of s r] by simp
  have "update_runs ?P f d =
      Inr (length (filter ?P (db_runs d)), d\<lparr>db_runs := update_where ?P f (db_runs d)\<rparr>)"
    by (rule update_runs_accepts [OF db_ok_schema [OF ok]])
      (use only f edge check r(2) in \<open>auto simp: mark_update_def run_update_allowed_def\<close>)
  moreover have "length (filter ?P (db_runs d)) = 1"
    by (rule count_uid [OF db_ok_uids [OF ok] r'(1)]) (use r r' in auto)
  ultimately show ?thesis by (simp add: transition_def guard_err_def)
qed

text \<open>
  The second try of a transition whose first one was committed: no row matches, the status is
  already the target, and only the retention of the Job is written again.
\<close>

lemma transition_again:
  assumes ok: "db_ok d" and r: "find_run u d = Some r" "r_status r = target" "source \<noteq> target"
  shows "transition u target (\<lambda>r. r_uid r = u \<and> r_status r = source) f now d =
    Inr (extend_retention u (now + retentionWindow) d)"
proof -
  let ?P = "\<lambda>r. r_uid r = u \<and> r_status r = source"
  have none: "\<not> ?P s" if "s \<in> set (db_runs d)" for s
    using that r find_run_SomeD [OF r(1)] same_uid [OF db_ok_schema [OF ok], of s r] by auto
  then have "update_where ?P f (db_runs d) = db_runs d" by (rule update_where_None)
  moreover have "filter ?P (db_runs d) = []" using none by simp
  ultimately have "update_runs ?P f d = Inr (0, d)"
    using update_runs_accepts [OF db_ok_schema [OF ok], of ?P f] none by simp
  then show ?thesis using r by (simp add: transition_def guard_err_def)
qed

lemma transition_refused:
  assumes ok: "db_ok d" and r: "find_run u d = None \<or> (\<exists>r. find_run u d = Some r \<and> r_status r \<noteq> source \<and> r_status r \<noteq> target)"
  shows "transition u target (\<lambda>r. r_uid r = u \<and> r_status r = source) f now d = Inl ErrStateChanged"
proof -
  let ?P = "\<lambda>r. r_uid r = u \<and> r_status r = source"
  have none: "\<not> ?P s" if "s \<in> set (db_runs d)" for s
    using that r find_run_iff [OF ok, of u s] by auto
  then have "update_where ?P f (db_runs d) = db_runs d" by (rule update_where_None)
  moreover have "filter ?P (db_runs d) = []" using none by simp
  ultimately have "update_runs ?P f d = Inr (0, d)"
    using update_runs_accepts [OF db_ok_schema [OF ok], of ?P f] none by simp
  then show ?thesis using r by (auto simp: transition_def guard_err_def)
qed

lemma extend_retention_runs [simp]:
  "db_runs (extend_retention u t d) = db_runs d" "db_targets (extend_retention u t d) = db_targets d"
  "find_run v (extend_retention u t d) = find_run v d"
  by (simp_all add: extend_retention_def update_expiry_def find_run_def)

text \<open>
  The contract the workers rely on: an outcome can be written for a run that is processing, and
  writing it again (because the answer of the first try was lost) succeeds and changes no run.
\<close>

definition marked :: "string \<Rightarrow> run_status \<Rightarrow> db \<Rightarrow> db \<Rightarrow> bool" where
  "marked uid target d d' \<longleftrightarrow>
     (\<exists>r. find_run uid d' = Some r \<and> r_status r = target) \<and>
     (\<forall>v. v \<noteq> uid \<longrightarrow> find_run v d' = find_run v d)"

locale persisted_mark =
  fixes mark :: "time \<Rightarrow> time \<Rightarrow> db \<Rightarrow> repo_err + db" and uid :: string and target :: run_status
  assumes mark_first: "db_ok d \<Longrightarrow> find_run uid d = Some r \<Longrightarrow> r_status r = RunProcessing \<Longrightarrow>
      \<exists>d'. mark now l d = Inr d' \<and> marked uid target d d'"
    and mark_again: "db_ok d \<Longrightarrow> find_run uid d = Some r \<Longrightarrow> r_status r = target \<Longrightarrow>
      \<exists>d'. mark now l d = Inr d' \<and> db_runs d' = db_runs d"
    and mark_keeps: "db_ok d \<Longrightarrow> mark now l d = Inr d' \<Longrightarrow> db_ok d'"
begin

text \<open>A run that waits for its outcome, or has it already.\<close>

definition pending :: "db \<Rightarrow> bool" where
  "pending d \<longleftrightarrow> db_ok d \<and> (\<exists>r. find_run uid d = Some r \<and> (r_status r = RunProcessing \<or> r_status r = target))"

lemma mark_pending: "pending d \<Longrightarrow> \<exists>d'. mark now l d = Inr d' \<and> pending d' \<and> marked uid target d d'"
proof -
  assume p: "pending d"
  then obtain r where r: "db_ok d" "find_run uid d = Some r" "r_status r = RunProcessing \<or> r_status r = target"
    by (auto simp: pending_def)
  have "\<exists>d'. mark now l d = Inr d' \<and> marked uid target d d'"
    using mark_first [OF r(1,2)] mark_again [OF r(1,2)] r(2,3)
    by (fastforce simp: marked_def find_run_def)
  then show ?thesis using mark_keeps [OF r(1)] by (auto simp: pending_def marked_def)
qed

lemma marked_pending: "pending d \<Longrightarrow> marked uid target d d' \<Longrightarrow> db_ok d' \<Longrightarrow> pending d'"
  by (auto simp: pending_def marked_def)

lemma marked_trans: "marked uid target d e \<Longrightarrow> marked uid target e d' \<Longrightarrow> marked uid target d d'"
  by (auto simp: marked_def)

end

lemma transition_marks:
  assumes ok: "db_ok d" and r: "find_run u d = Some r" "r_status r = source"
    and f: "mark_update source target f" and edge: "status_edge source target" "\<not> active_status target"
    and check: "run_check (f r)"
  shows "\<exists>d'. transition u target (\<lambda>r. r_uid r = u \<and> r_status r = source) f now d = Inr d' \<and>
    marked u target d d' \<and> find_run u d' = Some (f r)"
proof -
  let ?P = "\<lambda>r. r_uid r = u \<and> r_status r = source"
  let ?e = "d\<lparr>db_runs := update_where ?P f (db_runs d)\<rparr>"
  have f': "r_uid (f x) = r_uid x" for x using f run_identityD(2) [of "f x" x] by (simp add: mark_update_def)
  have moved: "find_run v ?e = map_option (\<lambda>r. if ?P r then f r else r) (find_run v d)" for v
    unfolding find_run_def db.select_convs db.update_convs by (simp add: find_update_where f')
  have other: "find_run v ?e = find_run v d" if "v \<noteq> u" for v
  proof (cases "find_run v d")
    case None
    then show ?thesis by (simp only: moved option.map)
  next
    case (Some x)
    then have "r_uid x \<noteq> u" using find_run_SomeD that by blast
    with Some show ?thesis by (simp add: moved)
  qed
  have here: "find_run u ?e = Some (f r)"
    using r find_run_SomeD [OF r(1)] by (simp add: moved)
  have "r_status (f r) = target" using f by (simp add: mark_update_def)
  with other here have "marked u target d (extend_retention u (now + retentionWindow) ?e)"
    by (simp add: marked_def)
  with here transition_first [OF ok r f edge check, of now] show ?thesis by simp
qed

lemma transition_marked:
  assumes "db_ok d" "find_run u d = Some r" "r_status r = source"
    "mark_update source target f" "status_edge source target" "\<not> active_status target" "run_check (f r)"
  shows "\<exists>d'. transition u target (\<lambda>r. r_uid r = u \<and> r_status r = source) f now d = Inr d' \<and> marked u target d d'"
  using transition_marks [OF assms] by blast

lemma transition_mark_again:
  "db_ok d \<Longrightarrow> find_run u d = Some r \<Longrightarrow> r_status r = target \<Longrightarrow> source \<noteq> target \<Longrightarrow>
   \<exists>d'. transition u target (\<lambda>r. r_uid r = u \<and> r_status r = source) f now d = Inr d' \<and> db_runs d' = db_runs d"
  by (simp add: transition_again)

lemma processing_check:
  "db_ok d \<Longrightarrow> find_run u d = Some r \<Longrightarrow> r_status r = RunProcessing \<Longrightarrow> run_check r \<and> r_resolution r = None \<and> \<not> r_retryable r"
  using db_ok_check find_run_SomeD by (fastforce simp: run_check_def)

interpretation transmitted: persisted_mark "MarkTransmitted uid (int n)" uid RunTransmitted
proof
  fix d r now l d'
  show "\<exists>d'. MarkTransmitted uid (int n) now l d = Inr d' \<and> marked uid RunTransmitted d d'"
    if "db_ok d" "find_run uid d = Some r" "r_status r = RunProcessing"
    unfolding MarkTransmitted_def
    by (rule transition_marked [OF that])
      (use processing_check [OF that] in \<open>auto simp: mark_update_def run_identity_def status_edge_def
        active_status_def intro: run_check_update\<close>)
  show "\<exists>d'. MarkTransmitted uid (int n) now l d = Inr d' \<and> db_runs d' = db_runs d"
    if "db_ok d" "find_run uid d = Some r" "r_status r = RunTransmitted"
    unfolding MarkTransmitted_def by (rule transition_mark_again [OF that]) simp
  show "db_ok d'" if "db_ok d" "MarkTransmitted uid (int n) now l d = Inr d'"
    using stmts_keep [OF MarkTransmitted_stmts [OF that(2)] that(1)] .
qed

interpretation uncertain: persisted_mark "MarkUncertain uid (int n) code msg" uid RunUncertain
proof
  fix d r now l d'
  show "\<exists>d'. MarkUncertain uid (int n) code msg now l d = Inr d' \<and> marked uid RunUncertain d d'"
    if "db_ok d" "find_run uid d = Some r" "r_status r = RunProcessing"
    unfolding MarkUncertain_def
    by (rule transition_marked [OF that])
      (use processing_check [OF that] in \<open>auto simp: mark_update_def run_identity_def status_edge_def
        active_status_def intro: run_check_update\<close>)
  show "\<exists>d'. MarkUncertain uid (int n) code msg now l d = Inr d' \<and> db_runs d' = db_runs d"
    if "db_ok d" "find_run uid d = Some r" "r_status r = RunUncertain"
    unfolding MarkUncertain_def by (rule transition_mark_again [OF that]) simp
  show "db_ok d'" if "db_ok d" "MarkUncertain uid (int n) code msg now l d = Inr d'"
    using stmts_keep [OF MarkUncertain_stmts [OF that(2)] that(1)] .
qed

interpretation failed: persisted_mark "MarkFailed uid 0 code msg retryable" uid RunFailed
proof
  fix d r now l d'
  show "\<exists>d'. MarkFailed uid 0 code msg retryable now l d = Inr d' \<and> marked uid RunFailed d d'"
    if "db_ok d" "find_run uid d = Some r" "r_status r = RunProcessing"
    unfolding MarkFailed_def
    by (rule transition_marked [OF that])
      (use processing_check [OF that] in \<open>auto simp: mark_update_def run_identity_def status_edge_def
        active_status_def intro: run_check_update\<close>)
  show "\<exists>d'. MarkFailed uid 0 code msg retryable now l d = Inr d' \<and> db_runs d' = db_runs d"
    if "db_ok d" "find_run uid d = Some r" "r_status r = RunFailed"
    unfolding MarkFailed_def by (rule transition_mark_again [OF that]) simp
  show "db_ok d'" if "db_ok d" "MarkFailed uid 0 code msg retryable now l d = Inr d'"
    using stmts_keep [OF MarkFailed_stmts [OF that(2)] that(1)] by simp
qed

section \<open>Claiming\<close>

definition queued_for :: "string \<Rightarrow> print_run \<Rightarrow> bool" where
  "queued_for p r \<longleftrightarrow> r_printer_id r = p \<and> r_status r = RunQueued"

definition claimed :: "time \<Rightarrow> print_run \<Rightarrow> print_run" where
  "claimed now r = r\<lparr>r_status := RunProcessing, r_started_at := Some now\<rparr>"

text \<open>The oldest queued run of a printer, by the order in which runs were inserted.\<close>

definition oldest_queued :: "string \<Rightarrow> db \<Rightarrow> print_run \<Rightarrow> bool" where
  "oldest_queued p d r \<longleftrightarrow> r \<in> set (db_runs d) \<and> queued_for p r \<and>
     (\<forall>s \<in> set (db_runs d). queued_for p s \<longrightarrow> r_queue_sequence r \<le> r_queue_sequence s)"

lemma oldest_is_head:
  assumes "db_ok d" "oldest_queued p d r"
  shows "\<exists>rest. sort_key r_queue_sequence (filter (\<lambda>r. r_printer_id r = p \<and> r_status r = RunQueued) (db_runs d)) = r # rest"
proof -
  let ?xs = "filter (\<lambda>r. r_printer_id r = p \<and> r_status r = RunQueued) (db_runs d)"
  have mem: "r \<in> set (sort_key r_queue_sequence ?xs)" using assms(2) by (simp add: oldest_queued_def queued_for_def)
  then obtain h t where h: "sort_key r_queue_sequence ?xs = h # t" by (cases "sort_key r_queue_sequence ?xs") auto
  then have "h \<in> set (sort_key r_queue_sequence ?xs)" by simp
  then have hin: "h \<in> set (db_runs d)" "queued_for p h" by (auto simp: queued_for_def)
  have "sorted (map r_queue_sequence (h # t))" using sorted_sort_key [of r_queue_sequence ?xs] h by simp
  then have "r_queue_sequence h \<le> r_queue_sequence r" using mem h by auto
  moreover have "r_queue_sequence r \<le> r_queue_sequence h" using assms(2) hin by (simp add: oldest_queued_def)
  ultimately have "h = r"
    using same_sequence [OF db_ok_schema [OF assms(1)] hin(1), of r] assms(2) by (simp add: oldest_queued_def)
  with h show ?thesis by blast
qed

lemma oldest_exists:
  assumes "r \<in> set (db_runs d)" "queued_for p r" shows "\<exists>m. oldest_queued p d m"
  using ex_has_least_nat [of "\<lambda>r. r \<in> set (db_runs d) \<and> queued_for p r" r r_queue_sequence] assms
  unfolding oldest_queued_def by blast

lemma claim_oldest:
  assumes ok: "db_ok d" and r: "oldest_queued p d r"
  shows "ClaimNextQueued p now d =
    Inr (claimed now r, d\<lparr>db_runs := update_where (\<lambda>x. r_uid x = r_uid r) (claimed now) (db_runs d)\<rparr>)"
proof -
  obtain rest where head: "sort_key r_queue_sequence
      (filter (\<lambda>r. r_printer_id r = p \<and> r_status r = RunQueued) (db_runs d)) = r # rest"
    using oldest_is_head [OF ok r] by blast
  have r': "r \<in> set (db_runs d)" "r_status r = RunQueued" using r by (auto simp: oldest_queued_def queued_for_def)
  let ?P = "\<lambda>x. r_queue_sequence x = r_queue_sequence r"
  have only: "?P x \<longleftrightarrow> x = r" "r_uid x = r_uid r \<longleftrightarrow> x = r" if "x \<in> set (db_runs d)" for x
    using same_sequence [OF db_ok_schema [OF ok] that r'(1)] same_uid [OF db_ok_schema [OF ok] that r'(1)] by blast+
  have same: "update_where ?P (claimed now) (db_runs d) = update_where (\<lambda>x. r_uid x = r_uid r) (claimed now) (db_runs d)"
    unfolding update_where_def using only by (intro map_cong) auto
  have chk: "run_check (claimed now r)"
    by (rule run_check_update [OF db_ok_check [OF ok r'(1)]])
      (use db_ok_check [OF ok r'(1)] r'(2) in \<open>auto simp: claimed_def run_identity_def run_check_def\<close>)
  have u: "update_runs ?P (claimed now) d = Inr (length (filter ?P (db_runs d)),
      d\<lparr>db_runs := update_where ?P (claimed now) (db_runs d)\<rparr>)"
    by (rule update_runs_accepts [OF db_ok_schema [OF ok]])
      (use only chk r'(2) in \<open>auto simp: run_update_allowed_def claimed_def run_identity_def status_edge_def
        active_status_def\<close>)
  have "List.find ?P (update_where ?P (claimed now) (db_runs d)) = Some (claimed now r)"
  proof -
    have "List.find ?P (db_runs d) = Some r"
      using find_distinct [of r_queue_sequence "db_runs d" r] ok r'(1)
      by (simp add: db_ok_def schema_ok_def runs_ok_def runs_unique_def)
    then show ?thesis
      using find_update_where [of r_queue_sequence "claimed now" "r_queue_sequence r" ?P "db_runs d"]
      by (simp add: claimed_def)
  qed
  with u same show ?thesis
    unfolding ClaimNextQueued_def head claimed_def by (simp add: claimed_def [abs_def])
qed

lemma claim_none: "\<not> (\<exists>r \<in> set (db_runs d). queued_for p r) \<Longrightarrow> ClaimNextQueued p now d = Inl ErrNotFound"
  by (auto simp: ClaimNextQueued_def queued_for_def filter_empty_conv split: list.splits)

section \<open>Restart\<close>

lemma recover_result:
  assumes "db_ok d"
  shows "RecoverAbandoned now d = Inr (map (abandon now) (filter (\<lambda>r. r_status r = RunProcessing) (db_runs d)),
    d\<lparr>db_runs := update_where (\<lambda>r. r_status r = RunProcessing) (abandon now) (db_runs d)\<rparr>)"
proof -
  have chk: "run_check (abandon now r)" if "r \<in> set (db_runs d)" for r
    by (rule run_check_update [OF db_ok_check [OF assms that]])
      (use db_ok_check [OF assms that] in \<open>auto simp: abandon_def run_identity_def run_check_def\<close>)
  have "update_runs (\<lambda>r. r_status r = RunProcessing) (abandon now) d =
      Inr (length (filter (\<lambda>r. r_status r = RunProcessing) (db_runs d)),
        d\<lparr>db_runs := update_where (\<lambda>r. r_status r = RunProcessing) (abandon now) (db_runs d)\<rparr>)"
    by (rule update_runs_accepts [OF db_ok_schema [OF assms]])
      (use chk in \<open>auto simp: run_update_allowed_def abandon_def run_identity_def status_edge_def active_status_def\<close>)
  then show ?thesis by (simp add: RecoverAbandoned_def)
qed

section \<open>Inserting the next run of a target\<close>

lemma fold_max_ge: "x \<in> set xs \<Longrightarrow> x \<le> fold max xs (a::nat)" "a \<le> fold max xs a"
proof (induction xs arbitrary: a)
  case (Cons y ys)
  { case 1 then show ?case using Cons.IH(1) [of "max y a"] Cons.IH(2) [of "max y a"] by auto }
  { case 2 then show ?case using Cons.IH(2) [of "max y a"] by simp }
qed simp_all

lemma next_run_number_greater:
  assumes "r \<in> set (db_runs d)" "run_target r = (u, p)" shows "r_run_number r < next_run_number u p d"
proof -
  have "r_run_number r \<in> set (map r_run_number (runsWhere (\<lambda>r. r_job_uid r = u \<and> r_printer_id r = p) d))"
    using assms by (auto simp: runsWhere_def run_target_def)
  then show ?thesis unfolding next_run_number_def using fold_max_ge(1) by (simp add: less_Suc_eq_le)
qed

lemma active_count_zero:
  "active_count u p d = 0 \<longleftrightarrow> (\<forall>r \<in> set (db_runs d). run_target r = (u, p) \<longrightarrow> \<not> active_status (r_status r))"
  by (auto simp: active_count_def runsWhere_def run_target_def filter_empty_conv)

lemma distinct_filter_snoc:
  "distinct (map k (filter Q xs)) \<Longrightarrow> (Q x \<Longrightarrow> \<forall>y \<in> set xs. Q y \<longrightarrow> k y \<noteq> k x) \<Longrightarrow>
   distinct (map k (filter Q (xs @ [x])))"
  by (auto simp: image_iff)

lemma insert_run_accepts:
  assumes ok: "db_ok d" and row: "row = run\<lparr>r_queue_sequence := db_next_seq d\<rparr>"
    and target: "run_target run = (u, p)" "(u, p) \<in> target_key ` set (db_targets d)"
    and number: "r_run_number run = next_run_number u p d"
    and uid: "\<forall>r \<in> set (db_runs d). r_uid r \<noteq> r_uid run"
    and chk: "run_check row" and notinit: "r_trigger run \<noteq> TriggerInitial"
    and active: "active_status (r_status run) \<longrightarrow> active_count u p d = 0"
    and prev: "r_previous_run_uid run \<noteq> None \<Longrightarrow> r_trigger run = TriggerAutomaticRetry \<Longrightarrow>
      \<forall>r \<in> set (db_runs d). r_trigger r = TriggerAutomaticRetry \<longrightarrow> r_previous_run_uid r \<noteq> r_previous_run_uid run"
    and request: "r_reprint_request_id run \<noteq> None \<Longrightarrow>
      \<forall>r \<in> set (db_runs d). run_target r = (u, p) \<longrightarrow> r_reprint_request_id r \<noteq> r_reprint_request_id run"
    and refs: "names_run (db_runs d) run (r_previous_run_uid run)" "names_run (db_runs d) run (r_reprint_of_run_uid run)"
  shows "insert_run run d = Inr (d\<lparr>db_runs := db_runs d @ [row], db_next_seq := db_next_seq d + 1\<rparr>)"
proof -
  have un: "runs_unique (db_runs d)" and seq: "\<forall>r \<in> set (db_runs d). r_queue_sequence r < db_next_seq d"
    using ok by (auto simp: db_ok_def schema_ok_def runs_ok_def)
  have rt: "run_target row = (u, p)" using target(1) by (simp add: row run_target_def)
  have sel: "r_uid row = r_uid run" "r_run_number row = r_run_number run" "r_trigger row = r_trigger run"
    "r_previous_run_uid row = r_previous_run_uid run" "r_status row = r_status run"
    "r_reprint_request_id row = r_reprint_request_id run" "r_queue_sequence row = db_next_seq d"
    "r_reprint_of_run_uid row = r_reprint_of_run_uid run"
    by (simp_all add: row)
  have num: "\<forall>r \<in> set (db_runs d). (run_target r, r_run_number r) \<noteq> (run_target row, r_run_number row)"
    using next_run_number_greater [of _ d u p] rt number sel(2) by fastforce
  have "runs_unique (db_runs d @ [row])"
    unfolding runs_unique_def
  proof (intro conjI)
    show "distinct (map r_queue_sequence (db_runs d @ [row]))"
      by (rule distinct_snocI) (use un seq sel in \<open>auto simp: runs_unique_def\<close>)
    show "distinct (map r_uid (db_runs d @ [row]))"
      by (rule distinct_snocI) (use un uid sel in \<open>auto simp: runs_unique_def\<close>)
    show "distinct (map (\<lambda>r. (run_target r, r_run_number r)) (db_runs d @ [row]))"
      by (rule distinct_snocI) (use un num in \<open>auto simp: runs_unique_def\<close>)
    show "distinct (map run_target (filter (\<lambda>r. r_trigger r = TriggerInitial) (db_runs d @ [row])))"
      by (rule distinct_filter_snoc) (use un notinit sel in \<open>auto simp: runs_unique_def\<close>)
    show "distinct (map r_previous_run_uid
        (filter (\<lambda>r. r_trigger r = TriggerAutomaticRetry \<and> r_previous_run_uid r \<noteq> None) (db_runs d @ [row])))"
      by (rule distinct_filter_snoc) (use un prev sel in \<open>auto simp: runs_unique_def\<close>)
    show "distinct (map run_target (filter (\<lambda>r. active_status (r_status r)) (db_runs d @ [row])))"
      by (rule distinct_filter_snoc) (use un active sel rt active_count_zero in \<open>auto simp: runs_unique_def\<close>)
    show "distinct (map (\<lambda>r. (run_target r, r_reprint_request_id r))
        (filter (\<lambda>r. r_reprint_request_id r \<noteq> None) (db_runs d @ [row])))"
      by (rule distinct_filter_snoc) (use un request sel rt in \<open>auto simp: runs_unique_def\<close>)
  qed
  moreover have "run_fk (db_targets d) (db_runs d @ [row]) row"
    using refs target rt sel unfolding run_fk_def names_run_def by (auto split: option.splits)
  ultimately show ?thesis using chk by (simp add: insert_run_def Let_def row)
qed

section \<open>Automatic retries\<close>

lemma materialize_terminates:
  assumes "db_ok d" shows "\<exists>res. materializeRetry u k render fresh now d = Some res"
proof (cases "List.find (\<lambda>r. r_uid r = u \<and> retry_candidate r) (db_runs d)")
  case None
  then show ?thesis by (simp add: materializeRetry_def)
next
  case (Some p)
  then obtain n where "retry_depth (db_runs d) p 0 = Some (Inr n)"
    using candidate_depth [OF assms, of p] find_SomeD by metis
  with Some show ?thesis by (simp add: materializeRetry_def)
qed

lemma materialize_loop_terminates:
  "db_ok d \<Longrightarrow> \<exists>made e d'. materialize_loop (int MaxAutomaticRetries) render fresh clock cs created d = Some (made, e, d') \<and> db_ok d'"
proof (induction cs arbitrary: created d)
  case Nil
  then show ?case by simp
next
  case (Cons c cs)
  obtain res where res: "materializeRetry (r_uid c) (int MaxAutomaticRetries) render (fresh (r_uid c)) (clock (r_uid c)) d = Some res"
    using materialize_terminates [OF Cons.prems] by blast
  show ?case
  proof (cases res)
    case (Inl e)
    with res Cons show ?thesis by (simp split: if_splits)
  next
    case (Inr mr)
    obtain made d1 where mr: "mr = (made, d1)" by (cases mr)
    with Inr res have "db_ok d1" using materializeRetry_keeps Cons.prems by blast
    with Inr mr res show ?thesis using Cons.IH [of d1] by simp
  qed
qed

definition retry_run :: "print_run \<Rightarrow> string \<Rightarrow> nat \<Rightarrow> string \<Rightarrow> time \<Rightarrow> print_run" where
  "retry_run previous uid number hash now =
     (fresh_run uid (r_job_uid previous) (r_printer_id previous) number TriggerAutomaticRetry
        (r_content_mode previous) hash now)\<lparr>r_previous_run_uid := Some (r_uid previous)\<rparr>"

lemma find_candidate:
  assumes "db_ok d" "p \<in> set (db_runs d)" "retry_candidate p"
  shows "List.find (\<lambda>r. r_uid r = r_uid p \<and> retry_candidate r) (db_runs d) = Some p"
proof -
  obtain q where q: "List.find (\<lambda>r. r_uid r = r_uid p \<and> retry_candidate r) (db_runs d) = Some q"
    using find_exI [OF assms(2), of "\<lambda>r. r_uid r = r_uid p \<and> retry_candidate r"] assms(3) by auto
  then have "q \<in> set (db_runs d)" "r_uid q = r_uid p" using find_SomeD by fastforce+
  then have "q = p" by (rule same_uid [OF db_ok_schema [OF assms(1)] _ assms(2)])
  with q show ?thesis by simp
qed

lemma clear_retryable_schema:
  assumes "schema_ok e"
  shows "clear_retryable u e = Inr (e\<lparr>db_runs := update_where (\<lambda>r. r_uid r = u \<and> r_retryable r)
    (\<lambda>r. r\<lparr>r_retryable := False\<rparr>) (db_runs e)\<rparr>)"
proof -
  have c: "run_check r" if "r \<in> set (db_runs e)" for r using assms that by (simp add: schema_ok_def runs_ok_def)
  have chk: "run_check (r\<lparr>r_retryable := False\<rparr>)" if "r \<in> set (db_runs e)" for r
    by (rule run_check_update [OF c [OF that]])
      (use c [OF that] in \<open>auto simp: run_identity_def run_check_def\<close>)
  have "update_runs (\<lambda>r. r_uid r = u \<and> r_retryable r) (\<lambda>r. r\<lparr>r_retryable := False\<rparr>) e =
      Inr (length (filter (\<lambda>r. r_uid r = u \<and> r_retryable r) (db_runs e)),
        e\<lparr>db_runs := update_where (\<lambda>r. r_uid r = u \<and> r_retryable r) (\<lambda>r. r\<lparr>r_retryable := False\<rparr>) (db_runs e)\<rparr>)"
    by (rule update_runs_accepts [OF assms])
      (use chk in \<open>auto simp: run_update_allowed_def run_identity_def status_edge_def\<close>)
  then show ?thesis by (simp add: clear_retryable_def)
qed

lemma run_of_target:
  assumes "db_ok d" "r \<in> set (db_runs d)"
  shows "run_target r \<in> target_key ` set (db_targets d)"
  using assms by (simp add: db_ok_def schema_ok_def runs_ok_def run_fk_def)

lemma find_target_iff:
  assumes "db_ok d"
  shows "find_target u p d = Some t \<longleftrightarrow> t \<in> set (db_targets d) \<and> t_job_uid t = u \<and> t_printer_id t = p"
proof -
  have k: "distinct (map target_key (db_targets d))"
    using assms by (simp add: db_ok_def schema_ok_def targets_ok_def)
  have eq: "(\<lambda>t. t_job_uid t = u \<and> t_printer_id t = p) = (\<lambda>t. target_key t = (u, p))"
    by (auto simp: target_key_def)
  show ?thesis
  proof
    assume "find_target u p d = Some t"
    then show "t \<in> set (db_targets d) \<and> t_job_uid t = u \<and> t_printer_id t = p"
      unfolding find_target_def by (blast dest: find_SomeD)
  next
    assume "t \<in> set (db_targets d) \<and> t_job_uid t = u \<and> t_printer_id t = p"
    then show "find_target u p d = Some t"
      unfolding find_target_def eq by (intro find_distinct [OF k]) (auto simp: target_key_def)
  qed
qed

lemma find_job_iff:
  assumes "db_ok d" shows "find_job u d = Some j \<longleftrightarrow> j \<in> set (db_jobs d) \<and> j_uid j = u"
proof -
  have "distinct (map j_uid (db_jobs d))" using assms by (simp add: db_ok_def schema_ok_def jobs_ok_def)
  then show ?thesis
    unfolding find_job_def using find_distinct [of j_uid "db_jobs d" j u] find_SomeD [of "\<lambda>j. j_uid j = u" "db_jobs d" j]
    by blast
qed

text \<open>
  A failed run the printer took no byte of is retried when its target is free and not cancelled,
  its content still renders and the chain is shorter than the limit: a queued run is inserted with
  the next number, the same content mode and the failed run as its predecessor, which stops being
  retryable.
\<close>

lemma retry_made:
  assumes ok: "db_ok d" and p: "p \<in> set (db_runs d)" "retry_candidate p"
    and chain: "retry_chain (db_runs d) n p" "n < MaxAutomaticRetries"
    and free: "active_count (r_job_uid p) (r_printer_id p) d = 0"
    and job: "find_job (r_job_uid p) d = Some job"
    and target: "find_target (r_job_uid p) (r_printer_id p) d = Some target" "t_cancelled_at target = None"
    and number: "number = next_run_number (r_job_uid p) (r_printer_id p) d"
    and render: "render job target p number = Inr hash"
    and uid: "\<forall>r \<in> set (db_runs d). r_uid r \<noteq> uid"
    and row: "row = (retry_run p uid number hash now)\<lparr>r_queue_sequence := db_next_seq d\<rparr>"
  shows "materializeRetry (r_uid p) (int MaxAutomaticRetries) render (Some uid) now d =
    Some (Inr (Some (retry_run p uid number hash now),
      d\<lparr>db_runs := update_where (\<lambda>r. r_uid r = r_uid p \<and> r_retryable r) (\<lambda>r. r\<lparr>r_retryable := False\<rparr>)
           (db_runs d @ [row]), db_next_seq := db_next_seq d + 1\<rparr>))"
proof -
  let ?run = "retry_run p uid number hash now"
  have fields: "run_target ?run = (r_job_uid p, r_printer_id p)" "r_uid ?run = uid"
    "r_trigger ?run = TriggerAutomaticRetry" "r_previous_run_uid ?run = Some (r_uid p)"
    "r_run_number ?run = number" "r_reprint_request_id ?run = None" "r_reprint_of_run_uid ?run = None"
    "r_status ?run = RunQueued" "\<not> r_retryable ?run"
    by (simp_all add: retry_run_def fresh_run_def run_target_def)
  have pt: "run_target p = (r_job_uid p, r_printer_id p)" by (simp add: run_target_def)
  have "1 \<le> r_run_number p" using db_ok_check [OF ok p(1)] by (simp add: run_check_def)
  then have num: "1 < number" using next_run_number_greater [OF p(1) pt] number by simp
  have chk: "run_check row"
    using num by (simp add: row run_check_def retry_run_def fresh_run_def)
  have nochild: "\<forall>r \<in> set (db_runs d). r_trigger r = TriggerAutomaticRetry \<longrightarrow> r_previous_run_uid r \<noteq> Some (r_uid p)"
    using ok p by (auto simp: db_ok_def child_ok_def retry_candidate_def)
  have ins: "insert_run ?run d = Inr (d\<lparr>db_runs := db_runs d @ [row], db_next_seq := db_next_seq d + 1\<rparr>)"
  proof (rule insert_run_accepts [OF ok row fields(1)])
    show "(r_job_uid p, r_printer_id p) \<in> target_key ` set (db_targets d)" using run_of_target [OF ok p(1)] pt by simp
    show "names_run (db_runs d) ?run (r_previous_run_uid ?run)"
      using p(1) fields pt by (auto simp: names_run_def)
    show "names_run (db_runs d) ?run (r_reprint_of_run_uid ?run)" using fields by (simp add: names_run_def)
  qed (use fields number uid chk free nochild in \<open>auto simp: row\<close>)
  then have "schema_ok (d\<lparr>db_runs := db_runs d @ [row], db_next_seq := db_next_seq d + 1\<rparr>)"
    using insert_run_keeps db_ok_schema [OF ok] by blast
  note clear = clear_retryable_schema [OF this, of "r_uid p"]
  have depth: "retry_depth (db_runs d) p 0 = Some (Inr n)"
    using retry_chain_depth [OF chain(1) db_ok_uids [OF ok], of 0] by simp
  have "materialize_at p n (int MaxAutomaticRetries) render (Some uid) now d =
     Inr (Some ?run, d\<lparr>db_runs := update_where (\<lambda>r. r_uid r = r_uid p \<and> r_retryable r) (\<lambda>r. r\<lparr>r_retryable := False\<rparr>)
           (db_runs d @ [row]), db_next_seq := db_next_seq d + 1\<rparr>)"
    using chain(2) ins clear
    by (simp add: materialize_at_def guard_err_def free job target render newID_def
        number [symmetric] retry_run_def [symmetric] del: One_nat_def)
  then show ?thesis by (simp add: materializeRetry_def find_candidate [OF ok p] depth)
qed

section \<open>Manual reprints\<close>

text \<open>What a committed reprint request leaves behind for one of its printers.\<close>

definition reprint_done :: "string \<Rightarrow> string option \<Rightarrow> db \<Rightarrow> string \<Rightarrow> bool" where
  "reprint_done u req d p \<longleftrightarrow>
     (\<exists>r \<in> set (db_runs d). run_target r = (u, p) \<and> r_status r = RunQueued \<and>
        r_trigger r = TriggerManualReprint \<and> r_content_mode r = ContentReprint \<and> r_reprint_request_id r = req) \<and>
     (\<forall>r \<in> set (db_runs d). run_target r = (u, p) \<and> (r_status r = RunFailed \<or> r_status r = RunUncertain) \<longrightarrow>
        r_resolution r \<noteq> None) \<and>
     (\<forall>t \<in> set (db_targets d). target_key t = (u, p) \<longrightarrow> t_cancelled_at t = None)"

lemma reprint_target_done:
  assumes "reprint_target job req reason now fresh render (d, c) p = Inr (d', c')"
  shows "reprint_done (j_uid job) (nullable req) d' p \<and>
    (\<forall>q. reprint_done (j_uid job) (nullable req) d q \<longrightarrow> reprint_done (j_uid job) (nullable req) d' q)"
  using assms
proof (rule reprint_target_InrD)
  fix initial uid hash d1 d2 n n2
  let ?u = "j_uid job"
  let ?run = "reprint_run job req reason now uid p initial hash (next_run_number ?u p d)"
  let ?P = "\<lambda>r. r_job_uid r = ?u \<and> r_printer_id r = p \<and> (r_status r = RunFailed \<or> r_status r = RunUncertain) \<and> r_resolution r = None"
  let ?f = "\<lambda>r. r\<lparr>r_retryable := False, r_resolution := Some ResolutionReprintRequested, r_resolved_at := Some now\<rparr>"
  assume i: "insert_run ?run d = Inr d1" and c: "update_cancellation ?u p None None d1 = (n, d2)"
    and up: "update_runs ?P ?f d2 = Inr (n2, d')" and free: "active_count ?u p d = 0"
  obtain row where row: "row = ?run\<lparr>r_queue_sequence := db_next_seq d\<rparr>" "db_runs d1 = db_runs d @ [row]"
    "db_targets d1 = db_targets d" using i by (auto elim: insert_run_InrD)
  have rowf: "run_target row = (?u, p)" "r_status row = RunQueued" "r_trigger row = TriggerManualReprint"
    "r_content_mode row = ContentReprint" "r_reprint_request_id row = nullable req" "r_resolution row = None"
    "\<not> r_retryable row"
    by (simp_all add: row(1) reprint_run_def fresh_run_def run_target_def)
  have runs': "db_runs d' = update_where ?P ?f (db_runs d @ [row])"
    using update_runs_InrD(1) [OF up] update_cancellation_runs [OF c] row(2) by simp
  have targets': "db_targets d' = update_where (\<lambda>t. t_job_uid t = ?u \<and> t_printer_id t = p)
      (\<lambda>t. t\<lparr>t_cancelled_at := None, t_cancellation_reason := None\<rparr>) (db_targets d)"
    using update_runs_InrD(1) [OF up] c row(3) by (auto simp: update_cancellation_def Let_def)
  have keep: "run_target (?f r) = run_target r" for r by (simp add: run_target_def)
  have rowin: "row \<in> set (db_runs d')" using rowf by (auto simp: runs' set_update_where run_target_def)
  have done_p: "reprint_done ?u (nullable req) d' p"
    unfolding reprint_done_def
  proof (intro conjI)
    show "\<exists>r \<in> set (db_runs d'). run_target r = (?u, p) \<and> r_status r = RunQueued \<and>
        r_trigger r = TriggerManualReprint \<and> r_content_mode r = ContentReprint \<and> r_reprint_request_id r = nullable req"
      using rowin rowf by blast
    show "\<forall>r \<in> set (db_runs d'). run_target r = (?u, p) \<and> (r_status r = RunFailed \<or> r_status r = RunUncertain) \<longrightarrow>
        r_resolution r \<noteq> None"
    proof (intro ballI impI)
      fix s assume s: "s \<in> set (db_runs d')" "run_target s = (?u, p) \<and> (r_status s = RunFailed \<or> r_status s = RunUncertain)"
      show "r_resolution s \<noteq> None"
        using s(1) unfolding runs'
      proof (cases rule: update_whereE)
        case 2
        with s(2) show ?thesis by (auto simp: run_target_def)
      qed simp
    qed
    show "\<forall>t \<in> set (db_targets d'). target_key t = (?u, p) \<longrightarrow> t_cancelled_at t = None"
    proof (intro ballI impI)
      fix t assume t: "t \<in> set (db_targets d')" "target_key t = (?u, p)"
      show "t_cancelled_at t = None"
        using t(1) unfolding targets'
      proof (cases rule: update_whereE)
        case 2
        with t(2) show ?thesis by (simp add: target_key_def)
      qed simp
    qed
  qed
  have "reprint_done ?u (nullable req) d' q" if q: "reprint_done ?u (nullable req) d q" for q
  proof (cases "q = p")
    case False
    have other: "r \<in> set (db_runs d') \<and> run_target r = (?u, q) \<longleftrightarrow> r \<in> set (db_runs d) \<and> run_target r = (?u, q)" for r
      using False rowf unfolding runs'
      by (auto simp: run_target_def elim!: update_whereE intro!: update_where_same)
    have othert: "t \<in> set (db_targets d')  \<and> target_key t = (?u, q) \<longleftrightarrow> t \<in> set (db_targets d) \<and> target_key t = (?u, q)" for t
      unfolding targets' by (rule update_where_others) (use False in \<open>auto simp: target_key_def\<close>)
    show ?thesis using q other othert unfolding reprint_done_def by metis
  qed (use done_p in simp)
  with done_p show ?thesis by blast
qed

lemma reprint_loop_done:
  assumes "fold_sum (reprint_target job req reason now fresh render) (d, c) ps = Inr (d', c')"
    and "\<forall>q \<in> S. reprint_done (j_uid job) (nullable req) d q"
  shows "\<forall>q \<in> S \<union> set ps. reprint_done (j_uid job) (nullable req) d' q"
  using assms
proof (induction ps arbitrary: d c S)
  case Nil
  then show ?case by simp
next
  case (Cons p ps)
  obtain d1 c1 where step: "reprint_target job req reason now fresh render (d, c) p = Inr (d1, c1)"
    "fold_sum (reprint_target job req reason now fresh render) (d1, c1) ps = Inr (d', c')"
    using Cons.prems(1) by (auto elim!: sum_bindE)
  note one = reprint_target_done [OF step(1)]
  have "\<forall>q \<in> insert p S. reprint_done (j_uid job) (nullable req) d1 q" using one Cons.prems(2) by blast
  from Cons.IH [OF step(2) this] show ?case by simp
qed

section \<open>Cancelled targets\<close>

definition target_stopped :: "string \<Rightarrow> db \<Rightarrow> string \<Rightarrow> bool" where
  "target_stopped u d p \<longleftrightarrow>
     (\<exists>t \<in> set (db_targets d). target_key t = (u, p)) \<and>
     (\<forall>t \<in> set (db_targets d). target_key t = (u, p) \<longrightarrow> t_cancelled_at t \<noteq> None) \<and>
     (\<forall>r \<in> set (db_runs d). run_target r = (u, p) \<longrightarrow> \<not> active_status (r_status r) \<and> \<not> retry_candidate r)"

lemma count_zero_iff: "length (filter P xs) = 0 \<longleftrightarrow> (\<forall>x \<in> set xs. \<not> P x)"
  by (simp add: filter_empty_conv)

lemma cancel_target_InrD:
  assumes "cancel_target u reason now d p = Inr d'"
  obtains d1 n2 d2 n3 where "processing_count u p d = 0"
    "update_cancellation u p (Some now) (nullable reason) d = (1, d1)"
    "update_runs (\<lambda>r. r_job_uid r = u \<and> r_printer_id r = p \<and> r_status r = RunQueued)
      (\<lambda>r. r\<lparr>r_status := RunCancelled, r_retryable := False, r_finished_at := Some now\<rparr>) d1 = Inr (n2, d2)"
    "update_runs (\<lambda>r. r_job_uid r = u \<and> r_printer_id r = p \<and> r_status r = RunFailed \<and>
        r_retryable r \<and> r_resolution r = None) (\<lambda>r. r\<lparr>r_retryable := False\<rparr>) d2 = Inr (n3, d')"
  using assms unfolding cancel_target_def by (auto elim!: sum_bindE split: prod.split_asm)

lemma stopped_update_runs:
  assumes "target_stopped u d q" "db_targets e = db_targets d" "db_runs e = update_where P f (db_runs d)"
    and f: "\<And>r. run_target (f r) = run_target r" "\<And>r. active_status (r_status (f r)) \<Longrightarrow> active_status (r_status r)"
      "\<And>r. \<not> r_retryable (f r)"
  shows "target_stopped u e q"
  using assms(1) unfolding target_stopped_def assms(2,3)
  by (auto simp: retry_candidate_def elim!: update_whereE dest!: f(2) simp: f(1,3))

lemma cancel_target_stops:
  assumes "cancel_target u reason now d p = Inr d'"
  shows "target_stopped u d' p \<and> (\<forall>q. target_stopped u d q \<longrightarrow> target_stopped u d' q)"
  using assms
proof (rule cancel_target_InrD)
  fix d1 n2 d2 n3
  let ?P2 = "\<lambda>r. r_job_uid r = u \<and> r_printer_id r = p \<and> r_status r = RunQueued"
  let ?P3 = "\<lambda>r. r_job_uid r = u \<and> r_printer_id r = p \<and> r_status r = RunFailed \<and> r_retryable r \<and> r_resolution r = None"
  let ?f2 = "\<lambda>r. r\<lparr>r_status := RunCancelled, r_retryable := False, r_finished_at := Some now\<rparr>"
  let ?f3 = "\<lambda>r. r\<lparr>r_retryable := False\<rparr>"
  assume proc: "processing_count u p d = 0"
    and c: "update_cancellation u p (Some now) (nullable reason) d = (1, d1)"
    and u2: "update_runs ?P2 ?f2 d1 = Inr (n2, d2)" and u3: "update_runs ?P3 ?f3 d2 = Inr (n3, d')"
  define T where "T = update_where (\<lambda>t. t_job_uid t = u \<and> t_printer_id t = p)
      (\<lambda>t. t\<lparr>t_cancelled_at := Some now, t_cancellation_reason := nullable reason\<rparr>) (db_targets d)"
  have d1: "db_targets d1 = T" "db_runs d1 = db_runs d" "1 = length (filter (\<lambda>t. t_job_uid t = u \<and> t_printer_id t = p) (db_targets d))"
    using c by (auto simp: update_cancellation_def Let_def T_def)
  have ts: "db_targets d' = T" "db_targets d2 = T" "db_targets d1 = T"
    using update_runs_InrD(1) [OF u2] update_runs_InrD(1) [OF u3] d1(1) by simp_all
  have r2: "db_runs d2 = update_where ?P2 ?f2 (db_runs d)" and r3: "db_runs d' = update_where ?P3 ?f3 (db_runs d2)"
    using update_runs_InrD(1) [OF u2] update_runs_InrD(1) [OF u3] d1(2) by simp_all
  have keys: "target_key ` set T = target_key ` set (db_targets d)"
    unfolding T_def by (rule image_update_where) (simp add: target_key_def)
  have marked: "t_cancelled_at t \<noteq> None" if "t \<in> set T" "target_key t = (u, p)" for t
    using that(1) unfolding T_def
  proof (cases rule: update_whereE)
    case 2
    with that(2) show ?thesis by (simp add: target_key_def)
  qed simp
  have here: "target_stopped u d' p" unfolding target_stopped_def
  proof (intro conjI)
    have "filter (\<lambda>t. t_job_uid t = u \<and> t_printer_id t = p) (db_targets d) \<noteq> []" using d1(3) by auto
    then have "(u, p) \<in> target_key ` set (db_targets d)" by (auto simp: filter_empty_conv target_key_def image_iff)
    then show "\<exists>t \<in> set (db_targets d'). target_key t = (u, p)" using keys unfolding ts by (metis imageE)
    show "\<forall>t \<in> set (db_targets d'). target_key t = (u, p) \<longrightarrow> t_cancelled_at t \<noteq> None"
      using marked unfolding ts by blast
    have noproc: "\<not> (run_target r = (u, p) \<and> r_status r = RunProcessing)" if "r \<in> set (db_runs d)" for r
      using proc that unfolding processing_count_def runsWhere_def count_zero_iff by (auto simp: run_target_def)
    have no2: "\<not> (run_target r = (u, p) \<and> active_status (r_status r))" if "r \<in> set (db_runs d2)" for r
      using that unfolding r2
    proof (cases rule: update_whereE)
      case 2
      with noproc [of r] show ?thesis by (auto simp: run_target_def active_status_def)
    qed (simp add: active_status_def)
    show "\<forall>r \<in> set (db_runs d'). run_target r = (u, p) \<longrightarrow> \<not> active_status (r_status r) \<and> \<not> retry_candidate r"
    proof (intro ballI impI)
      fix r assume r: "r \<in> set (db_runs d')" "run_target r = (u, p)"
      show "\<not> active_status (r_status r) \<and> \<not> retry_candidate r"
        using r(1) unfolding r3
      proof (cases rule: update_whereE)
        case (1 x)
        then show ?thesis using no2 [of x] r(2) by (auto simp: retry_candidate_def run_target_def)
      next
        case 2
        then show ?thesis using no2 [of r] r(2) by (auto simp: retry_candidate_def run_target_def)
      qed
    qed
  qed
  have "target_stopped u d' q" if q: "target_stopped u d q" for q
  proof (cases "q = p")
    case False
    have "t \<in> set T \<and> target_key t = (u, q) \<longleftrightarrow> t \<in> set (db_targets d) \<and> target_key t = (u, q)" for t
      unfolding T_def by (rule update_where_others) (use False in \<open>auto simp: target_key_def\<close>)
    then have "target_stopped u d1 q" using q unfolding target_stopped_def ts d1(2) by metis
    then have "target_stopped u d2 q"
      by (rule stopped_update_runs [where P = ?P2 and f = ?f2])
        (auto simp: ts r2 d1(2) run_target_def active_status_def)
    then show ?thesis
      by (rule stopped_update_runs [where P = ?P3 and f = ?f3]) (auto simp: ts r3 run_target_def)
  qed (use here in simp)
  with here show ?thesis by blast
qed

lemma cancel_loop_stops:
  assumes "fold_sum (cancel_target u reason now) d ps = Inr d'" "\<forall>q \<in> S. target_stopped u d q"
  shows "\<forall>q \<in> S \<union> set ps. target_stopped u d' q"
  using assms
proof (induction ps arbitrary: d S)
  case Nil
  then show ?case by simp
next
  case (Cons p ps)
  obtain d1 where step: "cancel_target u reason now d p = Inr d1" "fold_sum (cancel_target u reason now) d1 ps = Inr d'"
    using Cons.prems(1) by (auto elim: sum_bindE)
  have "\<forall>q \<in> insert p S. target_stopped u d1 q" using cancel_target_stops [OF step(1)] Cons.prems(2) by blast
  from Cons.IH [OF step(2) this] show ?case by simp
qed

end
