(* ===== verification/WorkerCorrect.thy ===== *)
theory WorkerCorrect
  imports Worker RepositoryLaws
begin

text \<open>
  The laws of the worker: an outcome is stored as soon as the database works again, and what it says
  is true of the transport.
\<close>

section \<open>Storing\<close>

context persisted_mark
begin

definition stored :: "db \<Rightarrow> bool" where
  "stored d \<longleftrightarrow> db_ok d \<and> (\<exists>r. find_run uid d = Some r \<and> r_status r = target)"

lemma try_mark_pending:
  assumes "pending (at_other a d)"
  shows "pending (snd (try_mark mark ping a d)) \<and>
    (fst (try_mark mark ping a d) = None \<longrightarrow> stored (snd (try_mark mark ping a d))) \<and>
    (at_fault a = NoFault \<longrightarrow> fst (try_mark mark ping a d) = None)"
proof -
  obtain d' where d': "mark (at_now a) (at_later a) (at_other a d) = Inr d'" "pending d'"
      "marked uid target (at_other a d) d'"
    using mark_pending [OF assms] by blast
  then have "stored d'" by (auto simp: stored_def marked_def pending_def)
  with d' assms show ?thesis
    by (cases "at_fault a") (auto simp: try_mark_def Let_def)
qed

text \<open>The loop ends once the database works: whatever failed or was lost before, the outcome is stored
  once and the gate is given back.\<close>

lemma persist_loop_stores:
  assumes "pending d" "gate_ok (Suc n) g" "\<And>j e. pending e \<Longrightarrow> pending (at_other (sched j) e)"
    and "at_fault (sched (k + m)) = NoFault"
  shows "\<exists>g' d'. persist_loop mark sched k delay g d = Some (g', d') \<and> gate_ok n g' \<and> stored d'"
  using assms(1,2,4)
proof (induction m arbitrary: k delay g d)
  case 0
  have p: "pending (at_other (sched k) d)" using assms(3) 0(1) .
  obtain d' where t: "try_mark mark True (sched k) d = (None, d')" "stored d'"
    using try_mark_pending [OF p, of True] 0(3) by (cases "try_mark mark True (sched k) d") auto
  obtain g' where "gate_end g = Some g'" "gate_ok n g'" using gate_ok_end [OF 0(2)] by blast
  with t show ?case by (subst persist_loop.simps) simp
next
  case (Suc m)
  have p: "pending (at_other (sched k) d)" using assms(3) Suc.prems(1) .
  obtain e d' where t: "try_mark mark True (sched k) d = (e, d')" by fastforce
  have l: "pending d'" "e = None \<longrightarrow> stored d'" using try_mark_pending [OF p, of True] t by simp_all
  show ?case
  proof (cases e)
    case None
    obtain g' where "gate_end g = Some g'" "gate_ok n g'" using gate_ok_end [OF Suc.prems(2)] by blast
    with t l None show ?thesis by (subst persist_loop.simps) simp
  next
    case (Some x)
    have "gate_ok (Suc n) (gate_update x g)" using Suc.prems(2) by (simp add: gate_ok_update)
    from Suc.IH [OF l(1) this, where k = "k + 1" and delay = "next_delay delay"] Suc.prems(3) t Some show ?thesis
      by (subst persist_loop.simps) simp
  qed
qed

lemma persist_stores:
  assumes "pending d" "gate_ok n g" "\<And>j e. pending e \<Longrightarrow> pending (at_other (sched j) e)"
    and "at_fault (sched m) = NoFault"
  shows "\<exists>w' g' d' evs. persist mark sched (w, g, d) = Some ((w', g', d'), evs) \<and> gate_ok n g' \<and> stored d' \<and>
    w' \<in> {w, w\<lparr>wk_last_error := []\<rparr>}"
proof -
  have p: "pending (at_other (sched 0) d)" using assms(3,1) .
  obtain e d' where t: "try_mark mark False (sched 0) d = (e, d')" by fastforce
  have l: "pending d'" "e = None \<longrightarrow> stored d'" "at_fault (sched 0) = NoFault \<longrightarrow> e = None"
    using try_mark_pending [OF p, of False] t by simp_all
  show ?thesis
  proof (cases e)
    case None
    with t l assms(2) show ?thesis by (simp add: persist_def)
  next
    case (Some x)
    with l(3) assms(4) obtain m' where m: "m = Suc m'" by (cases m) auto
    have "gate_ok (Suc n) (gate_begin x (at_now (sched 0)) g)" using gate_ok_begin [OF assms(2)] by simp
    from persist_loop_stores [where sched = sched and k = 1 and m = m' and delay = first_delay, OF l(1) this assms(3)] assms(4) m t Some
    show ?thesis by (auto simp: persist_def)
  qed
qed

end

section \<open>What an outcome says\<close>

definition outcome_status :: "outcome \<Rightarrow> run_status" where
  "outcome_status oc = (case oc of Transmitted _ \<Rightarrow> RunTransmitted | Uncertain _ _ _ \<Rightarrow> RunUncertain | Failed _ _ _ _ \<Rightarrow> RunFailed)"

text \<open>
  \<open>touched c doc\<close>: a byte of \<open>doc\<close> may have left over \<open>c\<close>; \<open>accepted c doc\<close>: all were accepted.
  Transmitted means that the accepted content of the run went out in full and the link was up after
  that; a failure that allows a
  retry means that none of it left; a failure that does not means that nothing was written at all;
  uncertain closes the connection.
\<close>

definition link_cfg :: "'c worker \<Rightarrow> printer_config" where
  "link_cfg w = (case wk_active_cfg w of Some cfg \<Rightarrow> cfg | None \<Rightarrow> wk_cfg w)"

definition outcome_true ::
    "driver \<Rightarrow> ('c \<Rightarrow> byte list \<Rightarrow> bool) \<Rightarrow> ('c \<Rightarrow> byte list \<Rightarrow> bool) \<Rightarrow> service_env \<Rightarrow> print_run \<Rightarrow> 'c worker \<Rightarrow> 'c decision \<Rightarrow> bool" where
  "outcome_true drv touched accepted env run w n \<longleftrightarrow>
     (case dn_outcome n of
        Transmitted m \<Rightarrow> \<exists>c doc. wk_tr w = Some c \<and> length doc = m \<and> accepted c doc \<and>
          link_up drv (link_cfg w) \<and> ContentHash env doc = r_expected_content_hash run
      | Failed m code msg retryable \<Rightarrow> m = 0 \<and>
          (if retryable
           then \<exists>c doc. wk_tr w = Some c \<and> ContentHash env doc = r_expected_content_hash run \<and> \<not> touched c doc
           else wk_tr (dn_before n) = wk_tr w)
      | Uncertain m code msg \<Rightarrow> wk_tr (dn_before n) = None)"

definition settled :: "'c worker \<Rightarrow> bool" where
  "settled w \<longleftrightarrow> (wk_state w = StateConnected \<and> wk_tr w \<noteq> None) \<or> (wk_state w = StateDisconnected \<and> wk_tr w = None)"

lemma setState_sel [simp]: "wk_tr (setState x w) = wk_tr w" "wk_state (setState x w) = x" "wk_cfg (setState x w) = wk_cfg w"
  by (simp_all add: setState_def)

lemma closeTransport_sel [simp]:
  "wk_tr (closeTransport x r w) = None" "wk_state (closeTransport x r w) = x" "wk_cfg (closeTransport x r w) = wk_cfg w"
  by (simp_all add: closeTransport_def)

text \<open>The cases of a decision.\<close>

lemma decide_cases:
  assumes "decide env drv jr tr now run d w = Some n"
  obtains (refused) code msg evs where
      "n = (fail_quietly (setState StatePrinting w) code msg)\<lparr>dn_events_after := evs\<rparr>"
  | (sent) c c' doc where "wk_tr w = Some c" "wv_send env c doc = (None, c')"
      "ContentHash (wv_service env) doc = r_expected_content_hash run"
      "dn_outcome n = Transmitted (length doc) \<and> dn_before n = (setState StatePrinting w)\<lparr>wk_tr := Some c'\<rparr> \<and>
         dn_after n = (\<lambda>w. w\<lparr>wk_last_tx := Some now, wk_state := StateConnected\<rparr>) \<and> link_up drv (link_cfg w) \<or>
       (\<exists>m code msg. dn_outcome n = Uncertain m code msg \<and>
         dn_before n = closeTransport StateDisconnected msg ((setState StatePrinting w)\<lparr>wk_tr := Some c'\<rparr>) \<and>
         dn_after n = (\<lambda>w. w))"
  | (broken) c c' doc e msg where "wk_tr w = Some c" "wv_send env c doc = (Some e, c')"
      "ContentHash (wv_service env) doc = r_expected_content_hash run"
      "dn_before n = closeTransport StateDisconnected msg (setState StatePrinting w)" "dn_after n = (\<lambda>w. w)"
      "dn_outcome n = (if Ambiguous e then Uncertain (we_bytes_written e) ''ambiguous_write'' msg
                       else Failed (we_bytes_written e) ''not_sent'' msg True)"
proof -
  let ?w = "setState StatePrinting w"
  let ?job = "if jr then GetJob (r_job_uid run) d else Inl ErrNoRows"
  let ?target = "if tr then GetTarget (r_job_uid run) (r_printer_id run) d else Inl ErrNoRows"
  have quiet: thesis if "n = fail_quietly ?w code msg" for code msg
    using refused [where code = code and msg = msg and evs = "[]"] that by (simp add: fail_quietly_def)
  show thesis
  proof (cases ?job)
    case (Inl e)
    with assms show ?thesis by (intro quiet [of "''job_unavailable''" "err_text e"]) (simp add: decide_def Let_def)
  next
    case job: (Inr job)
    show ?thesis
    proof (cases ?target)
      case (Inl e)
      with assms job show ?thesis by (intro quiet [of "''target_unavailable''" "err_text e"]) (simp add: decide_def Let_def)
    next
      case target: (Inr target)
      show ?thesis
      proof (cases "render_run (wv_service env) job target run")
        case (Inl e)
        with assms job target show ?thesis
          by (intro refused [where code = "''render_failed''" and msg = "wv_render_text env e" and evs = "[WFailed (r_uid run)]"]) (simp add: decide_def Let_def)
      next
        case doc: (Inr doc)
        show ?thesis
        proof (cases "ExpectedContentHash (wv_service env) job target (r_content_mode run) (r_run_number run) =
              Inr (r_expected_content_hash run) \<and> ContentHash (wv_service env) doc = r_expected_content_hash run")
          case False
          with assms job target doc show ?thesis
            by (intro refused [where code = "''content_hash_mismatch''" and evs = "[WFailed (r_uid run)]" and
                  msg = "mismatch_text env (ExpectedContentHash (wv_service env) job target (r_content_mode run) (r_run_number run))"]) (auto simp: decide_def Let_def)
        next
          case True
          with assms job target doc obtain c where c: "wk_tr w = Some c"
            by (auto simp: decide_def Let_def split: option.split_asm)
          obtain r c' where r: "wv_send env c doc = (r, c')" by fastforce
          show ?thesis
          proof (cases r)
            case None
            with assms job target doc True c r show ?thesis
              by (intro sent [of c doc c']) (auto simp: decide_def Let_def connectionConfig_def link_cfg_def
                  setState_def split: if_split_asm cong: option.case_cong)
          next
            case (Some e)
            with assms job target doc True c r show ?thesis
              by (intro broken [of c doc e c' "wv_write_text env e"]) (auto simp: decide_def Let_def split: if_split_asm)
          qed
        qed
      qed
    qed
  qed
qed

lemma decide_returns:
  assumes "wk_tr w \<noteq> None" shows "\<exists>n. decide env drv jr tr now run d w = Some n"
proof -
  obtain c where c: "wk_tr w = Some c" using assms by blast
  show ?thesis
    by (auto simp: decide_def Let_def c split: sum.split option.split prod.split)
qed

lemma decide_settles:
  assumes "decide env drv jr tr now run d w = Some n" "wk_tr w \<noteq> None"
    "w' \<in> {dn_before n, (dn_before n)\<lparr>wk_last_error := []\<rparr>}"
  shows "settled (dn_after n w')"
  using assms(1)
proof (cases rule: decide_cases)
  case (refused code msg evs)
  with assms(2,3) show ?thesis by (auto simp: fail_quietly_def settled_def)
next
  case (sent c c' doc)
  with assms(3) show ?thesis by (auto simp: settled_def)
next
  case (broken c c' doc e msg)
  with assms(3) show ?thesis by (auto simp: settled_def)
qed

context byte_channel
begin

lemma decide_is_true:
  assumes "decide env drv jr tr now run d w = Some n" "wv_send env = send" "\<And>c. wk_tr w = Some c \<Longrightarrow> fair c"
  shows "outcome_true drv touched accepted (wv_service env) run w n"
  using assms(1)
proof (cases rule: decide_cases)
  case (refused code msg evs)
  then show ?thesis by (simp add: outcome_true_def fail_quietly_def)
next
  case (sent c c' doc)
  then have "accepted c doc" using success assms(2,3) by simp
  with sent show ?thesis by (auto simp: outcome_true_def)
next
  case (broken c c' doc e msg)
  show ?thesis
  proof (cases "Ambiguous e")
    case True
    with broken show ?thesis by (simp add: outcome_true_def)
  next
    case False
    from not_sent [OF assms(3) [OF broken(1)] broken(2) [unfolded assms(2)] False]
    have "\<not> touched c doc" "we_bytes_written e = 0" by simp_all
    with False broken show ?thesis by (auto simp: outcome_true_def)
  qed
qed

end

section \<open>A whole run\<close>

text \<open>Others may commit anything meanwhile that leaves the status of this run alone once it is claimed.\<close>

definition leaves_run :: "string \<Rightarrow> (db \<Rightarrow> db) \<Rightarrow> bool" where
  "leaves_run uid other \<longleftrightarrow> (\<forall>e. db_ok e \<longrightarrow> db_ok (other e) \<and>
     (\<forall>r. find_run uid e = Some r \<and> r_status r \<noteq> RunQueued \<longrightarrow>
        map_option r_status (find_run uid (other e)) = Some (r_status r)))"

lemma store_outcome:
  assumes "db_ok d" "find_run uid d = Some r" "r_status r = RunProcessing" "gate_ok k g"
    and "\<And>j. leaves_run uid (at_other (sched j))" "at_fault (sched m) = NoFault"
    and "\<And>c code msg b. oc = Failed c code msg b \<Longrightarrow> c = 0"
  shows "\<exists>w' g' d' evs r'. persist (mark_outcome uid oc) sched (w, g, d) = Some ((w', g', d'), evs) \<and> gate_ok k g' \<and>
    db_ok d' \<and> find_run uid d' = Some r' \<and> r_status r' = outcome_status oc \<and> w' \<in> {w, w\<lparr>wk_last_error := []\<rparr>}"
proof -
  have status: "\<exists>r'. find_run uid (at_other (sched j) e) = Some r' \<and> r_status r' = r_status r0"
    if "db_ok e" "find_run uid e = Some r0" "r_status r0 \<noteq> RunQueued" for j e r0
  proof -
    have "map_option r_status (find_run uid (at_other (sched j) e)) = Some (r_status r0)"
      using assms(5) [of j] that by (simp add: leaves_run_def)
    then show ?thesis by (simp add: map_option_case split: option.split_asm)
  qed
  have ok: "db_ok (at_other (sched j) e)" if "db_ok e" for j e
    using assms(5) [of j] that by (simp add: leaves_run_def)
  show ?thesis
  proof (cases oc)
    case (Transmitted n)
    have mo: "mark_outcome uid (Transmitted n) = MarkTransmitted uid (int n)"
      by (intro ext) (simp add: mark_outcome_def Transmitted)
    have p: "transmitted.pending uid d" using assms(1-3) by (simp add: transmitted.pending_def)
    have others: "transmitted.pending uid (at_other (sched j) e)" if "transmitted.pending uid e" for j e
      using that ok status unfolding transmitted.pending_def by (metis run_status.distinct)
    have "\<exists>w' g' d' evs. persist (MarkTransmitted uid (int n)) sched (w, g, d) = Some ((w', g', d'), evs) \<and>
        gate_ok k g' \<and> transmitted.stored uid d' \<and> w' \<in> {w, w\<lparr>wk_last_error := []\<rparr>}"
      by (rule transmitted.persist_stores [OF p assms(4)]) (fact others, fact assms(6))
    then show ?thesis unfolding mo Transmitted by (fastforce simp: transmitted.stored_def outcome_status_def)
  next
    case (Uncertain n code msg)
    have mo: "mark_outcome uid (Uncertain n code msg) = MarkUncertain uid (int n) code msg"
      by (intro ext) (simp add: mark_outcome_def Uncertain)
    have p: "uncertain.pending uid d" using assms(1-3) by (simp add: uncertain.pending_def)
    have others: "uncertain.pending uid (at_other (sched j) e)" if "uncertain.pending uid e" for j e
      using that ok status unfolding uncertain.pending_def by (metis run_status.distinct)
    have "\<exists>w' g' d' evs. persist (MarkUncertain uid (int n) code msg) sched (w, g, d) = Some ((w', g', d'), evs) \<and>
        gate_ok k g' \<and> uncertain.stored uid d' \<and> w' \<in> {w, w\<lparr>wk_last_error := []\<rparr>}"
      by (rule uncertain.persist_stores [OF p assms(4)]) (fact others, fact assms(6))
    then show ?thesis unfolding mo Uncertain by (fastforce simp: uncertain.stored_def outcome_status_def)
  next
    case (Failed n code msg b)
    have mo: "mark_outcome uid (Failed n code msg b) = MarkFailed uid 0 code msg b"
      using assms(7) [OF Failed] by (intro ext) (simp add: mark_outcome_def Failed)
    have p: "failed.pending uid d" using assms(1-3) by (simp add: failed.pending_def)
    have others: "failed.pending uid (at_other (sched j) e)" if "failed.pending uid e" for j e
      using that ok status unfolding failed.pending_def by (metis run_status.distinct)
    have "\<exists>w' g' d' evs. persist (MarkFailed uid 0 code msg b) sched (w, g, d) = Some ((w', g', d'), evs) \<and>
        gate_ok k g' \<and> failed.stored uid d' \<and> w' \<in> {w, w\<lparr>wk_last_error := []\<rparr>}"
      by (rule failed.persist_stores [OF p assms(4)]) (fact others, fact assms(6))
    then show ?thesis unfolding mo Failed by (fastforce simp: failed.stored_def outcome_status_def)
  qed
qed

text \<open>One run from its claim to its stored outcome.\<close>

lemma process_stores:
  assumes n: "decide env drv jr tr now run d w = Some n" and tr: "wk_tr w \<noteq> None"
    and db: "db_ok d" "find_run (r_uid run) d = Some r" "r_status r = RunProcessing" and g: "gate_ok k g"
    and sched: "\<And>j. leaves_run (r_uid run) (at_other (sched j))" "at_fault (sched m) = NoFault"
    and zero: "\<And>c code msg b. dn_outcome n = Failed c code msg b \<Longrightarrow> c = 0"
  shows "\<exists>w' g' d' evs r'. process env drv jr tr now sched run (w, g, d) = Some ((w', g', d'), evs) \<and> gate_ok k g' \<and>
    db_ok d' \<and> find_run (r_uid run) d' = Some r' \<and> r_status r' = outcome_status (dn_outcome n) \<and> settled w'"
proof -
  have "\<exists>w' g' d' evs r'. persist (mark_outcome (r_uid run) (dn_outcome n)) sched (dn_before n, g, d) = Some ((w', g', d'), evs) \<and>
      gate_ok k g' \<and> db_ok d' \<and> find_run (r_uid run) d' = Some r' \<and> r_status r' = outcome_status (dn_outcome n) \<and>
      w' \<in> {dn_before n, (dn_before n)\<lparr>wk_last_error := []\<rparr>}"
    by (rule store_outcome [OF db g]) (fact sched(1), fact sched(2), fact zero)
  then obtain w' g' d' evs r' where p: "persist (mark_outcome (r_uid run) (dn_outcome n)) sched (dn_before n, g, d) = Some ((w', g', d'), evs)"
    "gate_ok k g'" "db_ok d'" "find_run (r_uid run) d' = Some r'" "r_status r' = outcome_status (dn_outcome n)"
    "w' \<in> {dn_before n, (dn_before n)\<lparr>wk_last_error := []\<rparr>}"
    by blast
  with n decide_settles [OF n tr p(6)] show ?thesis by (auto simp: process_def)
qed

end
