(* ===== verification/JobServiceCorrect.thy ===== *)
theory JobServiceCorrect
  imports JobService RepositoryLaws
begin

text \<open>The lemmas of the Job service, from which its properties follow.\<close>

section \<open>Loops of checks\<close>

lemma fold_checks: "fold_sum (\<lambda>_. g) () xs = Inr u \<longleftrightarrow> (\<forall>x \<in> set xs. g x = Inr ())"
  by (induction xs) (auto simp: sum_bind_Inr_iff)

lemma adjacent_distinct:
  fixes xs :: "'a :: linorder list"
  assumes "sorted xs" shows "(\<forall>i < length xs. i > 0 \<longrightarrow> xs ! i \<noteq> xs ! (i - 1)) \<longleftrightarrow> distinct xs"
proof
  assume d: "distinct xs"
  then show "\<forall>i < length xs. i > 0 \<longrightarrow> xs ! i \<noteq> xs ! (i - 1)"
    by (auto simp: nth_eq_iff_index_eq)
next
  assume a: "\<forall>i < length xs. i > 0 \<longrightarrow> xs ! i \<noteq> xs ! (i - 1)"
  have "xs ! i < xs ! Suc i" if "Suc i < length xs" for i
    using a [rule_format, of "Suc i"] that sorted_nth_mono [OF assms, of i "Suc i"] by fastforce
  then have "sorted_wrt (<) xs" by (simp add: sorted_wrt_iff_nth_Suc_transp)
  then show "distinct xs" by (simp add: strict_sorted_iff)
qed

lemma check_id_Inr: "check_id out i = Inr u \<longleftrightarrow> out ! i \<noteq> [] \<and> (i > 0 \<longrightarrow> out ! i \<noteq> out ! (i - 1))"
  by (simp add: check_id_def)

lemma ball_guarded:
  "(\<forall>i \<in> {0..<n::nat}. A i \<and> (i > 0 \<longrightarrow> B i)) \<longleftrightarrow> (\<forall>i < n. i > 0 \<longrightarrow> B i) \<and> (\<forall>i < n. A i)"
  by auto

lemma canonicalPrinterIDs_iff:
  "canonicalPrinterIDs ids = Inr out \<longleftrightarrow>
     1 \<le> length ids \<and> length ids \<le> maxPrinters \<and> out = sort ids \<and> distinct ids \<and> [] \<notin> set ids"
proof -
  have "(\<forall>i \<in> {0..<length ids}. check_id (sort ids) i = Inr ()) \<longleftrightarrow> distinct ids \<and> [] \<notin> set ids"
  proof -
    have "(\<forall>i \<in> {0..<length ids}. check_id (sort ids) i = Inr ()) \<longleftrightarrow>
        (\<forall>i < length ids. i > 0 \<longrightarrow> sort ids ! i \<noteq> sort ids ! (i - 1)) \<and> (\<forall>i < length ids. sort ids ! i \<noteq> [])"
      unfolding check_id_Inr by (rule ball_guarded)
    also have "(\<forall>i < length ids. sort ids ! i \<noteq> []) \<longleftrightarrow> [] \<notin> set ids"
      by (metis in_set_conv_nth length_sort set_sort)
    also have "(\<forall>i < length ids. i > 0 \<longrightarrow> sort ids ! i \<noteq> sort ids ! (i - 1)) \<longleftrightarrow> distinct ids"
      using adjacent_distinct [of "sort ids"] by simp
    finally show ?thesis .
  qed
  moreover have "canonicalPrinterIDs ids = Inr out \<longleftrightarrow>
      ids \<noteq> [] \<and> length ids \<le> maxPrinters \<and> (\<forall>i \<in> {0..<length ids}. check_id (sort ids) i = Inr ()) \<and> sort ids = out"
    by (simp add: canonicalPrinterIDs_def Let_def sum_bind_Inr_iff fold_checks not_less)
  ultimately show ?thesis by (cases ids) (simp_all, blast)
qed

lemma canonicalPrinterIDs_perm:
  "mset ids = mset ids' \<Longrightarrow> canonicalPrinterIDs ids' = Inr out \<longleftrightarrow> canonicalPrinterIDs ids = Inr out"
proof -
  assume m: "mset ids = mset ids'"
  then have "sort ids' = sort ids" by (simp add: properties_for_sort)
  with m show ?thesis
    by (metis canonicalPrinterIDs_iff mset_eq_imp_distinct_iff mset_eq_length mset_eq_setD)
qed

section \<open>What the loop of Accept builds\<close>

definition accept_built ::
    "service_env \<Rightarrow> job \<Rightarrow> nat \<Rightarrow> string list \<Rightarrow> job_printer list \<Rightarrow> print_run list \<Rightarrow> bool" where
  "accept_built env job n ids targets runs \<longleftrightarrow>
     map t_printer_id targets = ids \<and> map t_target_order targets = [n..<n + length ids] \<and>
     map run_target runs = map target_key targets \<and>
     map r_expected_content_hash runs = map t_accepted_content_hash targets \<and>
     (\<forall>t \<in> set targets. t_job_uid t = j_uid job \<and> t_cancelled_at t = None \<and> t_cancellation_reason t = None \<and>
        (\<forall>k. renderHash env job t ContentNormal k = Inr (t_accepted_content_hash t))) \<and>
     (\<forall>r \<in> set runs. r_trigger r = TriggerInitial \<and> r_content_mode r = ContentNormal \<and> r_status r = RunQueued \<and>
        r_run_number r = 1 \<and> \<not> r_retryable r \<and> r_job_uid r = j_uid job)"

lemma accept_built_shape: "accept_built env job n ids targets runs \<Longrightarrow> accepted_shape targets runs"
  by (simp add: accept_built_def accepted_shape_def)

text \<open>One turn of the loop: the target and the run it appends.\<close>

definition target_built :: "service_env \<Rightarrow> job \<Rightarrow> nat \<Rightarrow> string \<Rightarrow> job_printer \<Rightarrow> print_run \<Rightarrow> bool" where
  "target_built env job n p t r \<longleftrightarrow> t_printer_id t = p \<and> t_target_order t = n \<and> t_job_uid t = j_uid job \<and>
     t_cancelled_at t = None \<and> t_cancellation_reason t = None \<and>
     (\<forall>k. renderHash env job t ContentNormal k = Inr (t_accepted_content_hash t)) \<and>
     run_target r = target_key t \<and> r_expected_content_hash r = t_accepted_content_hash t \<and>
     r_trigger r = TriggerInitial \<and> r_content_mode r = ContentNormal \<and> r_status r = RunQueued \<and>
     r_run_number r = 1 \<and> \<not> r_retryable r \<and> r_job_uid r = j_uid job"

lemma accept_target_InrD:
  assumes "accept_target env dir job fresh (ts0, rs0) (n, p) = Inr acc"
  shows "\<exists>t r. acc = (ts0 @ [t], rs0 @ [r]) \<and> target_built env job n p t r"
proof (cases "PrinterConfig dir p")
  case None
  with assms show ?thesis by (simp add: accept_target_def)
next
  case (Some cfg)
  obtain content u where content: "Render (se_escpos env) (j_template job) (j_data job) (pc_encoding cfg)
      (pc_characters_per_line cfg) \<lparr>ro_reprint = False, ro_run_number = 0, ro_accepted_at = j_created_at job\<rparr> = Inr content"
    and u: "fresh p = Some u"
    using assms Some by (auto simp: accept_target_def newID_def elim!: sum_bindE split: option.split_asm)
  with assms Some show ?thesis
    by (auto simp: accept_target_def newID_def target_built_def renderHash_def fresh_run_def run_target_def target_key_def)
qed

lemma accept_loop:
  assumes "fold_sum (accept_target env dir job fresh) (ts0, rs0) (enumerate n ids) = Inr (targets, runs)"
  shows "\<exists>ts1 rs1. targets = ts0 @ ts1 \<and> runs = rs0 @ rs1 \<and> accept_built env job n ids ts1 rs1"
  using assms
proof (induction ids arbitrary: n ts0 rs0)
  case Nil
  then show ?case by (simp add: accept_built_def)
next
  case (Cons p ids)
  obtain acc where step: "accept_target env dir job fresh (ts0, rs0) (n, p) = Inr acc"
    and rest: "fold_sum (accept_target env dir job fresh) acc (enumerate (Suc n) ids) = Inr (targets, runs)"
    using Cons.prems by (auto elim: sum_bindE)
  from accept_target_InrD [OF step] obtain t r where acc: "acc = (ts0 @ [t], rs0 @ [r])"
    and t: "target_built env job n p t r" by blast
  from Cons.IH [OF rest [unfolded acc]] obtain ts1 rs1 where
    "targets = ts0 @ t # ts1" "runs = rs0 @ r # rs1" "accept_built env job (Suc n) ids ts1 rs1" by auto
  moreover have "[n..<n + length (p # ids)] = n # [Suc n..<Suc n + length ids]"
    by (simp add: upt_conv_Cons del: upt_Suc)
  with \<open>accept_built env job (Suc n) ids ts1 rs1\<close> have "accept_built env job n (p # ids) (t # ts1) (r # rs1)"
    using t by (auto simp: accept_built_def target_built_def simp del: upt_Suc)
  ultimately show ?case by blast
qed

section \<open>The branches of Accept\<close>

lemma accept_inputs_iff:
  "accept_inputs env req = Inr (canonical, ids, hash) \<longleftrightarrow>
     cr_job_id req \<noteq> [] \<and> length (cr_job_id req) \<le> 200 \<and> cr_template req \<noteq> [] \<and> length (cr_template req) \<le> 100 \<and>
     cr_data req \<noteq> [] \<and> length (cr_data req) \<le> maxPayloadBytes \<and> canonicalJSON env (cr_data req) = Some canonical \<and>
     canonicalPrinterIDs (cr_printer_ids req) = Inr ids \<and>
     hash = jobRequestHash env (cr_job_id req) (cr_template req) canonical ids"
  by (auto simp: accept_inputs_def sum_bind_Inr_iff split: option.splits)

definition identity_of :: "create_request \<Rightarrow> string \<times> string" where
  "identity_of req = (cr_job_id req, cr_template req)"

definition job_identity :: "job \<Rightarrow> string \<times> string" where
  "job_identity j = (j_job_id j, j_template j)"

lemma accepted_job_fields:
  "j_uid (accepted_job req uid c h now) = uid" "job_identity (accepted_job req uid c h now) = identity_of req"
  "j_request_hash (accepted_job req uid c h now) = h" "j_created_at (accepted_job req uid c h now) = now"
  "j_owner_origin (accepted_job req uid c h now) = or_default [] ''local'' (cr_owner req)"
  "j_data (accepted_job req uid c h now) = c"
  by (simp_all add: accepted_job_def Let_def job_identity_def identity_of_def)

lemma GetJobByIdentity_InrD:
  "GetJobByIdentity a b d = Inr j \<Longrightarrow> j \<in> set (db_jobs d) \<and> job_identity j = (a, b)"
  using find_SomeD by (fastforce simp: GetJobByIdentity_def job_identity_def)

lemma GetJobByIdentity_iff:
  assumes "schema_ok d"
  shows "GetJobByIdentity a b d = Inr j \<longleftrightarrow> j \<in> set (db_jobs d) \<and> job_identity j = (a, b)"
proof
  assume j: "j \<in> set (db_jobs d) \<and> job_identity j = (a, b)"
  have "distinct (map (\<lambda>j. (j_job_id j, j_template j)) (db_jobs d))"
    using assms by (simp add: schema_ok_def jobs_ok_def)
  from find_distinct [OF this, of j "(a, b)"] j show "GetJobByIdentity a b d = Inr j"
    by (simp add: GetJobByIdentity_def job_identity_def)
qed (rule GetJobByIdentity_InrD)

text \<open>A call that returns a Job either found it, or inserted it.\<close>

definition found :: "create_request \<Rightarrow> string \<Rightarrow> db \<Rightarrow> job_detail \<Rightarrow> bool" where
  "found req hash d D \<longleftrightarrow> (\<exists>j. j \<in> set (db_jobs d) \<and> job_identity j = identity_of req \<and> j_request_hash j = hash \<and>
     (or_default [] ''local'' (cr_owner req) = ''local'' \<or> j_owner_origin j = or_default [] ''local'' (cr_owner req)) \<and>
     (\<exists>E. GetDetail (j_uid j) d = Inr E \<and> D = E\<lparr>d_duplicate := True\<rparr>))"

definition inserted ::
    "service_env \<Rightarrow> create_request \<Rightarrow> string \<Rightarrow> string \<Rightarrow> time \<Rightarrow> db \<Rightarrow> db \<Rightarrow> job_detail \<Rightarrow> effect list \<Rightarrow> bool" where
  "inserted env req canonical hash now e d' D fx \<longleftrightarrow>
     (\<exists>uid targets runs. let job = accepted_job req uid canonical hash now in
        InsertJob job targets runs e = Inr d' \<and> accept_built env job 0 (cr_printer_ids req) targets runs \<and>
        D = DeriveJob job targets runs \<and>
        fx = JobAccepted (cr_job_id req) uid # concat (map publishQueued runs))"

lemma duplicateResult_Inr:
  "duplicateResult j owner hash d = Inr D \<longleftrightarrow>
     (owner = ''local'' \<or> j_owner_origin j = owner) \<and> j_request_hash j = hash \<and>
     (\<exists>E. GetDetail (j_uid j) d = Inr E \<and> D = E\<lparr>d_duplicate := True\<rparr>)"
  by (auto simp: duplicateResult_def sum_bind_Inr_iff)

lemma accept_prepared:
  assumes "sum_bind (accept_checks env dir req canonical ids) (\<lambda>_.
        sum_bind (map_err Repo (newID fresh_job)) (\<lambda>uid.
        let job = accepted_job req uid canonical hash now in
        sum_bind (fold_sum (accept_target env dir job fresh_runs) ([], []) (enumerate 0 (cr_printer_ids req)))
          (\<lambda>(targets, runs). Inr (job, targets, runs)))) = Inr (job, targets, runs)"
  shows "\<exists>uid. job = accepted_job req uid canonical hash now \<and>
    accept_built env job 0 (cr_printer_ids req) targets runs"
  using assms accept_loop [where ?ts0.0 = "[]" and ?rs0.0 = "[]"]
  by (fastforce simp: Let_def elim!: sum_bindE)

lemma Accept_Inr:
  assumes "Accept env dir req now fresh_job fresh_runs other d = (Inr D, d', fx)"
  obtains canonical ids hash where "accept_inputs env req = Inr (canonical, ids, hash)"
    "(d' = d \<and> fx = [] \<and> found req hash d D) \<or> (d' = other d \<and> fx = [] \<and> found req hash (other d) D) \<or>
     inserted env req canonical hash now (other d) d' D fx"
proof -
  obtain canonical ids hash where i: "accept_inputs env req = Inr (canonical, ids, hash)"
    using assms by (auto simp: Accept_def Let_def split: sum.split_asm)
  have f: "found req hash e E" if "GetJobByIdentity (cr_job_id req) (cr_template req) e = Inr j"
    "duplicateResult j (or_default [] ''local'' (cr_owner req)) hash e = Inr E" for e j E
    using GetJobByIdentity_InrD [OF that(1)] that(2)
    by (auto simp: found_def duplicateResult_Inr identity_of_def)
  have "(d' = d \<and> fx = [] \<and> found req hash d D) \<or> (d' = other d \<and> fx = [] \<and> found req hash (other d) D) \<or>
     inserted env req canonical hash now (other d) d' D fx"
  proof (cases "GetJobByIdentity (cr_job_id req) (cr_template req) d")
    case (Inr j)
    with assms i f [OF Inr] show ?thesis by (auto simp: Accept_def)
  next
    case (Inl e0)
    obtain job targets runs where p: "sum_bind (accept_checks env dir req canonical ids) (\<lambda>_.
        sum_bind (map_err Repo (newID fresh_job)) (\<lambda>uid.
        let job = accepted_job req uid canonical hash now in
        sum_bind (fold_sum (accept_target env dir job fresh_runs) ([], []) (enumerate 0 (cr_printer_ids req)))
          (\<lambda>(targets, runs). Inr (job, targets, runs)))) = Inr (job, targets, runs)"
      using assms i Inl unfolding Accept_def Let_def by (auto split: sum.split_asm)
    from accept_prepared [OF p] obtain uid where job: "job = accepted_job req uid canonical hash now"
      and built: "accept_built env job 0 (cr_printer_ids req) targets runs" by blast
    show ?thesis
    proof (cases "InsertJob job targets runs (other d)")
      case ins: (Inr d1)
      with assms i Inl p job built show ?thesis
        by (auto simp: Accept_def inserted_def Let_def accepted_job_def)
    next
      case ins: (Inl e)
      with assms i Inl p f show ?thesis
        by (auto simp: Accept_def Let_def split: sum.split_asm if_split_asm)
    qed
  qed
  with that i show ?thesis by blast
qed

lemma Accept_Inl:
  "Accept env dir req now fresh_job fresh_runs other d = (Inl e, d', fx) \<Longrightarrow> fx = [] \<and> (d' = d \<or> d' = other d)"
  by (auto simp: Accept_def Let_def split: sum.split_asm prod.split_asm)

section \<open>The rows of an accepted Job\<close>

lemma insert_targets_rows:
  "fold_sum (\<lambda>d t. insert_target t d) d targets = Inr d' \<Longrightarrow>
   db_targets d' = db_targets d @ map (\<lambda>t. t\<lparr>t_cancelled_at := None, t_cancellation_reason := None\<rparr>) targets \<and>
   db_jobs d' = db_jobs d \<and> db_runs d' = db_runs d"
proof (induction targets arbitrary: d)
  case (Cons t targets)
  then obtain e where e: "insert_target t d = Inr e" "fold_sum (\<lambda>d t. insert_target t d) e targets = Inr d'"
    by (auto elim: sum_bindE)
  from e(1) have "db_targets e = db_targets d @ [t\<lparr>t_cancelled_at := None, t_cancellation_reason := None\<rparr>] \<and>
      db_jobs e = db_jobs d \<and> db_runs e = db_runs d"
    by (auto simp: insert_target_def Let_def split: if_splits)
  with Cons.IH [OF e(2)] show ?case by simp
qed simp

definition unnumbered :: "print_run \<Rightarrow> print_run" where
  "unnumbered r = r\<lparr>r_queue_sequence := 0\<rparr>"

lemma unnumbered_again [simp]: "unnumbered (r\<lparr>r_queue_sequence := n\<rparr>) = unnumbered r"
  by (simp add: unnumbered_def)

lemma insert_runs_rows:
  "fold_sum (\<lambda>d r. insert_run r d) d runs = Inr d' \<Longrightarrow>
   db_targets d' = db_targets d \<and> db_jobs d' = db_jobs d \<and>
   (\<exists>rows. db_runs d' = db_runs d @ rows \<and> map unnumbered rows = map unnumbered runs)"
proof (induction runs arbitrary: d)
  case (Cons r runs)
  then obtain e where e: "insert_run r d = Inr e" "fold_sum (\<lambda>d r. insert_run r d) e runs = Inr d'"
    by (auto elim: sum_bindE)
  from e(1) have "db_runs e = db_runs d @ [r\<lparr>r_queue_sequence := db_next_seq d\<rparr>] \<and> db_targets e = db_targets d \<and> db_jobs e = db_jobs d"
    by (auto simp: insert_run_def Let_def split: if_splits)
  moreover from Cons.IH [OF e(2)] obtain rows where "db_targets d' = db_targets e" "db_jobs d' = db_jobs e"
    "db_runs d' = db_runs e @ rows" "map unnumbered rows = map unnumbered runs" by blast
  ultimately show ?case
    by (intro conjI exI [of _ "r\<lparr>r_queue_sequence := db_next_seq d\<rparr> # rows"]) simp_all
qed simp

lemma InsertJob_rows:
  assumes "InsertJob job targets runs d = Inr d'"
  shows "db_jobs d' = db_jobs d @ [job] \<and>
    db_targets d' = db_targets d @ map (\<lambda>t. t\<lparr>t_cancelled_at := None, t_cancellation_reason := None\<rparr>) targets \<and>
    (\<exists>rows. db_runs d' = db_runs d @ rows \<and> map unnumbered rows = map unnumbered runs) \<and>
    j_uid job \<notin> j_uid ` set (db_jobs d)"
  using assms
proof (rule InsertJob_InrD)
  fix d1 d2 assume s: "insert_job job d = Inr d1" "fold_sum (\<lambda>d t. insert_target t d) d1 targets = Inr d2"
    "fold_sum (\<lambda>d r. insert_run r d) d2 runs = Inr d'"
  have "j_uid job \<notin> j_uid ` set (db_jobs d)" using s(1) by (auto simp: insert_job_def split: if_splits)
  then show ?thesis
    using insert_job_result [OF s(1)] insert_targets_rows [OF s(2)] insert_runs_rows [OF s(3)] by auto
qed

lemma sort_key_sorted: "sorted (map f xs) \<Longrightarrow> sort_key f xs = xs"
proof (induction xs)
  case (Cons x xs)
  then show ?case by (cases xs) (simp_all add: insort_is_Cons)
qed simp

lemma unnumbered_fields [simp]:
  "run_target (unnumbered r) = run_target r" "r_job_uid (unnumbered r) = r_job_uid r"
  "r_printer_id (unnumbered r) = r_printer_id r" "r_status (unnumbered r) = r_status r"
  "r_trigger (unnumbered r) = r_trigger r" "r_run_number (unnumbered r) = r_run_number r"
  "r_content_mode (unnumbered r) = r_content_mode r" "r_retryable (unnumbered r) = r_retryable r"
  "r_expected_content_hash (unnumbered r) = r_expected_content_hash r" "r_uid (unnumbered r) = r_uid r"
  "r_reprint_request_id (unnumbered r) = r_reprint_request_id r"
  by (simp_all add: unnumbered_def run_target_def)

lemma no_rows_of_unknown_job:
  assumes "schema_ok d" "u \<notin> j_uid ` set (db_jobs d)"
  shows "\<forall>t \<in> set (db_targets d). t_job_uid t \<noteq> u" "\<forall>r \<in> set (db_runs d). r_job_uid r \<noteq> u"
proof -
  show t: "\<forall>t \<in> set (db_targets d). t_job_uid t \<noteq> u"
    using assms by (auto simp: schema_ok_def targets_ok_def)
  have "run_target r \<in> target_key ` set (db_targets d)" if "r \<in> set (db_runs d)" for r
    using assms(1) that by (auto simp: schema_ok_def runs_ok_def run_fk_def)
  with t show "\<forall>r \<in> set (db_runs d). r_job_uid r \<noteq> u"
    by (fastforce simp: run_target_def target_key_def)
qed

text \<open>What an accepted Job is in the database: its printers in the order of the request, one queued
  first run for each, and no other row.\<close>

lemma inserted_state:
  assumes "InsertJob job targets runs d = Inr d'" "accept_built env job 0 ids targets runs" "schema_ok d"
  shows "targetsFor (j_uid job) d' = targets \<and>
    map unnumbered (runsWhere (\<lambda>r. r_job_uid r = j_uid job) d') = map unnumbered runs \<and> job \<in> set (db_jobs d')"
proof -
  from InsertJob_rows [OF assms(1)] obtain rows where r: "db_jobs d' = db_jobs d @ [job]"
    "db_targets d' = db_targets d @ map (\<lambda>t. t\<lparr>t_cancelled_at := None, t_cancellation_reason := None\<rparr>) targets"
    "db_runs d' = db_runs d @ rows" "map unnumbered rows = map unnumbered runs"
    and new: "j_uid job \<notin> j_uid ` set (db_jobs d)" by blast
  note none = no_rows_of_unknown_job [OF assms(3) new]
  note b = assms(2) [unfolded accept_built_def]
  have "map (\<lambda>t. t\<lparr>t_cancelled_at := None, t_cancellation_reason := None\<rparr>) targets = targets"
    using b by (intro map_idI) simp
  moreover have "filter (\<lambda>t. t_job_uid t = j_uid job) targets = targets" using b by (intro filter_True) simp
  moreover have "filter (\<lambda>t. t_job_uid t = j_uid job) (db_targets d) = []" using none(1) by (simp add: filter_empty_conv)
  moreover have "sorted (map t_target_order targets)" using b by simp
  ultimately have t: "targetsFor (j_uid job) d' = targets" by (simp add: targetsFor_def r(2) sort_key_sorted)
  have "\<forall>x \<in> unnumbered ` set rows. r_job_uid x = j_uid job"
    using b r(4) by (metis (no_types, lifting) imageE list.set_map unnumbered_fields(2))
  then have "filter (\<lambda>r. r_job_uid r = j_uid job) rows = rows" by (intro filter_True) simp
  moreover have "filter (\<lambda>r. r_job_uid r = j_uid job) (db_runs d) = []" using none(2) by (simp add: filter_empty_conv)
  ultimately show ?thesis using t r by (simp add: runsWhere_def)
qed

lemma find_job_in: "schema_ok d \<Longrightarrow> j \<in> set (db_jobs d) \<Longrightarrow> find_job (j_uid j) d = Some j"
  by (auto simp: find_job_def schema_ok_def jobs_ok_def intro: find_distinct)

lemma DeriveJob_job [simp]: "d_job (DeriveJob j targets runs) = j" "d_duplicate (DeriveJob j targets runs) = False"
  by (simp_all add: DeriveJob_def Let_def split: prod.split)

lemma GetDetail_in:
  "schema_ok d \<Longrightarrow> j \<in> set (db_jobs d) \<Longrightarrow> \<exists>D. GetDetail (j_uid j) d = Inr D \<and> d_job D = j"
  by (simp add: GetDetail_def GetJob_def find_job_in Let_def)

lemma GetDetail_job: "GetDetail u d = Inr D \<Longrightarrow> d_job D \<in> set (db_jobs d) \<and> j_uid (d_job D) = u"
  by (auto simp: GetDetail_def GetJob_def find_job_def Let_def elim!: sum_bindE dest: find_SomeD)

text \<open>The Job a successful call answers with is the one the request identifies.\<close>

lemma Accept_job:
  assumes "Accept env dir req now fresh_job fresh_runs other d = (Inr D, d', fx)" "db_ok d" "db_ok (other d)"
  obtains canonical ids hash where "accept_inputs env req = Inr (canonical, ids, hash)"
    "job_identity (d_job D) = identity_of req" "j_request_hash (d_job D) = hash"
    "or_default [] ''local'' (cr_owner req) = ''local'' \<or> j_owner_origin (d_job D) = or_default [] ''local'' (cr_owner req)"
proof -
  from assms(1) obtain canonical ids hash where i: "accept_inputs env req = Inr (canonical, ids, hash)"
    and c: "(d' = d \<and> fx = [] \<and> found req hash d D) \<or> (d' = other d \<and> fx = [] \<and> found req hash (other d) D) \<or>
     inserted env req canonical hash now (other d) d' D fx" by (rule Accept_Inr)
  have f: "job_identity (d_job D) = identity_of req \<and> j_request_hash (d_job D) = hash \<and>
      (or_default [] ''local'' (cr_owner req) = ''local'' \<or> j_owner_origin (d_job D) = or_default [] ''local'' (cr_owner req))"
    if "found req hash e D" "db_ok e" for e
  proof -
    from that(1) obtain j E where j: "j \<in> set (db_jobs e)" "job_identity j = identity_of req" "j_request_hash j = hash"
      "or_default [] ''local'' (cr_owner req) = ''local'' \<or> j_owner_origin j = or_default [] ''local'' (cr_owner req)"
      "GetDetail (j_uid j) e = Inr E" "D = E\<lparr>d_duplicate := True\<rparr>" unfolding found_def by blast
    from GetDetail_in [OF db_ok_schema [OF that(2)] j(1)] j(5) have "d_job E = j" by simp
    with j show ?thesis by simp
  qed
  from c have "job_identity (d_job D) = identity_of req \<and> j_request_hash (d_job D) = hash \<and>
      (or_default [] ''local'' (cr_owner req) = ''local'' \<or> j_owner_origin (d_job D) = or_default [] ''local'' (cr_owner req))"
    using f assms by (elim disjE) (simp_all, auto simp: inserted_def Let_def accepted_job_fields)
  with that i show ?thesis by blast
qed

section \<open>Content does not depend on the clock\<close>

lemma parts_clock:
  "receipt_item (env\<lparr>ee_now := t\<rparr>) = receipt_item env" "station_item (env\<lparr>ee_now := t\<rparr>) = station_item env"
  "renderTimestamp (env\<lparr>ee_now := t\<rparr>) = renderTimestamp env" "render_marker (env\<lparr>ee_now := t\<rparr>) = render_marker env"
  "ValidateTemplateData (env\<lparr>ee_now := t\<rparr>) = ValidateTemplateData env"
  by (intro ext; simp add: receipt_item_def station_item_def renderTimestamp_def render_marker_def
      ValidateTemplateData_def Let_def cong: if_cong)+

lemma templates_clock:
  "renderCustomerReceipt (env\<lparr>ee_now := t\<rparr>) = renderCustomerReceipt env"
  "renderStationTicket title (env\<lparr>ee_now := t\<rparr>) = renderStationTicket title env"
  by (intro ext; simp add: renderCustomerReceipt_def renderStationTicket_def parts_clock)+

lemma test_page_clock:
  "\<not> is_zero_time (ro_accepted_at opts) \<Longrightarrow>
   renderTestPage (env\<lparr>ee_now := t\<rparr>) rd opts b = renderTestPage env rd opts b"
  by (simp add: renderTestPage_def)

lemma Render_clock:
  assumes "\<not> is_zero_time (ro_accepted_at opts)"
  shows "Render (env\<lparr>ee_now := t\<rparr>) tmpl rd encoding cpl opts = Render env tmpl rd encoding cpl opts"
  using assms by (simp add: Render_def parts_clock render_body_def templates_clock test_page_clock
      renderKitchenTicket_def renderBarTicket_def cong: if_cong option.case_cong)

definition at_clock :: "time \<Rightarrow> service_env \<Rightarrow> service_env" where
  "at_clock t env = env\<lparr>se_escpos := (se_escpos env)\<lparr>ee_now := t\<rparr>\<rparr>"

lemma hash_escpos: "hashBytes (env\<lparr>se_escpos := x\<rparr>) = hashBytes env"
  by (intro ext) (simp add: hashBytes_def)

lemma renderHash_clock:
  assumes "\<not> is_zero_time (j_created_at job)"
  shows "renderHash (at_clock t env) job target mode n = renderHash env job target mode n"
  using assms by (simp add: renderHash_def at_clock_def Render_clock hash_escpos Let_def cong: if_cong)

section \<open>Committed reprint requests\<close>

definition request_made :: "string \<Rightarrow> string \<Rightarrow> db \<Rightarrow> print_run \<Rightarrow> bool" where
  "request_made u req d run \<longleftrightarrow>
     (\<exists>r \<in> set (db_runs d). r_uid r = r_uid run \<and> r_job_uid r = u \<and> r_reprint_request_id r = nullable req)"

lemma reprint_target_request:
  assumes "reprint_target job req reason now fresh render (d, c) p = Inr (d', c')"
    and "\<forall>run \<in> set c. request_made (j_uid job) req d run"
  shows "db_dedup d' = db_dedup d \<and> db_jobs d' = db_jobs d \<and> (\<forall>run \<in> set c'. request_made (j_uid job) req d' run)"
  using assms(1)
proof (rule reprint_target_InrD)
  fix initial uid hash d1 d2 n n2
  let ?run = "reprint_run job req reason now uid p initial hash (next_run_number (j_uid job) p d)"
  let ?P = "\<lambda>r. r_job_uid r = j_uid job \<and> r_printer_id r = p \<and>
      (r_status r = RunFailed \<or> r_status r = RunUncertain) \<and> r_resolution r = None"
  let ?f = "\<lambda>r. r\<lparr>r_retryable := False, r_resolution := Some ResolutionReprintRequested, r_resolved_at := Some now\<rparr>"
  assume i: "insert_run ?run d = Inr d1" and c: "update_cancellation (j_uid job) p None None d1 = (n, d2)"
    and up: "update_runs ?P ?f d2 = Inr (n2, d')" and c': "c' = c @ [?run]"
  have d1: "db_runs d1 = db_runs d @ [?run\<lparr>r_queue_sequence := db_next_seq d\<rparr>]" "db_dedup d1 = db_dedup d" "db_jobs d1 = db_jobs d"
    using i by (auto simp: insert_run_def Let_def split: if_splits)
  have d2: "db_runs d2 = db_runs d1" "db_dedup d2 = db_dedup d1" "db_jobs d2 = db_jobs d1"
    using c by (auto simp: update_cancellation_def Let_def)
  note d' = update_runs_InrD(1) [OF up]
  have later: "request_made (j_uid job) req d' run" if "request_made (j_uid job) req d2 run" for run
  proof -
    from that obtain r where r: "r \<in> set (db_runs d2)" "r_uid r = r_uid run" "r_job_uid r = j_uid job"
      "r_reprint_request_id r = nullable req" by (auto simp: request_made_def)
    then show ?thesis unfolding request_made_def d'
      by (intro bexI [of _ "if ?P r then ?f r else r"]) (auto simp: set_update_where)
  qed
  have "request_made (j_uid job) req d2 run" if "run \<in> set c'" for run
    using that assms(2) unfolding c' request_made_def d2 d1
    by (auto simp: reprint_run_def fresh_run_def)
  with later show ?thesis by (simp add: d' d2 d1)
qed

lemma reprint_loop_request:
  assumes "fold_sum (reprint_target job req reason now fresh render) (d, c) ps = Inr (d', c')"
    and "\<forall>run \<in> set c. request_made (j_uid job) req d run"
  shows "db_dedup d' = db_dedup d \<and> db_jobs d' = db_jobs d \<and> (\<forall>run \<in> set c'. request_made (j_uid job) req d' run)"
  using assms
proof (induction ps arbitrary: d c)
  case (Cons p ps)
  obtain d1 c1 where step: "reprint_target job req reason now fresh render (d, c) p = Inr (d1, c1)"
    "fold_sum (reprint_target job req reason now fresh render) (d1, c1) ps = Inr (d', c')"
    using Cons.prems(1) by (auto elim!: sum_bindE)
  from reprint_target_request [OF step(1) Cons.prems(2)] Cons.IH [OF step(2)] show ?case by simp
qed simp

lemma find_snoc: "(\<And>x. x \<in> set xs \<Longrightarrow> \<not> P x) \<Longrightarrow> P y \<Longrightarrow> List.find P (xs @ [y]) = Some y"
  by (induction xs) auto

lemma dedup_after_insert:
  "insert_dedup row d = Inr d' \<Longrightarrow>
   GetDeduplication (dd_kind row) (dd_scope_uid row) (dd_request_id row) d' = Inr row \<and> db_jobs d' = db_jobs d"
  by (auto simp: insert_dedup_def GetDeduplication_def find_snoc split: if_splits)

lemma InsertManualReprints_request:
  assumes "InsertManualReprints u req hash reason ps now fresh render d = Inr (runs, d')"
  shows "(\<exists>row. GetDeduplication ''manual_reprint'' u req d' = Inr row \<and> dd_request_hash row = hash) \<and>
    (\<forall>run \<in> set runs. request_made u req d' run) \<and>
    (\<exists>P t. db_jobs d' = update_where P (\<lambda>j. j\<lparr>j_expires_at := t\<rparr>) (db_jobs d))"
proof -
  let ?row = "\<lparr>dd_kind = ''manual_reprint'', dd_scope_uid = u, dd_request_id = req, dd_request_hash = hash, dd_created_at = now\<rparr>"
  obtain d1 job d2 where d1: "insert_dedup ?row d = Inr d1" and job: "find_job u d1 = Some job"
    and loop: "fold_sum (reprint_target job req reason now fresh render) (d1, []) (sort ps) = Inr (d2, runs)"
    and d': "d' = update_expiry (\<lambda>j. j_uid j = u) (now + retentionWindow) d2"
    using assms by (auto simp: InsertManualReprints_def GetJob_def elim!: sum_bindE split: sum.split_asm db_err.split_asm)
  have u: "j_uid job = u" using job by (auto simp: find_job_def dest: find_SomeD)
  have l: "db_dedup d2 = db_dedup d1" "db_jobs d2 = db_jobs d1" "\<forall>run \<in> set runs. request_made u req d2 run"
    using reprint_loop_request [OF loop] u by auto
  have "GetDeduplication ''manual_reprint'' u req d' = GetDeduplication ''manual_reprint'' u req d1"
    by (simp add: GetDeduplication_def d' update_expiry_def l)
  with dedup_after_insert [OF d1] l show ?thesis
    by (auto simp: d' update_expiry_def request_made_def)
qed

end
