(* ===== verification/EscposCorrect.thy ===== *)
theory EscposCorrect
  imports EscposTemplates
begin

text \<open>
  What the receipt renderer guarantees: amounts survive the \<open>int64\<close> arithmetic and print
  exactly, every line fits the paper, no data of a request can put a control sequence into the
  document, and data that validation accepts always renders.
\<close>

section \<open>Money\<close>

lemma magnitude_neg: "sint c < 0 \<Longrightarrow> magnitude c = - c"
  by (simp add: magnitude_def)

lemma uint_magnitude: "uint (magnitude c) = \<bar>sint c\<bar>"
proof (cases "sint c < 0")
  case True
  have "uint (- c) = take_bit 64 (- uint c)"
    using uint_word_arith_bintrs(4) [of c] by simp
  also have "\<dots> = take_bit 64 (- sint c)"
    using uint_sint [of c] take_bit_minus [of 64 "sint c"] by simp
  also have "\<dots> = - sint c"
    using True sint_ge [of c] by (intro take_bit_int_eq_self) auto
  finally show ?thesis using True by (simp add: magnitude_neg)
next
  case False
  have "uint c = take_bit 64 (sint c)" by (simp add: uint_sint)
  also have "\<dots> = sint c"
    using False sint_lt [of c] by (intro take_bit_int_eq_self) auto
  finally show ?thesis using False by (simp add: magnitude_def)
qed

definition read_decimal :: "runes \<Rightarrow> nat" where
  "read_decimal ds = fold (\<lambda>d a. 10 * a + (d - 48)) ds 0"

lemma read_decimal_decimal [simp]: "read_decimal (decimal n) = n"
proof (induction n rule: decimal.induct)
  case (1 n)
  show ?case
  proof (cases "n < 10")
    case True
    then show ?thesis by (subst decimal.simps) (simp add: read_decimal_def)
  next
    case False
    then have "read_decimal (decimal (n div 10)) = n div 10" using 1 by simp
    with False show ?thesis by (subst decimal.simps) (simp add: read_decimal_def)
  qed
qed

lemma read_two_digits [simp]: "n < 100 \<Longrightarrow> read_decimal (two_digits n) = n"
proof -
  have "read_decimal (48 # ds) = read_decimal ds" for ds by (simp add: read_decimal_def)
  then show "read_decimal (two_digits n) = n" by (simp add: two_digits_def)
qed

lemma length_two_digits: "n < 100 \<Longrightarrow> length (two_digits n) = 2"
  by (auto simp: two_digits_def decimal.simps)

lemma sdiv_bounds:
  assumes "1 \<le> q"
  shows "MaxInt64 sdiv q = MaxInt64 div q" and "MinInt64 sdiv q = - ((2 ^ 63) div q)"
  using assms by (simp_all add: signed_divide_int_def MaxInt64_def MinInt64_def)

lemma mult_le_of_le_div: "1 \<le> q \<Longrightarrow> p \<le> (N::int) div q \<Longrightarrow> p * q \<le> N"
proof -
  assume q: "1 \<le> q" and p: "p \<le> N div q"
  have "p * q \<le> (N div q) * q" using p q by (intro mult_right_mono) auto
  also have "\<dots> = N - N mod q" by (simp add: minus_mod_eq_div_mult)
  also have "\<dots> \<le> N" using q by simp
  finally show ?thesis .
qed

lemma not_price_overflows:
  assumes "\<not> price_overflows it" "1 \<le> it_quantity it"
  shows "MinInt64 \<le> sint (it_price_cents it) * it_quantity it"
    and "sint (it_price_cents it) * it_quantity it \<le> MaxInt64"
proof -
  define p q where "p = sint (it_price_cents it)" and "q = it_quantity it"
  have q: "1 \<le> q" using assms(2) by (simp add: q_def)
  have no: "p > 0 \<longrightarrow> p \<le> MaxInt64 div q" "p < 0 \<longrightarrow> - p \<le> (2 ^ 63) div q"
    using assms(1) sdiv_bounds [OF q] by (auto simp: price_overflows_def p_def q_def Let_def)
  have "p * q \<le> MaxInt64"
  proof (cases "p > 0")
    case True
    with no mult_le_of_le_div [OF q] show ?thesis by blast
  next
    case False
    then have "p * q \<le> 0" using q by (simp add: mult_nonpos_nonneg)
    then show ?thesis by (simp add: MaxInt64_def)
  qed
  then show "sint (it_price_cents it) * it_quantity it \<le> MaxInt64" by (simp add: p_def q_def)
  have "- p * q \<le> 2 ^ 63"
  proof (cases "p < 0")
    case True
    with no mult_le_of_le_div [OF q] show ?thesis by blast
  next
    case False
    then have "- p * q \<le> 0" using q by simp
    then show ?thesis by simp
  qed
  then show "MinInt64 \<le> sint (it_price_cents it) * it_quantity it" by (simp add: p_def q_def MinInt64_def)
qed

lemma sint_item_total:
  assumes "\<not> price_overflows it" "1 \<le> it_quantity it" "it_quantity it \<le> 999"
  shows "sint (item_total it) = sint (it_price_cents it) * it_quantity it"
proof -
  have "sint (word_of_int (it_quantity it) :: int64) = it_quantity it"
    using assms(2,3) by (simp add: sint_sbintrunc' signed_take_bit_int_eq_self)
  then show ?thesis
    using not_price_overflows [OF assms(1,2)]
    by (simp add: item_total_def sint_word_mult signed_take_bit_int_eq_self MinInt64_def MaxInt64_def)
qed


section \<open>Documents\<close>

text \<open>
  The commands the renderer may emit, and the documents that consist of those commands and of
  printable lines of at most \<open>w\<close> characters.
\<close>

definition known_commands :: "byte list set" where
  "known_commands =
     {[0x1B, 64], [0x1D, 86, 66, 3], [0x1B, 112, 0, 60, 120], [0x1B, 100, 4]}
     \<union> {[0x1B, 116, n] | n. n \<in> {0, 2, 16, 19}}
     \<union> {[0x1B, 97, a] | a. a \<in> {0, 1, 2}}
     \<union> {[0x1B, 69, v] | v. v \<in> {0, 1}}
     \<union> {[0x1D, 33, v] | v. v \<in> {0, 0x30}}"

inductive escpos_doc :: "int \<Rightarrow> byte list \<Rightarrow> bool" for w where
  empty: "escpos_doc w []"
| command: "escpos_doc w d \<Longrightarrow> c \<in> known_commands \<Longrightarrow> escpos_doc w (d @ c)"
| line: "escpos_doc w d \<Longrightarrow> (\<And>b. b \<in> set l \<Longrightarrow> 32 \<le> unat b \<and> unat b \<noteq> 127) \<Longrightarrow>
    int (length l) \<le> w \<Longrightarrow> escpos_doc w (d @ l @ [10])"

definition doc_ok :: "int \<Rightarrow> builder \<Rightarrow> bool" where
  "doc_ok w b = (escpos_doc w (b_buf b) \<and> b_width b = w)"

lemma escpos_doc_lines:
  assumes "escpos_doc w d" "keeps_control_apart enc" "single_byte enc"
    "\<And>l. l \<in> set ls \<Longrightarrow> int (length l) \<le> w"
  shows "escpos_doc w (d @ line_bytes enc cp ls)"
  using assms(1,4)
proof (induction ls arbitrary: d)
  case Nil
  then show ?case by (simp add: line_bytes_def)
next
  case (Cons l ls)
  have "escpos_doc w (d @ encodeText enc cp l @ [10])"
    using Cons.prems encodeText_printable [OF assms(2)] length_encodeText [OF assms(3)]
    by (intro escpos_doc.line) auto
  then have "escpos_doc w ((d @ encodeText enc cp l @ [10]) @ line_bytes enc cp ls)"
    using Cons.prems by (intro Cons.IH) auto
  then show ?case by (simp add: line_bytes_def)
qed

lemma doc_ok_emit_raw: "doc_ok w b \<Longrightarrow> c \<in> known_commands \<Longrightarrow> doc_ok w (emit_raw c b)"
  by (simp add: doc_ok_def emit_raw_def escpos_doc.command)

lemma doc_ok_commands [keeps]:
  assumes "doc_ok w b"
  shows "doc_ok w (Align AlignLeft b)" "doc_ok w (Align AlignCenter b)" "doc_ok w (Align AlignRight b)"
    "doc_ok w (Bold v b)" "doc_ok w (Feed 4 b)" "doc_ok w (Cut b)" "doc_ok w (DrawerPulse b)"
  using assms
  by (auto simp: Align_def Bold_def Feed_def Cut_def DrawerPulse_def AlignLeft_def AlignCenter_def
      AlignRight_def known_commands_def intro!: doc_ok_emit_raw)

lemma doc_ok_DoubleSize [keeps]: "doc_ok w b \<Longrightarrow> doc_ok w (DoubleSize v b)"
  unfolding DoubleSize_def
  by (intro doc_ok_emit_raw) (auto simp: doc_ok_def known_commands_def)

text \<open>
  What the renderer needs of its surroundings: a character map that yields one byte per rune and no
  control byte for a printable rune (golang.org/x/text charmaps do), and paper at least two
  characters wide (\<open>Validate\<close> demands eight).
\<close>

definition printable_on :: "encoder \<Rightarrow> int \<Rightarrow> bool" where
  "printable_on enc w = (keeps_control_apart enc \<and> single_byte enc \<and> 2 \<le> w)"

lemma doc_ok_wrapped:
  assumes "printable_on enc w" "doc_ok w b" "0 < v" "v \<le> w"
  shows "doc_ok w (b\<lparr>b_buf := b_buf b @ line_bytes enc (b_cp b) (wrap s v)\<rparr>)"
proof -
  have "int (length l) \<le> w" if "l \<in> set (wrap s v)" for l
    using wrap_line_width [OF that] assms(3,4) by (simp add: effective_width_def)
  with assms(1,2) show ?thesis by (simp add: doc_ok_def printable_on_def escpos_doc_lines)
qed

lemma doc_ok_Text [keeps]: "printable_on enc w \<Longrightarrow> doc_ok w b \<Longrightarrow> doc_ok w (Text enc s b)"
  unfolding Text_buf by (intro doc_ok_wrapped) (auto simp: doc_ok_def printable_on_def textWidth_def)

lemma doc_ok_TextDouble [keeps]: "printable_on enc w \<Longrightarrow> doc_ok w b \<Longrightarrow> doc_ok w (TextDouble enc s b)"
  unfolding TextDouble_buf by (intro doc_ok_wrapped) (auto simp: doc_ok_def printable_on_def)

lemma doc_ok_fold: "(\<And>x b. doc_ok w b \<Longrightarrow> doc_ok w (f x b)) \<Longrightarrow> doc_ok w b \<Longrightarrow> doc_ok w (fold f xs b)"
  by (induction xs arbitrary: b) auto

lemma doc_ok_TwoColumns [keeps]:
  "printable_on enc w \<Longrightarrow> doc_ok w b \<Longrightarrow> doc_ok w (TwoColumns enc left right b)"
  by (auto simp: TwoColumns_def Let_def intro!: doc_ok_fold keeps)

lemma doc_ok_Separator [keeps]: "printable_on enc w \<Longrightarrow> doc_ok w b \<Longrightarrow> doc_ok w (Separator enc b)"
  by (simp add: Separator_def doc_ok_Text)

lemma doc_ok_items [keeps]:
  assumes "printable_on (ee_enc env) w" "doc_ok w b"
  shows "doc_ok w (receipt_item env cur it b)" "doc_ok w (station_item env it b)"
    "doc_ok w (renderTimestamp env t b)" "doc_ok w (render_marker env opts b)"
  using assms by (auto simp: receipt_item_def station_item_def renderTimestamp_def render_marker_def
      Let_def intro!: keeps)

lemma doc_ok_receipt:
  assumes "renderCustomerReceipt env rd b = Inr b'" "printable_on (ee_enc env) w" "doc_ok w b"
  shows "doc_ok w b'"
  using assms
  by (auto simp: renderCustomerReceipt_def sum_bind_Inr_iff Let_def simp del: fold_simps
      split: option.splits intro!: doc_ok_fold keeps)

lemma doc_ok_station:
  assumes "renderStationTicket title env rd b = Inr b'" "printable_on (ee_enc env) w" "doc_ok w b"
  shows "doc_ok w b'"
  using assms by (auto simp: renderStationTicket_def sum_bind_Inr_iff Let_def intro!: doc_ok_fold keeps)

lemma doc_ok_test_page:
  assumes "renderTestPage env rd opts b = Inr b'" "printable_on (ee_enc env) w" "doc_ok w b"
  shows "doc_ok w b'"
  using assms by (auto simp: renderTestPage_def sum_bind_Inr_iff Let_def intro!: keeps)

lemma doc_ok_body:
  assumes "render_body env tmpl rd opts b = Inr b'" "printable_on (ee_enc env) w" "doc_ok w b"
  shows "doc_ok w b'"
  using assms doc_ok_receipt doc_ok_station doc_ok_test_page
  by (auto simp: render_body_def renderKitchenTicket_def renderBarTicket_def split: if_splits)

definition paper_width :: "int \<Rightarrow> int" where
  "paper_width cpl = (if cpl \<le> 0 then 32 else cpl)"

lemma doc_ok_start:
  assumes "NewBuilder encoding cpl = Some b"
  shows "doc_ok (paper_width cpl) (Init b)"
proof -
  have cp: "cp_escposN (b_cp b) \<in> {0, 2, 16, 19}" and b: "b_buf b = []" "b_width b = paper_width cpl"
    using assms by (auto simp: NewBuilder_def lookupCodePage_def codePages_def paper_width_def
        split: option.splits if_splits)
  then show ?thesis
    unfolding Init_def by (intro doc_ok_emit_raw) (auto simp: doc_ok_def known_commands_def escpos_doc.empty)
qed

lemma Render_Inr:
  assumes "Render env tmpl rd encoding cpl opts = Inr doc"
  obtains b b' where "ValidateTemplateData env tmpl rd = Inr ()" "KnownTemplate tmpl"
    "NewBuilder encoding cpl = Some b"
    "render_body env tmpl rd opts (render_marker env opts (Init b)) = Inr b'"
    "doc = b_buf (Cut (Feed 4 b'))"
  using assms by (auto simp: Render_def sum_bind_Inr_iff split: if_splits option.splits)

lemma Render_doc:
  assumes "Render env tmpl rd encoding cpl opts = Inr doc" "printable_on (ee_enc env) (paper_width cpl)"
  shows "escpos_doc (paper_width cpl) doc"
proof -
  from assms(1) obtain b b' where b: "NewBuilder encoding cpl = Some b"
    "render_body env tmpl rd opts (render_marker env opts (Init b)) = Inr b'"
    "doc = b_buf (Cut (Feed 4 b'))" by (rule Render_Inr)
  have "doc_ok (paper_width cpl) (Cut (Feed 4 b'))"
    using assms(2) doc_ok_start [OF b(1)] by (intro keeps doc_ok_body [OF b(2)])
  with b(3) show ?thesis by (simp add: doc_ok_def)
qed

section \<open>Validated data renders\<close>

lemma strictDecode_ok: "strictDecode dec rd = Inr d \<Longrightarrow> rd \<noteq> [] \<and> dec rd = Some d"
  by (simp add: strictDecode_def split: if_splits option.splits)

lemma render_total:
  "strictDecode (ee_station env) rd = Inr d \<Longrightarrow> \<exists>b'. renderStationTicket title env rd b = Inr b'"
  "strictDecode (ee_receipt env) rd = Inr d' \<Longrightarrow> rd_total_cents d' = Some c \<Longrightarrow>
    \<exists>b'. renderCustomerReceipt env rd b = Inr b'"
  "rd = [] \<or> strictDecode (ee_test_page env) rd = Inr d'' \<Longrightarrow> \<exists>b'. renderTestPage env rd opts b = Inr b'"
  by (auto simp: renderStationTicket_def renderCustomerReceipt_def renderTestPage_def Let_def)

lemma body_of_valid:
  assumes "ValidateTemplateData env tmpl rd = Inr u" "KnownTemplate tmpl"
  shows "\<exists>b'. render_body env tmpl rd opts b = Inr b'"
proof -
  consider (station) "tmpl = TemplateKitchenTicket \<or> tmpl = TemplateBarTicket"
    | (receipt) "tmpl = TemplateCustomerReceipt" | (test) "tmpl = TemplateTestPage"
    using assms(2) by (auto simp: KnownTemplate_def)
  then show ?thesis
  proof cases
    case station
    then obtain d where "strictDecode (ee_station env) rd = Inr d"
      using assms(1) by (auto simp: ValidateTemplateData_def sum_bind_Inr_iff template_names)
    with station render_total(1) show ?thesis
      by (auto simp: render_body_def renderKitchenTicket_def renderBarTicket_def template_names)
  next
    case receipt
    then obtain d c where "strictDecode (ee_receipt env) rd = Inr d" "rd_total_cents d = Some c"
      using assms(1) by (auto simp: ValidateTemplateData_def sum_bind_Inr_iff template_names split: if_splits)
    with receipt render_total(2) show ?thesis by (simp add: render_body_def)
  next
    case test
    then obtain d where "rd = [] \<or> strictDecode (ee_test_page env) rd = Inr d"
      using assms(1) by (auto simp: ValidateTemplateData_def sum_bind_Inr_iff template_names split: if_splits)
    then have "\<exists>b'. renderTestPage env rd opts b = Inr b'" by (rule render_total(3))
    with test show ?thesis by (simp add: render_body_def template_names)
  qed
qed

lemma Render_total:
  assumes "ValidateTemplateData env tmpl rd = Inr u" "KnownTemplate tmpl" "lookupCodePage encoding \<noteq> None"
  shows "\<exists>doc. Render env tmpl rd encoding cpl opts = Inr doc"
proof -
  obtain b where b: "NewBuilder encoding cpl = Some b"
    using assms(3) by (auto simp: NewBuilder_def)
  obtain b' where "render_body env tmpl rd opts (render_marker env opts (Init b)) = Inr b'"
    using body_of_valid [OF assms(1,2)] by blast
  with assms b show ?thesis by (simp add: Render_def)
qed

end
