(* ===== verification/EscposProperties.thy ===== *)
theory EscposProperties
  imports EscposCorrect
begin

text \<open>
  The properties of the rendering pipeline: receipts are safe printer documents, validated data
  always renders, money and timestamps are exact, text never leaves the paper.
\<close>

section \<open>A surrounding to instantiate them in\<close>

definition ascii_encoder :: encoder where
  "ascii_encoder = (\<lambda>cp r. if 32 \<le> r \<and> r < 127 then Some [word_of_nat r] else None)"

definition sample_receipt :: receipt_data where
  "sample_receipt = \<lparr>rd_store_name = lit ''Bar'', rd_header_lines = [], rd_order_number = lit ''7'',
     rd_created_at = 0, rd_items = [\<lparr>it_name = lit ''Coffee'', it_quantity = 2, it_price_cents = 150, it_notes = []\<rparr>],
     rd_total_cents = Some 300, rd_currency = [], rd_payment_method = [], rd_footer_lines = [], rd_open_drawer = False\<rparr>"

definition sample_env :: escpos_env where
  "sample_env = \<lparr>ee_enc = ascii_encoder, ee_station = (\<lambda>_. None), ee_receipt = (\<lambda>_. Some sample_receipt),
     ee_test_page = (\<lambda>_. None), ee_local_format = (\<lambda>_ _. []), ee_now = 0\<rparr>"

lemma ascii_printable: "printable_on ascii_encoder 32"
proof -
  have u: "unat (word_of_nat r :: 8 word) = r" if "r < 127" for r
    using that by (simp add: unat_of_nat take_bit_nat_eq_self)
  then show ?thesis
    by (auto simp: printable_on_def single_byte_def keeps_control_apart_def ascii_encoder_def split: if_splits)
qed

lemma sample_env_sel [simp]: "ee_enc sample_env = ascii_encoder" "ee_receipt sample_env d = Some sample_receipt"
  by (simp_all add: sample_env_def)

lemma sample_receipt_valid: "ValidateTemplateData sample_env TemplateCustomerReceipt ''{}'' = Inr ()"
  by (simp add: ValidateTemplateData_def template_names strictDecode_def sample_receipt_def validateText_def lit_def
      validateItems_def validateItem_def price_overflows_def MaxInt64_def is_control_def Let_def)

section \<open>Documents\<close>


text \<open>C17: Data that passed ValidateTemplateData always renders, in every supported encoding and on every
  paper width: acceptance never stores a Job that a worker can not render.\<close>

theorem validated_data_renders:
  assumes "ValidateTemplateData env tmpl rd = Inr u" "KnownTemplate tmpl" "lookupCodePage encoding \<noteq> None"
  shows "\<exists>doc. Render env tmpl rd encoding cpl opts = Inr doc"
  using assms by (rule Render_total)

definition sample_options :: render_options where
  "sample_options = \<lparr>ro_reprint = False, ro_run_number = 1, ro_accepted_at = 5\<rparr>"

lemma cp858_known: "lookupCodePage ''CP858'' \<noteq> None"
  by code_simp

theorem validated_data_renders_witness:
  "\<exists>doc. Render sample_env TemplateCustomerReceipt ''{}'' ''CP858'' 32 sample_options = Inr doc"
  by (rule validated_data_renders [OF sample_receipt_valid _ cp858_known]) (simp add: KnownTemplate_def)


section \<open>Money\<close>


text \<open>C19: The line total of a validated item never wraps: the 64 bit product the receipt prints is the
  product of the price and the quantity.\<close>

theorem item_totals_do_not_overflow:
  assumes "validateItem True i it = Inr u"
  shows "sint (item_total it) = sint (it_price_cents it) * it_quantity it"
proof -
  have "\<not> price_overflows it" "1 \<le> it_quantity it" "it_quantity it \<le> 999"
    using assms by (auto simp: validateItem_def elim!: sum_bindE split: if_splits)
  then show ?thesis by (rule sint_item_total)
qed

theorem item_totals_do_not_overflow_witness:
  "sint (item_total \<lparr>it_name = lit ''Coffee'', it_quantity = 2, it_price_cents = 150, it_notes = []\<rparr>) = 300"
  using item_totals_do_not_overflow [of 0 "\<lparr>it_name = lit ''Coffee'', it_quantity = 2, it_price_cents = 150, it_notes = []\<rparr>" "()"]
  by (simp add: validateItem_def validateText_def lit_def price_overflows_def MaxInt64_def is_control_def Let_def)

section \<open>Layout\<close>

text \<open>C20: Wrapping keeps every line within the width and loses nothing but blanks and line breaks.\<close>

theorem wrap_fits_and_keeps_the_text:
  "(\<forall>l \<in> set (wrap s w). length l \<le> effective_width w \<and> 10 \<notin> set l) \<and>
   filter (\<lambda>r. r \<noteq> 32) (concat (wrap s w)) = filter (\<lambda>r. r \<noteq> 32 \<and> r \<noteq> 10) s"
  using wrap_line_width wrap_no_newline wrap_content by blast+

theorem wrap_fits_and_keeps_the_text_witness:
  "length (hd (wrap (lit ''two lines'') 5)) \<le> 5"
  using wrap_fits_and_keeps_the_text [of "lit ''two lines''" 5] wrap_nonempty [of "lit ''two lines''" 5]
  by (simp add: effective_width_def)

text \<open>In the two-column layout the right column always ends exactly at the paper's edge: the last line
  appended has the full width, starts with the last line of the wrapped left column and ends with the
  right column, and at least one blank separates the two.\<close>

theorem two_columns_end_at_the_edge:
  fixes left right :: runes
  assumes "0 < b_width b" "10 \<notin> set right" "4 \<le> textWidth b - int (length right) - 1"
  shows "\<exists>above l pad. TwoColumns enc left right b =
      b\<lparr>b_buf := b_buf b @ line_bytes enc (b_cp b) (above @ [l @ replicate pad 32 @ right])\<rparr> \<and>
    above @ [l] = wrap left (textWidth b - int (length right) - 1) \<and>
    1 \<le> pad \<and> int (length (l @ replicate pad 32 @ right)) = textWidth b"
proof -
  define ls where "ls = wrap left (textWidth b - int (length right) - 1)"
  have ne: "ls \<noteq> []" by (simp add: ls_def wrap_nonempty)
  have pos: "1 \<le> two_columns_pad (textWidth b) (last ls) right"
    using two_columns_pad_pos [of "last ls" left "textWidth b" right] assms(3) ne by (simp add: ls_def)
  then have "int (length (last ls @ replicate (nat (two_columns_pad (textWidth b) (last ls) right)) 32 @ right)) = textWidth b"
    by (simp add: two_columns_pad_def)
  with pos ne TwoColumns_lines [OF assms] show ?thesis
    by (intro exI [of _ "butlast ls"] exI [of _ "last ls"] exI [of _ "nat (two_columns_pad (textWidth b) (last ls) right)"])
      (simp add: ls_def)
qed

theorem two_columns_end_at_the_edge_witness:
  "\<exists>above l pad. TwoColumns ascii_encoder (lit ''Coffee'') (lit ''3.00'')
      \<lparr>b_buf = [], b_cp = \<lparr>cp_enc = CodePage858, cp_escposN = 19\<rparr>, b_width = 32, b_double = False\<rparr> =
    \<lparr>b_buf = line_bytes ascii_encoder \<lparr>cp_enc = CodePage858, cp_escposN = 19\<rparr> (above @ [l @ replicate pad 32 @ lit ''3.00'']),
      b_cp = \<lparr>cp_enc = CodePage858, cp_escposN = 19\<rparr>, b_width = 32, b_double = False\<rparr>"
  using two_columns_end_at_the_edge [of "\<lparr>b_buf = [], b_cp = \<lparr>cp_enc = CodePage858, cp_escposN = 19\<rparr>, b_width = 32, b_double = False\<rparr>"
      "lit ''3.00''" ascii_encoder "lit ''Coffee''"]
  by (auto simp: textWidth_def lit_def)

section \<open>Timestamps and configuration\<close>

text \<open>A timestamp written to the database is read back as the same instant, to the nanosecond.\<close>

theorem timestamps_round_trip: "parse_ts (ts t) = Some t"
  by (rule parse_ts_ts)

lemma digits_numeral: "digits (numeral k) n = digits (pred_numeral k) (n div 10) @ [n mod 10]"
  by (metis digits.simps(2) numeral_eq_Suc)

text \<open>Stored timestamps sort as text the way they sort in time once they are a second apart. Within one
  second they need not: the text of a whole second sorts after its own fractions.\<close>

theorem timestamp_text_order:
  "(t + second \<le> u \<longrightarrow> ts t < ts u) \<and> (\<exists>t u. t < u \<and> u < t + second \<and> ts u < ts t)"
proof
  show "t + second \<le> u \<longrightarrow> ts t < ts u" using ts_less_far by blast
  have "ts 500000000 < ts 0"
    by (simp add: ts_def second_def frac_text_def strip_zeros_def digits_numeral)
  then show "\<exists>t u. t < u \<and> u < t + second \<and> ts u < ts t"
    by (intro exI [of _ 0] exI [of _ 500000000]) (simp add: second_def)
qed

theorem timestamp_text_order_witness: "ts 5 < ts 1000000005"
  using timestamp_text_order [of 5 1000000005] by (simp add: second_def)

text \<open>Filling in defaults twice changes nothing, and a new printer that names only a usable identifier and
  an endpoint is valid once its defaults are filled in.\<close>

theorem defaults_make_a_valid_printer:
  assumes "printerIDRe (pc_id p)" "pc_endpoint p \<noteq> []" "length (pc_endpoint p) \<le> 512"
    "pc_device_address p = []" "pc_transport p = []" "pc_connection_preference p = []"
    "pc_baud_rate p = 0" "pc_data_bits p = 0" "pc_stop_bits p = 0" "pc_parity p = []"
    "pc_characters_per_line p = 0" "pc_display_name p = []"
  shows "Validate (ApplyDefaults p) = Inr () \<and> ApplyDefaults (ApplyDefaults p) = ApplyDefaults p"
  using ApplyDefaults_valid_if_unset [OF assms] ApplyDefaults_idem by blast

theorem defaults_make_a_valid_printer_witness:
  "Validate (ApplyDefaults \<lparr>pc_id = ''bar'', pc_display_name = [], pc_enabled = True, pc_transport = [],
     pc_device_address = [], pc_endpoint = ''COM3'', pc_connection_preference = [], pc_baud_rate = 0,
     pc_data_bits = 0, pc_stop_bits = 0, pc_parity = [], pc_characters_per_line = 0, pc_encoding = [],
     pc_auto_reconnect = True, pc_retired_at = None, pc_created_at = 0, pc_updated_at = 0\<rparr>) = Inr ()"
  by (rule defaults_make_a_valid_printer [THEN conjunct1]) (simp_all add: printerIDRe_def id_head_char_def id_tail_char_def)

end
