(* ===== verification/Samples.thy ===== *)
theory Samples
  imports RepositoryLaws
begin

text \<open>
  A small database driven through the life of one Job, on which the theorems of the development
  are instantiated: a printer, an accepted Job with one queued run, the run claimed, and the run
  failed with no byte sent.
\<close>

definition sample_printer :: printer_config where
  "sample_printer = \<lparr>pc_id = ''bar'', pc_display_name = ''Bar'', pc_enabled = True, pc_transport = ''mock'',
     pc_device_address = [], pc_endpoint = ''mock'', pc_connection_preference = ''auto'',
     pc_baud_rate = 9600, pc_data_bits = 8, pc_stop_bits = 1, pc_parity = ''none'',
     pc_characters_per_line = 32, pc_encoding = ''CP858'', pc_auto_reconnect = True,
     pc_retired_at = None, pc_created_at = 0, pc_updated_at = 0\<rparr>"

definition sample_job :: job where
  "sample_job = \<lparr>j_uid = ''job_1'', j_job_id = ''order-1'', j_template = ''test'', j_data = ''{}'',
     j_request_hash = ''h'', j_source = ''local'', j_owner_origin = ''local'', j_created_at = 10,
     j_expires_at = 20\<rparr>"

definition sample_target :: job_printer where
  "sample_target = \<lparr>t_job_uid = ''job_1'', t_printer_id = ''bar'', t_target_order = 0, t_encoding = ''CP858'',
     t_characters_per_line = 32, t_accepted_content_hash = ''c'', t_cancelled_at = None,
     t_cancellation_reason = None\<rparr>"

definition sample_run :: print_run where
  "sample_run = (fresh_run ''run_1'' ''job_1'' ''bar'' 1 TriggerInitial ContentNormal ''c'' 10)
     \<lparr>r_queue_sequence := 1\<rparr>"

definition sample_empty :: db where
  "sample_empty = \<lparr>db_printers = [sample_printer], db_jobs = [], db_targets = [], db_runs = [],
     db_next_seq = 1, db_dedup = [], db_events = [], db_settings = []\<rparr>"

definition sample_queued :: db where
  "sample_queued = sample_empty\<lparr>db_jobs := [sample_job], db_targets := [sample_target],
     db_runs := [sample_run], db_next_seq := 2\<rparr>"

definition sample_processing :: db where
  "sample_processing = sample_queued\<lparr>db_runs := [claimed 30 sample_run]\<rparr>"

definition sample_failed_run :: print_run where
  "sample_failed_run = (claimed 30 sample_run)\<lparr>r_status := RunFailed, r_retryable := True,
     r_error_code := Some ''not_sent'', r_error_message := Some ''x'', r_finished_at := Some 40\<rparr>"

definition sample_failed :: db where
  "sample_failed = sample_processing\<lparr>db_jobs := [sample_job\<lparr>j_expires_at := 41 + retentionWindow\<rparr>],
     db_runs := [sample_failed_run]\<rparr>"

definition sample_uncertain_run :: print_run where
  "sample_uncertain_run = abandon 40 (claimed 30 sample_run)"

definition sample_uncertain :: db where
  "sample_uncertain = sample_processing\<lparr>db_runs := [sample_uncertain_run]\<rparr>"

lemmas sample_rows = sample_printer_def sample_job_def sample_target_def sample_run_def sample_failed_run_def
  fresh_run_def claimed_def sample_uncertain_run_def abandon_def
lemmas sample_dbs = sample_empty_def sample_queued_def sample_processing_def sample_failed_def sample_uncertain_def

lemma sample_empty_ok: "db_ok sample_empty"
  by (simp add: sample_empty_def db_ok_def schema_ok_def schema_defs runs_unique_def lineage_ok_def
      initial_ok_def child_ok_def)

lemma sample_insert:
  "InsertJob sample_job [sample_target] [sample_run\<lparr>r_queue_sequence := 0\<rparr>] sample_empty = Inr sample_queued"
  by (simp add: InsertJob_def insert_job_def insert_target_def insert_run_def sample_dbs sample_rows Let_def
      target_key_def run_check_def runs_unique_def run_fk_def run_target_def names_run_def active_status_def)

lemma sample_queued_ok: "db_ok sample_queued"
  by (rule InsertJob_keeps [OF sample_insert _ sample_empty_ok])
    (simp add: accepted_shape_def sample_rows run_target_def target_key_def)

lemma sample_claim: "ClaimNextQueued ''bar'' 30 sample_queued = Inr (claimed 30 sample_run, sample_processing)"
  using claim_oldest [OF sample_queued_ok, of "''bar''" sample_run 30]
  by (simp add: oldest_queued_def queued_for_def sample_dbs sample_rows)

lemma sample_processing_ok: "db_ok sample_processing"
  by (rule stmts_keep [OF ClaimNextQueued_stmts [OF sample_claim sample_queued_ok] sample_queued_ok])

lemma sample_fail: "MarkFailed ''run_1'' 0 ''not_sent'' ''x'' True 40 41 sample_processing = Inr sample_failed"
  by (simp add: MarkFailed_def transition_def update_runs_def sample_dbs sample_rows Let_def
      run_update_allowed_def run_identity_def status_edge_def run_check_def runs_unique_def
      active_status_def extend_retention_def update_expiry_def find_run_def guard_err_def)

lemma sample_failed_ok: "db_ok sample_failed"
  by (rule stmts_keep [OF MarkFailed_stmts [OF sample_fail] sample_processing_ok]) simp

lemma sample_recover: "RecoverAbandoned 40 sample_processing = Inr ([sample_uncertain_run], sample_uncertain)"
  using recover_result [OF sample_processing_ok, of 40] by (simp add: sample_dbs sample_rows)

lemma sample_uncertain_ok: "db_ok sample_uncertain"
  by (rule stmts_keep [OF RecoverAbandoned_stmts [OF sample_recover] sample_processing_ok])

end
