(* ===== verification/ServiceProperties.thy ===== *)
theory ServiceProperties
  imports JobServiceCorrect EscposProperties Samples
begin

text \<open>The properties of the Job service.\<close>

section \<open>A surrounding to instantiate them in\<close>

definition sample_service :: service_env where
  "sample_service = \<lparr>se_escpos = sample_env, se_scan = (\<lambda>s. Some (JObject [], [])), se_quote = (\<lambda>s. s),
     se_sha256 = (\<lambda>_. ''c'')\<rparr>"

definition sample_dir :: printer_dir where
  "sample_dir = \<lparr>PrinterExists = (\<lambda>p. p = ''bar''), PrinterConfig = (\<lambda>p. if p = ''bar'' then Some sample_printer else None)\<rparr>"

definition sample_request :: create_request where
  "sample_request = \<lparr>cr_job_id = ''order-1'', cr_template = ''customer-receipt'', cr_data = ''{}'',
     cr_printer_ids = [''bar''], cr_source = [], cr_owner = []\<rparr>"

definition sample_accept where
  "sample_accept now other d = Accept sample_service sample_dir sample_request now (Some ''job_9'') (\<lambda>_. Some ''run_9'') other d"

lemma sample_inputs: "accept_inputs sample_service sample_request = Inr (''{}'', [''bar''], ''c'')"
  by (simp add: accept_inputs_iff sample_request_def sample_service_def maxPayloadBytes_def canonicalJSON_def
      map_entries_def canonicalPrinterIDs_iff maxPrinters_def jobRequestHash_def hashBytes_def)

lemma sample_checks: "accept_checks sample_service sample_dir sample_request ''{}'' [''bar''] = Inr ()"
  using sample_receipt_valid
  by (simp add: accept_checks_def sample_service_def sample_dir_def sample_request_def KnownTemplate_def template_names
      guard_err_def)

lemma sample_render:
  "\<exists>doc. Render sample_env ''customer-receipt'' ''{}'' ''CP858'' 32 opts = Inr doc"
  using Render_total [OF sample_receipt_valid _ cp858_known] by (simp add: KnownTemplate_def template_names)

lemma sample_accepted:
  "\<exists>D d' fx. sample_accept 10 (\<lambda>d. d) sample_empty = (Inr D, d', fx) \<and> \<not> d_duplicate D"
proof -
  obtain doc where doc: "Render sample_env ''customer-receipt'' ''{}'' ''CP858'' 32
      \<lparr>ro_reprint = False, ro_run_number = 0, ro_accepted_at = 10\<rparr> = Inr doc"
    using sample_render by blast
  have g: "GetJobByIdentity a b sample_empty = Inl ErrNotFound" for a b
    by (simp add: GetJobByIdentity_def sample_empty_def)
  define job where "job = accepted_job sample_request ''job_9'' ''{}'' ''c'' 10"
  have t: "accept_target sample_service sample_dir job (\<lambda>_. Some ''run_9'') ([], []) (0, ''bar'') =
    Inr ([sample_target\<lparr>t_job_uid := ''job_9''\<rparr>], [fresh_run ''run_9'' ''job_9'' ''bar'' 1 TriggerInitial ContentNormal ''c'' 10])"
    using doc by (simp add: accept_target_def sample_dir_def sample_service_def hashBytes_def newID_def
        job_def accepted_job_def Let_def sample_request_def sample_printer_def sample_target_def)
  have i: "\<exists>d'. InsertJob job [sample_target\<lparr>t_job_uid := ''job_9''\<rparr>]
      [fresh_run ''run_9'' ''job_9'' ''bar'' 1 TriggerInitial ContentNormal ''c'' 10] sample_empty = Inr d'"
    by (simp add: InsertJob_def insert_job_def insert_target_def insert_run_def sample_empty_def sample_rows Let_def
      target_key_def run_check_def runs_unique_def run_fk_def run_target_def names_run_def active_status_def
      job_def accepted_job_def)
  then show ?thesis
    using t by (auto simp: sample_accept_def Accept_def sample_inputs g sample_checks newID_def job_def [symmetric]
        sample_request_def [THEN arg_cong [where f = cr_printer_ids]])
qed

section \<open>Acceptance\<close>

definition accepted_completely ::
    "service_env \<Rightarrow> string list \<Rightarrow> job_detail \<Rightarrow> db \<Rightarrow> effect list \<Rightarrow> bool" where
  "accepted_completely env ids D d' fx \<longleftrightarrow>
     (let u = j_uid (d_job D); runs = runsWhere (\<lambda>r. r_job_uid r = u) d' in
      map t_printer_id (targetsFor u d') = ids \<and> map r_printer_id runs = ids \<and>
      (\<forall>r \<in> set runs. r_status r = RunQueued \<and> r_trigger r = TriggerInitial \<and> r_run_number r = 1 \<and>
         (\<exists>t \<in> set (targetsFor u d'). t_printer_id t = r_printer_id r \<and>
            (\<forall>clock k. ExpectedContentHash (at_clock clock env) (d_job D) t ContentNormal k =
                         Inr (r_expected_content_hash r)))) \<and>
      (\<forall>p \<in> set ids. WakePrinter p \<in> set fx))"

lemma built_target:
  assumes "accept_built env job 0 ids targets runs" "map unnumbered rows = map unnumbered runs" "r \<in> set rows"
    "\<not> is_zero_time (j_created_at job)"
  shows "r_status r = RunQueued \<and> r_trigger r = TriggerInitial \<and> r_run_number r = 1 \<and>
    (\<exists>t \<in> set targets. t_printer_id t = r_printer_id r \<and>
       (\<forall>clock k. ExpectedContentHash (at_clock clock env) job t ContentNormal k = Inr (r_expected_content_hash r)))"
proof -
  note b = assms(1) [unfolded accept_built_def]
  from assms(3) obtain i where i: "i < length rows" "r = rows ! i" by (metis in_set_conv_nth)
  have l: "length rows = length runs" "length runs = length targets"
    using assms(2) b by (metis length_map)+
  have e: "unnumbered r = unnumbered (runs ! i)" using assms(2) i l by (metis nth_map)
  then have same: "run_target r = run_target (runs ! i)" "r_status r = r_status (runs ! i)"
    "r_trigger r = r_trigger (runs ! i)" "r_run_number r = r_run_number (runs ! i)"
    "r_expected_content_hash r = r_expected_content_hash (runs ! i)"
    by (metis unnumbered_fields)+
  have "run_target (runs ! i) = target_key (targets ! i)"
    "r_expected_content_hash (runs ! i) = t_accepted_content_hash (targets ! i)"
    using b i l by (metis nth_map)+
  moreover have "runs ! i \<in> set runs" "targets ! i \<in> set targets" using i l by simp_all
  ultimately show ?thesis
    using b same assms(4) by (intro conjI bexI [of _ "targets ! i"])
      (auto simp: ExpectedContentHash_def renderHash_clock run_target_def target_key_def)
qed

text \<open>C9: A newly accepted Job is complete: the database holds the printers of the request in its order, one
  queued first run for each of them and no other, every printer is woken, and the hash stored with
  each run is the one the worker will compute, whenever it renders the Job again.\<close>

theorem accepted_job_is_complete:
  assumes "Accept env dir req now fresh_job fresh_runs other d = (Inr D, d', fx)" "\<not> d_duplicate D"
    "db_ok (other d)" "\<not> is_zero_time now"
  shows "accepted_completely env (cr_printer_ids req) D d' fx"
proof -
  from assms(1) obtain canonical ids hash where "inserted env req canonical hash now (other d) d' D fx"
    by (rule Accept_Inr) (use assms(2) in \<open>auto simp: found_def\<close>)
  then obtain uid targets runs job where job: "job = accepted_job req uid canonical hash now"
    and ins: "InsertJob job targets runs (other d) = Inr d'" and D: "D = DeriveJob job targets runs"
    and built: "accept_built env job 0 (cr_printer_ids req) targets runs"
    and fx: "fx = JobAccepted (cr_job_id req) uid # concat (map publishQueued runs)"
    by (auto simp: inserted_def Let_def)
  note st = inserted_state [OF ins built db_ok_schema [OF assms(3)]]
  let ?rows = "runsWhere (\<lambda>r. r_job_uid r = j_uid job) d'"
  have p: "map r_printer_id runs = cr_printer_ids req"
  proof -
    have "map (snd \<circ> run_target) runs = map (snd \<circ> target_key) targets"
      using built unfolding accept_built_def by (metis map_map)
    then show ?thesis using built by (simp add: accept_built_def comp_def run_target_def target_key_def)
  qed
  have "map r_printer_id ?rows = map r_printer_id runs"
    using arg_cong [OF conjunct1 [OF conjunct2 [OF st]], of "map r_printer_id"] by (simp add: comp_def)
  moreover have "\<forall>q \<in> set (cr_printer_ids req). WakePrinter q \<in> set fx"
    unfolding p [symmetric] fx by (auto simp: publishQueued_def)
  moreover have "\<not> is_zero_time (j_created_at job)" using assms(4) by (simp add: job accepted_job_fields)
  ultimately show ?thesis
    using st built built_target [OF built conjunct1 [OF conjunct2 [OF st]]] p
    by (simp add: accepted_completely_def Let_def D accept_built_def)
qed

theorem accepted_job_is_complete_witness:
  "\<exists>D d' fx. sample_accept 10 (\<lambda>d. d) sample_empty = (Inr D, d', fx) \<and>
     accepted_completely sample_service [''bar''] D d' fx"
proof -
  obtain D d' fx where a: "sample_accept 10 (\<lambda>d. d) sample_empty = (Inr D, d', fx)" "\<not> d_duplicate D"
    using sample_accepted by blast
  have "accepted_completely sample_service (cr_printer_ids sample_request) D d' fx"
    by (rule accepted_job_is_complete [OF a(1) [unfolded sample_accept_def] a(2)])
      (simp_all add: sample_empty_ok is_zero_time_def)
  with a show ?thesis by (auto simp: sample_request_def)
qed

text \<open>C10: Resubmission is idempotent. Once Accept has answered with a Job, a request with the same jobId,
  template and canonical data for the same printers in any order, from the same owner or from the
  agent itself, answers with that Job marked as a duplicate and changes nothing, at any later time at
  which the Job is still stored and whatever the printers, templates or the clock have become.\<close>

theorem resubmission_returns_the_same_job:
  assumes "Accept env dir req now fresh_job fresh_runs other d = (Inr D, d', fx)" "db_ok d" "db_ok (other d)"
    and "db_ok d2" "j \<in> set (db_jobs d2)" "j\<lparr>j_expires_at := 0\<rparr> = (d_job D)\<lparr>j_expires_at := 0\<rparr>"
    and "cr_job_id again = cr_job_id req" "cr_template again = cr_template req"
    and "canonicalJSON env (cr_data again) = canonicalJSON env (cr_data req)"
    and "cr_data again \<noteq> []" "length (cr_data again) \<le> maxPayloadBytes"
    and "mset (cr_printer_ids again) = mset (cr_printer_ids req)"
    and "cr_owner again = cr_owner req \<or> cr_owner again = ''local''"
  shows "\<exists>D2. Accept env dir2 again now2 fresh_job2 fresh_runs2 other2 d2 = (Inr D2, d2, []) \<and>
    d_duplicate D2 \<and> j_uid (d_job D2) = j_uid (d_job D)"
proof -
  from Accept_job [OF assms(1-3)] obtain canonical ids hash where
    i: "accept_inputs env req = Inr (canonical, ids, hash)" and id: "job_identity (d_job D) = identity_of req"
    and h: "j_request_hash (d_job D) = hash"
    and own: "or_default [] ''local'' (cr_owner req) = ''local'' \<or> j_owner_origin (d_job D) = or_default [] ''local'' (cr_owner req)"
    by blast
  have "accept_inputs env again = Inr (canonical, ids, hash)"
    using i assms(7-12) canonicalPrinterIDs_perm [OF assms(12) [symmetric]] by (simp add: accept_inputs_iff)
  moreover have j: "job_identity j = job_identity (d_job D)" "j_request_hash j = j_request_hash (d_job D)"
    "j_owner_origin j = j_owner_origin (d_job D)" "j_uid j = j_uid (d_job D)"
    using assms(6) by (auto simp: job_identity_def dest: arg_cong [where f = j_job_id]
        arg_cong [where f = j_template] arg_cong [where f = j_request_hash]
        arg_cong [where f = j_owner_origin] arg_cong [where f = j_uid])
  moreover have "GetJobByIdentity (cr_job_id again) (cr_template again) d2 = Inr j"
    using assms(4,5,7,8) id j(1) by (simp add: GetJobByIdentity_iff db_ok_schema identity_of_def)
  moreover obtain E where "GetDetail (j_uid j) d2 = Inr E" "d_job E = j"
    using GetDetail_in [OF db_ok_schema [OF assms(4)] assms(5)] by blast
  ultimately show ?thesis
    using h own assms(13) by (auto simp: Accept_def Let_def duplicateResult_def or_default_def)
qed

theorem resubmission_returns_the_same_job_witness:
  "\<exists>D d' fx D2. sample_accept 10 (\<lambda>d. d) sample_empty = (Inr D, d', fx) \<and>
     sample_accept 99 (\<lambda>d. d) d' = (Inr D2, d', []) \<and> d_duplicate D2"
proof -
  obtain D d' fx where a: "sample_accept 10 (\<lambda>d. d) sample_empty = (Inr D, d', fx)" "\<not> d_duplicate D"
    using sample_accepted by blast
  note acc = a(1) [unfolded sample_accept_def]
  from acc obtain canonical ids hash where "inserted sample_service sample_request canonical hash 10 sample_empty d' D fx"
    by (rule Accept_Inr) (use a(2) in \<open>auto simp: found_def\<close>)
  then obtain job targets runs where ins: "InsertJob job targets runs sample_empty = Inr d'" "D = DeriveJob job targets runs"
    and b: "accept_built sample_service job 0 (cr_printer_ids sample_request) targets runs"
    by (auto simp: inserted_def Let_def)
  have ok: "db_ok d'" using InsertJob_keeps [OF ins(1) accept_built_shape [OF b] sample_empty_ok] .
  have jobin: "d_job D \<in> set (db_jobs d')"
    using inserted_state [OF ins(1) b db_ok_schema [OF sample_empty_ok]] ins(2) by simp
  have "\<exists>D2. Accept sample_service sample_dir sample_request 99 (Some ''job_9'') (\<lambda>_. Some ''run_9'') (\<lambda>d. d) d' = (Inr D2, d', []) \<and>
    d_duplicate D2 \<and> j_uid (d_job D2) = j_uid (d_job D)"
    by (rule resubmission_returns_the_same_job [OF acc sample_empty_ok sample_empty_ok ok jobin])
      (simp_all add: sample_request_def maxPayloadBytes_def)
  with a show ?thesis by (auto simp: sample_accept_def)
qed

text \<open>C11: An identity is used once: a request that names the jobId and template of a stored Job with other
  data or printers (another hash), or from another owner, is refused with idempotency_conflict, changes
  nothing and publishes nothing, before the template, the data or the printers are looked at.\<close>

theorem reused_identity_is_refused:
  assumes "accept_inputs env req = Inr (canonical, ids, hash)" "db_ok d"
    and "j \<in> set (db_jobs d)" "j_job_id j = cr_job_id req" "j_template j = cr_template req"
    and "j_request_hash j \<noteq> hash \<or> (cr_owner req \<notin> {[], ''local''} \<and> j_owner_origin j \<noteq> cr_owner req)"
  shows "Accept env dir req now fresh_job fresh_runs other d = (Inl (Conflict idempotency_conflict), d, [])"
proof -
  have "GetJobByIdentity (cr_job_id req) (cr_template req) d = Inr j"
    using assms(2-5) by (simp add: GetJobByIdentity_iff db_ok_schema job_identity_def)
  with assms(1,6) show ?thesis by (auto simp: Accept_def Let_def duplicateResult_def or_default_def)
qed

theorem reused_identity_is_refused_witness:
  "Accept sample_service sample_dir (sample_request\<lparr>cr_template := ''customer-receipt''\<rparr>) 5 None (\<lambda>_. None) (\<lambda>d. d)
     (sample_queued\<lparr>db_jobs := [sample_job\<lparr>j_template := ''customer-receipt''\<rparr>]\<rparr>) =
     (Inl (Conflict idempotency_conflict), sample_queued\<lparr>db_jobs := [sample_job\<lparr>j_template := ''customer-receipt''\<rparr>]\<rparr>, [])"
proof (rule reused_identity_is_refused [where j = "sample_job\<lparr>j_template := ''customer-receipt''\<rparr>"])
  show "accept_inputs sample_service (sample_request\<lparr>cr_template := ''customer-receipt''\<rparr>) = Inr (''{}'', [''bar''], ''c'')"
    using sample_inputs by (simp add: sample_request_def)
  show "db_ok (sample_queued\<lparr>db_jobs := [sample_job\<lparr>j_template := ''customer-receipt''\<rparr>]\<rparr>)"
    using sample_queued_ok by (simp add: db_ok_def schema_ok_def schema_defs lineage_ok_def initial_ok_def child_ok_def
        retry_source_def sample_dbs sample_rows)
qed (simp_all add: sample_request_def sample_job_def)

text \<open>Two requests for one identity that arrive together: if another goroutine commits the identity
  after this one looked it up, the unique index refuses the second Job and the caller gets the answer it
  would have got by coming later. Nothing of the losing Job is stored or printed.\<close>

theorem concurrent_submission_is_answered_as_a_duplicate:
  assumes "Accept env dir req now fresh_job fresh_runs (\<lambda>d. d) d = (Inr D, d', fx)" "\<not> d_duplicate D"
    and "db_ok (other d)" "j \<in> set (db_jobs (other d))" "j_job_id j = cr_job_id req" "j_template j = cr_template req"
    and "GetJobByIdentity (cr_job_id req) (cr_template req) d = Inl e"
  shows "Accept env dir req now fresh_job fresh_runs other d =
    Accept env dir req now2 fresh_job2 fresh_runs2 other2 (other d)"
proof -
  from assms(1) obtain canonical ids hash where i: "accept_inputs env req = Inr (canonical, ids, hash)"
    by (rule Accept_Inr)
  have g: "GetJobByIdentity (cr_job_id req) (cr_template req) (other d) = Inr j"
    using assms(3-6) by (simp add: GetJobByIdentity_iff db_ok_schema job_identity_def)
  obtain job targets runs where p: "sum_bind (accept_checks env dir req canonical ids) (\<lambda>_.
        sum_bind (map_err Repo (newID fresh_job)) (\<lambda>uid.
        let job = accepted_job req uid canonical hash now in
        sum_bind (fold_sum (accept_target env dir job fresh_runs) ([], []) (enumerate 0 (cr_printer_ids req)))
          (\<lambda>(targets, runs). Inr (job, targets, runs)))) = Inr (job, targets, runs)"
    using assms(1,7) i unfolding Accept_def Let_def by (auto split: sum.split_asm)
  have "j_job_id job = cr_job_id req" "j_template job = cr_template req"
    using accept_prepared [OF p] by (auto simp: accepted_job_def Let_def)
  then have "InsertJob job targets runs (other d) = Inl (ErrDB UniqueViolation)"
    using assms(4-6) by (auto simp: InsertJob_def insert_job_def)
  with assms(7) i g p show ?thesis by (simp add: Accept_def Let_def isUniqueViolation_def)
qed

theorem concurrent_submission_is_answered_as_a_duplicate_witness:
  "sample_accept 10 (\<lambda>_. sample_queued\<lparr>db_jobs := [sample_job\<lparr>j_template := ''customer-receipt''\<rparr>]\<rparr>) sample_empty =
   sample_accept 20 (\<lambda>d. d) (sample_queued\<lparr>db_jobs := [sample_job\<lparr>j_template := ''customer-receipt''\<rparr>]\<rparr>)"
proof -
  obtain D d' fx where a: "sample_accept 10 (\<lambda>d. d) sample_empty = (Inr D, d', fx)" "\<not> d_duplicate D"
    using sample_accepted by blast
  have ok: "db_ok (sample_queued\<lparr>db_jobs := [sample_job\<lparr>j_template := ''customer-receipt''\<rparr>]\<rparr>)"
    using sample_queued_ok by (simp add: db_ok_def schema_ok_def schema_defs lineage_ok_def initial_ok_def child_ok_def
        retry_source_def sample_dbs sample_rows)
  show ?thesis unfolding sample_accept_def
    by (rule concurrent_submission_is_answered_as_a_duplicate [OF a(1) [unfolded sample_accept_def] a(2) ok,
          where j = "sample_job\<lparr>j_template := ''customer-receipt''\<rparr>"])
      (simp_all add: sample_request_def sample_job_def GetJobByIdentity_def sample_empty_def)
qed

section \<open>Owners\<close>

text \<open>C13: A web origin sees only its own Jobs: for another origin Get, the run of a Job and a reprint request
  answer exactly as for a Job that does not exist, change nothing, and the list leaves the Job out.\<close>

theorem foreign_jobs_are_invisible:
  assumes "db_ok d" "j \<in> set (db_jobs d)" "owner \<notin> {[], ''local''}" "j_owner_origin j \<noteq> owner"
    and "r \<in> set (db_runs d)" "r_job_uid r = j_uid j"
    and "rq_request_id rq \<noteq> []" "length (rq_request_id rq) \<le> 250" "length (rq_reason rq) \<le> 500"
    and "canonicalPrinterIDs (rq_printer_ids rq) = Inr ids"
  shows "Get (j_uid j) owner d = Inl (Repo ErrNotFound) \<and> service_GetRun (r_uid r) owner d = Inl (Repo ErrNotFound) \<and>
    Reprint env dir (j_uid j) rq owner now fresh other d = (Inl (Repo ErrNotFound), d, []) \<and>
    j \<notin> set (list_jobs jobID templ attention owner limit before beforeUID d)"
proof -
  have sees: "\<not> owner_sees owner j" using assms(3,4) by (simp add: owner_sees_def)
  have job: "GetJob (j_uid j) d = Inr j"
    using find_job_in [OF db_ok_schema [OF assms(1)] assms(2)] by (simp add: GetJob_def)
  obtain D where "GetDetail (j_uid j) d = Inr D" "d_job D = j"
    using GetDetail_in [OF db_ok_schema [OF assms(1)] assms(2)] by blast
  then have "Get (j_uid j) owner d = Inl (Repo ErrNotFound)" using sees by (simp add: Get_def)
  moreover have "GetRun (r_uid r) d = Inr r" using assms(1,5) by (simp add: GetRun_def find_run_iff)
  then have "service_GetRun (r_uid r) owner d = Inl (Repo ErrNotFound)"
    using sees job assms(6) by (simp add: service_GetRun_def)
  moreover have "Reprint env dir (j_uid j) rq owner now fresh other d = (Inl (Repo ErrNotFound), d, [])"
    using sees job assms(7-10) by (simp add: Reprint_def guard_err_def)
  moreover have "j \<notin> set (list_jobs jobID templ attention owner limit before beforeUID d)"
    using assms(3,4) unfolding list_jobs_def Let_def by (auto dest!: in_set_takeD)
  ultimately show ?thesis by simp
qed

theorem foreign_jobs_are_invisible_witness:
  "Get ''job_1'' ''https://other'' sample_queued = Inl (Repo ErrNotFound) \<and>
   service_GetRun ''run_1'' ''https://other'' sample_queued = Inl (Repo ErrNotFound) \<and>
   sample_job \<notin> set (list_jobs [] [] [] ''https://other'' 50 None [] sample_queued)"
  using foreign_jobs_are_invisible [OF sample_queued_ok, of sample_job "''https://other''" sample_run
      "\<lparr>rq_request_id = ''q'', rq_printer_ids = [''bar''], rq_reason = []\<rparr>" "[''bar'']"
      sample_service sample_dir 1 "\<lambda>_. None" "\<lambda>d. d" "[]" "[]" "[]" 50 None "[]"]
  by (simp add: sample_queued_def sample_rows canonicalPrinterIDs_iff maxPrinters_def)

section \<open>Reprints\<close>

lemma Reprint_Inr:
  assumes "Reprint env dir u rq owner now fresh other d = (Inr R, d', fx)"
  obtains ids j where "rq_request_id rq \<noteq> []" "length (rq_request_id rq) \<le> 250" "length (rq_reason rq) \<le> 500"
    "canonicalPrinterIDs (rq_printer_ids rq) = Inr ids" "GetJob u d = Inr j" "owner_sees owner j"
    "(d' = d \<or> d' = other d) \<and> (\<exists>row. GetDeduplication ''manual_reprint'' u (rq_request_id rq) d' = Inr row \<and>
        dd_request_hash row = reprintRequestHash env rq ids) \<and> rr_print_runs R = RunsForReprintRequest u (rq_request_id rq) d' \<or>
     InsertManualReprints u (rq_request_id rq) (reprintRequestHash env rq ids) (rq_reason rq) ids now fresh
       (reprint_render_of env) (other d) = Inr (rr_print_runs R, d')"
proof -
  obtain ids j where c: "rq_request_id rq \<noteq> []" "length (rq_request_id rq) \<le> 250" "length (rq_reason rq) \<le> 500"
    "canonicalPrinterIDs (rq_printer_ids rq) = Inr ids" "GetJob u d = Inr j" "owner_sees owner j"
    using assms by (auto simp: Reprint_def elim!: sum_bindE split: sum.split_asm if_split_asm)
  let ?hash = "reprintRequestHash env rq ids"
  have dup: "dd_request_hash row = ?hash \<and> rr_print_runs R = RunsForReprintRequest u (rq_request_id rq) e"
    if "reprintDuplicate u (rq_request_id rq) ?hash row e = Inr R" for row e
    using that by (auto simp: reprintDuplicate_def split: if_split_asm)
  show ?thesis
  proof (cases "GetDeduplication ''manual_reprint'' u (rq_request_id rq) d")
    case (Inr row)
    with assms c have "d' = d" "reprintDuplicate u (rq_request_id rq) ?hash row d = Inr R"
      by (auto simp: Reprint_def guard_err_def Let_def)
    with dup Inr show ?thesis by (intro that [OF c]) blast
  next
    case (Inl e0)
    show ?thesis
    proof (cases "InsertManualReprints u (rq_request_id rq) ?hash (rq_reason rq) ids now fresh (reprint_render_of env) (other d)")
      case i: (Inr x)
      then have "x = (rr_print_runs R, d')" using assms c Inl
        by (cases x) (auto simp: Reprint_def guard_err_def Let_def split: sum.split_asm)
      with i show ?thesis by (intro that [OF c]) simp
    next
      case i: (Inl e)
      have "e = ErrDuplicateRequest \<and> d' = other d \<and>
          (\<exists>row. GetDeduplication ''manual_reprint'' u (rq_request_id rq) (other d) = Inr row \<and>
             reprintDuplicate u (rq_request_id rq) ?hash row (other d) = Inr R)"
        using assms c Inl i
        by (auto simp: Reprint_def guard_err_def Let_def elim!: sum_bindE split: sum.split_asm if_split_asm)
      with dup show ?thesis by (intro that [OF c]) blast
    qed
  qed
qed

lemma Reprint_again:
  assumes "rq_request_id rq \<noteq> []" "length (rq_request_id rq) \<le> 250" "length (rq_reason rq) \<le> 500"
    "canonicalPrinterIDs (rq_printer_ids rq) = Inr ids" "GetJob u d = Inr j" "owner_sees owner j"
    "GetDeduplication ''manual_reprint'' u (rq_request_id rq) d = Inr row" "dd_request_hash row = reprintRequestHash env rq ids"
  shows "Reprint env dir u rq owner now fresh other d =
    (Inr \<lparr>rr_job_uid = u, rr_request_id = rq_request_id rq, rr_duplicate = True,
          rr_print_runs = RunsForReprintRequest u (rq_request_id rq) d\<rparr>, d, [])"
  using assms by (simp add: Reprint_def guard_err_def Let_def reprintDuplicate_def)

lemma dedup_job:
  assumes "schema_ok d" "GetDeduplication k u q d = Inr row" shows "\<exists>j \<in> set (db_jobs d). j_uid j = u"
  using assms find_SomeD by (fastforce simp: GetDeduplication_def schema_ok_def dedup_ok_def)

lemma GetJob_in: "schema_ok d \<Longrightarrow> j \<in> set (db_jobs d) \<Longrightarrow> GetJob (j_uid j) d = Inr j"
  by (simp add: GetJob_def find_job_in)


definition sample_printed :: db where
  "sample_printed = sample_uncertain\<lparr>db_jobs := [sample_job\<lparr>j_template := ''customer-receipt''\<rparr>]\<rparr>"

definition sample_reprint_request :: reprint_request where
  "sample_reprint_request = \<lparr>rq_request_id = ''again-1'', rq_printer_ids = [''bar''], rq_reason = ''torn''\<rparr>"

lemma sample_printed_ok: "db_ok sample_printed"
  using sample_uncertain_ok
  by (simp add: sample_printed_def db_ok_def schema_ok_def schema_defs lineage_ok_def initial_ok_def child_ok_def
      retry_source_def sample_dbs sample_rows)

lemma sample_reprint_render:
  "reprint_render_of sample_service (sample_job\<lparr>j_template := ''customer-receipt''\<rparr>) sample_target n = Inr ''c''"
proof -
  have "\<exists>doc. Render sample_env ''customer-receipt'' (j_data (sample_job\<lparr>j_template := ''customer-receipt''\<rparr>))
      (t_encoding sample_target) (t_characters_per_line sample_target) opts = Inr doc" for opts
    using sample_render by (simp add: sample_job_def sample_target_def)
  then obtain f where "\<And>opts. Render sample_env ''customer-receipt'' (j_data (sample_job\<lparr>j_template := ''customer-receipt''\<rparr>))
      (t_encoding sample_target) (t_characters_per_line sample_target) opts = Inr (f opts)" by metis
  then show ?thesis
    by (simp add: reprint_render_of_def renderHash_def Let_def sample_service_def hashBytes_def)
      (simp add: sample_target_def)
qed

lemma sample_reprinted:
  "\<exists>R d' fx. Reprint sample_service sample_dir ''job_1'' sample_reprint_request ''local'' 60 (\<lambda>_. Some ''run_2'') (\<lambda>d. d)
     sample_printed = (Inr R, d', fx)"
proof -
  have "\<exists>created d'. InsertManualReprints ''job_1'' ''again-1'' ''c'' ''torn'' [''bar''] 60 (\<lambda>_. Some ''run_2'')
      (reprint_render_of sample_service) sample_printed = Inr (created, d')"
    by (simp add: InsertManualReprints_def insert_dedup_def GetJob_def find_job_def reprint_target_def
      GetTarget_def find_target_def active_count_def runsWhere_def newID_def insert_run_def update_cancellation_def
      update_runs_def next_run_number_def sample_printed_def sample_dbs sample_rows Let_def guard_err_def nullable_def
      run_update_allowed_def run_identity_def status_edge_def run_check_def runs_unique_def run_fk_def names_run_def
      run_target_def target_key_def active_status_def sample_reprint_render [simplified sample_rows, simplified])
  then obtain created d' where r: "InsertManualReprints ''job_1'' ''again-1'' ''c'' ''torn'' [''bar''] 60 (\<lambda>_. Some ''run_2'')
      (reprint_render_of sample_service) sample_printed = Inr (created, d')" by blast
  have "GetJob ''job_1'' sample_printed = Inr (sample_job\<lparr>j_template := ''customer-receipt''\<rparr>)"
    "GetDeduplication ''manual_reprint'' ''job_1'' ''again-1'' sample_printed = Inl ErrNotFound"
    by (simp_all add: GetJob_def find_job_def GetDeduplication_def sample_printed_def sample_dbs sample_job_def)
  with r show ?thesis
    by (simp add: Reprint_def sample_reprint_request_def canonicalPrinterIDs_def check_id_def guard_err_def
        maxPrinters_def reprintRequestHash_def hashBytes_def sample_service_def sample_dir_def Let_def owner_sees_def)
qed


section \<open>The service and the history\<close>

text \<open>What a call of the service can do to the database, between the steps of everyone else.\<close>

inductive service_step :: "db \<Rightarrow> db \<Rightarrow> bool" where
  by_accept: "Accept env dir req now fresh_job fresh_runs other d = (res, d', fx) \<Longrightarrow> repo_step\<^sup>*\<^sup>* d (other d) \<Longrightarrow> service_step d d'"
| by_reprint: "Reprint env dir u rq owner now fresh other d = (res1, d', fx) \<Longrightarrow> repo_step\<^sup>*\<^sup>* d (other d) \<Longrightarrow> service_step d d'"
| by_confirm: "ConfirmPrinted uid now d = (res2, d', fx) \<Longrightarrow> service_step d d'"
| by_cancel_run: "service_CancelRun uid now l d = (res2, d', fx) \<Longrightarrow> service_step d d'"
| by_cancel_targets: "CancelJobTargets u ps reason now d = (res2, d') \<Longrightarrow> service_step d d'"
| by_others: "repo_step d d' \<Longrightarrow> service_step d d'"

lemma Accept_steps:
  assumes "Accept env dir req now fresh_job fresh_runs other d = (res, d', fx)" "repo_step\<^sup>*\<^sup>* d (other d)"
  shows "repo_step\<^sup>*\<^sup>* d d'"
proof (cases res)
  case (Inl e)
  with assms Accept_Inl [of env dir req now fresh_job fresh_runs other d e d' fx] show ?thesis by auto
next
  case (Inr D)
  from assms(1) [unfolded Inr] show ?thesis
  proof (rule Accept_Inr)
    fix canonical ids hash
    assume c: "(d' = d \<and> fx = [] \<and> found req hash d D) \<or> (d' = other d \<and> fx = [] \<and> found req hash (other d) D) \<or>
      inserted env req canonical hash now (other d) d' D fx"
    have "repo_step (other d) d'" if "inserted env req canonical hash now (other d) d' D fx"
      using that by (auto simp: inserted_def Let_def intro: step_accept accept_built_shape)
    with c assms(2) show ?thesis by (auto intro: rtranclp.rtrancl_into_rtrancl)
  qed
qed

lemma Reprint_steps:
  assumes "Reprint env dir u rq owner now fresh other d = (res, d', fx)" "repo_step\<^sup>*\<^sup>* d (other d)"
  shows "repo_step\<^sup>*\<^sup>* d d'"
proof -
  have "d' = d \<or> d' = other d \<or> (\<exists>q h r ps g. \<exists>runs. InsertManualReprints u q h r ps now fresh g (other d) = Inr (runs, d'))"
    using assms(1) unfolding Reprint_def Let_def by (auto split: sum.split_asm prod.split_asm if_split_asm)
  with assms(2) show ?thesis by (metis rtranclp.simps step_reprint)
qed

lemma service_step_repo: "service_step d d' \<Longrightarrow> repo_step\<^sup>*\<^sup>* d d'"
proof (induction rule: service_step.induct)
  case (by_confirm uid now d res2 d' fx)
  then show ?case by (auto simp: ConfirmPrinted_def split: sum.split_asm intro: step_resolve)
next
  case (by_cancel_run uid now l d res2 d' fx)
  then show ?case by (auto simp: service_CancelRun_def split: sum.split_asm intro: step_cancel)
next
  case (by_cancel_targets u ps reason now d res2 d')
  then show ?case by (auto simp: CancelJobTargets_def split: sum.split_asm intro: step_cancel_targets)
qed (auto intro: Accept_steps Reprint_steps)



end
