(* ===== verification/WorkerProperties.thy ===== *)
theory WorkerProperties
  imports WorkerCorrect ServiceProperties
begin

text \<open>The properties of the worker on the transports of the program.\<close>

section \<open>A worker to instantiate them in\<close>

definition sample_mock :: mock where
  "sample_mock = (NewMock ''mock'')\<lparr>mk_connected := True\<rparr>"

definition sample_worker_env :: "conn worker_env" where
  "sample_worker_env = \<lparr>wv_service = sample_service, wv_factory = (\<lambda>cfg. Mock (NewMock (pc_endpoint cfg))),
     wv_open = (\<lambda>c. (None, c)), wv_send = conn_send, wv_endpoint = (\<lambda>_. ''mock''),
     wv_render_text = (\<lambda>_. ''render''), wv_content_text = (\<lambda>_. ''content''), wv_write_text = (\<lambda>_. ''not sent'')\<rparr>"

definition sample_worker :: "conn worker" where
  "sample_worker = (newWorker sample_printer)\<lparr>wk_tr := Some (Mock sample_mock), wk_active_cfg := Some sample_printer,
     wk_state := StateConnected\<rparr>"

definition sample_driver :: driver where
  "sample_driver = \<lparr>dr_link_state = None, dr_verify = (\<lambda>_. VerifyOK), dr_ensure = (\<lambda>_. Inl ''no'')\<rparr>"

definition sample_printing :: db where
  "sample_printing = sample_processing\<lparr>db_jobs := [sample_job\<lparr>j_template := ''customer-receipt''\<rparr>]\<rparr>"

definition steady :: "nat \<Rightarrow> attempt" where
  "steady k = \<lparr>at_fault = (if k = 0 then CommitLost ''disk full'' else NoFault), at_other = (\<lambda>d. d), at_now = 50, at_later = 51\<rparr>"

lemma sample_printing_ok: "db_ok sample_printing"
  using sample_processing_ok
  by (simp add: sample_printing_def db_ok_def schema_ok_def schema_defs lineage_ok_def initial_ok_def child_ok_def
      retry_source_def sample_dbs sample_rows)

section \<open>Outcomes\<close>


lemma sample_decides:
  "\<exists>n. decide sample_worker_env sample_driver True True 9 (claimed 30 sample_run) sample_printing sample_worker = Some n \<and>
     outcome_status (dn_outcome n) = RunTransmitted"
proof -
  obtain doc where doc: "render_run sample_service (sample_job\<lparr>j_template := ''customer-receipt''\<rparr>) sample_target
      (claimed 30 sample_run) = Inr doc"
    using sample_render by (fastforce simp: render_run_def sample_service_def sample_rows)
  have hash: "ExpectedContentHash sample_service (sample_job\<lparr>j_template := ''customer-receipt''\<rparr>) sample_target
      (r_content_mode (claimed 30 sample_run)) (r_run_number (claimed 30 sample_run)) = Inr ''c''"
  proof -
    obtain doc2 where "Render sample_env ''customer-receipt'' ''{}'' ''CP858'' 32
        \<lparr>ro_reprint = False, ro_run_number = 0, ro_accepted_at = 10\<rparr> = Inr doc2" using sample_render by blast
    then show ?thesis
      by (simp add: ExpectedContentHash_def renderHash_def sample_service_def hashBytes_def sample_rows)
  qed
  have reads: "GetJob (r_job_uid (claimed 30 sample_run)) sample_printing = Inr (sample_job\<lparr>j_template := ''customer-receipt''\<rparr>)"
    "GetTarget (r_job_uid (claimed 30 sample_run)) (r_printer_id (claimed 30 sample_run)) sample_printing = Inr sample_target"
    by (simp_all add: GetJob_def find_job_def GetTarget_def find_target_def sample_printing_def sample_dbs sample_rows)
  have "r_expected_content_hash (claimed 30 sample_run) = ''c''" "ContentHash sample_service doc = ''c''"
    by (simp_all add: sample_rows ContentHash_def hashBytes_def sample_service_def)
  with doc hash reads show ?thesis
    by (simp add: decide_def Let_def sample_worker_env_def sample_worker_def newWorker_def setState_def
        conn_send_def mock_send_def mock_Write_def sample_mock_def NewMock_def link_up_def linkState_def
        connectionConfig_def sample_printer_def TransportMock_def outcome_status_def)
qed


end
