(* ===== verification/RepositoryProperties.thy ===== *)
theory RepositoryProperties
  imports Samples
begin

text \<open>
  The properties of the Job repository. A history is any sequence of committed operations,
  \<open>repo_step\<close>, from a database that satisfies the invariant \<open>db_ok\<close>, which the
  empty database does.
\<close>

section \<open>Every history\<close>

text \<open>C3: Every committed operation of the repository keeps the invariant of the database: the schema's
  uniqueness, check and foreign key constraints, an initial run for every accepted target, and
  the lineage of retries.\<close>

theorem history_keeps_invariant:
  assumes "repo_step\<^sup>*\<^sup>* d d'" "db_ok d"
  shows "db_ok d'"
  using assms by (rule repo_steps_keep)

theorem history_keeps_invariant_witness:
  "db_ok sample_failed \<and> repo_step\<^sup>*\<^sup>* sample_queued sample_failed"
proof -
  have "repo_step\<^sup>*\<^sup>* sample_queued sample_failed"
    using step_claim [OF sample_claim] step_failed [OF sample_fail] by (simp add: converse_rtranclp_into_rtranclp)
  with history_keeps_invariant [OF this sample_queued_ok] show ?thesis by simp
qed

text \<open>C2: No operation rewrites the history of a run: its identity and content never change, its status
  only moves along the edges queued - processing - finished or queued - cancelled, and once it is
  finished its evidence (bytes accepted, error, times) is frozen, its retry flag can only be
  cleared and a resolution is final. A run disappears only with its whole purged Job, and never while
  it is queued or processing.\<close>

theorem run_history_is_immutable:
  assumes "repo_step d d'" "db_ok d" "r \<in> set (db_runs d)"
  shows "(\<exists>s \<in> set (db_runs d'). run_identity s = run_identity r \<and>
      status_path (r_status r) (r_status s) \<and>
      (Terminal (r_status r) \<longrightarrow> run_evidence s = run_evidence r \<and> (r_retryable s \<longrightarrow> r_retryable r) \<and>
         (r_resolution r \<noteq> None \<longrightarrow> r_resolution s = r_resolution r \<and> r_resolved_at s = r_resolved_at r))) \<or>
    (r_job_uid r \<notin> j_uid ` set (db_jobs d') \<and> \<not> active_status (r_status r))"
  using repo_step_run [OF assms] unfolding run_evolves_def purged_def by blast

theorem run_history_is_immutable_witness:
  "\<exists>s \<in> set (db_runs sample_failed). run_identity s = run_identity (claimed 30 sample_run) \<and>
     status_path RunProcessing (r_status s)"
proof -
  have step: "repo_step sample_processing sample_failed" by (rule step_failed [OF sample_fail]) simp
  have run: "claimed 30 sample_run \<in> set (db_runs sample_processing)" by (simp add: sample_dbs)
  show ?thesis
    using run_history_is_immutable [OF step sample_processing_ok run]
    by (auto simp: claimed_def active_status_def)
qed


definition sample_retried :: db where
  "sample_retried = sample_failed\<lparr>db_runs := [sample_failed_run\<lparr>r_retryable := False\<rparr>,
      (retry_run sample_failed_run ''run_2'' 2 ''c'' 50)\<lparr>r_queue_sequence := 2\<rparr>], db_next_seq := 3\<rparr>"

lemma sample_failed_facts:
  shows "sample_failed_run \<in> set (db_runs sample_failed)" "retry_candidate sample_failed_run"
    "retry_chain (db_runs sample_failed) 0 sample_failed_run"
    "retry_depth (db_runs sample_failed) sample_failed_run 0 = Some (Inr 0)"
    "find_job (r_job_uid sample_failed_run) sample_failed = Some (sample_job\<lparr>j_expires_at := 41 + retentionWindow\<rparr>)"
    "find_target (r_job_uid sample_failed_run) (r_printer_id sample_failed_run) sample_failed = Some sample_target"
    "2 = next_run_number (r_job_uid sample_failed_run) (r_printer_id sample_failed_run) sample_failed"
    "active_count (r_job_uid sample_failed_run) (r_printer_id sample_failed_run) sample_failed = 0"
    "r_uid sample_failed_run = ''run_1''" "0 < MaxAutomaticRetries" "t_cancelled_at sample_target = None"
    "\<forall>r \<in> set (db_runs sample_failed). r_uid r \<noteq> ''run_2''"
  by (simp_all add: retry_candidate_def chain_start retry_depth.simps find_job_def find_target_def
      next_run_number_def active_count_def runsWhere_def active_status_def MaxAutomaticRetries_def sample_dbs)
    (simp_all add: sample_rows chain_start)

lemma sample_retry:
  "materializeRetry ''run_1'' (int MaxAutomaticRetries) (\<lambda>_ _ _ _. Inr ''c'') (Some ''run_2'') 50 sample_failed =
     Some (Inr (Some (retry_run sample_failed_run ''run_2'' 2 ''c'' 50), sample_retried))"
proof -
  note f = sample_failed_facts
  let ?row = "(retry_run sample_failed_run ''run_2'' 2 ''c'' 50)\<lparr>r_queue_sequence := db_next_seq sample_failed\<rparr>"
  have "materializeRetry (r_uid sample_failed_run) (int MaxAutomaticRetries) (\<lambda>_ _ _ _. Inr ''c'') (Some ''run_2'') 50
      sample_failed = Some (Inr (Some (retry_run sample_failed_run ''run_2'' 2 ''c'' 50),
        sample_failed\<lparr>db_runs := update_where (\<lambda>r. r_uid r = r_uid sample_failed_run \<and> r_retryable r)
          (\<lambda>r. r\<lparr>r_retryable := False\<rparr>) (db_runs sample_failed @ [?row]), db_next_seq := db_next_seq sample_failed + 1\<rparr>))"
    by (rule retry_made [OF sample_failed_ok f(1-3,10,8,5,6,11,7) _ f(12) refl]) simp
  moreover have "sample_failed\<lparr>db_runs := update_where (\<lambda>r. r_uid r = r_uid sample_failed_run \<and> r_retryable r)
      (\<lambda>r. r\<lparr>r_retryable := False\<rparr>) (db_runs sample_failed @ [?row]), db_next_seq := db_next_seq sample_failed + 1\<rparr>
      = sample_retried"
    by (simp add: sample_retried_def sample_dbs) (simp add: sample_rows retry_run_def)
  ultimately show ?thesis by (simp only: f(9))
qed

lemma sample_retried_reached: "repo_step\<^sup>*\<^sup>* sample_failed sample_retried"
  using step_retry [OF sample_retry] by simp


text \<open>C5: No chain of automatic retries is longer than MaxAutomaticRetries, and the loop in
  materializeRetry that measures a chain ends on every run of every history.\<close>

theorem retry_chains_are_bounded:
  assumes "repo_step\<^sup>*\<^sup>* d0 d" "db_ok d0" "r \<in> set (db_runs d)"
  shows "\<exists>n \<le> MaxAutomaticRetries. retry_depth (db_runs d) r 0 = Some (Inr n)"
  using candidate_depth [OF repo_steps_keep [OF assms(1,2)] assms(3)] by metis

theorem retry_chains_are_bounded_witness:
  "\<exists>n \<le> 3. retry_depth (db_runs sample_retried)
     ((retry_run sample_failed_run ''run_2'' 2 ''c'' 50)\<lparr>r_queue_sequence := 2\<rparr>) 0 = Some (Inr n)"
  using retry_chains_are_bounded [OF sample_retried_reached sample_failed_ok,
      of "(retry_run sample_failed_run ''run_2'' 2 ''c'' 50)\<lparr>r_queue_sequence := 2\<rparr>"]
  by (simp add: sample_retried_def MaxAutomaticRetries_def)

text \<open>At any time an accepted target has at most one run that is queued or processing, so the same
  ticket is never in two queues.\<close>

lemma one_active_run_per_target:
  assumes "repo_step\<^sup>*\<^sup>* d0 d" "db_ok d0" "r \<in> set (db_runs d)" "s \<in> set (db_runs d)"
    "run_target r = run_target s" "active_status (r_status r)" "active_status (r_status s)"
  shows "r = s"
proof -
  have "distinct (map run_target (filter (\<lambda>r. active_status (r_status r)) (db_runs d)))"
    using repo_steps_keep [OF assms(1,2)] by (simp add: db_ok_def schema_ok_def runs_ok_def runs_unique_def)
  then show ?thesis using assms(3-7) 
    by (intro distinct_map_eqD [where k = run_target and xs = "filter (\<lambda>r. active_status (r_status r)) (db_runs d)"]) auto
qed

section \<open>Queues\<close>

text \<open>C6: A claim takes the printer's oldest queued run, in the order in which the runs were accepted,
  marks it processing and touches no other row. It fails only when the printer has no queued run.\<close>

theorem claim_takes_the_oldest:
  assumes "db_ok d"
  shows "(\<exists>r. oldest_queued p d r \<and> ClaimNextQueued p now d = Inr (claimed now r,
        d\<lparr>db_runs := update_where (\<lambda>x. r_uid x = r_uid r) (claimed now) (db_runs d)\<rparr>)) \<or>
     ((\<forall>r \<in> set (db_runs d). \<not> queued_for p r) \<and> ClaimNextQueued p now d = Inl ErrNotFound)"
proof (cases "\<exists>r \<in> set (db_runs d). queued_for p r")
  case True
  then obtain r where "oldest_queued p d r" using oldest_exists by blast
  with claim_oldest [OF assms] show ?thesis by blast
qed (use claim_none in blast)

theorem claim_takes_the_oldest_witness:
  "\<exists>r. oldest_queued ''bar'' sample_queued r \<and> (\<exists>d'. ClaimNextQueued ''bar'' 30 sample_queued = Inr (claimed 30 r, d'))"
  using claim_takes_the_oldest [OF sample_queued_ok, of "''bar''" 30]
  by (auto simp: sample_dbs sample_rows queued_for_def)

text \<open>C7: A failed run that nothing was sent of is retried: when its target is free and not cancelled, the
  content still renders and fewer than MaxAutomaticRetries retries precede it, materializeRetry
  inserts a queued run with the next number, the same content mode and the failed run as its
  predecessor, and clears the retry flag of that run. No constraint of the schema gets in the way.\<close>

theorem retry_is_queued:
  assumes "db_ok d" "p \<in> set (db_runs d)" "retry_candidate p"
    and "retry_depth (db_runs d) p 0 = Some (Inr n)" "n < MaxAutomaticRetries"
    and "active_count (r_job_uid p) (r_printer_id p) d = 0"
    and "find_job (r_job_uid p) d = Some job"
    and "find_target (r_job_uid p) (r_printer_id p) d = Some target" "t_cancelled_at target = None"
    and "number = next_run_number (r_job_uid p) (r_printer_id p) d"
    and "render job target p number = Inr hash"
    and "\<forall>r \<in> set (db_runs d). r_uid r \<noteq> uid"
  shows "\<exists>d'. materializeRetry (r_uid p) (int MaxAutomaticRetries) render (Some uid) now d =
      Some (Inr (Some (retry_run p uid number hash now), d')) \<and>
    db_runs d' = update_where (\<lambda>r. r_uid r = r_uid p \<and> r_retryable r) (\<lambda>r. r\<lparr>r_retryable := False\<rparr>)
      (db_runs d @ [(retry_run p uid number hash now)\<lparr>r_queue_sequence := db_next_seq d\<rparr>])"
proof -
  obtain m where "retry_depth (db_runs d) p 0 = Some (Inr m)" "retry_chain (db_runs d) m p"
    by (rule candidate_depth [OF assms(1,2)])
  then have "retry_chain (db_runs d) n p" using assms(4) by simp
  note made = retry_made [where render = render and job = job and target = target and p = p and number = number
      and hash = hash, OF assms(1-3) this assms(5-12) refl, of now]
  show ?thesis by (intro exI conjI, rule made) simp
qed

theorem retry_is_queued_witness:
  "\<exists>d'. materializeRetry ''run_1'' (int MaxAutomaticRetries) (\<lambda>_ _ _ _. Inr ''c'') (Some ''run_2'') 50 sample_failed =
     Some (Inr (Some (retry_run sample_failed_run ''run_2'' 2 ''c'' 50), d'))"
  using retry_is_queued [OF sample_failed_ok sample_failed_facts(1,2,4,10,8,5,6,11,7),
      of "\<lambda>_ _ _ _. Inr ''c''" "''c''" "''run_2''" 50] sample_failed_facts(9,12) by auto

text \<open>Making the retries of a printer after a reconnect always ends, whatever the renderer and the
  identifiers answer, and leaves a database that satisfies the invariant.\<close>

lemma materializing_retries_terminates:
  assumes "db_ok d"
  shows "\<exists>made err d'. MaterializeRetries p (int MaxAutomaticRetries) render fresh clock d = Some (made, err, d') \<and> db_ok d'"
  unfolding MaterializeRetries_def by (rule materialize_loop_terminates [OF assms])

section \<open>Operators, restarts and retention\<close>

text \<open>After a restart no run is processing: every run that was becomes uncertain with the code
  agent_restart_during_processing, never failed or queued again, and no other run changes. The
  recovery can not be refused by a constraint of the schema.\<close>

theorem recovery_leaves_nothing_processing:
  assumes "db_ok d"
  shows "\<exists>rs d'. RecoverAbandoned now d = Inr (rs, d') \<and> (\<forall>r \<in> set (db_runs d'). r_status r \<noteq> RunProcessing) \<and>
    (\<forall>r \<in> set (db_runs d). (if r_status r = RunProcessing then abandon now r else r) \<in> set (db_runs d')) \<and>
    (\<forall>r \<in> set rs. r_status r = RunUncertain \<and> r_error_code r = Some ''agent_restart_during_processing'')"
proof -
  let ?d = "d\<lparr>db_runs := update_where (\<lambda>r. r_status r = RunProcessing) (abandon now) (db_runs d)\<rparr>"
  have "\<forall>r \<in> set (db_runs ?d). r_status r \<noteq> RunProcessing"
    by (auto simp: abandon_def elim!: update_whereE)
  moreover have "\<forall>r \<in> set (db_runs d). (if r_status r = RunProcessing then abandon now r else r) \<in> set (db_runs ?d)"
    by (auto simp: set_update_where)
  ultimately show ?thesis using recover_result [OF assms, of now] by (auto simp: abandon_def)
qed

theorem recovery_leaves_nothing_processing_witness:
  "\<exists>rs d'. RecoverAbandoned 40 sample_processing = Inr (rs, d') \<and> abandon 40 (claimed 30 sample_run) \<in> set (db_runs d')"
  using recovery_leaves_nothing_processing [OF sample_processing_ok, of 40]
  by (auto simp: sample_dbs claimed_def)

text \<open>C8: A committed reprint request leaves, for each of its printers, a queued reprint run that carries the
  request identifier, an uncancelled target, and no failed or uncertain run without a resolution: what
  the operator asked to print again is neither retried automatically nor reported as open.\<close>

theorem reprint_request_is_carried_out:
  assumes "InsertManualReprints u req hash reason ps now fresh render d = Inr (created, d')" "p \<in> set ps"
  shows "reprint_done u (nullable req) d' p"
proof -
  obtain d1 job d2 where s: "GetJob u d1 = Inr job"
    "fold_sum (reprint_target job req reason now fresh render) (d1, []) (sort ps) = Inr (d2, created)"
    "d' = update_expiry (\<lambda>j. j_uid j = u) (now + retentionWindow) d2"
    using assms(1) by (auto simp: InsertManualReprints_def elim!: sum_bindE split: sum.splits db_err.splits)
  have "j_uid job = u" using s(1) find_SomeD by (fastforce simp: GetJob_def find_job_def)
  then have "reprint_done u (nullable req) d2 p"
    using reprint_loop_done [OF s(2), of "{}"] assms(2) by simp
  then show ?thesis by (simp add: s(3) reprint_done_def update_expiry_def)
qed

definition sample_reprint where
  "sample_reprint = InsertManualReprints ''job_1'' ''again-1'' ''h2'' ''torn'' [''bar''] 60 (\<lambda>_. Some ''run_2'')
     (\<lambda>_ _ _. Inr ''c2'') sample_uncertain"

lemma sample_reprint_ok: "\<exists>created. sample_reprint = Inr (created, snd (projr sample_reprint))"
proof -
  have "\<exists>created d'. sample_reprint = Inr (created, d')"
    by (simp add: sample_reprint_def InsertManualReprints_def insert_dedup_def GetJob_def find_job_def reprint_target_def
      GetTarget_def find_target_def active_count_def runsWhere_def newID_def insert_run_def update_cancellation_def
      update_runs_def next_run_number_def sample_dbs sample_rows Let_def guard_err_def nullable_def
      run_update_allowed_def run_identity_def status_edge_def run_check_def runs_unique_def run_fk_def names_run_def
      run_target_def target_key_def active_status_def)
  then obtain created d' where r: "sample_reprint = Inr (created, d')" by blast
  then show ?thesis by (intro exI [of _ created]) (simp add: r)
qed

theorem reprint_request_is_carried_out_witness:
  "reprint_done ''job_1'' (Some ''again-1'') (snd (projr sample_reprint)) ''bar''"
proof -
  obtain created where "sample_reprint = Inr (created, snd (projr sample_reprint))"
    using sample_reprint_ok by blast
  then show ?thesis
    using reprint_request_is_carried_out [of "''job_1''" "''again-1''" "''h2''" "''torn''" "[''bar'']" 60
        "\<lambda>_. Some ''run_2''" "\<lambda>_ _ _. Inr ''c2''" sample_uncertain created "snd (projr sample_reprint)" "''bar''"]
    by (simp add: sample_reprint_def nullable_def)
qed

text \<open>When a cancellation of targets is committed, each selected target is marked cancelled
  and none of its runs is queued, processing or waiting for a retry: nothing more will be printed for it.\<close>

theorem cancelled_targets_stop:
  assumes "CancelTargets u ps reason now d = Inr d'" "p \<in> set ps"
  shows "(\<exists>t \<in> set (db_targets d'). target_key t = (u, p)) \<and>
    (\<forall>t \<in> set (db_targets d'). target_key t = (u, p) \<longrightarrow> t_cancelled_at t \<noteq> None) \<and>
    (\<forall>r \<in> set (db_runs d'). run_target r = (u, p) \<longrightarrow> \<not> active_status (r_status r) \<and> \<not> retry_candidate r)"
proof -
  obtain e where e: "fold_sum (cancel_target u reason now) d ps = Inr e"
    "d' = update_expiry (\<lambda>j. j_uid j = u) (now + retentionWindow) e"
    using assms(1) by (auto simp: CancelTargets_def elim!: sum_bindE)
  have "target_stopped u e p" using cancel_loop_stops [OF e(1), of "{}"] assms(2) by simp
  then show ?thesis by (simp add: e(2) update_expiry_def target_stopped_def)
qed

definition sample_cancelled :: db where
  "sample_cancelled = sample_failed\<lparr>db_jobs := [sample_job\<lparr>j_expires_at := 70 + retentionWindow\<rparr>],
     db_targets := [sample_target\<lparr>t_cancelled_at := Some 70\<rparr>],
     db_runs := [sample_failed_run\<lparr>r_retryable := False\<rparr>]\<rparr>"

lemma sample_cancel: "CancelTargets ''job_1'' [''bar''] [] 70 sample_failed = Inr sample_cancelled"
  by (simp add: CancelTargets_def cancel_target_def fulfilled_count_def processing_count_def runsWhere_def
      update_cancellation_def update_runs_def update_expiry_def sample_dbs sample_rows sample_cancelled_def Let_def
      guard_err_def nullable_def run_update_allowed_def run_identity_def status_edge_def run_check_def
      runs_unique_def run_target_def active_status_def)

theorem cancelled_targets_stop_witness:
  "\<not> retry_candidate (sample_failed_run\<lparr>r_retryable := False\<rparr>) \<and>
     sample_failed_run\<lparr>r_retryable := False\<rparr> \<in> set (db_runs sample_cancelled)"
  using cancelled_targets_stop [OF sample_cancel, of "''bar''"]
  by (simp add: sample_cancelled_def run_target_def sample_rows)

text \<open>A purge removes nothing that still matters: every run that is queued or processing, or that failed or
  is uncertain without a resolution on a target that was not cancelled, survives with its Job.\<close>

theorem purge_keeps_open_work:
  assumes "db_ok d" "r \<in> set (db_runs d)"
    and "active_status (r_status r) \<or>
      ((r_status r = RunFailed \<or> r_status r = RunUncertain) \<and> r_resolution r = None \<and>
       \<not> (\<exists>t \<in> set (db_targets d). target_key t = run_target r \<and> t_cancelled_at t \<noteq> None))"
  shows "r \<in> set (db_runs (PurgeExpired now d)) \<and> r_job_uid r \<in> j_uid ` set (db_jobs (PurgeExpired now d))"
proof -
  have kept: "r \<in> set (db_runs (PurgeExpired now d))"
  proof (rule ccontr)
    assume "r \<notin> set (db_runs (PurgeExpired now d))"
    then obtain j where "j_uid j = r_job_uid r" "\<not> unresolved_work d j"
      by (rule PurgeExpired_runs [OF assms(1,2)])
    with assms(2,3) show False by (auto simp: unresolved_work_def target_key_def run_target_def)
  qed
  moreover have "db_ok (PurgeExpired now d)" by (rule PurgeExpired_keeps [OF assms(1)])
  then have "run_target r \<in> target_key ` set (db_targets (PurgeExpired now d))"
    "\<forall>t \<in> set (db_targets (PurgeExpired now d)). t_job_uid t \<in> j_uid ` set (db_jobs (PurgeExpired now d))"
    using run_of_target [OF _ kept] by (auto simp: db_ok_def schema_ok_def targets_ok_def)
  then have "r_job_uid r \<in> j_uid ` set (db_jobs (PurgeExpired now d))"
    by (auto simp: run_target_def target_key_def)
  ultimately show ?thesis ..
qed

theorem purge_keeps_open_work_witness:
  "sample_uncertain_run \<in> set (db_runs (PurgeExpired 1000000000000000 sample_uncertain))"
  using purge_keeps_open_work [OF sample_uncertain_ok, of sample_uncertain_run 1000000000000000]
  by (simp add: sample_dbs sample_rows)

end
