(* ===== verification/DeriveCorrect.thy ===== *)
theory DeriveCorrect
  imports RepositoryLaws
begin

text \<open>
  What \<open>DeriveJob\<close> computes, stated over the rows of the Job instead of over its loops, and how
  the \<open>attention\<close> filter of \<open>ListJobDetails\<close>, written in SQL, relates to it.
\<close>

section \<open>The declarative view\<close>

definition target_runs :: "print_run list \<Rightarrow> job_printer \<Rightarrow> print_run set" where
  "target_runs runs t = {r \<in> set runs. r_printer_id r = t_printer_id t}"

definition target_fulfilled :: "print_run list \<Rightarrow> job_printer \<Rightarrow> bool" where
  "target_fulfilled runs t \<longleftrightarrow> (\<exists>r \<in> target_runs runs t. run_fulfils r)"

definition waits :: "print_run \<Rightarrow> bool" where
  "waits r \<longleftrightarrow> r_status r = RunQueued \<or> retry_candidate r"

definition open_problem :: "print_run \<Rightarrow> bool" where
  "open_problem r \<longleftrightarrow> r_resolution r = None \<and>
     (r_status r = RunUncertain \<or> (r_status r = RunFailed \<and> \<not> r_retryable r))"

definition some_unfulfilled :: "job_printer list \<Rightarrow> print_run list \<Rightarrow> (print_run \<Rightarrow> bool) \<Rightarrow> bool" where
  "some_unfulfilled targets runs P \<longleftrightarrow>
     (\<exists>t \<in> set targets. \<not> target_fulfilled runs t \<and> (\<exists>r \<in> target_runs runs t. P r))"

definition live_problem :: "job_printer list \<Rightarrow> print_run list \<Rightarrow> bool" where
  "live_problem targets runs \<longleftrightarrow> (\<exists>t \<in> set targets. \<not> target_fulfilled runs t \<and> t_cancelled_at t = None \<and>
     (\<exists>r \<in> target_runs runs t. open_problem r))"

definition rest_cancelled :: "job_printer list \<Rightarrow> print_run list \<Rightarrow> bool" where
  "rest_cancelled targets runs \<longleftrightarrow>
     (\<forall>t \<in> set targets. target_fulfilled runs t \<or> t_cancelled_at t \<noteq> None)"

definition state_of :: "job_printer list \<Rightarrow> print_run list \<Rightarrow> job_state" where
  "state_of targets runs =
     (if targets \<noteq> [] \<and> (\<forall>t \<in> set targets. target_fulfilled runs t) then Completed
      else if some_unfulfilled targets runs (\<lambda>r. r_status r = RunProcessing) then Printing
      else if some_unfulfilled targets runs waits then Queued
      else if live_problem targets runs then AttentionRequired
      else if \<not> rest_cancelled targets runs then AttentionRequired
      else if \<exists>t \<in> set targets. target_fulfilled runs t then PartiallyCompleted
      else Cancelled)"

section \<open>The loops\<close>

lemma derive_run_fields:
  "f_fulfilled (snd (derive_run r vp)) = (f_fulfilled (snd vp) \<or> run_fulfils r)"
  "f_cancelled (snd (derive_run r vp)) = f_cancelled (snd vp)"
  "dv_manual_attention (fst (derive_run r vp)) = (dv_manual_attention (fst vp) \<or> manual_attention_run r)"
  "dv_fulfilled_count (fst (derive_run r vp)) = dv_fulfilled_count (fst vp)"
  "dv_any_processing (fst (derive_run r vp)) = dv_any_processing (fst vp)"
  "dv_any_queued (fst (derive_run r vp)) = dv_any_queued (fst vp)"
  "dv_any_attention (fst (derive_run r vp)) = dv_any_attention (fst vp)"
  "dv_all_cancelled (fst (derive_run r vp)) = dv_all_cancelled (fst vp)"
  by (simp_all add: derive_run_def split: prod.split)

lemma fold_derive_run:
  "f_fulfilled (snd (fold derive_run rs vp)) = (f_fulfilled (snd vp) \<or> (\<exists>r \<in> set rs. run_fulfils r))"
  "f_cancelled (snd (fold derive_run rs vp)) = f_cancelled (snd vp)"
  "dv_manual_attention (fst (fold derive_run rs vp)) = (dv_manual_attention (fst vp) \<or> (\<exists>r \<in> set rs. manual_attention_run r))"
  "dv_fulfilled_count (fst (fold derive_run rs vp)) = dv_fulfilled_count (fst vp)"
  "dv_any_processing (fst (fold derive_run rs vp)) = dv_any_processing (fst vp)"
  "dv_any_queued (fst (fold derive_run rs vp)) = dv_any_queued (fst vp)"
  "dv_any_attention (fst (fold derive_run rs vp)) = dv_any_attention (fst vp)"
  "dv_all_cancelled (fst (fold derive_run rs vp)) = dv_all_cancelled (fst vp)"
  by (induction rs arbitrary: vp) (simp_all add: derive_run_fields disj_assoc)

lemma unfulfilled_run_fields:
  "dv_any_processing (derive_unfulfilled_run c r v) = (dv_any_processing v \<or> r_status r = RunProcessing)"
  "dv_any_queued (derive_unfulfilled_run c r v) = (dv_any_queued v \<or> waits r)"
  "dv_any_attention (derive_unfulfilled_run c r v) = (dv_any_attention v \<or> (\<not> c \<and> open_problem r))"
  "dv_manual_attention (derive_unfulfilled_run c r v) = dv_manual_attention v"
  "dv_fulfilled_count (derive_unfulfilled_run c r v) = dv_fulfilled_count v"
  "dv_all_cancelled (derive_unfulfilled_run c r v) = dv_all_cancelled v"
  by (auto simp: derive_unfulfilled_run_def waits_def open_problem_def retry_candidate_def split: run_status.split)

lemma fold_unfulfilled_run:
  "dv_any_processing (fold (derive_unfulfilled_run c) rs v) =
     (dv_any_processing v \<or> (\<exists>r \<in> set rs. r_status r = RunProcessing))"
  "dv_any_queued (fold (derive_unfulfilled_run c) rs v) = (dv_any_queued v \<or> (\<exists>r \<in> set rs. waits r))"
  "dv_any_attention (fold (derive_unfulfilled_run c) rs v) =
     (dv_any_attention v \<or> (\<not> c \<and> (\<exists>r \<in> set rs. open_problem r)))"
  "dv_manual_attention (fold (derive_unfulfilled_run c) rs v) = dv_manual_attention v"
  "dv_fulfilled_count (fold (derive_unfulfilled_run c) rs v) = dv_fulfilled_count v"
  "dv_all_cancelled (fold (derive_unfulfilled_run c) rs v) = dv_all_cancelled v"
  by (induction rs arbitrary: v) (auto simp: unfulfilled_run_fields)

lemma derive_target_fields:
  "dv_any_processing (derive_target runs t v) = (dv_any_processing v \<or>
     (\<not> target_fulfilled runs t \<and> (\<exists>r \<in> target_runs runs t. r_status r = RunProcessing))) \<and>
   dv_any_queued (derive_target runs t v) = (dv_any_queued v \<or>
     (\<not> target_fulfilled runs t \<and> (\<exists>r \<in> target_runs runs t. waits r))) \<and>
   dv_any_attention (derive_target runs t v) = (dv_any_attention v \<or>
     (\<not> target_fulfilled runs t \<and> t_cancelled_at t = None \<and> (\<exists>r \<in> target_runs runs t. open_problem r))) \<and>
   dv_manual_attention (derive_target runs t v) = (dv_manual_attention v \<or>
     (\<exists>r \<in> target_runs runs t. manual_attention_run r)) \<and>
   dv_fulfilled_count (derive_target runs t v) = dv_fulfilled_count v + (if target_fulfilled runs t then 1 else 0) \<and>
   dv_all_cancelled (derive_target runs t v) = (dv_all_cancelled v \<and> (target_fulfilled runs t \<or> t_cancelled_at t \<noteq> None))"
proof -
  define rs where "rs = filter (\<lambda>r. r_printer_id r = t_printer_id t) runs"
  define p where "p = \<lparr>f_printer_id = t_printer_id t, f_fulfilled = False, f_fulfilled_at = None,
       f_cancelled = (t_cancelled_at t \<noteq> None), f_retry_pending = False,
       f_latest_run = (if rs = [] then None else Some (last rs)), f_runs = rs\<rparr>"
  define v0 where "v0 = v\<lparr>dv_updated_at := later (dv_updated_at v) (t_cancelled_at t)\<rparr>"
  obtain v1 p1 where f: "fold derive_run rs (v0, p) = (v1, p1)" by (cases "fold derive_run rs (v0, p)")
  have set: "set rs = target_runs runs t" by (auto simp: rs_def target_runs_def)
  note one = fold_derive_run [where rs = rs and vp = "(v0, p)", unfolded f fst_conv snd_conv set]
  have ful: "f_fulfilled p1 = target_fulfilled runs t" "f_cancelled p1 = (t_cancelled_at t \<noteq> None)"
    using one(1,2) by (simp_all add: p_def target_fulfilled_def)
  have eq: "derive_target runs t v =
      (let v = (if f_fulfilled p1
               then v1\<lparr>dv_fulfilled_count := dv_fulfilled_count v1 + 1,
                      dv_fulfilled_times := dv_fulfilled_times v1 @
                        (case f_fulfilled_at p1 of None \<Rightarrow> [] | Some s \<Rightarrow> [s])\<rparr>
               else fold (derive_unfulfilled_run (f_cancelled p1)) rs
                      (v1\<lparr>dv_all_cancelled := (dv_all_cancelled v1 \<and> f_cancelled p1)\<rparr>))
      in v\<lparr>dv_printers := dv_printers v @ [p1]\<rparr>)"
    using f unfolding derive_target_def rs_def p_def v0_def by (simp add: Let_def)
  show ?thesis
  proof (cases "target_fulfilled runs t")
    case True
    with ful show ?thesis by (simp add: eq one(3-8) v0_def)
  next
    case False
    define w where "w = v1\<lparr>dv_all_cancelled := (dv_all_cancelled v1 \<and> f_cancelled p1)\<rparr>"
    have "derive_target runs t v = (let v = fold (derive_unfulfilled_run (f_cancelled p1)) rs w in v\<lparr>dv_printers := dv_printers v @ [p1]\<rparr>)"
      using False ful(1) by (simp add: eq w_def)
    with False ful(2) show ?thesis
      by (simp add: Let_def fold_unfulfilled_run set) (simp add: w_def one(3-8) v0_def)
  qed
qed

lemmas derive_target_simps = derive_target_fields [THEN conjunct1]
  derive_target_fields [THEN conjunct2, THEN conjunct1]
  derive_target_fields [THEN conjunct2, THEN conjunct2, THEN conjunct1]
  derive_target_fields [THEN conjunct2, THEN conjunct2, THEN conjunct2, THEN conjunct1]
  derive_target_fields [THEN conjunct2, THEN conjunct2, THEN conjunct2, THEN conjunct2, THEN conjunct1]
  derive_target_fields [THEN conjunct2, THEN conjunct2, THEN conjunct2, THEN conjunct2, THEN conjunct2]

lemma fold_derive_target:
  "dv_any_processing (fold (derive_target runs) tgs v) =
     (dv_any_processing v \<or> some_unfulfilled tgs runs (\<lambda>r. r_status r = RunProcessing))"
  "dv_any_queued (fold (derive_target runs) tgs v) = (dv_any_queued v \<or> some_unfulfilled tgs runs waits)"
  "dv_any_attention (fold (derive_target runs) tgs v) = (dv_any_attention v \<or> live_problem tgs runs)"
  "dv_manual_attention (fold (derive_target runs) tgs v) =
     (dv_manual_attention v \<or> (\<exists>t \<in> set tgs. \<exists>r \<in> target_runs runs t. manual_attention_run r))"
  "dv_fulfilled_count (fold (derive_target runs) tgs v) = dv_fulfilled_count v + length (filter (target_fulfilled runs) tgs)"
  "dv_all_cancelled (fold (derive_target runs) tgs v) = (dv_all_cancelled v \<and> rest_cancelled tgs runs)"
proof (induction tgs arbitrary: v)
  case Nil
  { case 1 show ?case by (simp add: some_unfulfilled_def) }
  { case 2 show ?case by (simp add: some_unfulfilled_def) }
  { case 3 show ?case by (simp add: live_problem_def) }
  { case 4 show ?case by simp }
  { case 5 show ?case by simp }
  { case 6 show ?case by (simp add: rest_cancelled_def) }
next
  case (Cons t tgs)
  { case 1 show ?case by (simp add: derive_target_simps Cons.IH some_unfulfilled_def disj_assoc) }
  { case 2 show ?case by (simp add: derive_target_simps Cons.IH some_unfulfilled_def disj_assoc) }
  { case 3 show ?case by (simp add: derive_target_simps Cons.IH live_problem_def disj_assoc) }
  { case 4 show ?case by (simp add: derive_target_simps Cons.IH disj_assoc) }
  { case 5 show ?case by (simp add: derive_target_simps Cons.IH) }
  { case 6 show ?case by (simp add: derive_target_simps Cons.IH rest_cancelled_def conj_assoc) }
qed

lemma derive_loop_fields:
  "dv_any_processing (derive_loop j tgs runs) = some_unfulfilled tgs runs (\<lambda>r. r_status r = RunProcessing)"
  "dv_any_queued (derive_loop j tgs runs) = some_unfulfilled tgs runs waits"
  "dv_any_attention (derive_loop j tgs runs) = live_problem tgs runs"
  "dv_manual_attention (derive_loop j tgs runs) = (\<exists>t \<in> set tgs. \<exists>r \<in> target_runs runs t. manual_attention_run r)"
  "dv_fulfilled_count (derive_loop j tgs runs) = length (filter (target_fulfilled runs) tgs)"
  "dv_all_cancelled (derive_loop j tgs runs) = rest_cancelled tgs runs"
  by (simp_all add: derive_loop_def fold_derive_target)

lemma filter_full_length: "length (filter P xs) = length xs \<longleftrightarrow> (\<forall>x \<in> set xs. P x)"
  by (metis filter_True filter_id_conv length_filter_less less_irrefl)

lemma filter_some_length: "0 < length (filter P xs) \<longleftrightarrow> (\<exists>x \<in> set xs. P x)"
  by (simp add: filter_empty_conv)

lemma DeriveJob_fields:
  "d_fulfilled_printer_count (DeriveJob j tgs runs) = length (filter (target_fulfilled runs) tgs)"
  "d_original_printer_count (DeriveJob j tgs runs) = length tgs"
  "d_manual_reprint_requires_attention (DeriveJob j tgs runs) =
     (\<exists>t \<in> set tgs. \<exists>r \<in> target_runs runs t. manual_attention_run r)"
  by (simp_all add: DeriveJob_def Let_def derive_loop_fields split: prod.split)

lemma DeriveJob_state: "d_state (DeriveJob j tgs runs) = state_of tgs runs"
  by (auto simp: DeriveJob_def Let_def derive_loop_fields state_of_def filter_full_length filter_some_length
      filter_empty_conv split: prod.split)

lemma DeriveJob_attention:
  "d_requires_attention (DeriveJob j tgs runs) \<longleftrightarrow>
     live_problem tgs runs \<or> (\<exists>t \<in> set tgs. \<exists>r \<in> target_runs runs t. manual_attention_run r) \<or>
     state_of tgs runs = AttentionRequired"
  by (auto simp: DeriveJob_def Let_def derive_loop_fields state_of_def filter_full_length filter_some_length
      filter_empty_conv split: prod.split)

section \<open>The attention filter\<close>

lemma targetsFor_iff: "t \<in> set (targetsFor u d) \<longleftrightarrow> t \<in> set (db_targets d) \<and> t_job_uid t = u"
  by (auto simp: targetsFor_def)

lemma target_fulfilled_rows:
  assumes "set runs = {r \<in> set (db_runs d). r_job_uid r = u}" "t_job_uid t = u"
  shows "target_fulfilled runs t \<longleftrightarrow> (\<exists>r \<in> set (db_runs d). r_job_uid r = u \<and> r_printer_id r = t_printer_id t \<and>
     (r_status r = RunTransmitted \<or> (r_status r = RunUncertain \<and> r_resolution r = Some ResolutionConfirmedPrinted)))"
  unfolding target_fulfilled_def target_runs_def assms(1) run_fulfils_def by auto

lemma attention_predicate_rows:
  assumes ok: "db_ok d" and runs: "set runs = {r \<in> set (db_runs d). r_job_uid r = j_uid j}"
  shows "attention_predicate d j \<longleftrightarrow> live_problem (targetsFor (j_uid j) d) runs \<or>
     (\<exists>t \<in> set (targetsFor (j_uid j) d). \<exists>r \<in> target_runs runs t. manual_attention_run r)"
proof
  assume "attention_predicate d j"
  then obtain ar where ar: "ar \<in> set (db_runs d)" "r_job_uid ar = j_uid j" "open_problem ar"
    and why: "r_content_mode ar = ContentReprint \<or>
       (\<not> (\<exists>r \<in> set (db_runs d). r_job_uid r = r_job_uid ar \<and> r_printer_id r = r_printer_id ar \<and>
            (r_status r = RunTransmitted \<or> (r_status r = RunUncertain \<and> r_resolution r = Some ResolutionConfirmedPrinted))) \<and>
        \<not> (\<exists>cp \<in> set (db_targets d). t_job_uid cp = r_job_uid ar \<and> t_printer_id cp = r_printer_id ar \<and> t_cancelled_at cp \<noteq> None))"
    unfolding attention_predicate_def open_problem_def by blast
  obtain t where t: "t \<in> set (db_targets d)" "target_key t = run_target ar"
    using run_of_target [OF ok ar(1)] by (metis imageE)
  then have t': "t \<in> set (targetsFor (j_uid j) d)" "t_job_uid t = j_uid j" "t_printer_id t = r_printer_id ar"
    using ar(2) by (auto simp: targetsFor_iff target_key_def run_target_def)
  have mem: "ar \<in> target_runs runs t" using ar t'(3) by (simp add: target_runs_def runs)
  have "r_status ar = RunUncertain \<longrightarrow> \<not> r_retryable ar"
    using db_ok_check [OF ok ar(1)] by (auto simp: run_check_def)
  then have "manual_attention_run ar" if "r_content_mode ar = ContentReprint"
    using ar(3) that by (auto simp: manual_attention_run_def open_problem_def)
  moreover have "live_problem (targetsFor (j_uid j) d) runs" if "r_content_mode ar \<noteq> ContentReprint"
  proof -
    have "\<not> target_fulfilled runs t" using why that t' ar(2) target_fulfilled_rows [OF runs t'(2)] by auto
    moreover have "t_cancelled_at t = None" using why that t t' ar(2) by auto
    ultimately show ?thesis using t'(1) mem ar(3) unfolding live_problem_def by blast
  qed
  ultimately show "live_problem (targetsFor (j_uid j) d) runs \<or>
     (\<exists>t \<in> set (targetsFor (j_uid j) d). \<exists>r \<in> target_runs runs t. manual_attention_run r)"
    using t'(1) mem by blast
next
  assume a: "live_problem (targetsFor (j_uid j) d) runs \<or>
     (\<exists>t \<in> set (targetsFor (j_uid j) d). \<exists>r \<in> target_runs runs t. manual_attention_run r)"
  then show "attention_predicate d j"
  proof
    assume "live_problem (targetsFor (j_uid j) d) runs"
    then obtain t r where t: "t \<in> set (targetsFor (j_uid j) d)" "\<not> target_fulfilled runs t" "t_cancelled_at t = None"
      "r \<in> target_runs runs t" "open_problem r" unfolding live_problem_def by blast
    have tj: "t \<in> set (db_targets d)" "t_job_uid t = j_uid j" using t(1) by (auto simp: targetsFor_iff)
    have r: "r \<in> set (db_runs d)" "r_job_uid r = j_uid j" "r_printer_id r = t_printer_id t"
      using t(4) by (auto simp: target_runs_def runs)
    have "cp = t" if "cp \<in> set (db_targets d)" "t_job_uid cp = r_job_uid r" "t_printer_id cp = r_printer_id r" for cp
      using find_target_iff [OF ok, of "j_uid j" "t_printer_id t" cp] find_target_iff [OF ok, of "j_uid j" "t_printer_id t" t]
        that tj r by auto
    then have "\<not> (\<exists>cp \<in> set (db_targets d). t_job_uid cp = r_job_uid r \<and> t_printer_id cp = r_printer_id r \<and> t_cancelled_at cp \<noteq> None)"
      using t(3) by auto
    moreover have "\<not> (\<exists>x \<in> set (db_runs d). r_job_uid x = r_job_uid r \<and> r_printer_id x = r_printer_id r \<and>
        (r_status x = RunTransmitted \<or> (r_status x = RunUncertain \<and> r_resolution x = Some ResolutionConfirmedPrinted)))"
      using t(2) r target_fulfilled_rows [OF runs tj(2)] by auto
    ultimately show ?thesis
      using r t(5) unfolding attention_predicate_def open_problem_def by blast
  next
    assume "\<exists>t \<in> set (targetsFor (j_uid j) d). \<exists>r \<in> target_runs runs t. manual_attention_run r"
    then obtain r where "r \<in> set (db_runs d)" "r_job_uid r = j_uid j" "manual_attention_run r"
      by (auto simp: target_runs_def runs)
    then show ?thesis unfolding attention_predicate_def manual_attention_run_def by blast
  qed
qed

lemma GetDetail_Inr:
  assumes "db_ok d" "GetDetail u d = Inr D"
  obtains j runs where "j \<in> set (db_jobs d)" "j_uid j = u" "set runs = {r \<in> set (db_runs d). r_job_uid r = j_uid j}"
    "D = DeriveJob j (targetsFor u d) runs"
proof -
  obtain j where j: "find_job u d = Some j"
      "D = DeriveJob j (targetsFor u d) (sort_key (\<lambda>r. (r_printer_id r, r_run_number r)) (runsWhere (\<lambda>r. r_job_uid r = u) d))"
    using assms(2) by (auto simp: GetDetail_def GetJob_def Let_def elim!: sum_bindE)
  moreover have "j \<in> set (db_jobs d)" "j_uid j = u" using j(1) find_job_iff [OF assms(1)] by blast+
  ultimately show thesis by (intro that [OF _ _ _ j(2)]) (auto simp: runsWhere_def)
qed

text \<open>
  The filter \<open>attention=true\<close> selects a Job exactly when \<open>DeriveJob\<close> sees an open failure or an
  uncertain result. A Job can require attention without one: then its derived state says so.
\<close>

lemma attention_filter:
  assumes "db_ok d" "GetDetail u d = Inr D"
  shows "\<exists>j \<in> set (db_jobs d). j_uid j = u \<and>
    (d_requires_attention D \<longleftrightarrow> attention_predicate d j \<or> d_state D = AttentionRequired)"
  using assms
proof (rule GetDetail_Inr)
  fix j runs assume j: "j \<in> set (db_jobs d)" "j_uid j = u" and runs: "set runs = {r \<in> set (db_runs d). r_job_uid r = j_uid j}"
    and D: "D = DeriveJob j (targetsFor u d) runs"
  then show ?thesis
    using attention_predicate_rows [OF assms(1) runs] DeriveJob_attention DeriveJob_state by (intro bexI [of _ j]) auto
qed

end
