(* ===== verification/DeriveProperties.thy ===== *)
theory DeriveProperties
  imports DeriveCorrect Samples
begin

text \<open>The properties of the Job state the API reports.\<close>

text \<open>C15: The state, the counters and the attention flag DeriveJob computes in its loops are those of the
  declarative definition: completed when every original printer has a run that printed (or that an
  operator confirmed), otherwise printing, queued (a pending retry counts), attention, partially
  completed or cancelled by what is left of the printers that have none.\<close>

theorem derived_state_is_the_specified_state:
  "d_state (DeriveJob j targets runs) = state_of targets runs \<and>
   d_fulfilled_printer_count (DeriveJob j targets runs) = length (filter (target_fulfilled runs) targets) \<and>
   d_original_printer_count (DeriveJob j targets runs) = length targets \<and>
   (d_requires_attention (DeriveJob j targets runs) =
     (live_problem targets runs \<or> (\<exists>t \<in> set targets. \<exists>r \<in> target_runs runs t. manual_attention_run r) \<or>
      state_of targets runs = AttentionRequired))"
  using DeriveJob_state DeriveJob_fields(1,2) DeriveJob_attention by blast

text \<open>The SQL predicate behind attention=true and the flag DeriveJob computes are two
  implementations of one notion. On every database that satisfies the invariant they agree but for
  the Jobs whose state is attention_required: the flag is set exactly when the predicate
  holds or that is the state.\<close>

theorem attention_filter_and_flag:
  assumes "db_ok d" "GetDetail u d = Inr D"
  shows "\<exists>j \<in> set (db_jobs d). j_uid j = u \<and>
    (d_requires_attention D \<longleftrightarrow> attention_predicate d j \<or> d_state D = AttentionRequired)"
  using assms by (rule attention_filter)

lemma sample_detail: "\<exists>D. GetDetail ''job_1'' sample_queued = Inr D"
  by (simp add: GetDetail_def GetJob_def find_job_def sample_dbs sample_rows Let_def)

theorem attention_filter_and_flag_witness:
  "\<exists>D. GetDetail ''job_1'' sample_queued = Inr D \<and>
     (\<exists>j. j_uid j = ''job_1'' \<and> (d_requires_attention D \<longleftrightarrow> attention_predicate sample_queued j \<or> d_state D = AttentionRequired))"
proof -
  obtain D where D: "GetDetail ''job_1'' sample_queued = Inr D" using sample_detail by blast
  from attention_filter_and_flag [OF sample_queued_ok this] D show ?thesis by blast
qed

definition sample_run_cancelled :: "repo_err + db" where
  "sample_run_cancelled = CancelRun ''run_1'' 40 41 sample_queued"

text \<open>The two do diverge: after the operator cancels the only run of a Job (CancelRun, not the whole
  target), the Job is reported as requiring attention, yet the filter attention=true does not list it.\<close>

theorem cancelled_run_is_flagged_but_not_listed:
  "\<exists>d D. sample_run_cancelled = Inr d \<and> GetDetail ''job_1'' d = Inr D \<and> d_requires_attention D \<and>
     d_state D = AttentionRequired \<and> list_jobs [] [] ''true'' [] 50 None [] d = []"
proof -
  define r where "r = sample_run\<lparr>r_status := RunCancelled, r_retryable := False, r_finished_at := Some 40\<rparr>"
  define d where "d = sample_queued\<lparr>db_jobs := [sample_job\<lparr>j_expires_at := 41 + retentionWindow\<rparr>], db_runs := [r]\<rparr>"
  have c: "sample_run_cancelled = Inr d"
    by (simp add: sample_run_cancelled_def CancelRun_def transition_def update_runs_def sample_dbs sample_rows Let_def
        run_update_allowed_def run_identity_def status_edge_def run_check_def runs_unique_def r_def d_def
        active_status_def extend_retention_def update_expiry_def find_run_def guard_err_def)
  have g: "GetDetail ''job_1'' d = Inr (DeriveJob (sample_job\<lparr>j_expires_at := 41 + retentionWindow\<rparr>) [sample_target] [r])"
    by (simp add: GetDetail_def GetJob_def find_job_def targetsFor_def runsWhere_def Let_def d_def r_def sample_dbs sample_rows)
  have s: "state_of [sample_target] [r] = AttentionRequired"
    by (simp add: state_of_def some_unfulfilled_def live_problem_def rest_cancelled_def target_fulfilled_def
        target_runs_def run_fulfils_def waits_def retry_candidate_def open_problem_def r_def sample_rows)
  have l: "list_jobs [] [] ''true'' [] 50 None [] d = []"
    by (simp add: list_jobs_def attention_predicate_def d_def r_def sample_dbs sample_rows list_limit_def)
  show ?thesis
    by (intro exI conjI, rule c, rule g) (simp_all only: DeriveJob_attention DeriveJob_state s l simp_thms)
qed

end
