(* ===== verification/ConfigRepository.thy ===== *)
theory ConfigRepository
  imports Database Config "HOL-Library.AList"
begin

text \<open>
  \<open>internal/config/repository.go\<close>: printer configurations and settings. A printer is never deleted:
  it is retired, so that the targets of old Jobs keep their reference. Only the printers that are not
  retired are visible. The times are readings of the clock.
\<close>

datatype config_repo_err = PrinterNotFound | PrinterRetired

definition live_printers :: "db \<Rightarrow> printer_config list" where
  "live_printers d = filter (\<lambda>p. pc_retired_at p = None) (db_printers d)"

definition ListPrinters :: "db \<Rightarrow> printer_config list" where
  "ListPrinters d = sort_key pc_id (live_printers d)"

definition GetPrinter :: "string \<Rightarrow> db \<Rightarrow> config_repo_err + printer_config" where
  "GetPrinter pid d =
     (case List.find (\<lambda>p. pc_id p = pid \<and> pc_retired_at p = None) (db_printers d) of
        None \<Rightarrow> Inl PrinterNotFound | Some p \<Rightarrow> Inr p)"

text \<open>
  The \<open>ON CONFLICT ... DO UPDATE ... WHERE retired_at IS NULL\<close> of \<open>SavePrinter\<close>: a new row, the
  update of a live row, or no row.
\<close>

definition saved_over :: "printer_config \<Rightarrow> time \<Rightarrow> printer_config \<Rightarrow> printer_config" where
  "saved_over p now old = old\<lparr>
     pc_display_name := pc_display_name p, pc_enabled := pc_enabled p, pc_transport := pc_transport p,
     pc_device_address := pc_device_address p, pc_endpoint := pc_endpoint p, pc_baud_rate := pc_baud_rate p,
     pc_data_bits := pc_data_bits p, pc_stop_bits := pc_stop_bits p, pc_parity := pc_parity p,
     pc_characters_per_line := pc_characters_per_line p, pc_encoding := pc_encoding p,
     pc_auto_reconnect := pc_auto_reconnect p, pc_connection_preference := pc_connection_preference p,
     pc_updated_at := now\<rparr>"

definition SavePrinter :: "printer_config \<Rightarrow> time \<Rightarrow> db \<Rightarrow> config_repo_err + db" where
  "SavePrinter p now d =
     (if pc_id p \<notin> pc_id ` set (db_printers d)
      then Inr (d\<lparr>db_printers := db_printers d @ [p\<lparr>pc_retired_at := None, pc_created_at := now, pc_updated_at := now\<rparr>]\<rparr>)
      else if \<exists>q \<in> set (db_printers d). pc_id q = pc_id p \<and> pc_retired_at q = None
      then Inr (d\<lparr>db_printers := update_where (\<lambda>q. pc_id q = pc_id p \<and> pc_retired_at q = None)
                     (saved_over p now) (db_printers d)\<rparr>)
      else Inl PrinterRetired)"

definition DeletePrinter :: "string \<Rightarrow> time \<Rightarrow> db \<Rightarrow> config_repo_err + db" where
  "DeletePrinter pid now d =
     (if \<exists>q \<in> set (db_printers d). pc_id q = pid \<and> pc_retired_at q = None
      then Inr (d\<lparr>db_printers := update_where (\<lambda>q. pc_id q = pid \<and> pc_retired_at q = None)
                     (\<lambda>q. q\<lparr>pc_enabled := False, pc_retired_at := Some now, pc_updated_at := now\<rparr>) (db_printers d)\<rparr>)
      else Inl PrinterNotFound)"

definition repo_SetEnabled :: "string \<Rightarrow> bool \<Rightarrow> time \<Rightarrow> db \<Rightarrow> config_repo_err + db" where
  "repo_SetEnabled pid on now d =
     (if \<exists>q \<in> set (db_printers d). pc_id q = pid \<and> pc_retired_at q = None
      then Inr (d\<lparr>db_printers := update_where (\<lambda>q. pc_id q = pid \<and> pc_retired_at q = None)
                     (\<lambda>q. q\<lparr>pc_enabled := on, pc_updated_at := now\<rparr>) (db_printers d)\<rparr>)
      else Inl PrinterNotFound)"

definition GetSetting :: "string \<Rightarrow> db \<Rightarrow> string" where
  "GetSetting key d = (case map_of (db_settings d) key of None \<Rightarrow> [] | Some v \<Rightarrow> v)"

definition SetSetting :: "string \<Rightarrow> string \<Rightarrow> db \<Rightarrow> db" where
  "SetSetting key v d = d\<lparr>db_settings := AList.update key v (db_settings d)\<rparr>"

section \<open>Laws\<close>

definition printers_ok :: "db \<Rightarrow> bool" where
  "printers_ok d \<longleftrightarrow> distinct (map pc_id (db_printers d))"

lemma GetPrinter_InrD: "GetPrinter pid d = Inr p \<Longrightarrow> p \<in> set (live_printers d) \<and> pc_id p = pid"
  by (auto simp: GetPrinter_def live_printers_def dest: find_SomeD split: option.split_asm)

lemma GetPrinter_iff:
  assumes "printers_ok d"
  shows "GetPrinter pid d = Inr p \<longleftrightarrow> p \<in> set (live_printers d) \<and> pc_id p = pid"
proof
  assume p: "p \<in> set (live_printers d) \<and> pc_id p = pid"
  then obtain q where "GetPrinter pid d = Inr q"
    using find_exI [of p "db_printers d" "\<lambda>p. pc_id p = pid \<and> pc_retired_at p = None"]
    by (auto simp: GetPrinter_def live_printers_def)
  moreover from GetPrinter_InrD [OF this] p assms have "q = p"
    by (auto simp: printers_ok_def live_printers_def intro: distinct_map_eqD)
  ultimately show "GetPrinter pid d = Inr p" by simp
qed (rule GetPrinter_InrD)

lemma ListPrinters_sorted: "sorted (map pc_id (ListPrinters d))" "set (ListPrinters d) = set (live_printers d)"
  by (simp_all add: ListPrinters_def)

lemma saved_over_id [simp]: "pc_id (saved_over p now q) = pc_id q" "pc_retired_at (saved_over p now q) = pc_retired_at q"
  by (simp_all add: saved_over_def)

lemma SavePrinter_keeps: "SavePrinter p now d = Inr d' \<Longrightarrow> printers_ok d \<Longrightarrow> printers_ok d'"
  by (auto simp: SavePrinter_def printers_ok_def map_update_where split: if_split_asm)

lemma DeletePrinter_keeps: "DeletePrinter pid now d = Inr d' \<Longrightarrow> printers_ok d \<Longrightarrow> printers_ok d'"
  by (auto simp: DeletePrinter_def printers_ok_def map_update_where split: if_split_asm)

lemma repo_SetEnabled_keeps: "repo_SetEnabled pid on now d = Inr d' \<Longrightarrow> printers_ok d \<Longrightarrow> printers_ok d'"
  by (auto simp: repo_SetEnabled_def printers_ok_def map_update_where split: if_split_asm)

text \<open>What is saved is what is read, with the stored creation time of an existing printer.\<close>

definition same_settings :: "printer_config \<Rightarrow> printer_config \<Rightarrow> bool" where
  "same_settings p q \<longleftrightarrow> p\<lparr>pc_retired_at := None, pc_created_at := 0, pc_updated_at := 0\<rparr> =
     q\<lparr>pc_retired_at := None, pc_created_at := 0, pc_updated_at := 0\<rparr>"

lemma save_then_get:
  assumes "SavePrinter p now d = Inr d'" "printers_ok d"
  shows "\<exists>q. GetPrinter (pc_id p) d' = Inr q \<and> same_settings p q \<and>
    (\<forall>pid. pid \<noteq> pc_id p \<longrightarrow> GetPrinter pid d' = GetPrinter pid d)"
proof (cases "pc_id p \<in> pc_id ` set (db_printers d)")
  case False
  let ?new = "p\<lparr>pc_retired_at := None, pc_created_at := now, pc_updated_at := now\<rparr>"
  have d': "db_printers d' = db_printers d @ [?new]" using assms(1) False by (auto simp: SavePrinter_def)
  have "GetPrinter (pc_id p) d' = Inr ?new"
    using SavePrinter_keeps [OF assms] by (simp add: GetPrinter_iff live_printers_def d')
  moreover have "GetPrinter pid d' = GetPrinter pid d" if "pid \<noteq> pc_id p" for pid
  proof -
    have "List.find (\<lambda>q. pc_id q = pid \<and> pc_retired_at q = None) (xs @ [?new]) =
        List.find (\<lambda>q. pc_id q = pid \<and> pc_retired_at q = None) xs" for xs
      using that by (induction xs) auto
    then show ?thesis by (simp add: GetPrinter_def d')
  qed
  ultimately show ?thesis by (intro exI [of _ ?new]) (simp add: same_settings_def)
next
  case True
  let ?P = "\<lambda>q. pc_id q = pc_id p \<and> pc_retired_at q = None"
  obtain q where q: "q \<in> set (db_printers d)" "?P q"
    and d': "db_printers d' = update_where ?P (saved_over p now) (db_printers d)"
    using assms(1) True by (auto simp: SavePrinter_def split: if_split_asm)
  have "saved_over p now q \<in> set (live_printers d')"
    using q by (auto simp: live_printers_def d' set_update_where)
  then have "GetPrinter (pc_id p) d' = Inr (saved_over p now q)"
    using SavePrinter_keeps [OF assms] q by (simp add: GetPrinter_iff)
  moreover have "same_settings p (saved_over p now q)"
    using q unfolding same_settings_def by (intro printer_config.equality) (simp_all add: saved_over_def)
  moreover have "GetPrinter pid d' = GetPrinter pid d" if "pid \<noteq> pc_id p" for pid
  proof -
    have "List.find (\<lambda>q. pc_id q = pid \<and> pc_retired_at q = None) (update_where ?P (saved_over p now) xs) =
        List.find (\<lambda>q. pc_id q = pid \<and> pc_retired_at q = None) xs" for xs
      using that by (induction xs) auto
    then show ?thesis by (simp add: GetPrinter_def d')
  qed
  ultimately show ?thesis by blast
qed

text \<open>Retiring is final: the identifier is not visible again and can not be saved again.\<close>

lemma retired_forever:
  assumes "DeletePrinter pid now d = Inr d'" "printers_ok d"
  shows "GetPrinter pid d' = Inl PrinterNotFound \<and> (\<forall>p t. pc_id p = pid \<longrightarrow> SavePrinter p t d' = Inl PrinterRetired)"
proof -
  let ?P = "\<lambda>q. pc_id q = pid \<and> pc_retired_at q = None"
  obtain q where q: "q \<in> set (db_printers d)" "?P q"
    and d': "db_printers d' = update_where ?P (\<lambda>q. q\<lparr>pc_enabled := False, pc_retired_at := Some now, pc_updated_at := now\<rparr>) (db_printers d)"
    using assms(1) by (auto simp: DeletePrinter_def split: if_split_asm)
  have none: "\<not> ?P x" if "x \<in> set (db_printers d')" for x
    using that unfolding d' by (cases rule: update_whereE) auto
  then have "List.find ?P (db_printers d') = None" by (simp add: find_None_iff)
  moreover have "pid \<in> pc_id ` set (db_printers d')"
    using q image_update_where [of "db_printers d" ?P pc_id "\<lambda>q. q\<lparr>pc_enabled := False, pc_retired_at := Some now, pc_updated_at := now\<rparr>"]
    by (auto simp: d')
  ultimately show ?thesis using none by (auto simp: GetPrinter_def SavePrinter_def)
qed

lemma settings_get_set: "GetSetting k (SetSetting k' v d) = (if k = k' then v else GetSetting k d)"
  by (simp add: GetSetting_def SetSetting_def update_conv)

end
