(* ===== verification/ProcessingRuns.thy ===== *)
theory ProcessingRuns
  imports WorkerCorrect ConfigRepository
begin

text \<open>
  The runs that are being processed, and what each transaction of the agent does to them: a claim adds
  one, an outcome removes one, a restart removes all, nothing else touches them.
\<close>

section \<open>The runs that are being processed\<close>

definition processing_uids :: "db \<Rightarrow> string list" where
  "processing_uids d = map r_uid (filter (\<lambda>r. r_status r = RunProcessing) (db_runs d))"

lemma processing_same_runs: "db_runs d' = db_runs d \<Longrightarrow> processing_uids d' = processing_uids d"
  by (simp add: processing_uids_def)

lemma update_runs_processing:
  assumes "update_runs P f d = Inr (n, d')"
    and "\<And>r. r \<in> set (db_runs d) \<Longrightarrow> P r \<Longrightarrow> (r_status (f r) = RunProcessing) = (r_status r = RunProcessing) \<and> r_uid (f r) = r_uid r"
  shows "processing_uids d' = processing_uids d"
proof -
  have "map r_uid (filter (\<lambda>r. r_status r = RunProcessing) (update_where P f xs)) =
      map r_uid (filter (\<lambda>r. r_status r = RunProcessing) xs)" if "set xs \<subseteq> set (db_runs d)" for xs
    using that assms(2) by (induction xs) auto
  with update_runs_InrD(1) [OF assms(1)] show ?thesis by (simp add: processing_uids_def)
qed

lemma insert_run_processing:
  "insert_run r d = Inr d' \<Longrightarrow> r_status r \<noteq> RunProcessing \<Longrightarrow> processing_uids d' = processing_uids d"
  by (auto simp: processing_uids_def elim!: insert_run_InrD)

lemma insert_runs_processing:
  "fold_sum (\<lambda>d r. insert_run r d) d runs = Inr d' \<Longrightarrow> \<forall>r \<in> set runs. r_status r \<noteq> RunProcessing \<Longrightarrow>
     processing_uids d' = processing_uids d"
  by (induction runs arbitrary: d) (auto simp: insert_run_processing elim!: sum_bindE)

lemma InsertJob_processing:
  assumes "InsertJob job targets runs d = Inr d'" "\<forall>r \<in> set runs. r_status r \<noteq> RunProcessing"
  shows "processing_uids d' = processing_uids d"
  using assms(1)
proof (rule InsertJob_InrD)
  fix d1 d2 assume s: "insert_job job d = Inr d1" "fold_sum (\<lambda>d t. insert_target t d) d1 targets = Inr d2"
    "fold_sum (\<lambda>d r. insert_run r d) d2 runs = Inr d'"
  have "processing_uids d2 = processing_uids d"
    using insert_job_result [OF s(1)] insert_targets_result [OF s(2)] by (simp add: processing_uids_def)
  with insert_runs_processing [OF s(3) assms(2)] show ?thesis by simp
qed

lemma extend_retention_processing [simp]: "processing_uids (extend_retention u t d) = processing_uids d"
  by (simp add: processing_uids_def)

lemma update_expiry_processing [simp]: "processing_uids (update_expiry P t d) = processing_uids d"
  by (simp add: processing_uids_def update_expiry_def)

lemma update_cancellation_processing:
  "update_cancellation u p at reason d = (n, d') \<Longrightarrow> processing_uids d' = processing_uids d"
  by (rule processing_same_runs) (rule update_cancellation_runs)

lemma transition_processing:
  assumes "transition uid target P f now d = Inr d'"
    and "\<And>r. P r \<Longrightarrow> r_status r \<noteq> RunProcessing \<and> r_status (f r) \<noteq> RunProcessing \<and> r_uid (f r) = r_uid r"
  shows "processing_uids d' = processing_uids d"
proof -
  obtain n e where u: "update_runs P f d = Inr (n, e)" and d': "d' = extend_retention uid (now + retentionWindow) e"
    using assms(1) by (auto simp: transition_def elim!: sum_bindE)
  have "processing_uids e = processing_uids d"
    by (rule update_runs_processing [OF u]) (use assms(2) in blast)
  with d' show ?thesis by simp
qed

lemma CancelRun_processing: "CancelRun uid now l d = Inr d' \<Longrightarrow> processing_uids d' = processing_uids d"
  unfolding CancelRun_def by (erule transition_processing) simp

lemma ResolveUncertain_processing:
  assumes "ResolveUncertain uid res now d = Inr d'" shows "processing_uids d' = processing_uids d"
proof -
  obtain r n e where u: "update_runs (\<lambda>r. r_uid r = uid \<and> r_status r = RunUncertain \<and> r_resolution r = None)
      (\<lambda>x. x\<lparr>r_resolution := Some r, r_resolved_at := Some now\<rparr>) d = Inr (n, e)"
    and d': "d' = extend_retention uid (now + retentionWindow) e"
    using assms by (auto simp: ResolveUncertain_def elim!: sum_bindE split: option.split_asm)
  have "processing_uids e = processing_uids d" by (rule update_runs_processing [OF u]) simp
  with d' show ?thesis by simp
qed

lemma cancel_target_processing:
  assumes "cancel_target u reason now d p = Inr d'" shows "processing_uids d' = processing_uids d"
  using assms
proof (rule cancel_target_InrD)
  fix d1 n2 d2 n3
  assume "update_cancellation u p (Some now) (nullable reason) d = (1, d1)"
    and a: "update_runs (\<lambda>r. r_job_uid r = u \<and> r_printer_id r = p \<and> r_status r = RunQueued)
      (\<lambda>r. r\<lparr>r_status := RunCancelled, r_retryable := False, r_finished_at := Some now\<rparr>) d1 = Inr (n2, d2)"
    and b: "update_runs (\<lambda>r. r_job_uid r = u \<and> r_printer_id r = p \<and> r_status r = RunFailed \<and>
        r_retryable r \<and> r_resolution r = None) (\<lambda>r. r\<lparr>r_retryable := False\<rparr>) d2 = Inr (n3, d')"
  then have "processing_uids d1 = processing_uids d" by (rule_tac update_cancellation_processing)
  moreover have "processing_uids d2 = processing_uids d1" by (rule update_runs_processing [OF a]) simp
  moreover have "processing_uids d' = processing_uids d2" by (rule update_runs_processing [OF b]) simp
  ultimately show ?thesis by simp
qed

lemma CancelTargets_processing:
  assumes "CancelTargets u ps reason now d = Inr d'" shows "processing_uids d' = processing_uids d"
proof -
  obtain e where e: "fold_sum (cancel_target u reason now) d ps = Inr e" "d' = update_expiry (\<lambda>j. j_uid j = u) (now + retentionWindow) e"
    using assms by (auto simp: CancelTargets_def elim!: sum_bindE)
  have "processing_uids e = processing_uids d"
    by (rule fold_sum_invariant [where I = "\<lambda>x. processing_uids x = processing_uids d", OF e(1)])
      (simp_all add: cancel_target_processing)
  with e(2) show ?thesis by simp
qed

lemma reprint_target_processing:
  assumes "reprint_target job req reason now fresh render (d, c) p = Inr (d', c')"
  shows "processing_uids d' = processing_uids d"
  using assms
proof (rule reprint_target_InrD)
  fix initial uid hash d1 d2 n n2
  assume i: "insert_run (reprint_run job req reason now uid p initial hash (next_run_number (j_uid job) p d)) d = Inr d1"
    and c: "update_cancellation (j_uid job) p None None d1 = (n, d2)"
    and u: "update_runs (\<lambda>r. r_job_uid r = j_uid job \<and> r_printer_id r = p \<and>
          (r_status r = RunFailed \<or> r_status r = RunUncertain) \<and> r_resolution r = None)
        (\<lambda>r. r\<lparr>r_retryable := False, r_resolution := Some ResolutionReprintRequested, r_resolved_at := Some now\<rparr>) d2 = Inr (n2, d')"
  have "processing_uids d1 = processing_uids d"
    by (rule insert_run_processing [OF i]) (simp add: reprint_run_def fresh_run_def)
  moreover have "processing_uids d' = processing_uids d2" by (rule update_runs_processing [OF u]) simp
  ultimately show ?thesis using update_cancellation_processing [OF c] by simp
qed

lemma InsertManualReprints_processing:
  assumes "InsertManualReprints u req hash reason ps now fresh render d = Inr (runs, d')"
  shows "processing_uids d' = processing_uids d"
proof -
  obtain x job d1 d2 where d1: "insert_dedup x d = Inr d1"
    and loop: "fold_sum (reprint_target job req reason now fresh render) (d1, []) (sort ps) = Inr (d2, runs)"
    and d': "d' = update_expiry (\<lambda>j. j_uid j = u) (now + retentionWindow) d2"
    using assms by (auto simp: InsertManualReprints_def elim!: sum_bindE split: sum.split_asm db_err.split_asm)
  have "processing_uids d1 = processing_uids d" using d1 by (auto simp: insert_dedup_def processing_uids_def split: if_splits)
  moreover have "processing_uids (fst (d2, runs)) = processing_uids d1"
    by (rule fold_sum_invariant [where I = "\<lambda>x. processing_uids (fst x) = processing_uids d1", OF loop])
      (auto dest: reprint_target_processing)
  ultimately show ?thesis by (simp add: d')
qed

lemma clear_retryable_processing:
  assumes "clear_retryable u d = Inr d'" shows "processing_uids d' = processing_uids d"
proof -
  obtain n where u: "update_runs (\<lambda>r. r_uid r = u \<and> r_retryable r) (\<lambda>r. r\<lparr>r_retryable := False\<rparr>) d = Inr (n, d')"
    using assms by (auto simp: clear_retryable_def elim!: sum_bindE)
  show ?thesis by (rule update_runs_processing [OF u]) simp
qed

lemma clear_retryable_always_processing:
  assumes "clear_retryable_always u d = Inr d'" shows "processing_uids d' = processing_uids d"
proof -
  obtain n where u: "update_runs (\<lambda>r. r_uid r = u) (\<lambda>r. r\<lparr>r_retryable := False\<rparr>) d = Inr (n, d')"
    using assms by (auto simp: clear_retryable_always_def elim!: sum_bindE)
  show ?thesis by (rule update_runs_processing [OF u]) simp
qed

lemma materializeRetry_processing:
  assumes "materializeRetry u k render fresh now d = Some (Inr (made, d'))"
  shows "processing_uids d' = processing_uids d"
  using assms
  by (auto simp: materializeRetry_def materialize_at_def Let_def fresh_run_def
      elim!: sum_bindE dest!: clear_retryable_processing clear_retryable_always_processing insert_run_processing
      split: option.split_asm sum.split_asm if_split_asm)

lemma PurgeExpired_processing: "processing_uids (PurgeExpired now d) = processing_uids d"
proof -
  obtain gone where P: "db_runs (PurgeExpired now d) = filter (\<lambda>r. r_job_uid r \<notin> gone) (db_runs d)"
    and gone: "gone = j_uid ` {j \<in> set (db_jobs d). ts (j_expires_at j) < ts now \<and> \<not> unresolved_work d j}"
    by (simp add: PurgeExpired_def delete_events_def delete_jobs_def Let_def)
  have "r_job_uid r \<notin> gone" if "r \<in> set (db_runs d)" "r_status r = RunProcessing" for r
    using that by (auto simp: gone unresolved_work_def active_status_def)
  then have "filter (\<lambda>r. r_status r = RunProcessing) (filter (\<lambda>r. r_job_uid r \<notin> gone) (db_runs d)) =
      filter (\<lambda>r. r_status r = RunProcessing) (db_runs d)"
    by (auto simp: filter_filter intro: filter_cong)
  then show ?thesis by (simp add: processing_uids_def P)
qed

text \<open>An outcome removes its run, a claim adds one that was queued, a restart leaves none.\<close>

lemma transition_finishes:
  assumes "transition uid target (\<lambda>r. r_uid r = uid \<and> r_status r = RunProcessing) f now d = Inr d'"
    and "\<And>r. r_status (f r) \<noteq> RunProcessing"
  shows "processing_uids d' = filter (\<lambda>u. u \<noteq> uid) (processing_uids d)"
proof -
  obtain n e where u: "update_runs (\<lambda>r. r_uid r = uid \<and> r_status r = RunProcessing) f d = Inr (n, e)"
    and d': "d' = extend_retention uid (now + retentionWindow) e"
    using assms(1) by (auto simp: transition_def elim!: sum_bindE)
  have "map r_uid (filter (\<lambda>r. r_status r = RunProcessing) (update_where (\<lambda>r. r_uid r = uid \<and> r_status r = RunProcessing) f xs)) =
      filter (\<lambda>u. u \<noteq> uid) (map r_uid (filter (\<lambda>r. r_status r = RunProcessing) xs))" for xs
    using assms(2) by (induction xs) auto
  with update_runs_InrD(1) [OF u] d' show ?thesis by (simp add: processing_uids_def)
qed

lemma outcome_finishes:
  "mark_outcome uid oc now l d = Inr d' \<Longrightarrow> processing_uids d' = filter (\<lambda>u. u \<noteq> uid) (processing_uids d)"
  by (cases oc) (simp_all add: mark_outcome_def MarkTransmitted_def MarkUncertain_def MarkFailed_def transition_finishes)

lemma filter_eq_distinct: "distinct xs \<Longrightarrow> x \<in> set xs \<Longrightarrow> filter (\<lambda>v. v = x) xs = [x]"
  by (induction xs) (auto simp: filter_empty_conv)

lemma claim_adds_one:
  assumes "ClaimNextQueued p now d = Inr (run, d')" "db_ok d" "processing_uids d = []"
  shows "processing_uids d' = [r_uid run] \<and> run \<in> set (db_runs d')"
proof -
  have "\<exists>r \<in> set (db_runs d). queued_for p r" using assms(1) claim_none [of d p now] by auto
  then obtain r where r: "oldest_queued p d r" using oldest_exists by blast
  from claim_oldest [OF assms(2) r, of now] assms(1)
  have run: "run = claimed now r" "db_runs d' = update_where (\<lambda>x. r_uid x = r_uid r) (claimed now) (db_runs d)" by auto
  have r': "r \<in> set (db_runs d)" "distinct (map r_uid (db_runs d))"
    using r db_ok_uids [OF assms(2)] by (simp_all add: oldest_queued_def)
  have none: "r_status x \<noteq> RunProcessing" if "x \<in> set (db_runs d)" for x
    using that assms(3) by (auto simp: processing_uids_def filter_empty_conv)
  have "map r_uid (filter (\<lambda>x. r_status x = RunProcessing) (update_where (\<lambda>x. r_uid x = u) (claimed now) xs)) =
      filter (\<lambda>v. v = u) (map r_uid xs)" if "\<forall>x \<in> set xs. r_status x \<noteq> RunProcessing" for xs u
    using that by (induction xs) (auto simp: claimed_def)
  moreover have "filter (\<lambda>v. v = r_uid r) (map r_uid (db_runs d)) = [r_uid r]"
    using r' by (intro filter_eq_distinct) auto
  ultimately have "processing_uids d' = [r_uid r]" using none by (simp add: processing_uids_def run)
  moreover have "run \<in> set (db_runs d')" using r'(1) by (force simp: run set_update_where)
  ultimately show ?thesis by (simp add: run claimed_def)
qed

lemma recovery_finishes_all:
  assumes "RecoverAbandoned now d = Inr (rs, d')" "db_ok d" shows "processing_uids d' = []"
proof -
  have "map r_uid (filter (\<lambda>r. r_status r = RunProcessing) (update_where (\<lambda>r. r_status r = RunProcessing) (abandon now) xs)) = []"
    for xs by (induction xs) (simp_all add: abandon_def)
  with assms show ?thesis by (auto simp: recover_result processing_uids_def)
qed

section \<open>Everything else\<close>

text \<open>The transactions of the clients, the operator, the retries, the retention and the configuration.\<close>

inductive other_step :: "db \<Rightarrow> db \<Rightarrow> bool" where
  other_accept: "InsertJob job targets runs d = Inr d' \<Longrightarrow> accepted_shape targets runs \<Longrightarrow>
    \<forall>r \<in> set runs. r_status r = RunQueued \<Longrightarrow> other_step d d'"
| other_cancel: "CancelRun uid now l d = Inr d' \<Longrightarrow> other_step d d'"
| other_resolve: "ResolveUncertain uid res now d = Inr d' \<Longrightarrow> other_step d d'"
| other_cancel_targets: "CancelTargets u ps reason now d = Inr d' \<Longrightarrow> other_step d d'"
| other_reprint: "InsertManualReprints u req hash reason ps now fresh reprint d = Inr (created, d') \<Longrightarrow> other_step d d'"
| other_retry: "materializeRetry u (int MaxAutomaticRetries) render fresh1 now d = Some (Inr (made, d')) \<Longrightarrow> other_step d d'"
| other_purge: "other_step d (PurgeExpired now d)"
| other_save: "SavePrinter cfg now d = Inr d' \<Longrightarrow> other_step d d'"
| other_delete: "DeletePrinter pid now d = Inr d' \<Longrightarrow> other_step d d'"
| other_setting: "other_step d (SetSetting k v d)"

lemma printers_grow:
  assumes "db_ok d" "distinct (map pc_id ps)" "pc_id ` set (db_printers d) \<subseteq> pc_id ` set ps"
  shows "db_ok (d\<lparr>db_printers := ps\<rparr>)"
  using assms by (auto simp: db_ok_def schema_ok_def schema_defs lineage_ok_def retry_source_def initial_ok_def child_ok_def)

lemma SavePrinter_db_ok: assumes "SavePrinter cfg now d = Inr d'" "db_ok d" shows "db_ok d'"
proof -
  obtain ps where d': "d' = d\<lparr>db_printers := ps\<rparr>" and grow: "pc_id ` set (db_printers d) \<subseteq> pc_id ` set ps"
    using assms(1) by (fastforce simp: SavePrinter_def image_update_where split: if_split_asm)
  have "printers_ok d'"
    using SavePrinter_keeps [OF assms(1)] assms(2) by (simp add: printers_ok_def db_ok_def schema_ok_def)
  with grow show ?thesis unfolding d' by (intro printers_grow [OF assms(2)]) (simp_all add: printers_ok_def)
qed

lemma DeletePrinter_db_ok: assumes "DeletePrinter pid now d = Inr d'" "db_ok d" shows "db_ok d'"
proof -
  obtain ps where d': "d' = d\<lparr>db_printers := ps\<rparr>" and grow: "pc_id ` set (db_printers d) \<subseteq> pc_id ` set ps"
    using assms(1) by (fastforce simp: DeletePrinter_def image_update_where split: if_split_asm)
  have "printers_ok d'"
    using DeletePrinter_keeps [OF assms(1)] assms(2) by (simp add: printers_ok_def db_ok_def schema_ok_def)
  with grow show ?thesis unfolding d' by (intro printers_grow [OF assms(2)]) (simp_all add: printers_ok_def)
qed

lemma setting_db_ok: "db_ok d \<Longrightarrow> db_ok (SetSetting k v d)"
  by (auto simp: SetSetting_def db_ok_def schema_ok_def schema_defs lineage_ok_def retry_source_def initial_ok_def child_ok_def)

lemma other_keeps: "other_step d d' \<Longrightarrow> db_ok d \<Longrightarrow> db_ok d'"
proof (induction rule: other_step.induct)
  case (other_save cfg now d d')
  then show ?case by (rule SavePrinter_db_ok)
next
  case (other_delete pid now d d')
  then show ?case by (rule DeletePrinter_db_ok)
qed (auto intro: repo_step_keeps repo_step.intros setting_db_ok)

lemma other_processing: "other_step d d' \<Longrightarrow> processing_uids d' = processing_uids d"
proof (induction rule: other_step.induct)
  case (other_accept job targets runs d d')
  then show ?case by (intro InsertJob_processing) auto
next
  case (other_save cfg now d d')
  then show ?case by (auto intro!: processing_same_runs simp: SavePrinter_def split: if_split_asm)
next
  case (other_delete pid now d d')
  then show ?case by (auto intro!: processing_same_runs simp: DeletePrinter_def split: if_split_asm)
next
  case (other_setting d k v)
  then show ?case by (auto intro!: processing_same_runs simp: SetSetting_def)
qed (simp_all add: CancelRun_processing ResolveUncertain_processing CancelTargets_processing
    InsertManualReprints_processing materializeRetry_processing PurgeExpired_processing)

end
