(* ===== verification/Manager.thy ===== *)
theory Manager
  imports Worker ConfigRepository
begin

text \<open>
  \<open>internal/printers/manager.go\<close>: the owner of all workers. Its operations hold \<open>lifecycleMu\<close>, so each is
  one step on the map of the running workers and the stored configurations; \<open>stopWorker\<close> returns when the
  goroutine has ended. Only the part of a worker that the manager sees is kept: its state record.
\<close>

record 'c manager =
  mg_ctx :: bool
  mg_started :: bool
  mg_workers :: "string \<rightharpoonup> 'c worker"

datatype manager_err =
    NeedsContext
  | ProcessingConflict
  | AlreadyExists
  | ActiveWork
  | NoActiveWorker string
  | ConfigErr config_repo_err
  | UpdateRefused string

datatype manager_event = ConfigChanged string string

definition NewManager :: "'c manager" where
  "NewManager = \<lparr>mg_ctx = False, mg_started = False, mg_workers = Map.empty\<rparr>"

section \<open>Workers\<close>

definition startWorker :: "printer_config \<Rightarrow> 'c manager \<Rightarrow> 'c manager" where
  "startWorker cfg m =
     (if \<not> mg_ctx m then m else m\<lparr>mg_workers := (mg_workers m)(pc_id cfg \<mapsto> newWorker cfg)\<rparr>)"

definition stopWorker :: "string \<Rightarrow> 'c manager \<Rightarrow> 'c manager" where
  "stopWorker pid m = m\<lparr>mg_workers := (mg_workers m)(pid := None)\<rparr>"

definition getWorker :: "string \<Rightarrow> 'c manager \<Rightarrow> 'c worker option" where
  "getWorker pid m = mg_workers m pid"

definition update_worker :: "('c worker \<Rightarrow> 'c worker) \<Rightarrow> string \<Rightarrow> 'c manager \<Rightarrow> 'c manager" where
  "update_worker f pid m =
     (case getWorker pid m of None \<Rightarrow> m | Some w \<Rightarrow> m\<lparr>mg_workers := (mg_workers m)(pid \<mapsto> f w)\<rparr>)"

definition Manager_Wake :: "string \<Rightarrow> 'c manager \<Rightarrow> 'c manager" where
  "Manager_Wake = update_worker worker_Wake"

definition Start :: "bool \<Rightarrow> db \<Rightarrow> 'c manager \<Rightarrow> manager_err + 'c manager" where
  "Start ctx d m =
     (if \<not> ctx then Inl NeedsContext
      else if mg_started m then Inr m
      else Inr (fold (\<lambda>p m. if pc_enabled p then startWorker p m else m) (ListPrinters d)
                  (m\<lparr>mg_ctx := True, mg_started := True\<rparr>)))"

definition Stop :: "'c manager \<Rightarrow> 'c manager" where
  "Stop m = m\<lparr>mg_workers := Map.empty, mg_ctx := False, mg_started := False\<rparr>"

definition manager_PrinterExists :: "db \<Rightarrow> string \<Rightarrow> bool" where
  "manager_PrinterExists d pid = (case GetPrinter pid d of Inl _ \<Rightarrow> False | Inr _ \<Rightarrow> True)"

definition manager_PrinterConfig :: "db \<Rightarrow> string \<Rightarrow> printer_config option" where
  "manager_PrinterConfig d pid = (case GetPrinter pid d of Inl _ \<Rightarrow> None | Inr p \<Rightarrow> Some p)"

section \<open>Configuration\<close>

definition applyPrinterLocked ::
    "printer_config \<Rightarrow> time \<Rightarrow> 'c manager \<times> db \<Rightarrow> manager_err + ('c manager \<times> db \<times> manager_event list)" where
  "applyPrinterLocked cfg now md = (case md of (m, d) \<Rightarrow>
     if HasProcessingRun (pc_id cfg) d then Inl ProcessingConflict
     else sum_bind (map_err ConfigErr (SavePrinter cfg now d)) (\<lambda>d.
       (let m = stopWorker (pc_id cfg) m;
            m = (if pc_enabled cfg then startWorker cfg m else m)
        in Inr (m, d, [ConfigChanged (pc_id cfg) ''printer configuration saved'']))))"

definition ApplyPrinter where
  "ApplyPrinter = applyPrinterLocked"

definition CreatePrinter ::
    "printer_config \<Rightarrow> time \<Rightarrow> 'c manager \<times> db \<Rightarrow> manager_err + ('c manager \<times> db \<times> manager_event list)" where
  "CreatePrinter cfg now md =
     (case GetPrinter (pc_id cfg) (snd md) of
        Inr _ \<Rightarrow> Inl AlreadyExists
      | Inl PrinterNotFound \<Rightarrow> applyPrinterLocked cfg now md
      | Inl e \<Rightarrow> Inl (ConfigErr e))"

definition UpdatePrinter ::
    "printer_config \<Rightarrow> time \<Rightarrow> 'c manager \<times> db \<Rightarrow> manager_err + ('c manager \<times> db \<times> manager_event list)" where
  "UpdatePrinter cfg now md =
     sum_bind (map_err ConfigErr (GetPrinter (pc_id cfg) (snd md))) (\<lambda>_. applyPrinterLocked cfg now md)"

definition UpdatePrinterWith ::
    "string \<Rightarrow> (printer_config \<Rightarrow> string + printer_config) \<Rightarrow> time \<Rightarrow> 'c manager \<times> db \<Rightarrow>
     manager_err + (printer_config \<times> 'c manager \<times> db \<times> manager_event list)" where
  "UpdatePrinterWith pid update now md =
     sum_bind (map_err ConfigErr (GetPrinter pid (snd md))) (\<lambda>cfg.
     sum_bind (map_err UpdateRefused (update cfg)) (\<lambda>cfg.
     sum_bind (applyPrinterLocked cfg now md) (\<lambda>(m, d, evs).
     sum_bind (map_err ConfigErr (GetPrinter pid d)) (\<lambda>saved. Inr (saved, m, d, evs)))))"

definition RemovePrinter ::
    "string \<Rightarrow> time \<Rightarrow> 'c manager \<times> db \<Rightarrow> (manager_err + manager_event list) \<times> 'c manager \<times> db" where
  "RemovePrinter pid now md = (case md of (m, d) \<Rightarrow>
     if HasActiveRuns pid d then (Inl ActiveWork, m, d)
     else (case GetPrinter pid d of
         Inl e \<Rightarrow> (Inl (ConfigErr e), m, d)
       | Inr cfg \<Rightarrow>
          (let m = stopWorker pid m in
           case DeletePrinter pid now d of
             Inl e \<Rightarrow> (Inl (ConfigErr e), if pc_enabled cfg then startWorker cfg m else m, d)
           | Inr d \<Rightarrow> (Inr [ConfigChanged pid ''printer removed''], m, d))))"

definition SetEnabled ::
    "string \<Rightarrow> bool \<Rightarrow> time \<Rightarrow> 'c manager \<times> db \<Rightarrow> manager_err + ('c manager \<times> db \<times> manager_event list)" where
  "SetEnabled pid enabled now md =
     sum_bind (map_err ConfigErr (GetPrinter pid (snd md))) (\<lambda>cfg.
       applyPrinterLocked (cfg\<lparr>pc_enabled := enabled\<rparr>) now md)"

section \<open>Operator requests and status\<close>

definition Reconnect :: "string \<Rightarrow> 'c manager \<Rightarrow> manager_err + 'c manager" where
  "Reconnect pid m = (case getWorker pid m of
     None \<Rightarrow> Inl (NoActiveWorker pid) | Some _ \<Rightarrow> Inr (update_worker ReconnectNow pid m))"

definition ReconnectAll :: "'c manager \<Rightarrow> 'c manager" where
  "ReconnectAll m = m\<lparr>mg_workers := map_option ReconnectNow \<circ> mg_workers m\<rparr>"

definition printer_status :: "'c worker_env \<Rightarrow> 'c manager \<Rightarrow> db \<Rightarrow> printer_config \<Rightarrow> status" where
  "printer_status env m d p =
     (let st = (case getWorker (pc_id p) m of
            Some w \<Rightarrow> (worker_status env w)\<lparr>st_printer := p\<rparr>
          | None \<Rightarrow> \<lparr>st_printer = p, st_state = (if pc_enabled p then StateDisconnected else StateDisabled),
                     st_endpoint = pc_endpoint p, st_last_error = [], st_last_transmission = None,
                     st_queue_depth = 0, st_attention_count = 0, st_reconnect_attempt = 0, st_next_retry_at = None\<rparr>)
      in st\<lparr>st_queue_depth := (case QueueDepth d (pc_id p) of None \<Rightarrow> 0 | Some n \<Rightarrow> n),
            st_attention_count := (case AttentionCount d (pc_id p) of None \<Rightarrow> 0 | Some n \<Rightarrow> n)\<rparr>)"

definition Statuses :: "'c worker_env \<Rightarrow> 'c manager \<Rightarrow> db \<Rightarrow> status list" where
  "Statuses env m d = map (printer_status env m d) (ListPrinters d)"

definition PersistenceStatus :: "gate \<Rightarrow> persistence_status" where
  "PersistenceStatus = gate_status"

section \<open>The directory the Job service relies on\<close>

locale printer_directory =
  fixes known :: "string \<Rightarrow> bool" and config :: "string \<Rightarrow> printer_config option"
  assumes known_config: "known pid \<Longrightarrow> \<exists>cfg. config pid = Some cfg"
    and config_id: "config pid = Some cfg \<Longrightarrow> pc_id cfg = pid"
begin

text \<open>A list of checked printers can be configured, each with the entry of that identifier.\<close>

lemma checked_are_configured:
  "\<forall>p \<in> set pids. known p \<Longrightarrow> \<exists>cfgs. map config pids = map Some cfgs \<and> map pc_id cfgs = pids"
proof (induction pids)
  case (Cons p pids)
  then obtain cfg cfgs where "config p = Some cfg" "map config pids = map Some cfgs" "map pc_id cfgs = pids"
    using known_config [of p] by auto
  then show ?case using config_id [of p cfg] by (intro exI [of _ "cfg # cfgs"]) simp
qed simp

end

interpretation directory: printer_directory "manager_PrinterExists d" "manager_PrinterConfig d"
  by unfold_locales
    (auto simp: manager_PrinterExists_def manager_PrinterConfig_def dest: GetPrinter_InrD split: sum.split_asm)

section \<open>Workers and configuration agree\<close>

text \<open>
  While the manager runs there is a worker for exactly the enabled printers, each with the stored
  settings of its printer; otherwise there is none.
\<close>

definition manager_ok :: "'c manager \<Rightarrow> db \<Rightarrow> bool" where
  "manager_ok m d \<longleftrightarrow> mg_ctx m = mg_started m \<and>
     (\<forall>pid. case mg_workers m pid of
        None \<Rightarrow> \<not> mg_started m \<or> \<not> (\<exists>p. GetPrinter pid d = Inr p \<and> pc_enabled p)
      | Some w \<Rightarrow> mg_started m \<and> (\<exists>p. GetPrinter pid d = Inr p \<and> pc_enabled p \<and> same_settings p (wk_cfg w)))"

lemma same_settings_refl [simp]: "same_settings p p"
  by (simp add: same_settings_def)

lemma same_settings_sym: "same_settings p q \<Longrightarrow> same_settings q p"
  by (simp add: same_settings_def)

lemma same_settings_enabled: "same_settings p q \<Longrightarrow> pc_enabled p = pc_enabled q"
  unfolding same_settings_def by (drule arg_cong [where f = pc_enabled]) simp

lemma manager_okI:
  assumes "mg_ctx m = mg_started m"
    and "\<And>pid w. mg_workers m pid = Some w \<Longrightarrow> mg_started m \<and> (\<exists>p. GetPrinter pid d = Inr p \<and> pc_enabled p \<and> same_settings p (wk_cfg w))"
    and "\<And>pid p. mg_started m \<Longrightarrow> GetPrinter pid d = Inr p \<Longrightarrow> pc_enabled p \<Longrightarrow> mg_workers m pid \<noteq> None"
  shows "manager_ok m d"
  unfolding manager_ok_def
proof (intro conjI allI)
  fix pid
  show "case mg_workers m pid of None \<Rightarrow> \<not> mg_started m \<or> \<not> (\<exists>p. GetPrinter pid d = Inr p \<and> pc_enabled p)
      | Some w \<Rightarrow> mg_started m \<and> (\<exists>p. GetPrinter pid d = Inr p \<and> pc_enabled p \<and> same_settings p (wk_cfg w))"
    using assms(2) [of pid] assms(3) [of pid] by (cases "mg_workers m pid") auto
qed (rule assms(1))

lemma manager_okD:
  assumes "manager_ok m d"
  shows "mg_ctx m = mg_started m"
    and "mg_workers m pid = Some w \<Longrightarrow> mg_started m \<and> (\<exists>p. GetPrinter pid d = Inr p \<and> pc_enabled p \<and> same_settings p (wk_cfg w))"
    and "mg_started m \<Longrightarrow> GetPrinter pid d = Inr p \<Longrightarrow> pc_enabled p \<Longrightarrow> mg_workers m pid \<noteq> None"
  using assms unfolding manager_ok_def by (auto split: option.split_asm) (metis option.case(1))+

lemma newWorker_cfg [simp]: "wk_cfg (newWorker cfg) = cfg"
  by (simp add: newWorker_def)

lemma start_loop:
  "mg_ctx m \<Longrightarrow> fold (\<lambda>p m. if pc_enabled p then startWorker p m else m) ps m =
     m\<lparr>mg_workers := mg_workers m ++ map_of (rev (map (\<lambda>p. (pc_id p, newWorker p)) (filter pc_enabled ps)))\<rparr>"
proof (induction ps arbitrary: m)
  case (Cons p ps)
  then show ?case by (simp add: startWorker_def)
qed simp

lemma Start_ok:
  assumes "Start ctx d m = Inr m'" "manager_ok m d" "printers_ok d"
  shows "manager_ok m' d"
proof (cases "mg_started m")
  case True
  with assms show ?thesis by (simp add: Start_def split: if_split_asm)
next
  case False
  have none: "mg_workers m = Map.empty"
    using manager_okD(2) [OF assms(2)] False by (intro ext) (metis not_None_eq)
  let ?entries = "rev (map (\<lambda>p. (pc_id p, newWorker p)) (filter pc_enabled (ListPrinters d)))"
  have m': "mg_workers m' = map_of ?entries" "mg_ctx m'" "mg_started m'"
    using assms(1) False by (auto simp: Start_def start_loop none split: if_split_asm)
  have live: "p \<in> set (ListPrinters d) \<longleftrightarrow> GetPrinter (pc_id p) d = Inr p" for p
    using assms(3) by (simp add: ListPrinters_sorted(2) GetPrinter_iff)
  show ?thesis
  proof (rule manager_okI)
    fix pid w assume "mg_workers m' pid = Some w"
    then have "(pid, w) \<in> set ?entries" unfolding m' by (rule map_of_SomeD)
    then show "mg_started m' \<and> (\<exists>p. GetPrinter pid d = Inr p \<and> pc_enabled p \<and> same_settings p (wk_cfg w))"
      using m' live by auto
  next
    fix pid p assume p: "GetPrinter pid d = Inr p" "pc_enabled p"
    then have "pc_id p = pid" using GetPrinter_InrD by blast
    with p live have "pid \<in> fst ` set ?entries" by (force simp: image_iff)
    then show "mg_workers m' pid \<noteq> None" by (simp add: m' map_of_eq_None_iff)
  qed (simp add: m')
qed

lemma Stop_ok: "manager_ok (Stop m) d"
  by (simp add: manager_ok_def Stop_def)

lemma apply_ok:
  assumes "applyPrinterLocked cfg now (m, d) = Inr (m', d', evs)" "manager_ok m d" "printers_ok d"
  shows "manager_ok m' d' \<and> printers_ok d'"
proof -
  have s: "SavePrinter cfg now d = Inr d'"
    and m': "m' = (if pc_enabled cfg then startWorker cfg (stopWorker (pc_id cfg) m) else stopWorker (pc_id cfg) m)"
    using assms(1) by (auto simp: applyPrinterLocked_def Let_def elim!: sum_bindE split: if_split_asm)
  from save_then_get [OF s assms(3)] obtain q where q: "GetPrinter (pc_id cfg) d' = Inr q" "same_settings cfg q"
    and other: "\<And>pid. pid \<noteq> pc_id cfg \<Longrightarrow> GetPrinter pid d' = GetPrinter pid d" by blast
  have en: "pc_enabled q = pc_enabled cfg" using same_settings_enabled [OF q(2)] by simp
  note ok = manager_okD [OF assms(2)]
  have "manager_ok m' d'"
  proof (rule manager_okI)
    show "mg_ctx m' = mg_started m'" using ok(1) by (simp add: m' startWorker_def stopWorker_def)
  next
    fix pid w assume w: "mg_workers m' pid = Some w"
    show "mg_started m' \<and> (\<exists>p. GetPrinter pid d' = Inr p \<and> pc_enabled p \<and> same_settings p (wk_cfg w))"
    proof (cases "pid = pc_id cfg")
      case True
      with w ok(1) q en show ?thesis
        by (auto simp: m' startWorker_def stopWorker_def same_settings_sym split: if_split_asm)
    next
      case False
      with w ok(2) [of pid w] other show ?thesis
        by (auto simp: m' startWorker_def stopWorker_def split: if_split_asm)
    qed
  next
    fix pid p assume p: "mg_started m'" "GetPrinter pid d' = Inr p" "pc_enabled p"
    show "mg_workers m' pid \<noteq> None"
    proof (cases "pid = pc_id cfg")
      case True
      with p q en ok(1) show ?thesis by (auto simp: m' startWorker_def stopWorker_def)
    next
      case False
      with p other ok(3) [of pid p] show ?thesis by (auto simp: m' startWorker_def stopWorker_def split: if_split_asm)
    qed
  qed
  with SavePrinter_keeps [OF s assms(3)] show ?thesis by simp
qed

lemma delete_others:
  assumes "DeletePrinter pid now d = Inr d'" "q \<noteq> pid" shows "GetPrinter q d' = GetPrinter q d"
proof -
  have f: "List.find (\<lambda>p. pc_id p = q \<and> pc_retired_at p = None) (update_where (\<lambda>p. pc_id p = pid \<and> pc_retired_at p = None)
      (\<lambda>p. p\<lparr>pc_enabled := False, pc_retired_at := Some now, pc_updated_at := now\<rparr>) xs) =
      List.find (\<lambda>p. pc_id p = q \<and> pc_retired_at p = None) xs" for xs
    using assms(2) by (induction xs) auto
  obtain e where "d' = d\<lparr>db_printers := update_where (\<lambda>p. pc_id p = pid \<and> pc_retired_at p = None)
      (\<lambda>p. p\<lparr>pc_enabled := False, pc_retired_at := Some now, pc_updated_at := now\<rparr>) (db_printers d)\<rparr>"
    using assms(1) by (auto simp: DeletePrinter_def split: if_split_asm)
  then show ?thesis by (simp add: GetPrinter_def f)
qed

lemma remove_ok:
  assumes "RemovePrinter pid now (m, d) = (res, m', d')" "manager_ok m d" "printers_ok d"
  shows "manager_ok m' d' \<and> printers_ok d'"
proof (cases "\<exists>evs. res = Inr evs")
  case False
  have "\<exists>q \<in> set (db_printers d). pc_id q = pid \<and> pc_retired_at q = None" if "GetPrinter pid d = Inr cfg" for cfg
    using GetPrinter_InrD [OF that] by (auto simp: live_printers_def)
  with assms False show ?thesis
    by (auto simp: RemovePrinter_def DeletePrinter_def Let_def split: if_split_asm sum.split_asm)
next
  case True
  have del: "DeletePrinter pid now d = Inr d'" and m': "m' = stopWorker pid m"
    using assms(1) True by (auto simp: RemovePrinter_def Let_def split: if_split_asm sum.split_asm)
  note gone = retired_forever [OF del assms(3)]
  note ok = manager_okD [OF assms(2)]
  have "manager_ok m' d'"
  proof (rule manager_okI)
    show "mg_ctx m' = mg_started m'" using ok(1) by (simp add: m' stopWorker_def)
  next
    fix q w assume w: "mg_workers m' q = Some w"
    then have "q \<noteq> pid" by (auto simp: m' stopWorker_def)
    with w ok(2) [of q w] delete_others [OF del] show
      "mg_started m' \<and> (\<exists>p. GetPrinter q d' = Inr p \<and> pc_enabled p \<and> same_settings p (wk_cfg w))"
      by (auto simp: m' stopWorker_def)
  next
    fix q p assume p: "mg_started m'" "GetPrinter q d' = Inr p" "pc_enabled p"
    then have "q \<noteq> pid" using gone by auto
    with p ok(3) [of q p] delete_others [OF del] show "mg_workers m' q \<noteq> None" by (auto simp: m' stopWorker_def)
  qed
  with DeletePrinter_keeps [OF del assms(3)] show ?thesis by simp
qed

end
