(* ===== verification/System.thy ===== *)
theory System
  imports ProcessingRuns ServiceProperties Manager
begin

text \<open>
  The agent as a whole: the workers of all printers, the gate and the permit they share, the clients,
  the operator and restarts, interleaved in any order. A step is one transaction or one use of the gate
  or the permit; between two steps of one worker anything else may happen.
\<close>

section \<open>Steps\<close>

text \<open>
  Where the worker of a printer is in \<open>drainQueue\<close>. \<open>Waiting\<close>: past \<open>gate.wait\<close>, before
  \<open>transmission.acquire\<close>. \<open>Holding\<close>: before its first try to claim. \<open>Claiming\<close>: in the retry loop of
  \<open>claimNext\<close>. \<open>Printing\<close>: in \<open>process\<close>, before \<open>persist\<close>. \<open>Storing\<close>: in the first try of
  \<open>persist\<close>. \<open>Retrying\<close>: in its loop.
\<close>

datatype phase =
    Idle | Waiting | Holding | Claiming | Printing string | Storing string outcome | Retrying string outcome

record sys =
  sy_db :: db
  sy_gate :: gate
  sy_permit :: nat
  sy_phase :: "string \<Rightarrow> phase"

abbreviation moves :: "string \<Rightarrow> phase \<Rightarrow> sys \<Rightarrow> sys" where
  "moves p x s \<equiv> s\<lparr>sy_phase := (sy_phase s)(p := x)\<rparr>"

text \<open>A failure that allows a retry is stored with the zero bytes the worker decided on.\<close>

definition storable :: "outcome \<Rightarrow> bool" where
  "storable oc = (case oc of Failed n code msg retryable \<Rightarrow> retryable \<longrightarrow> n = 0 | _ \<Rightarrow> True)"

text \<open>The agent after a start: \<open>RecoverAbandoned\<close> has run, \<open>NewManager\<close> has made the gate and the permit.\<close>

definition started :: "db \<Rightarrow> sys" where
  "started d = \<lparr>sy_db = d, sy_gate = newPersistenceGate, sy_permit = newTransmissionGate, sy_phase = (\<lambda>_. Idle)\<rparr>"

inductive sys_step :: "sys \<Rightarrow> sys \<Rightarrow> bool" where
  pass_gate: "sy_phase s p = Idle \<Longrightarrow> gate_passes (sy_gate s) \<Longrightarrow> sys_step s (moves p Waiting s)"
| give_up: "sy_phase s p = Waiting \<Longrightarrow> sys_step s (moves p Idle s)"
| take_permit: "sy_phase s p = Waiting \<Longrightarrow> acquire (sy_permit s) = Some n \<Longrightarrow>
    sys_step s (moves p Holding (s\<lparr>sy_permit := n\<rparr>))"
| claim: "sy_phase s p = Holding \<Longrightarrow> ClaimNextQueued p now (sy_db s) = Inr (run, d) \<Longrightarrow>
    sys_step s (moves p (Printing (r_uid run)) (s\<lparr>sy_db := d\<rparr>))"
| claim_empty: "sy_phase s p = Holding \<Longrightarrow> ClaimNextQueued p now (sy_db s) = Inl ErrNotFound \<Longrightarrow>
    release (sy_permit s) = Some n \<Longrightarrow> sys_step s (moves p Idle (s\<lparr>sy_permit := n\<rparr>))"
| claim_fails: "sy_phase s p = Holding \<Longrightarrow> sys_step s (moves p Claiming (s\<lparr>sy_gate := gate_begin e now (sy_gate s)\<rparr>))"
| claim_fails_again: "sy_phase s p = Claiming \<Longrightarrow> sys_step s (s\<lparr>sy_gate := gate_update e (sy_gate s)\<rparr>)"
| claim_late: "sy_phase s p = Claiming \<Longrightarrow> ClaimNextQueued p now (sy_db s) = Inr (run, d) \<Longrightarrow>
    gate_end (sy_gate s) = Some g \<Longrightarrow>
    sys_step s (moves p (Printing (r_uid run)) (s\<lparr>sy_db := d, sy_gate := g\<rparr>))"
| claim_late_empty: "sy_phase s p = Claiming \<Longrightarrow> ClaimNextQueued p now (sy_db s) = Inl ErrNotFound \<Longrightarrow>
    gate_end (sy_gate s) = Some g \<Longrightarrow> release (sy_permit s) = Some n \<Longrightarrow>
    sys_step s (moves p Idle (s\<lparr>sy_gate := g, sy_permit := n\<rparr>))"
| decided: "sy_phase s p = Printing u \<Longrightarrow> storable oc \<Longrightarrow> sys_step s (moves p (Storing u oc) s)"
| store: "sy_phase s p = Storing u oc \<Longrightarrow> mark_outcome u oc now l (sy_db s) = Inr d \<Longrightarrow>
    release (sy_permit s) = Some n \<Longrightarrow> sys_step s (moves p Idle (s\<lparr>sy_db := d, sy_permit := n\<rparr>))"
| store_fails: "sy_phase s p = Storing u oc \<Longrightarrow> d = sy_db s \<or> mark_outcome u oc now l (sy_db s) = Inr d \<Longrightarrow>
    sys_step s (moves p (Retrying u oc) (s\<lparr>sy_db := d, sy_gate := gate_begin e t (sy_gate s)\<rparr>))"
| store_fails_again: "sy_phase s p = Retrying u oc \<Longrightarrow> d = sy_db s \<or> mark_outcome u oc now l (sy_db s) = Inr d \<Longrightarrow>
    sys_step s (s\<lparr>sy_db := d, sy_gate := gate_update e (sy_gate s)\<rparr>)"
| store_late: "sy_phase s p = Retrying u oc \<Longrightarrow> mark_outcome u oc now l (sy_db s) = Inr d \<Longrightarrow>
    gate_end (sy_gate s) = Some g \<Longrightarrow> release (sy_permit s) = Some n \<Longrightarrow>
    sys_step s (moves p Idle (s\<lparr>sy_db := d, sy_gate := g, sy_permit := n\<rparr>))"
| others: "other_step (sy_db s) d \<Longrightarrow> sys_step s (s\<lparr>sy_db := d\<rparr>)"
| restart: "RecoverAbandoned now (sy_db s) = Inr (rs, d) \<Longrightarrow> sys_step s (started d)"

section \<open>The invariant\<close>

text \<open>A worker is calm outside the part of \<open>drainQueue\<close> that the permit protects.\<close>

definition calm :: "phase \<Rightarrow> bool" where
  "calm x \<longleftrightarrow> x = Idle \<or> x = Waiting"

fun holder_ok :: "phase \<Rightarrow> db \<Rightarrow> gate \<Rightarrow> bool" where
  "holder_ok Holding d g \<longleftrightarrow> gate_ok 0 g \<and> processing_uids d = []"
| "holder_ok Claiming d g \<longleftrightarrow> gate_ok 1 g \<and> processing_uids d = []"
| "holder_ok (Printing u) d g \<longleftrightarrow> gate_ok 0 g \<and> processing_uids d = [u]"
| "holder_ok (Storing u oc) d g \<longleftrightarrow> gate_ok 0 g \<and> processing_uids d = [u] \<and> storable oc"
| "holder_ok (Retrying u oc) d g \<longleftrightarrow> gate_ok 1 g \<and> (processing_uids d = [] \<or> processing_uids d = [u]) \<and> storable oc"
| "holder_ok _ d g \<longleftrightarrow> False"

definition free_ok :: "sys \<Rightarrow> bool" where
  "free_ok s \<longleftrightarrow> (\<forall>q. calm (sy_phase s q)) \<and> sy_permit s = 1 \<and> gate_ok 0 (sy_gate s) \<and> processing_uids (sy_db s) = []"

definition held_ok :: "string \<Rightarrow> sys \<Rightarrow> bool" where
  "held_ok p s \<longleftrightarrow> (\<forall>q. q \<noteq> p \<longrightarrow> calm (sy_phase s q)) \<and> sy_permit s = 0 \<and>
     holder_ok (sy_phase s p) (sy_db s) (sy_gate s)"

definition sys_ok :: "sys \<Rightarrow> bool" where
  "sys_ok s \<longleftrightarrow> db_ok (sy_db s) \<and> (free_ok s \<or> (\<exists>p. held_ok p s))"

lemma calm_simps [simp]:
  "calm Idle" "calm Waiting" "\<not> calm Holding" "\<not> calm Claiming" "\<not> calm (Printing u)" "\<not> calm (Storing u oc)" "\<not> calm (Retrying u oc)"
  by (simp_all add: calm_def)

lemma not_calm_held:
  assumes "sys_ok s" "\<not> calm (sy_phase s p)"
  shows "held_ok p s"
  using assms unfolding sys_ok_def free_ok_def held_ok_def by metis

lemma holder_calm: "holder_ok x d g \<Longrightarrow> \<not> calm x"
  by (cases x) auto

lemma outcome_keeps:
  assumes "mark_outcome u oc now l d = Inr d'" "storable oc" "db_ok d" shows "db_ok d'"
proof -
  have "repo_step d d'"
    using assms(1,2) by (cases oc) (auto simp: mark_outcome_def storable_def intro: repo_step.intros)
  then show ?thesis using repo_step_keeps assms(3) by blast
qed

lemma claim_keeps: "ClaimNextQueued p now d = Inr (run, d') \<Longrightarrow> db_ok d \<Longrightarrow> db_ok d'"
  using repo_step_keeps step_claim by blast

text \<open>A worker that holds the permit moves on, or gives it back.\<close>

lemma held_moves:
  assumes "held_ok p s" "db_ok d" "holder_ok x d g"
  shows "sys_ok (moves p x (s\<lparr>sy_db := d, sy_gate := g\<rparr>))"
  using assms unfolding sys_ok_def held_ok_def by (intro conjI disjI2 exI [of _ p]) auto

lemma held_releases:
  assumes "held_ok p s" "db_ok d" "gate_ok 0 g" "processing_uids d = []" "release (sy_permit s) = Some n"
  shows "sys_ok (moves p Idle (s\<lparr>sy_db := d, sy_gate := g, sy_permit := n\<rparr>))"
  using assms by (auto simp: sys_ok_def free_ok_def held_ok_def release_def)

lemma calm_moves:
  assumes "sys_ok s" "calm (sy_phase s p)" "calm x"
  shows "sys_ok (moves p x s)"
proof (cases "free_ok s")
  case True
  with assms show ?thesis by (auto simp: sys_ok_def free_ok_def)
next
  case False
  with assms(1) obtain q where q: "held_ok q s" by (auto simp: sys_ok_def)
  then have "q \<noteq> p" using assms(2) holder_calm by (auto simp: held_ok_def)
  with assms q have "held_ok q (moves p x s)" by (auto simp: held_ok_def)
  with assms(1) show ?thesis by (auto simp: sys_ok_def)
qed

lemma started_ok: "db_ok d \<Longrightarrow> processing_uids d = [] \<Longrightarrow> sys_ok (started d)"
  by (simp add: sys_ok_def free_ok_def started_def gate_ok_new newTransmissionGate_def)

lemma others_ok:
  assumes "sys_ok s" "other_step (sy_db s) d" shows "sys_ok (s\<lparr>sy_db := d\<rparr>)"
proof -
  have same: "processing_uids d = processing_uids (sy_db s)" using assms(2) by (rule other_processing)
  have "holder_ok x d g = holder_ok x (sy_db s) g" for x g by (cases x) (simp_all add: same)
  with assms same other_keeps [OF assms(2)] show ?thesis
    by (simp add: sys_ok_def free_ok_def held_ok_def)
qed

lemma sys_same [simp]: "s\<lparr>sy_db := sy_db s\<rparr> = s" "s\<lparr>sy_gate := sy_gate s\<rparr> = s" "s\<lparr>sy_db := d, sy_gate := sy_gate s\<rparr> = s\<lparr>sy_db := d\<rparr>"
    "s\<lparr>sy_db := sy_db s, sy_gate := g\<rparr> = s\<lparr>sy_gate := g\<rparr>"
    "(sy_phase s)(p := sy_phase s p) = sy_phase s"
  by simp_all

text \<open>The facts about a worker in the protected part, by what it is doing.\<close>

lemma holderD:
  assumes "sys_ok s" "sy_phase s p = x" "\<not> calm x"
  shows "held_ok p s" "db_ok (sy_db s)" "holder_ok x (sy_db s) (sy_gate s)"
  using assms not_calm_held [of s p] by (auto simp: sys_ok_def held_ok_def)

lemma held_stays:
  assumes "sys_ok s" "sy_phase s p = x" "\<not> calm x" "db_ok d" "holder_ok x d g"
  shows "sys_ok (s\<lparr>sy_db := d, sy_gate := g\<rparr>)"
  using holderD [OF assms(1-3)] assms(2,4,5) unfolding sys_ok_def held_ok_def by auto

lemma held_claims:
  assumes "sys_ok s" "sy_phase s p = x" "x = Holding \<and> g = sy_gate s \<or> x = Claiming \<and> gate_end (sy_gate s) = Some g"
    and c: "ClaimNextQueued p now (sy_db s) = Inr (run, d)"
  shows "sys_ok (moves p (Printing (r_uid run)) (s\<lparr>sy_db := d, sy_gate := g\<rparr>))"
proof -
  note h = holderD [OF assms(1,2)]
  have "held_ok p s" "db_ok (sy_db s)" "processing_uids (sy_db s) = []" "gate_ok 0 g"
    using h assms(3) gate_ok_end [of 0 "sy_gate s"] by auto
  with claim_adds_one [OF c] claim_keeps [OF c] show ?thesis by (intro held_moves) simp_all
qed

lemma held_stored:
  assumes "sys_ok s" "sy_phase s p = x"
    and "x = Storing u oc \<and> g = sy_gate s \<or> x = Retrying u oc \<and> gate_end (sy_gate s) = Some g"
    and m: "mark_outcome u oc now l (sy_db s) = Inr d" and n: "release (sy_permit s) = Some n"
  shows "sys_ok (moves p Idle (s\<lparr>sy_db := d, sy_gate := g, sy_permit := n\<rparr>))"
proof -
  note h = holderD [OF assms(1,2)]
  have "held_ok p s" "db_ok (sy_db s)" "storable oc" "gate_ok 0 g"
    "processing_uids (sy_db s) = [] \<or> processing_uids (sy_db s) = [u]"
    using h assms(3) gate_ok_end [of 0 "sy_gate s"] by auto
  with outcome_finishes [OF m] outcome_keeps [OF m] n show ?thesis by (intro held_releases) auto
qed

lemma held_not_stored:
  assumes "sys_ok s" "sy_phase s p = x" "x = Storing u oc \<or> x = Retrying u oc"
    and "d = sy_db s \<or> mark_outcome u oc now l (sy_db s) = Inr d" and "gate_ok 1 g"
  shows "db_ok d \<and> holder_ok (Retrying u oc) d g"
proof -
  note h = holderD [OF assms(1,2)]
  have f: "db_ok (sy_db s)" "storable oc" "processing_uids (sy_db s) = [] \<or> processing_uids (sy_db s) = [u]"
    using h assms(3) by auto
  show ?thesis
    using assms(4)
  proof
    assume "mark_outcome u oc now l (sy_db s) = Inr d"
    with f assms(5) outcome_finishes outcome_keeps show ?thesis by fastforce
  qed (use f assms(5) in simp)
qed

lemma sys_step_keeps: "sys_step s s' \<Longrightarrow> sys_ok s \<Longrightarrow> sys_ok s'"
proof (induction rule: sys_step.induct)
  case (take_permit s p n)
  then have free: "free_ok s" by (auto simp: sys_ok_def held_ok_def acquire_def)
  with take_permit have "held_ok p (moves p Holding (s\<lparr>sy_permit := n\<rparr>))"
    by (auto simp: free_ok_def held_ok_def acquire_def)
  with take_permit.prems show ?case unfolding sys_ok_def by auto
next
  case (claim s p now run d)
  then show ?case using held_claims [of s p Holding "sy_gate s" now run d] by simp
next
  case (claim_empty s p now n)
  note h = holderD [OF claim_empty.prems claim_empty.hyps(1)]
  then show ?case using held_releases [of p s "sy_db s" "sy_gate s" n] claim_empty.hyps(3) by simp
next
  case (claim_fails s p e now)
  note h = holderD [OF claim_fails.prems claim_fails.hyps]
  then show ?case using held_moves [of p s "sy_db s" Claiming "gate_begin e now (sy_gate s)"] gate_ok_begin [of 0] by simp
next
  case (claim_fails_again s p e)
  note h = holderD [OF claim_fails_again.prems claim_fails_again.hyps]
  then show ?case
    using held_stays [OF claim_fails_again.prems claim_fails_again.hyps, of "sy_db s" "gate_update e (sy_gate s)"] gate_ok_update [of 1] by simp
next
  case (claim_late s p now run d g)
  then show ?case using held_claims [of s p Claiming g now run d] by simp
next
  case (claim_late_empty s p now g n)
  note h = holderD [OF claim_late_empty.prems claim_late_empty.hyps(1)]
  then have "gate_ok 0 g" using claim_late_empty.hyps(3) gate_ok_end [of 0 "sy_gate s"] by auto
  with h show ?case using held_releases [of p s "sy_db s" g n] claim_late_empty.hyps(4) by simp
next
  case (decided s p u oc)
  note h = holderD [OF decided.prems decided.hyps(1)]
  then show ?case using held_moves [of p s "sy_db s" "Storing u oc" "sy_gate s"] decided.hyps(2) by simp
next
  case (store s p u oc now l d n)
  then show ?case using held_stored [of s p "Storing u oc" u oc "sy_gate s" now l d n] by simp
next
  case (store_fails s p u oc d now l e t)
  note h = holderD [OF store_fails.prems store_fails.hyps(1)]
  then have "gate_ok 1 (gate_begin e t (sy_gate s))" using gate_ok_begin [of 0] by simp
  from held_not_stored [OF store_fails.prems store_fails.hyps(1) _ store_fails.hyps(2) this] h show ?case
    by (intro held_moves) auto
next
  case (store_fails_again s p u oc d now l e)
  note h = holderD [OF store_fails_again.prems store_fails_again.hyps(1)]
  then have "gate_ok 1 (gate_update e (sy_gate s))" using gate_ok_update [of 1] by simp
  from held_not_stored [OF store_fails_again.prems store_fails_again.hyps(1) _ store_fails_again.hyps(2) this] show ?case
    by (intro held_stays [OF store_fails_again.prems store_fails_again.hyps(1)]) auto
next
  case (store_late s p u oc now l d g n)
  then show ?case using held_stored [of s p "Retrying u oc" u oc g now l d n] by simp
next
  case (restart now s rs d)
  then have "db_ok (sy_db s)" by (simp add: sys_ok_def)
  then show ?case
    using recovery_finishes_all [OF restart.hyps] repo_step_keeps [OF step_recover [OF restart.hyps]] by (intro started_ok)
qed (simp_all add: calm_moves others_ok)

lemma sys_steps_keep: "sys_step\<^sup>*\<^sup>* s s' \<Longrightarrow> sys_ok s \<Longrightarrow> sys_ok s'"
  by (induction rule: rtranclp_induct) (auto intro: sys_step_keeps)

end
