(* ===== verification/SystemProperties.thy ===== *)
theory SystemProperties
  imports System WorkerProperties
begin

text \<open>The properties of the agent as a whole.\<close>

section \<open>A short life of the agent\<close>

lemma sample_queued_recovers: "\<exists>rs. RecoverAbandoned 20 sample_queued = Inr (rs, sample_queued)"
  using recover_result [OF sample_queued_ok, of 20] by (simp add: sample_dbs sample_rows)

definition sample_claimed :: sys where
  "sample_claimed = \<lparr>sy_db = sample_processing, sy_gate = newPersistenceGate, sy_permit = 0,
     sy_phase = (\<lambda>_. Idle)(''bar'' := Printing ''run_1'')\<rparr>"

abbreviation sample_waiting :: sys where
  "sample_waiting \<equiv> moves ''bar'' Waiting (started sample_queued)"

abbreviation sample_holding :: sys where
  "sample_holding \<equiv> moves ''bar'' Holding (sample_waiting\<lparr>sy_permit := 0\<rparr>)"

lemma sample_steps:
  "sys_step (started sample_queued) sample_waiting" "sys_step sample_waiting sample_holding"
  "sys_step sample_holding sample_claimed"
proof -
  show "sys_step (started sample_queued) sample_waiting"
    by (rule pass_gate) (simp_all add: started_def gate_passes_def newPersistenceGate_def)
  show "sys_step sample_waiting sample_holding"
    by (rule take_permit) (simp_all add: started_def acquire_def newTransmissionGate_def)
  have "sys_step sample_holding (moves ''bar'' (Printing (r_uid (claimed 30 sample_run))) (sample_holding\<lparr>sy_db := sample_processing\<rparr>))"
    by (rule claim [where now = 30]) (simp_all add: started_def sample_claim)
  also have "moves ''bar'' (Printing (r_uid (claimed 30 sample_run))) (sample_holding\<lparr>sy_db := sample_processing\<rparr>) = sample_claimed"
    by (simp add: sample_claimed_def started_def sample_rows)
  finally show "sys_step sample_holding sample_claimed" .
qed

lemma sample_reaches_claimed: "sys_step\<^sup>*\<^sup>* (started sample_queued) sample_claimed"
  using sample_steps by (meson r_into_rtranclp rtranclp_trans)

section \<open>Exclusion\<close>



end
