(* ===== verification/Tickets.thy ===== *)
theory Tickets
  imports SystemProperties
begin

text \<open>
  Tickets on paper. \<open>System\<close> leaves open what a worker hands to its transport; here a step says that
  bytes of a run may have left, and the steps remember the runs of which that is so. A run is
  remembered by its queue sequence, which SQLite never gives out again.
\<close>

section \<open>Where the rows of a database come from\<close>

text \<open>Every run of \<open>d'\<close> is one of \<open>d\<close> that moved on, or new; a new automatic retry is one of the run \<open>parent\<close>.\<close>

definition comes_from :: "string option \<Rightarrow> db \<Rightarrow> db \<Rightarrow> bool" where
  "comes_from parent d d' \<longleftrightarrow> db_next_seq d \<le> db_next_seq d' \<and>
     (\<forall>s \<in> set (db_runs d'). (\<exists>r \<in> set (db_runs d). run_evolves r s) \<or>
        (db_next_seq d \<le> r_queue_sequence s \<and>
         (r_trigger s = TriggerAutomaticRetry \<longrightarrow> parent \<noteq> None \<and> r_previous_run_uid s = parent)))"

lemma comes_from_cases:
  assumes "comes_from parent d d'" "s \<in> set (db_runs d')"
  obtains (old) r where "r \<in> set (db_runs d)" "run_evolves r s"
  | (new) "db_next_seq d \<le> r_queue_sequence s"
      "r_trigger s = TriggerAutomaticRetry \<Longrightarrow> parent \<noteq> None \<and> r_previous_run_uid s = parent"
proof -
  have "(\<exists>r \<in> set (db_runs d). run_evolves r s) \<or> db_next_seq d \<le> r_queue_sequence s \<and>
      (r_trigger s = TriggerAutomaticRetry \<longrightarrow> parent \<noteq> None \<and> r_previous_run_uid s = parent)"
    using assms unfolding comes_from_def by simp
  then show thesis
  proof
    assume "\<exists>r \<in> set (db_runs d). run_evolves r s"
    then obtain r where "r \<in> set (db_runs d)" "run_evolves r s" ..
    then show thesis by (rule old)
  next
    assume n: "db_next_seq d \<le> r_queue_sequence s \<and>
      (r_trigger s = TriggerAutomaticRetry \<longrightarrow> parent \<noteq> None \<and> r_previous_run_uid s = parent)"
    show thesis by (rule new) (use n in simp_all)
  qed
qed

lemma evolved_identity:
  assumes "run_evolves r s"
  shows "r_queue_sequence s = r_queue_sequence r" "r_uid s = r_uid r" "r_trigger s = r_trigger r"
    "r_previous_run_uid s = r_previous_run_uid r"
proof -
  have "run_identity s = run_identity r" using assms by (simp add: run_evolves_def)
  then show "r_queue_sequence s = r_queue_sequence r" "r_uid s = r_uid r" "r_trigger s = r_trigger r"
    "r_previous_run_uid s = r_previous_run_uid r" unfolding run_identity_def by blast+
qed

lemma evolved_status:
  assumes "run_evolves r s" "r_status r \<noteq> RunQueued"
  shows "r_status s \<noteq> RunQueued" "r_status s = RunProcessing \<Longrightarrow> r_status r = RunProcessing"
    "r_status r \<noteq> RunProcessing \<Longrightarrow> r_retryable s \<Longrightarrow> r_retryable r"
proof -
  have "status_path (r_status r) (r_status s)" "Terminal (r_status r) \<Longrightarrow> r_retryable s \<Longrightarrow> r_retryable r"
    using assms(1) by (simp_all add: run_evolves_def)
  with assms(2) show "r_status s \<noteq> RunQueued" "r_status s = RunProcessing \<Longrightarrow> r_status r = RunProcessing"
      "r_status r \<noteq> RunProcessing \<Longrightarrow> r_retryable s \<Longrightarrow> r_retryable r"
    by (cases "r_status r"; force simp: status_path_def Terminal_def)+
qed

lemma comes_from_kept:
  assumes "db_next_seq d \<le> db_next_seq d'" "set (db_runs d') \<subseteq> set (db_runs d)"
  shows "comes_from parent d d'"
  unfolding comes_from_def
proof (intro conjI ballI disjI1)
  fix s assume "s \<in> set (db_runs d')"
  with assms(2) show "\<exists>r \<in> set (db_runs d). run_evolves r s" by (intro bexI [of _ s]) auto
qed (rule assms(1))

lemma comes_from_same: "db_runs d' = db_runs d \<Longrightarrow> db_next_seq d' = db_next_seq d \<Longrightarrow> comes_from parent d d'"
  by (simp add: comes_from_kept)

lemma comes_from_trans:
  assumes "comes_from parent d e" "comes_from parent e d'" shows "comes_from parent d d'"
  unfolding comes_from_def
proof (intro conjI ballI)
  show "db_next_seq d \<le> db_next_seq d'" using assms by (simp add: comes_from_def)
next
  fix s assume "s \<in> set (db_runs d')"
  with assms(2) show "(\<exists>r \<in> set (db_runs d). run_evolves r s) \<or> db_next_seq d \<le> r_queue_sequence s \<and>
      (r_trigger s = TriggerAutomaticRetry \<longrightarrow> parent \<noteq> None \<and> r_previous_run_uid s = parent)"
  proof (cases rule: comes_from_cases)
    case (old r)
    from assms(1) old(1) show ?thesis
    proof (cases rule: comes_from_cases)
      case (old q)
      then show ?thesis using run_evolves_trans \<open>run_evolves r s\<close> by blast
    next
      case new
      then show ?thesis using evolved_identity [OF \<open>run_evolves r s\<close>] by simp
    qed
  next
    case new
    moreover have "db_next_seq d \<le> db_next_seq e" using assms(1) by (simp add: comes_from_def)
    ultimately show ?thesis by simp
  qed
qed

lemma update_comes_from:
  assumes "update_runs P f d = Inr (n, d')" "\<And>r. r \<in> set (db_runs d) \<Longrightarrow> P r \<Longrightarrow> run_evolves r (f r)"
  shows "comes_from parent d d'"
proof -
  have d': "d' = d\<lparr>db_runs := update_where P f (db_runs d)\<rparr>" by (rule update_runs_InrD [OF assms(1)])
  have "\<exists>r \<in> set (db_runs d). run_evolves r s" if s: "s \<in> set (update_where P f (db_runs d))" for s
  proof -
    obtain r where "r \<in> set (db_runs d)" "s = (if P r then f r else r)" using s by (auto simp: set_update_where)
    then show ?thesis using assms(2) by (intro bexI [of _ r]) auto
  qed
  then show ?thesis by (simp add: comes_from_def d')
qed

lemma insert_comes_from:
  assumes "insert_run run d = Inr d'" "r_trigger run = TriggerAutomaticRetry \<Longrightarrow> parent \<noteq> None \<and> r_previous_run_uid run = parent"
  shows "comes_from parent d d'"
proof -
  obtain row where row: "row = run\<lparr>r_queue_sequence := db_next_seq d\<rparr>"
    "d' = d\<lparr>db_runs := db_runs d @ [row], db_next_seq := db_next_seq d + 1\<rparr>"
    using assms(1) by (rule insert_run_InrD)
  show ?thesis unfolding comes_from_def
  proof (intro conjI ballI)
    fix s assume "s \<in> set (db_runs d')"
    then consider "s \<in> set (db_runs d)" | "s = row" by (auto simp: row)
    then show "(\<exists>r \<in> set (db_runs d). run_evolves r s) \<or> db_next_seq d \<le> r_queue_sequence s \<and>
        (r_trigger s = TriggerAutomaticRetry \<longrightarrow> parent \<noteq> None \<and> r_previous_run_uid s = parent)"
      using assms(2) row(1) run_evolves_refl by cases (blast, simp)
  qed (simp add: row)
qed

lemma stmt_comes_from: "stmt False d d' \<Longrightarrow> comes_from parent d d'"
proof (induction rule: stmt.induct)
  case (stmt_update P f d n d')
  then show ?case by (intro update_comes_from)
next
  case (stmt_insert run d d')
  then show ?case by (intro insert_comes_from) auto
next
  case (stmt_cancellation u p at reason d n d')
  then show ?case by (intro comes_from_same) (auto simp: update_cancellation_def Let_def)
next
  case (stmt_dedup x d d')
  then show ?case by (intro comes_from_same) (auto simp: insert_dedup_def split: if_splits)
qed (simp add: comes_from_same update_expiry_def)

lemma stmts_come_from: "stmts d d' \<Longrightarrow> comes_from parent d d'"
  by (induction rule: rtranclp_induct) (auto intro: comes_from_same comes_from_trans stmt_comes_from)

lemma InsertJob_comes_from:
  assumes "InsertJob job targets runs d = Inr d'" "accepted_shape targets runs"
  shows "comes_from parent d d'"
  using assms(1)
proof (rule InsertJob_InrD)
  fix d1 d2 assume s: "insert_job job d = Inr d1" "fold_sum (\<lambda>d t. insert_target t d) d1 targets = Inr d2"
    "fold_sum (\<lambda>d r. insert_run r d) d2 runs = Inr d'"
  have "db_next_seq d2 = db_next_seq d1"
    by (rule fold_sum_invariant [where I = "\<lambda>x. db_next_seq x = db_next_seq d1", OF s(2)])
      (auto simp: insert_target_def Let_def split: if_splits)
  moreover have "db_next_seq d1 = db_next_seq d" using s(1) by (auto simp: insert_job_def split: if_splits)
  ultimately have "comes_from parent d d2"
    using insert_job_result [OF s(1)] insert_targets_result [OF s(2)] by (intro comes_from_same) simp_all
  moreover have "comes_from parent d2 d'"
    using insert_runs_result [OF s(3)] assms(2) by (intro stmts_come_from) (simp add: accepted_shape_def)
  ultimately show ?thesis by (rule comes_from_trans)
qed

lemma PurgeExpired_comes_from: "comes_from parent d (PurgeExpired now d)"
  by (intro comes_from_kept) (auto simp: PurgeExpired_def delete_events_def delete_jobs_def Let_def)

text \<open>A retry is made of a run that is still marked for it.\<close>

lemma materializeRetry_comes_from:
  assumes "materializeRetry u m render fresh now d = Some (Inr (made, d'))"
  obtains p where "p \<in> set (db_runs d)" "r_retryable p" "comes_from (Some (r_uid p)) d d'"
proof -
  obtain p where p: "p \<in> set (db_runs d)" "r_retryable p"
    "List.find (\<lambda>r. r_uid r = u \<and> retry_candidate r) (db_runs d) = Some p"
    using assms find_SomeD unfolding materializeRetry_def retry_candidate_def by (fastforce split: option.splits)
  obtain depth where "materialize_at p depth m render fresh now d = Inr (made, d')"
    using assms by (auto simp: materializeRetry_def p(3) split: option.split_asm sum.split_asm)
  then have "comes_from (Some (r_uid p)) d d'"
  proof (cases rule: materialize_at_InrD)
    case given_up
    then show ?thesis using clear_retryable_stmts [where b = False] stmts_come_from by blast
  next
    case (made run d1)
    have "comes_from (Some (r_uid p)) d d1" using made(4) by (intro insert_comes_from [OF made(2)]) simp
    moreover have "comes_from (Some (r_uid p)) d1 d'"
      using made(7) clear_retryable_stmts [where b = False] clear_retryable_always_stmts [where b = False] stmts_come_from by blast
    ultimately show ?thesis by (rule comes_from_trans)
  qed
  with p that show thesis by blast
qed

text \<open>One transaction of the agent: at most the run it names as \<open>parent\<close> gets a retry, and that run is marked for it.\<close>

definition continues :: "db \<Rightarrow> db \<Rightarrow> bool" where
  "continues d d' \<longleftrightarrow> (\<exists>parent. comes_from parent d d' \<and>
     (\<forall>p \<in> set (db_runs d). parent = Some (r_uid p) \<longrightarrow> r_retryable p))"

lemma continuesI: "comes_from None d d' \<Longrightarrow> continues d d'"
  unfolding continues_def by (intro exI [of _ None]) simp

lemma stmts_continue: "stmts d d' \<Longrightarrow> continues d d'"
  by (intro continuesI stmts_come_from)

lemma other_continues: "other_step d d' \<Longrightarrow> db_ok d \<Longrightarrow> continues d d'"
proof (induction rule: other_step.induct)
  case (other_retry u render fresh1 now d made d')
  then obtain p where p: "p \<in> set (db_runs d)" "r_retryable p" "comes_from (Some (r_uid p)) d d'"
    using materializeRetry_comes_from by blast
  have "q = p" if "q \<in> set (db_runs d)" "r_uid p = r_uid q" for q
    using same_uid [OF _ that(1) p(1)] that(2) other_retry.prems by (simp add: db_ok_def)
  with p show ?case unfolding continues_def by blast
next
  case (other_save cfg now d d')
  then show ?case by (intro continuesI comes_from_same) (auto simp: SavePrinter_def split: if_split_asm)
next
  case (other_delete pid now d d')
  then show ?case by (intro continuesI comes_from_same) (auto simp: DeletePrinter_def split: if_split_asm)
next
  case (other_setting d k v)
  then show ?case by (intro continuesI comes_from_same) (auto simp: SetSetting_def)
next
  case (other_resolve uid res now d d')
  then show ?case by (intro stmts_continue ResolveUncertain_stmts) (simp_all add: db_ok_def)
qed (auto intro: stmts_continue continuesI InsertJob_comes_from PurgeExpired_comes_from CancelRun_stmts
      CancelTargets_stmts InsertManualReprints_stmts)

lemma outcome_continues:
  assumes "mark_outcome u oc now l d = Inr d'" "storable oc" shows "continues d d'"
  using assms by (cases oc) (auto simp: mark_outcome_def storable_def
      intro!: stmts_continue intro: MarkTransmitted_stmts MarkUncertain_stmts MarkFailed_stmts)

section \<open>Which runs may be tried again\<close>

definition allows_retry :: "outcome \<Rightarrow> bool" where
  "allows_retry oc = (case oc of Failed n code msg retryable \<Rightarrow> retryable | _ \<Rightarrow> False)"

text \<open>A run that is being processed becomes retryable in one way: its worker stores such an outcome.\<close>

lemma updated_run:
  assumes "schema_ok d" "db_runs d' = update_where P f (db_runs d)" "\<And>x. r_uid (f x) = r_uid x"
    and "r \<in> set (db_runs d)" "s \<in> set (db_runs d')" "r_uid s = r_uid r"
  shows "s = (if P r then f r else r)"
proof -
  obtain x where x: "x \<in> set (db_runs d)" "s = (if P x then f x else x)"
    using assms(2,5) by (auto simp: set_update_where)
  then have "r_uid x = r_uid r" using assms(3,6) by (auto split: if_splits)
  then have "x = r" by (rule same_uid [OF assms(1) x(1) assms(4)])
  with x(2) show ?thesis by simp
qed

lemma transition_runs:
  "transition uid target P f now d = Inr d' \<Longrightarrow> db_runs d' = update_where P f (db_runs d)"
  by (auto simp: transition_def dest!: update_runs_InrD(1) elim!: sum_bindE)

lemma retryable_failed: "schema_ok d \<Longrightarrow> r \<in> set (db_runs d) \<Longrightarrow> r_retryable r \<Longrightarrow> r_status r = RunFailed"
  by (simp add: schema_ok_def runs_ok_def run_check_def)

lemma outcome_marks:
  assumes "mark_outcome u oc now l d = Inr d'" "schema_ok d"
    and "r \<in> set (db_runs d)" "r_status r = RunProcessing" "s \<in> set (db_runs d')" "r_uid s = r_uid r" "r_retryable s"
  shows "r_uid r = u \<and> allows_retry oc"
proof -
  have r: "\<not> r_retryable r" using retryable_failed [OF assms(2,3)] assms(4) by auto
  obtain t f where f: "transition u t (\<lambda>r. r_uid r = u \<and> r_status r = RunProcessing) f l d = Inr d'"
    "\<And>x. r_uid (f x) = r_uid x" "\<And>x. r_retryable (f x) \<Longrightarrow> r_retryable x \<or> allows_retry oc"
    using assms(1) by (cases oc) (fastforce simp: mark_outcome_def MarkTransmitted_def MarkUncertain_def MarkFailed_def allows_retry_def)+
  from updated_run [OF assms(2) transition_runs [OF f(1)] f(2) assms(3,5,6)] assms(7) r f(3) show ?thesis
    by (auto split: if_splits)
qed

lemma recovery_marks_none:
  assumes "RecoverAbandoned now d = Inr (rs, d')" "schema_ok d"
    and "r \<in> set (db_runs d)" "r_status r = RunProcessing" "s \<in> set (db_runs d')" "r_uid s = r_uid r"
  shows "\<not> r_retryable s"
proof -
  obtain n where "update_runs (\<lambda>r. r_status r = RunProcessing) (abandon now) d = Inr (n, d')"
    using assms(1) by (auto simp: RecoverAbandoned_def elim!: sum_bindE)
  from update_runs_InrD(1) [OF this]
  have "db_runs d' = update_where (\<lambda>r. r_status r = RunProcessing) (abandon now) (db_runs d)" by simp
  from updated_run [OF assms(2) this _ assms(3,5,6)] assms(4) show ?thesis
    by (simp add: abandon_def)
qed

lemma other_marks_none:
  assumes "other_step d d'" "db_ok d"
    and "r \<in> set (db_runs d)" "r_status r = RunProcessing" "s \<in> set (db_runs d')" "r_uid s = r_uid r"
  shows "\<not> r_retryable s"
proof
  assume "r_retryable s"
  have d': "schema_ok d'" using other_keeps [OF assms(1,2)] by (simp add: db_ok_def)
  have "r_uid r \<in> set (processing_uids d')"
    using assms(3,4) other_processing [OF assms(1)] by (auto simp: processing_uids_def)
  then obtain t where t: "t \<in> set (db_runs d')" "r_uid t = r_uid r" "r_status t = RunProcessing"
    by (auto simp: processing_uids_def)
  then have "t = s" using same_uid [OF d' t(1) assms(5)] assms(6) by simp
  then show False using t(3) retryable_failed [OF d' assms(5) \<open>r_retryable s\<close>] by simp
qed

section \<open>The steps of the agent and its database\<close>

definition storing :: "string \<Rightarrow> outcome \<Rightarrow> phase \<Rightarrow> bool" where
  "storing u oc x \<longleftrightarrow> x = Storing u oc \<or> x = Retrying u oc"

lemma sys_step_db:
  assumes "sys_step s s'" "sys_ok s"
  obtains (same) "sy_db s' = sy_db s"
  | (claims) p now run where "processing_uids (sy_db s) = []" "ClaimNextQueued p now (sy_db s) = Inr (run, sy_db s')"
  | (stores) p u oc now l where "storing u oc (sy_phase s p)" "storable oc" "mark_outcome u oc now l (sy_db s) = Inr (sy_db s')"
  | (other) "other_step (sy_db s) (sy_db s')"
  | (recovers) now rs where "RecoverAbandoned now (sy_db s) = Inr (rs, sy_db s')"
  using assms(1)
proof cases
  case (claim p now run d)
  then show thesis using holderD [OF assms(2) claim(2)] claims by simp
next
  case (claim_late p now run d g)
  then show thesis using holderD [OF assms(2) claim_late(2)] claims by simp
next
  case (store p u oc now l d n)
  then show thesis using holderD [OF assms(2) store(2)] stores [of u oc p now l] by (simp add: storing_def)
next
  case (store_fails p u oc d now l e t)
  then show thesis using holderD [OF assms(2) store_fails(2)] same stores [of u oc p now l] by (auto simp: storing_def)
next
  case (store_fails_again p u oc d now l e)
  then show thesis using holderD [OF assms(2) store_fails_again(2)] same stores [of u oc p now l] by (auto simp: storing_def)
next
  case (store_late p u oc now l d g n)
  then show thesis using holderD [OF assms(2) store_late(2)] stores [of u oc p now l] by (simp add: storing_def)
next
  case (others d)
  then show thesis using other by simp
next
  case (restart now rs d)
  then show thesis using recovers by (simp add: started_def)
qed (simp_all add: same)

lemma sys_step_continues:
  assumes "sys_step s s'" "sys_ok s" shows "continues (sy_db s) (sy_db s')"
  using assms
proof (cases rule: sys_step_db)
  case same
  then show ?thesis by (intro continuesI comes_from_same) simp_all
next
  case claims
  then show ?thesis using assms(2) ClaimNextQueued_stmts stmts_continue by (auto simp: sys_ok_def)
next
  case stores
  then show ?thesis by (intro outcome_continues)
next
  case other
  then show ?thesis using assms(2) other_continues by (simp add: sys_ok_def)
next
  case recovers
  then show ?thesis by (intro stmts_continue RecoverAbandoned_stmts)
qed

lemma sys_step_marks:
  assumes "sys_step s s'" "sys_ok s"
    and "r \<in> set (db_runs (sy_db s))" "r_status r = RunProcessing" "q \<in> set (db_runs (sy_db s'))" "r_uid q = r_uid r" "r_retryable q"
  shows "\<exists>p oc. storing (r_uid r) oc (sy_phase s p) \<and> allows_retry oc"
proof -
  have ok: "db_ok (sy_db s)" "schema_ok (sy_db s)" using assms(2) by (simp_all add: sys_ok_def db_ok_def)
  from assms(1,2) show ?thesis
  proof (cases rule: sys_step_db)
    case same
    then have "q = r" using same_uid [OF ok(2), of q r] assms(3,5,6) by simp
    then show ?thesis using retryable_failed [OF ok(2) assms(3)] assms(4,7) by simp
  next
    case claims
    then show ?thesis using assms(3,4) by (auto simp: processing_uids_def filter_empty_conv)
  next
    case (stores p u oc now l)
    then show ?thesis using outcome_marks [OF stores(3) ok(2) assms(3-7)] by blast
  next
    case other
    then show ?thesis using other_marks_none [OF other ok(1) assms(3-6)] assms(7) by simp
  next
    case (recovers now rs)
    then show ?thesis using recovery_marks_none [OF recovers ok(2) assms(3-6)] assms(7) by simp
  qed
qed

lemma sys_step_retrying:
  "sys_step s s' \<Longrightarrow> sy_phase s' p = Retrying u oc \<Longrightarrow> storing u oc (sy_phase s p)"
  by (induction rule: sys_step.induct) (auto simp: storing_def started_def split: if_splits)

section \<open>What has left for a printer\<close>

text \<open>The document that \<open>decide\<close> hands to the transport: \<open>None\<close> when it refuses before the write.\<close>

definition sent_document :: "'c worker_env \<Rightarrow> bool \<Rightarrow> bool \<Rightarrow> print_run \<Rightarrow> db \<Rightarrow> byte list option" where
  "sent_document env job_read target_read run d =
    (case (if job_read then GetJob (r_job_uid run) d else Inl ErrNoRows) of Inl e \<Rightarrow> None | Inr job \<Rightarrow>
     case (if target_read then GetTarget (r_job_uid run) (r_printer_id run) d else Inl ErrNoRows) of Inl e \<Rightarrow> None | Inr target \<Rightarrow>
     case render_run (wv_service env) job target run of Inl e \<Rightarrow> None | Inr doc \<Rightarrow>
       if ExpectedContentHash (wv_service env) job target (r_content_mode run) (r_run_number run) \<noteq> Inr (r_expected_content_hash run) \<or>
          ContentHash (wv_service env) doc \<noteq> r_expected_content_hash run
       then None else Some doc)"

definition bytes_left :: "conn worker_env \<Rightarrow> bool \<Rightarrow> bool \<Rightarrow> print_run \<Rightarrow> db \<Rightarrow> conn worker \<Rightarrow> bool" where
  "bytes_left env jr tr run d w \<longleftrightarrow>
     (\<exists>c doc. wk_tr w = Some c \<and> sent_document env jr tr run d = Some doc \<and> conn_touched c doc)"

lemma decide_sends:
  assumes "decide env drv jr tr now run d w = Some n" "dn_outcome n = Failed m code msg True"
  obtains c c' doc e where "wk_tr w = Some c" "sent_document env jr tr run d = Some doc"
    "wv_send env c doc = (Some e, c')" "\<not> Ambiguous e"
  using assms unfolding decide_def sent_document_def Let_def fail_quietly_def
  by (auto split: sum.split_asm if_split_asm option.split_asm prod.split_asm)

lemma retry_means_nothing_left:
  assumes "decide env drv jr tr now run d w = Some n" "wv_send env = conn_send" "\<And>c. wk_tr w = Some c \<Longrightarrow> conn_fair c"
    and "allows_retry (dn_outcome n)"
  shows "\<not> bytes_left env jr tr run d w"
proof -
  obtain m code msg where "dn_outcome n = Failed m code msg True"
    using assms(4) by (auto simp: allows_retry_def split: outcome.split_asm)
  from decide_sends [OF assms(1) this] obtain c c' doc e where
    c: "wk_tr w = Some c" "sent_document env jr tr run d = Some doc" "conn_send c doc = (Some e, c')" "\<not> Ambiguous e"
    using assms(2) by metis
  then have "\<not> conn_touched c doc" using conn.not_sent assms(3) by blast
  with c show ?thesis by (simp add: bytes_left_def)
qed

lemma decided_storable:
  assumes "decide env drv jr tr now run d w = Some n" "wv_send env = conn_send" "\<And>c. wk_tr w = Some c \<Longrightarrow> conn_fair c"
  shows "storable (dn_outcome n)"
  using conn.decide_is_true [OF assms] by (auto simp: outcome_true_def storable_def split: outcome.split)

text \<open>
  The agent with the set of the runs of which bytes may have left. They leave during the write
  (\<open>writes\<close>), and what has left belongs to the write the worker then decides on (\<open>decides\<close>). Everything
  else, a restart in the middle of the write included, is a step of \<open>System\<close>.
\<close>

inductive print_step :: "sys \<times> nat set \<Rightarrow> sys \<times> nat set \<Rightarrow> bool" where
  writes: "sy_phase s p = Printing u \<Longrightarrow> r \<in> set (db_runs (sy_db s)) \<Longrightarrow> r_uid r = u \<Longrightarrow>
    print_step (s, S) (s, insert (r_queue_sequence r) S)"
| decides: "sy_phase s p = Printing u \<Longrightarrow> r \<in> set (db_runs (sy_db s)) \<Longrightarrow> r_uid r = u \<Longrightarrow>
    decide env drv jr tr now r (sy_db s) w = Some n \<Longrightarrow> wv_send env = conn_send \<Longrightarrow>
    (\<And>c. wk_tr w = Some c \<Longrightarrow> conn_fair c) \<Longrightarrow>
    (r_queue_sequence r \<in> S \<Longrightarrow> bytes_left env jr tr r (sy_db s) w) \<Longrightarrow>
    print_step (s, S) (moves p (Storing u (dn_outcome n)) s,
      if bytes_left env jr tr r (sy_db s) w then insert (r_queue_sequence r) S else S)"
| goes_on: "sys_step s s' \<Longrightarrow> (\<And>p u oc. sy_phase s' p = Storing u oc \<Longrightarrow> sy_phase s p = Storing u oc) \<Longrightarrow>
    print_step (s, S) (s', S)"

section \<open>A run that may have left is not tried again\<close>

definition retry_of :: "db \<Rightarrow> print_run \<Rightarrow> print_run \<Rightarrow> bool" where
  "retry_of d c p \<longleftrightarrow> c \<in> set (db_runs d) \<and> p \<in> set (db_runs d) \<and>
     r_trigger c = TriggerAutomaticRetry \<and> r_previous_run_uid c = Some (r_uid p)"

definition sent_ok :: "nat set \<Rightarrow> db \<Rightarrow> bool" where
  "sent_ok S d \<longleftrightarrow> (\<forall>q \<in> S. q < db_next_seq d) \<and>
     (\<forall>r \<in> set (db_runs d). r_queue_sequence r \<in> S \<longrightarrow>
        r_status r \<noteq> RunQueued \<and> \<not> r_retryable r \<and> (\<forall>c. \<not> retry_of d c r))"

definition phases_ok :: "nat set \<Rightarrow> sys \<Rightarrow> bool" where
  "phases_ok S s \<longleftrightarrow> (\<forall>p u oc. storing u oc (sy_phase s p) \<and> allows_retry oc \<longrightarrow>
     (\<forall>r \<in> set (db_runs (sy_db s)). r_uid r = u \<and> r_status r = RunProcessing \<longrightarrow> r_queue_sequence r \<notin> S))"

text \<open>A row that is seen after a transaction and was sent before it is a row of before that moved on.\<close>

lemma sent_row_old:
  assumes "comes_from parent d d'" "sent_ok S d" "s \<in> set (db_runs d')" "r_queue_sequence s \<in> S"
  obtains r where "r \<in> set (db_runs d)" "run_evolves r s" "r_queue_sequence r \<in> S"
  using assms(1,3)
proof (cases rule: comes_from_cases)
  case (old r)
  then show thesis using that evolved_identity(1) [OF old(2)] assms(4) by simp
next
  case new
  then show thesis using assms(2,4) by (fastforce simp: sent_ok_def)
qed

lemma sent_ok_step:
  assumes c: "continues d d'" and S: "sent_ok S d"
    and marks: "\<And>r q. r \<in> set (db_runs d) \<Longrightarrow> r_queue_sequence r \<in> S \<Longrightarrow> r_status r = RunProcessing \<Longrightarrow>
      q \<in> set (db_runs d') \<Longrightarrow> run_evolves r q \<Longrightarrow> \<not> r_retryable q"
  shows "sent_ok S d'"
proof -
  obtain parent where cf: "comes_from parent d d'"
    and parent: "\<And>p. p \<in> set (db_runs d) \<Longrightarrow> parent = Some (r_uid p) \<Longrightarrow> r_retryable p"
    using c unfolding continues_def by blast
  have "r_status s \<noteq> RunQueued \<and> \<not> r_retryable s \<and> (\<forall>c. \<not> retry_of d' c s)"
    if s: "s \<in> set (db_runs d')" "r_queue_sequence s \<in> S" for s
  proof -
    obtain r where r: "r \<in> set (db_runs d)" "run_evolves r s" "r_queue_sequence r \<in> S"
      by (rule sent_row_old [OF cf S s])
    then have not: "r_status r \<noteq> RunQueued" "\<not> r_retryable r" "\<And>c. \<not> retry_of d c r" using S by (auto simp: sent_ok_def)
    have a: "r_status s \<noteq> RunQueued"
      by (rule evolved_status(1) [OF r(2) not(1)])
    have b: "\<not> r_retryable s"
    proof (cases "r_status r = RunProcessing")
      case True
      then show ?thesis by (rule marks [OF r(1,3) _ s(1) r(2)])
    next
      case False
      then show ?thesis using evolved_status(3) [OF r(2) not(1)] not(2) by blast
    qed
    have "\<not> retry_of d' c s" for c
    proof
      assume "retry_of d' c s"
      then have c: "c \<in> set (db_runs d')" "r_trigger c = TriggerAutomaticRetry" "r_previous_run_uid c = Some (r_uid r)"
        using evolved_identity(2) [OF r(2)] by (simp_all add: retry_of_def)
      from cf c(1) show False
      proof (cases rule: comes_from_cases)
        case (old c0)
        then have "retry_of d c0 r" using c(2,3) r(1) evolved_identity(3,4) [OF old(2)] by (simp add: retry_of_def)
        then show False using not(3) by blast
      next
        case new
        then show False using parent [OF r(1)] c(2,3) not(2) by simp
      qed
    qed
    with a b show ?thesis by blast
  qed
  moreover have "\<forall>q \<in> S. q < db_next_seq d'" using S cf by (fastforce simp: sent_ok_def comes_from_def)
  ultimately show ?thesis by (simp add: sent_ok_def)
qed

lemma phases_ok_step:
  assumes "continues (sy_db s) (sy_db s')" "sent_ok S (sy_db s)" "phases_ok S s"
    and "\<And>p u oc. storing u oc (sy_phase s' p) \<Longrightarrow> storing u oc (sy_phase s p)"
  shows "phases_ok S s'"
  unfolding phases_ok_def
proof (intro allI impI ballI notI)
  fix p u oc q assume p: "storing u oc (sy_phase s' p) \<and> allows_retry oc" and q: "q \<in> set (db_runs (sy_db s'))"
    "r_uid q = u \<and> r_status q = RunProcessing" "r_queue_sequence q \<in> S"
  obtain parent where "comes_from parent (sy_db s) (sy_db s')" using assms(1) by (auto simp: continues_def)
  from sent_row_old [OF this assms(2) q(1,3)] obtain r where
    r: "r \<in> set (db_runs (sy_db s))" "run_evolves r q" "r_queue_sequence r \<in> S" .
  have "r_status r \<noteq> RunQueued" using assms(2) r by (auto simp: sent_ok_def)
  then have "r_status r = RunProcessing" using evolved_status(2) [OF r(2)] q(2) by blast
  moreover have "r_uid r = u" using q(2) evolved_identity(2) [OF r(2)] by simp
  ultimately show False using assms(3) assms(4) p r(1,3) unfolding phases_ok_def by blast
qed

text \<open>While a worker prints a run, no outcome waits to be stored, and the run has no retry.\<close>

lemma printing_facts:
  assumes "sys_ok s" "sy_phase s p = Printing u" "r \<in> set (db_runs (sy_db s))" "r_uid r = u"
  shows "r_status r = RunProcessing" "\<not> r_retryable r" "\<not> retry_of (sy_db s) c r" "r_queue_sequence r < db_next_seq (sy_db s)"
    "\<not> storing v oc (sy_phase s q)"
proof -
  note h = holderD [OF assms(1,2)]
  have ok: "db_ok (sy_db s)" "schema_ok (sy_db s)" using assms(1) by (simp_all add: sys_ok_def db_ok_def)
  have "u \<in> set (processing_uids (sy_db s))" using h by simp
  then obtain t where t: "t \<in> set (db_runs (sy_db s))" "r_uid t = u" "r_status t = RunProcessing" by (auto simp: processing_uids_def)
  then have "t = r" using same_uid [OF ok(2) t(1) assms(3)] assms(4) by simp
  with t show processing: "r_status r = RunProcessing" by simp
  show "\<not> r_retryable r" using retryable_failed [OF ok(2) assms(3)] processing by auto
  show "r_queue_sequence r < db_next_seq (sy_db s)" using ok(2) assms(3) by (simp add: schema_ok_def runs_ok_def)
  show "\<not> retry_of (sy_db s) c r"
  proof
    assume c: "retry_of (sy_db s) c r"
    then obtain q where q: "retry_source (sy_db s) c q"
      using ok(1) by (auto simp: retry_of_def db_ok_def lineage_ok_def)
    then have "q = r" using same_uid [OF ok(2) _ assms(3), of q] c by (simp add: retry_source_def retry_of_def)
    then show False using q processing by (simp add: retry_source_def)
  qed
  have "held_ok p s" using h by simp
  then show "\<not> storing v oc (sy_phase s q)"
    using assms(2) by (cases "q = p") (auto simp: held_ok_def storing_def calm_def)
qed

definition print_ok :: "sys \<times> nat set \<Rightarrow> bool" where
  "print_ok x \<longleftrightarrow> sys_ok (fst x) \<and> sent_ok (snd x) (sy_db (fst x)) \<and> phases_ok (snd x) (fst x)"

lemma sent_more:
  assumes "print_ok (s, S)" "sy_phase s p = Printing u" "r \<in> set (db_runs (sy_db s))" "r_uid r = u"
  shows "print_ok (s, insert (r_queue_sequence r) S)"
proof -
  have ok: "sys_ok s" "schema_ok (sy_db s)" using assms(1) by (simp_all add: print_ok_def sys_ok_def db_ok_def)
  note f = printing_facts [OF ok(1) assms(2-4)]
  have "q = r" if "q \<in> set (db_runs (sy_db s))" "r_queue_sequence q = r_queue_sequence r" for q
    using same_sequence [OF ok(2) that(1) assms(3) that(2)] .
  then have "sent_ok (insert (r_queue_sequence r) S) (sy_db s)"
    using assms(1) f(1-4) unfolding print_ok_def sent_ok_def by (metis fst_conv insertE run_status.distinct(1) snd_conv)
  moreover have "phases_ok (insert (r_queue_sequence r) S) s" using f(5) by (simp add: phases_ok_def)
  ultimately show ?thesis using ok(1) by (simp add: print_ok_def)
qed

lemma sys_step_sent_ok:
  assumes "sys_step s s'" "sys_ok s" "sent_ok S (sy_db s)" "phases_ok S s"
  shows "sent_ok S (sy_db s')"
proof (rule sent_ok_step [OF sys_step_continues [OF assms(1,2)] assms(3)], rule notI)
  fix r q assume r: "r \<in> set (db_runs (sy_db s))" "r_queue_sequence r \<in> S" "r_status r = RunProcessing"
    and q: "q \<in> set (db_runs (sy_db s'))" "run_evolves r q" "r_retryable q"
  obtain p oc where "storing (r_uid r) oc (sy_phase s p)" "allows_retry oc"
    using sys_step_marks [OF assms(1,2) r(1,3) q(1) evolved_identity(2) [OF q(2)] q(3)] by blast
  then show False using assms(4) r unfolding phases_ok_def by blast
qed

lemma print_step_keeps: "print_step x x' \<Longrightarrow> print_ok x \<Longrightarrow> print_ok x'"
proof (induction rule: print_step.induct)
  case (writes s p u r S)
  show ?case by (rule sent_more [OF writes.prems writes.hyps])
next
  case (decides s p u r env drv jr tr now w n S)
  let ?S = "if bytes_left env jr tr r (sy_db s) w then insert (r_queue_sequence r) S else S"
  let ?s = "moves p (Storing u (dn_outcome n)) s"
  have ok: "print_ok (s, ?S)" using sent_more [OF decides.prems decides.hyps(1-3)] decides.prems by simp
  have "storable (dn_outcome n)" by (rule decided_storable [OF decides.hyps(4-6)])
  then have "sys_ok ?s" using sys_step_keeps [OF decided [OF decides.hyps(1)]] decides.prems by (simp add: print_ok_def)
  moreover have "phases_ok ?S ?s"
    unfolding phases_ok_def
  proof (intro allI impI ballI)
    fix q v oc t assume st: "storing v oc (sy_phase ?s q) \<and> allows_retry oc"
      and t: "t \<in> set (db_runs (sy_db ?s))" "r_uid t = v \<and> r_status t = RunProcessing"
    have "sys_ok s" "schema_ok (sy_db s)" using decides.prems by (simp_all add: print_ok_def sys_ok_def db_ok_def)
    note f = printing_facts(5) [OF \<open>sys_ok s\<close> decides.hyps(1-3), of v oc q]
    have "v = u" "oc = dn_outcome n" using st f by (auto simp: storing_def split: if_splits)
    then have "t = r" "\<not> bytes_left env jr tr r (sy_db s) w"
      using same_uid [OF \<open>schema_ok (sy_db s)\<close>, of t r] t decides.hyps(2,3)
        retry_means_nothing_left [OF decides.hyps(4-6)] st by simp_all
    then show "r_queue_sequence t \<notin> ?S" using decides.hyps(7) by auto
  qed
  ultimately show ?case using ok by (simp add: print_ok_def)
next
  case (goes_on s s' S)
  then have ok: "sys_ok s" "sent_ok S (sy_db s)" "phases_ok S s" by (simp_all add: print_ok_def)
  have "storing v oc (sy_phase s q)" if "storing v oc (sy_phase s' q)" for v oc q
    using that goes_on.hyps(2) sys_step_retrying [OF goes_on.hyps(1)] unfolding storing_def by blast
  with phases_ok_step [OF sys_step_continues [OF goes_on.hyps(1) ok(1)] ok(2,3)]
  have "phases_ok S s'" by blast
  then show ?case using sys_step_sent_ok [OF goes_on.hyps(1) ok] sys_step_keeps [OF goes_on.hyps(1) ok(1)]
    by (simp add: print_ok_def)
qed

lemma print_steps_keep: "print_step\<^sup>*\<^sup>* x x' \<Longrightarrow> print_ok x \<Longrightarrow> print_ok x'"
  by (induction rule: rtranclp_induct) (auto intro: print_step_keeps)

section \<open>Chains of retries do not branch\<close>

lemma retry_unique:
  assumes "schema_ok d" "retry_of d c p" "retry_of d c' p" shows "c = c'"
proof -
  let ?retries = "filter (\<lambda>r. r_trigger r = TriggerAutomaticRetry \<and> r_previous_run_uid r \<noteq> None) (db_runs d)"
  have "distinct (map r_previous_run_uid ?retries)" using assms(1) by (simp add: schema_ok_def runs_ok_def runs_unique_def)
  moreover have "c \<in> set ?retries" "c' \<in> set ?retries" "r_previous_run_uid c = r_previous_run_uid c'"
    using assms(2,3) by (auto simp: retry_of_def)
  ultimately show ?thesis by (rule distinct_map_eqD)
qed

text \<open>Two runs of one ticket: one comes from the other by retries.\<close>

lemma retries_comparable:
  assumes "schema_ok d" "(retry_of d)\<^sup>*\<^sup>* a r" "(retry_of d)\<^sup>*\<^sup>* b r"
  shows "(retry_of d)\<^sup>*\<^sup>* a b \<or> (retry_of d)\<^sup>*\<^sup>* b a"
  using assms(2)
proof (induction rule: converse_rtranclp_induct)
  case base
  show ?case using assms(3) by blast
next
  case (step x' x)
  show ?case
  proof (cases "(retry_of d)\<^sup>*\<^sup>* x b")
    case True
    then show ?thesis using step.hyps(1) by (blast intro: converse_rtranclp_into_rtranclp)
  next
    case False
    then have "(retry_of d)\<^sup>*\<^sup>* b x" "b \<noteq> x" using step.IH by auto
    then obtain z where "(retry_of d)\<^sup>*\<^sup>* b z" "retry_of d z x" by (blast elim: rtranclp.cases)
    then show ?thesis using retry_unique [OF assms(1) _ step.hyps(1)] by blast
  qed
qed

lemma sent_once:
  assumes "sent_ok S d" "schema_ok d" "(retry_of d)\<^sup>*\<^sup>* a r" "(retry_of d)\<^sup>*\<^sup>* b r"
    and S: "a \<in> set (db_runs d)" "b \<in> set (db_runs d)" "r_queue_sequence a \<in> S" "r_queue_sequence b \<in> S"
  shows "a = b"
proof -
  have not: "\<not> retry_of d c a" "\<not> retry_of d c b" for c using assms(1) S by (auto simp: sent_ok_def)
  from retries_comparable [OF assms(2-4)] show ?thesis
    using not by (auto elim: rtranclp.cases)
qed

section \<open>A ticket reaches paper at most once\<close>

lemma started_print_ok:
  assumes "db_ok d0" "RecoverAbandoned now d0 = Inr (rs, d)" shows "print_ok (started d, {})"
proof -
  have "sys_ok (started d)"
    using recovery_finishes_all [OF assms(2,1)] repo_step_keeps [OF step_recover [OF assms(2)] assms(1)] by (intro started_ok)
  then show ?thesis by (simp add: print_ok_def sent_ok_def phases_ok_def)
qed


text \<open>A run is claimed and its write begins: it is in the set, and has no retry.\<close>

lemma sample_written:
  "print_step\<^sup>*\<^sup>* (started sample_queued, {}) (sample_claimed, {r_queue_sequence (claimed 30 sample_run)})"
proof -
  have quiet: "sy_phase sample_waiting p \<noteq> Storing u oc" "sy_phase sample_holding p \<noteq> Storing u oc"
    "sy_phase sample_claimed p \<noteq> Storing u oc" for p u oc
    by (simp_all add: started_def sample_claimed_def)
  have a: "print_step (started sample_queued, {}) (sample_waiting, {})"
    by (rule goes_on [OF sample_steps(1)]) (use quiet(1) in blast)
  have b: "print_step (sample_waiting, {}) (sample_holding, {})"
    by (rule goes_on [OF sample_steps(2)]) (use quiet(2) in blast)
  have c: "print_step (sample_holding, {}) (sample_claimed, {})"
    by (rule goes_on [OF sample_steps(3)]) (use quiet(3) in blast)
  have "print_step (sample_claimed, {}) (sample_claimed, {r_queue_sequence (claimed 30 sample_run)})"
    by (rule writes [of _ "''bar''" "''run_1''"]) (simp_all add: sample_claimed_def sample_dbs sample_rows)
  with c have "print_step\<^sup>*\<^sup>* (sample_holding, {}) (sample_claimed, {r_queue_sequence (claimed 30 sample_run)})" by simp
  with b have "print_step\<^sup>*\<^sup>* (sample_waiting, {}) (sample_claimed, {r_queue_sequence (claimed 30 sample_run)})"
    by (rule converse_rtranclp_into_rtranclp)
  with a show ?thesis by (rule converse_rtranclp_into_rtranclp)
qed


end
