(* ===== verification/Draining.thy ===== *)
theory Draining
  imports System WorkerProperties
begin

text \<open>
  The loop \<open>drainQueue\<close> of a worker ends: it leaves no queued run of its printer, or the connection is lost.
  The runs that wait for the printer are the variant of the loop.
\<close>

section \<open>The queue of a printer\<close>

definition queue_of :: "string \<Rightarrow> db \<Rightarrow> string set" where
  "queue_of p d = r_uid ` {r \<in> set (db_runs d). queued_for p r}"

lemma finite_queue [simp]: "finite (queue_of p d)"
  by (simp add: queue_of_def)

lemma update_queue:
  assumes "db_runs d' = update_where P f (db_runs d)"
    and "\<And>r. r \<in> set (db_runs d) \<Longrightarrow> P r \<Longrightarrow> r_status (f r) \<noteq> RunQueued"
  shows "queue_of p d' \<subseteq> queue_of p d"
proof
  fix u assume "u \<in> queue_of p d'"
  then obtain r where r: "r \<in> set (db_runs d)" "queued_for p (if P r then f r else r)" "u = r_uid (if P r then f r else r)"
    using assms(1) by (auto simp: queue_of_def set_update_where)
  then have "\<not> P r" using assms(2) by (auto simp: queued_for_def)
  with r show "u \<in> queue_of p d" by (auto simp: queue_of_def)
qed

lemma transition_queue:
  assumes "transition uid target P f now d = Inr d'" "\<And>r. r_status (f r) \<noteq> RunQueued"
  shows "queue_of p d' \<subseteq> queue_of p d"
proof -
  obtain n e where "update_runs P f d = Inr (n, e)" "d' = extend_retention uid (now + retentionWindow) e"
    using assms(1) by (auto simp: transition_def elim!: sum_bindE)
  with update_runs_InrD(1) [OF this(1)] have "db_runs d' = update_where P f (db_runs d)" by simp
  then show ?thesis by (rule update_queue) (rule assms(2))
qed

lemma outcome_queue: "mark_outcome uid oc now l d = Inr d' \<Longrightarrow> queue_of p d' \<subseteq> queue_of p d"
  by (cases oc) (auto simp: mark_outcome_def MarkTransmitted_def MarkUncertain_def MarkFailed_def dest!: transition_queue)

text \<open>A claim takes one run from the queue.\<close>

lemma claim_takes_one:
  assumes "db_ok d" "\<exists>r \<in> set (db_runs d). queued_for p r"
  obtains r d' where "ClaimNextQueued p now d = Inr (claimed now r, d')" "queue_of p d' \<subset> queue_of p d"
    "find_run (r_uid r) d' = Some (claimed now r)" "db_ok d'"
proof -
  obtain r where r: "oldest_queued p d r" using oldest_exists assms(2) by blast
  define d' where "d' = d\<lparr>db_runs := update_where (\<lambda>x. r_uid x = r_uid r) (claimed now) (db_runs d)\<rparr>"
  have c: "ClaimNextQueued p now d = Inr (claimed now r, d')" unfolding d'_def by (rule claim_oldest [OF assms(1) r])
  have in_d: "r \<in> set (db_runs d)" "queued_for p r" using r by (simp_all add: oldest_queued_def)
  have ok': "db_ok d'" by (rule claim_keeps [OF c assms(1)])
  have "claimed now r \<in> set (db_runs d')" using in_d(1) by (force simp: d'_def set_update_where)
  then have found: "find_run (r_uid r) d' = Some (claimed now r)"
    using db_ok_uids [OF ok'] by (auto simp: find_run_def find_distinct claimed_def)
  have "queue_of p d' \<subseteq> queue_of p d" by (rule update_queue [of d' "\<lambda>x. r_uid x = r_uid r" "claimed now"]) (simp_all add: d'_def claimed_def)
  moreover have "r_uid r \<in> queue_of p d" using in_d by (auto simp: queue_of_def)
  moreover have "r_uid r \<notin> queue_of p d'"
    by (auto simp: queue_of_def d'_def set_update_where queued_for_def claimed_def)
  ultimately have "queue_of p d' \<subset> queue_of p d" by blast
  with that c found ok' show thesis by blast
qed

section \<open>Claiming\<close>

text \<open>
  What the others may commit while a worker drains its queue: they queue nothing for its printer and leave
  the status of every run alone that is no longer queued. They may accept Jobs for other printers and cancel.
\<close>

definition quiet_for :: "string \<Rightarrow> (db \<Rightarrow> db) \<Rightarrow> bool" where
  "quiet_for p other \<longleftrightarrow> (\<forall>uid. leaves_run uid other) \<and> (\<forall>e. db_ok e \<longrightarrow> queue_of p (other e) \<subseteq> queue_of p e)"

lemma quiet_forD:
  assumes "quiet_for p other" "db_ok e" shows "db_ok (other e)" "queue_of p (other e) \<subseteq> queue_of p e"
  using assms by (auto simp: quiet_for_def leaves_run_def)

definition claim_ok :: "string \<Rightarrow> db \<Rightarrow> print_run option \<times> db \<Rightarrow> bool" where
  "claim_ok p d res \<longleftrightarrow> db_ok (snd res) \<and> (case fst res of
      None \<Rightarrow> queue_of p (snd res) = {}
    | Some run \<Rightarrow> queue_of p (snd res) \<subset> queue_of p d \<and> find_run (r_uid run) (snd res) = Some run \<and> r_status run = RunProcessing)"

lemma claim_ok_mono: "claim_ok p e res \<Longrightarrow> queue_of p e \<subseteq> queue_of p d \<Longrightarrow> claim_ok p d res"
  by (auto simp: claim_ok_def split: option.split_asm)

lemma try_claim_ok:
  assumes "db_ok d" "quiet_for p (at_other a)"
  shows "(\<exists>res. try_claim p a d = Inr res \<and> claim_ok p d res) \<or> (\<exists>e. try_claim p a d = Inl e \<and> at_fault a = Unavailable e)"
proof (cases "\<exists>e. at_fault a = Unavailable e")
  case True
  then show ?thesis by (auto simp: try_claim_def Let_def)
next
  case False
  let ?d = "at_other a d"
  note q = quiet_forD [OF assms(2,1)]
  have res: "try_claim p a d = Inr res" if "ClaimNextQueued p (at_now a) ?d = Inr (run, d') \<and> res = (Some run, d') \<or>
      ClaimNextQueued p (at_now a) ?d = Inl ErrNotFound \<and> res = (None, ?d)" for res run d'
    using that False by (cases "at_fault a") (auto simp: try_claim_def Let_def)
  show ?thesis
  proof (cases "\<exists>r \<in> set (db_runs ?d). queued_for p r")
    case True
    from claim_takes_one [OF q(1) True, of "at_now a"] obtain r d' where
      c: "ClaimNextQueued p (at_now a) ?d = Inr (claimed (at_now a) r, d')" "queue_of p d' \<subset> queue_of p ?d"
      "find_run (r_uid r) d' = Some (claimed (at_now a) r)" "db_ok d'" by blast
    then have "claim_ok p d (Some (claimed (at_now a) r), d')" using q(2) by (auto simp: claim_ok_def claimed_def)
    with res c(1) show ?thesis by blast
  next
    case False
    then have "queue_of p ?d = {}" by (auto simp: queue_of_def)
    then have "claim_ok p d (None, ?d)" using q(1) by (simp add: claim_ok_def)
    with res claim_none [OF False] show ?thesis by blast
  qed
qed

lemma claim_loop_ok:
  assumes "db_ok d" "gate_ok (Suc n) g" "\<And>j. quiet_for p (at_other (sched j))" "at_fault (sched (k + m)) = NoFault"
  shows "\<exists>r g' d'. claim_loop p sched k delay g d = Some (r, g', d') \<and> gate_ok n g' \<and> claim_ok p d (r, d')"
  using assms(1,2,4)
proof (induction m arbitrary: k delay g d)
  case 0
  then obtain r d' where "try_claim p (sched k) d = Inr (r, d')" "claim_ok p d (r, d')"
    using try_claim_ok [OF 0(1) assms(3), of k] by auto
  moreover obtain g' where "gate_end g = Some g'" "gate_ok n g'" using gate_ok_end [OF 0(2)] by blast
  ultimately show ?case by (subst claim_loop.simps) simp
next
  case (Suc m)
  from try_claim_ok [OF Suc.prems(1) assms(3), of k] show ?case
  proof
    assume "\<exists>res. try_claim p (sched k) d = Inr res \<and> claim_ok p d res"
    then obtain r d' where "try_claim p (sched k) d = Inr (r, d')" "claim_ok p d (r, d')" by auto
    moreover obtain g' where "gate_end g = Some g'" "gate_ok n g'" using gate_ok_end [OF Suc.prems(2)] by blast
    ultimately show ?case by (subst claim_loop.simps) simp
  next
    assume "\<exists>e. try_claim p (sched k) d = Inl e \<and> at_fault (sched k) = Unavailable e"
    then obtain e where e: "try_claim p (sched k) d = Inl e" by blast
    note q = quiet_forD [OF assms(3) Suc.prems(1), of k]
    have "gate_ok (Suc n) (gate_update e g)" using Suc.prems(2) by (simp add: gate_ok_update)
    from Suc.IH [OF q(1) this, of "k + 1" "next_delay delay"] Suc.prems(3)
    obtain r g' d' where "claim_loop p sched (k + 1) (next_delay delay) (gate_update e g) (at_other (sched k) d) = Some (r, g', d')"
      "gate_ok n g'" "claim_ok p (at_other (sched k) d) (r, d')" by auto
    with e claim_ok_mono [OF _ q(2)] show ?case by (subst claim_loop.simps) simp
  qed
qed

lemma claimNext_ok:
  assumes "db_ok d" "gate_ok n g" "\<And>j. quiet_for (pc_id (wk_cfg w)) (at_other (sched j))" "at_fault (sched m) = NoFault"
  shows "\<exists>r w' g' d' evs. claimNext sched (w, g, d) = Some (r, (w', g', d'), evs) \<and> gate_ok n g' \<and>
    claim_ok (pc_id (wk_cfg w)) d (r, d') \<and> w' \<in> {w, w\<lparr>wk_last_error := []\<rparr>}"
proof -
  let ?p = "pc_id (wk_cfg w)"
  from try_claim_ok [OF assms(1,3), of 0] show ?thesis
  proof
    assume "\<exists>res. try_claim ?p (sched 0) d = Inr res \<and> claim_ok ?p d res"
    then obtain r d' where "try_claim ?p (sched 0) d = Inr (r, d')" "claim_ok ?p d (r, d')" by auto
    with assms(2) show ?thesis by (simp add: claimNext_def Let_def)
  next
    assume "\<exists>e. try_claim ?p (sched 0) d = Inl e \<and> at_fault (sched 0) = Unavailable e"
    then obtain e where e: "try_claim ?p (sched 0) d = Inl e" "at_fault (sched 0) = Unavailable e" by blast
    with assms(4) obtain m' where m: "m = Suc m'" by (cases m) auto
    note q = quiet_forD [OF assms(3,1), of 0]
    have "gate_ok (Suc n) (gate_begin e (at_now (sched 0)) g)" using gate_ok_begin [OF assms(2)] by simp
    from claim_loop_ok [where sched = sched and k = 1 and m = m' and delay = first_delay, OF q(1) this assms(3)] assms(4) m
    obtain r g' d' where "claim_loop ?p sched 1 first_delay (gate_begin e (at_now (sched 0)) g) (at_other (sched 0) d) = Some (r, g', d')"
      "gate_ok n g'" "claim_ok ?p (at_other (sched 0) d) (r, d')" by auto
    with e claim_ok_mono [OF _ q(2)] show ?thesis by (simp add: claimNext_def Let_def)
  qed
qed

section \<open>One run\<close>

lemma try_mark_invariant:
  assumes "I (at_other a d)" "\<And>e'. mark (at_now a) (at_later a) (at_other a d) = Inr e' \<Longrightarrow> I e'"
  shows "I (snd (try_mark mark ping a d))"
proof (cases "mark (at_now a) (at_later a) (at_other a d)")
  case (Inl e)
  with assms(1) show ?thesis by (cases "at_fault a") (simp_all add: try_mark_def Let_def)
next
  case (Inr e)
  with assms show ?thesis by (cases "at_fault a") (simp_all add: try_mark_def Let_def)
qed

lemma persist_loop_invariant:
  assumes "persist_loop mark sched k delay g d = Some y" "I d"
    and "\<And>j e. I e \<Longrightarrow> I (at_other (sched j) e)" "\<And>now l e e'. I e \<Longrightarrow> mark now l e = Inr e' \<Longrightarrow> I e'"
  shows "I (snd y)"
proof -
  have tries: "I (snd (try_mark mark True (sched j) e))" if "I e" for j e
    by (rule try_mark_invariant) (use assms(3,4) that in blast)+
  have "mark = mark \<longrightarrow> sched = sched \<longrightarrow> I d \<longrightarrow> I (snd y)"
  proof (rule persist_loop.raw_induct [where P = "\<lambda>mk sc k delay g d y. mk = mark \<longrightarrow> sc = sched \<longrightarrow> I d \<longrightarrow> I (snd y)", OF _ assms(1)], intro impI)
    fix loop mk sc k delay g d y
    assume IH: "\<And>mk sc k delay g d y. loop mk sc k delay g d = Some y \<Longrightarrow> mk = mark \<longrightarrow> sc = sched \<longrightarrow> I d \<longrightarrow> I (snd y)"
      and step: "(case try_mark mk True (sc k) d of
          (None, d') \<Rightarrow> (case gate_end g of None \<Rightarrow> None | Some g' \<Rightarrow> Some (g', d'))
        | (Some e, d') \<Rightarrow> loop mk sc (k + 1) (next_delay delay) (gate_update e g) d') = Some y"
      and eqs: "mk = mark" "sc = sched" "I d"
    obtain e d' where t: "try_mark mark True (sched k) d = (e, d')" by fastforce
    have "I d'" using tries [OF eqs(3), of k] t by simp
    with step IH t eqs(1,2) show "I (snd y)" by (cases e) (auto split: option.split_asm)
  qed
  with assms(2) show ?thesis by simp
qed

lemma persist_worker:
  "persist mark sched (w, g, d) = Some ((w', g', d'), evs) \<Longrightarrow> w' \<in> {w, w\<lparr>wk_last_error := []\<rparr>}"
  by (auto simp: persist_def split: prod.split_asm option.split_asm)

lemma persist_queue:
  assumes "persist (mark_outcome uid oc) sched (w, g, d) = Some ((w', g', d'), evs)" "storable oc" "db_ok d"
    and "\<And>j. quiet_for p (at_other (sched j))"
  shows "queue_of p d' \<subseteq> queue_of p d"
proof -
  define I where "I e \<longleftrightarrow> db_ok e \<and> queue_of p e \<subseteq> queue_of p d" for e
  have others: "I (at_other (sched j) e)" if "I e" for j e
    using quiet_forD [OF assms(4), of e j] that by (auto simp: I_def)
  have marks: "I e'" if "I e" "mark_outcome uid oc now l e = Inr e'" for now l e e'
    using outcome_keeps [OF that(2) assms(2)] outcome_queue [OF that(2)] that(1) by (auto simp: I_def)
  have "I d" using assms(3) by (simp add: I_def)
  note o = others [OF this, of 0]
  have first: "I (snd (try_mark (mark_outcome uid oc) False (sched 0) d))"
    by (rule try_mark_invariant [where I = I, OF o]) (rule marks [OF o])
  obtain e d1 where t: "try_mark (mark_outcome uid oc) False (sched 0) d = (e, d1)" by fastforce
  have "I d'"
  proof (cases e)
    case None
    then show ?thesis using assms(1) t first by (simp add: persist_def)
  next
    case (Some x)
    then obtain g1 where "persist_loop (mark_outcome uid oc) sched 1 first_delay (gate_begin x (at_now (sched 0)) g) d1 = Some (g1, d')"
      using assms(1) t by (auto simp: persist_def split: option.split_asm)
    from persist_loop_invariant [where I = I, OF this _ others marks] first t have "I (snd (g1, d'))" by simp
    then show ?thesis by simp
  qed
  then show ?thesis by (simp add: I_def)
qed

definition fair_worker :: "conn worker \<Rightarrow> bool" where
  "fair_worker w \<longleftrightarrow> (\<forall>c. wk_tr w = Some c \<longrightarrow> conn_fair c)"

lemma send_stays_fair: "conn_send c doc = (r, c') \<Longrightarrow> conn_fair c \<Longrightarrow> conn_fair c'"
  by (cases c) (auto simp: conn_send_def conn_fair_def serial_send_def rfcomm_send_def apsnd_def map_prod_def split: prod.split_asm)

lemma decide_keeps_worker:
  assumes "decide env drv jr tr now run d w = Some n" "wv_send env = conn_send" "fair_worker w"
    and "w' \<in> {dn_before n, (dn_before n)\<lparr>wk_last_error := []\<rparr>}"
  shows "fair_worker (dn_after n w') \<and> wk_cfg (dn_after n w') = wk_cfg w"
  using assms(1)
proof (cases rule: decide_cases)
  case (refused code msg evs)
  with assms(3,4) show ?thesis by (auto simp: fail_quietly_def fair_worker_def)
next
  case (sent c c' doc)
  have "conn_fair c'" using send_stays_fair sent(1,2) assms(2,3) by (auto simp: fair_worker_def)
  with sent(4) assms(4) show ?thesis by (auto simp: fair_worker_def closeTransport_def)
next
  case (broken c c' doc e msg)
  with assms(4) show ?thesis by (auto simp: fair_worker_def closeTransport_def)
qed

lemma process_drains:
  assumes send: "wv_send env = conn_send" and w: "wk_tr w \<noteq> None" "fair_worker w"
    and db: "db_ok d" "find_run (r_uid run) d = Some r" "r_status r = RunProcessing" and g: "gate_ok k g"
    and sched: "\<And>j. quiet_for p (at_other (sched j))" "at_fault (sched m) = NoFault"
  obtains w' g' d' evs where "process env drv jr tr now sched run (w, g, d) = Some ((w', g', d'), evs)" "gate_ok k g'"
    "db_ok d'" "queue_of p d' \<subseteq> queue_of p d" "settled w'" "fair_worker w'" "wk_cfg w' = wk_cfg w"
proof -
  obtain n where n: "decide env drv jr tr now run d w = Some n" using decide_returns [OF w(1)] by blast
  have fair: "\<And>c. wk_tr w = Some c \<Longrightarrow> conn_fair c" using w(2) by (simp add: fair_worker_def)
  have ok: "storable (dn_outcome n)" "\<And>c code msg b. dn_outcome n = Failed c code msg b \<Longrightarrow> c = 0"
    using conn.decide_is_true [OF n send fair] by (auto simp: outcome_true_def storable_def split: outcome.split)
  have leaves: "leaves_run (r_uid run) (at_other (sched j))" for j using sched(1) by (simp add: quiet_for_def)
  have "\<exists>w' g' d' evs r'. process env drv jr tr now sched run (w, g, d) = Some ((w', g', d'), evs) \<and> gate_ok k g' \<and>
      db_ok d' \<and> find_run (r_uid run) d' = Some r' \<and> r_status r' = outcome_status (dn_outcome n) \<and> settled w'"
    by (rule process_stores [OF n w(1) db g]) (fact leaves, fact sched(2), fact ok(2))
  then obtain w' g' d' evs where
    res: "process env drv jr tr now sched run (w, g, d) = Some ((w', g', d'), evs)" "gate_ok k g'" "db_ok d'" "settled w'"
    by blast
  then obtain v evs' where v: "persist (mark_outcome (r_uid run) (dn_outcome n)) sched (dn_before n, g, d) = Some ((v, g', d'), evs')"
    "w' = dn_after n v"
    using n by (auto simp: process_def split: option.split_asm)
  have "fair_worker w'" "wk_cfg w' = wk_cfg w"
    using decide_keeps_worker [OF n send w(2) persist_worker [OF v(1)]] v(2) by simp_all
  with res persist_queue [OF v(1) ok(1) db(1) sched(1)] that show thesis by blast
qed

section \<open>The loop\<close>

text \<open>
  A turn in which nothing outside stands in the way: the context goes on, the gate is open and the permit is free
  when the worker asks, and the database works again after any number of failures and lost answers.
\<close>

definition good_turn :: "string \<Rightarrow> drain_events \<Rightarrow> bool" where
  "good_turn p e \<longleftrightarrow> \<not> de_ctx_done e \<and> gate_ok 0 (de_gate e) \<and> acquire (de_permit e) \<noteq> None \<and>
     (\<forall>j. quiet_for p (at_other (de_claim e j)) \<and> quiet_for p (at_other (de_store e j))) \<and>
     (\<exists>m. at_fault (de_claim e m) = NoFault) \<and> (\<exists>m. at_fault (de_store e m) = NoFault)"

definition drained :: "string \<Rightarrow> conn wstate \<Rightarrow> bool" where
  "drained p s \<longleftrightarrow> db_ok (snd (snd s)) \<and> settled (fst s) \<and> fair_worker (fst s) \<and>
     (wk_state (fst s) = StateConnected \<longrightarrow> queue_of p (snd (snd s)) = {})"

lemma settled_states: "settled w \<Longrightarrow> wk_state w = StateConnected \<longleftrightarrow> wk_tr w \<noteq> None"
  by (auto simp: settled_def)

text \<open>One turn: the loop ends here, or goes on with a shorter queue.\<close>

lemma drain_turn:
  assumes send: "wv_send env = conn_send" and turn: "good_turn p (sched k)"
    and w: "settled w" "fair_worker w" "pc_id (wk_cfg w) = p" and d: "db_ok d"
  obtains (over) r evs' where "drainQueue env sched k (w, g, d) evs = Some (r, evs')" "drained p r"
    | (on) w' g' d' evs' where "drainQueue env sched k (w, g, d) evs = drainQueue env sched (k + 1) (w', g', d') evs'"
      "settled w'" "fair_worker w'" "pc_id (wk_cfg w') = p" "db_ok d'" "queue_of p d' \<subset> queue_of p d"
proof (cases "wk_state w = StateConnected")
  case False
  then have "drainQueue env sched k (w, g, d) evs = Some ((w, g, d), evs)" by (subst drainQueue.simps) simp
  with False w d over show thesis by (simp add: drained_def)
next
  case True
  have open_gate: "\<not> de_ctx_done (sched k)" "gate_passes (de_gate (sched k))" "acquire (de_permit (sched k)) \<noteq> None"
    using turn gate_ok_passes by (auto simp: good_turn_def)
  obtain m m' where m: "at_fault (de_claim (sched k) m) = NoFault" "at_fault (de_store (sched k) m') = NoFault"
    using turn by (auto simp: good_turn_def)
  have quiet: "quiet_for (pc_id (wk_cfg w)) (at_other (de_claim (sched k) j))" "quiet_for p (at_other (de_store (sched k) j))" for j
    using turn w(3) by (auto simp: good_turn_def)
  have "gate_ok 0 (de_gate (sched k))" using turn by (simp add: good_turn_def)
  from claimNext_ok [where sched = "de_claim (sched k)", OF d this quiet(1) m(1)] obtain r w1 g1 d1 evs1 where
    c: "claimNext (de_claim (sched k)) (w, de_gate (sched k), d) = Some (r, (w1, g1, d1), evs1)" "gate_ok 0 g1"
    "claim_ok (pc_id (wk_cfg w)) d (r, d1)" "w1 \<in> {w, w\<lparr>wk_last_error := []\<rparr>}" by blast
  have w1: "settled w1" "fair_worker w1" "wk_cfg w1 = wk_cfg w" "wk_tr w1 \<noteq> None"
    using c(4) w(1,2) True settled_states [OF w(1)] by (auto simp: settled_def fair_worker_def)
  show thesis
  proof (cases r)
    case None
    then have "drainQueue env sched k (w, g, d) evs = Some ((w1, g1, d1), evs @ evs1)"
      using open_gate c(1) True by (subst drainQueue.simps) auto
    moreover have "drained p (w1, g1, d1)" using c(3) None w1 w(3) by (simp add: drained_def claim_ok_def)
    ultimately show thesis by (rule over)
  next
    case (Some run)
    then have run: "db_ok d1" "find_run (r_uid run) d1 = Some run" "r_status run = RunProcessing" "queue_of p d1 \<subset> queue_of p d"
      using c(3) w(3) by (simp_all add: claim_ok_def)
    obtain w' g' d' evs2 where pr: "process env (de_drv (sched k)) (de_job_read (sched k)) (de_target_read (sched k)) (de_now (sched k))
        (de_store (sched k)) run (w1, g1, d1) = Some ((w', g', d'), evs2)" "db_ok d'" "queue_of p d' \<subseteq> queue_of p d1"
      "settled w'" "fair_worker w'" "wk_cfg w' = wk_cfg w1"
      by (rule process_drains [where sched = "de_store (sched k)", OF send w1(4,2) run(1-3) c(2) quiet(2) m(2)])
    have "drainQueue env sched k (w, g, d) evs =
        drainQueue env sched (k + 1) (w', g', d') (evs @ evs1 @ WProcessing (r_uid run) # evs2)"
      using open_gate c(1) True Some pr(1) by (subst drainQueue.simps) auto
    with on pr run(4) w1(3) w(3) show thesis by (metis psubset_subset_trans subset_psubset_trans)
  qed
qed

lemma drain_ends:
  assumes send: "wv_send env = conn_send" and turns: "\<And>k. good_turn p (sched k)"
  shows "settled w \<Longrightarrow> fair_worker w \<Longrightarrow> pc_id (wk_cfg w) = p \<Longrightarrow> db_ok d \<Longrightarrow>
    \<exists>r evs'. drainQueue env sched k (w, g, d) evs = Some (r, evs') \<and> drained p r"
proof (induction "card (queue_of p d)" arbitrary: k w g d evs rule: less_induct)
  case less
  show ?case
  proof (rule drain_turn [where sched = sched and k = k and g = g and evs = evs, OF send turns less.prems])
    fix r evs' assume "drainQueue env sched k (w, g, d) evs = Some (r, evs')" "drained p r"
    then show ?thesis by blast
  next
    fix w' g' d' evs' assume on: "drainQueue env sched k (w, g, d) evs = drainQueue env sched (k + 1) (w', g', d') evs'"
      "settled w'" "fair_worker w'" "pc_id (wk_cfg w') = p" "db_ok d'" "queue_of p d' \<subset> queue_of p d"
    have "card (queue_of p d') < card (queue_of p d)" by (rule psubset_card_mono) (simp_all add: on(6))
    from less.hyps [OF this on(2-5)] on(1) show ?thesis by simp
  qed
qed


definition sample_turn :: drain_events where
  "sample_turn = \<lparr>de_ctx_done = False, de_gate = newPersistenceGate, de_permit = newTransmissionGate, de_claim = steady,
     de_drv = sample_driver, de_job_read = True, de_target_read = True, de_now = 9, de_store = steady\<rparr>"

lemma sample_turn_good: "good_turn p sample_turn"
  by (simp add: good_turn_def sample_turn_def gate_ok_new newTransmissionGate_def acquire_def quiet_for_def leaves_run_def steady_def
      exI [of _ "1 :: nat"])


end
