(* ===== verification/ManagerProperties.thy ===== *)
theory ManagerProperties
  imports Manager Samples
begin

text \<open>The properties of the manager and of the stored configuration.\<close>

section \<open>Histories of the manager\<close>

text \<open>
  A step is one operation of the manager, a transaction on other tables than the printers, or a change
  of a worker by its own goroutine, which leaves its configuration alone.
\<close>

inductive manager_step :: "'c manager \<times> db \<Rightarrow> 'c manager \<times> db \<Rightarrow> bool" where
  mg_start: "Start ctx d m = Inr m' \<Longrightarrow> manager_step (m, d) (m', d)"
| mg_stop: "manager_step (m, d) (Stop m, d)"
| mg_create: "CreatePrinter cfg now (m, d) = Inr (m', d', evs) \<Longrightarrow> manager_step (m, d) (m', d')"
| mg_update: "UpdatePrinter cfg now (m, d) = Inr (m', d', evs) \<Longrightarrow> manager_step (m, d) (m', d')"
| mg_update_with: "UpdatePrinterWith pid update now (m, d) = Inr (saved, m', d', evs) \<Longrightarrow> manager_step (m, d) (m', d')"
| mg_enable: "SetEnabled pid on now (m, d) = Inr (m', d', evs) \<Longrightarrow> manager_step (m, d) (m', d')"
| mg_remove: "RemovePrinter pid now (m, d) = (res, m', d') \<Longrightarrow> manager_step (m, d) (m', d')"
| mg_wake: "manager_step (m, d) (Manager_Wake pid m, d)"
| mg_reconnect: "Reconnect pid m = Inr m' \<Longrightarrow> manager_step (m, d) (m', d)"
| mg_reconnect_all: "manager_step (m, d) (ReconnectAll m, d)"
| mg_jobs: "db_printers d' = db_printers d \<Longrightarrow> manager_step (m, d) (m, d')"
| mg_worker: "wk_cfg w' = wk_cfg w \<Longrightarrow> mg_workers m pid = Some w \<Longrightarrow>
    manager_step (m, d) (m\<lparr>mg_workers := (mg_workers m)(pid \<mapsto> w')\<rparr>, d)"

lemma manager_ok_workers:
  assumes "manager_ok m d" "mg_ctx m' = mg_ctx m" "mg_started m' = mg_started m"
    and "\<And>pid. map_option wk_cfg (mg_workers m' pid) = map_option wk_cfg (mg_workers m pid)"
  shows "manager_ok m' d"
proof (rule manager_okI)
  show "mg_ctx m' = mg_started m'" using manager_okD(1) [OF assms(1)] assms(2,3) by simp
next
  fix pid w assume "mg_workers m' pid = Some w"
  then obtain v where "mg_workers m pid = Some v" "wk_cfg v = wk_cfg w"
    using assms(4) [of pid] by (cases "mg_workers m pid") simp_all
  with manager_okD(2) [OF assms(1)] assms(3) show
    "mg_started m' \<and> (\<exists>p. GetPrinter pid d = Inr p \<and> pc_enabled p \<and> same_settings p (wk_cfg w))" by metis
next
  fix pid p assume "mg_started m'" "GetPrinter pid d = Inr p" "pc_enabled p"
  with manager_okD(3) [OF assms(1)] assms(3) have "mg_workers m pid \<noteq> None" by metis
  then show "mg_workers m' pid \<noteq> None" using assms(4) [of pid] by auto
qed

lemma update_worker_ok:
  assumes "manager_ok m d" "\<And>w. wk_cfg (f w) = wk_cfg w" shows "manager_ok (update_worker f pid m) d"
  by (rule manager_ok_workers [OF assms(1)]) (auto simp: update_worker_def getWorker_def assms(2) split: option.split)

lemma jobs_ok: assumes "db_printers d' = db_printers d" "manager_ok m d" shows "manager_ok m d'"
proof -
  have "(\<lambda>pid. GetPrinter pid d') = (\<lambda>pid. GetPrinter pid d)" by (simp add: GetPrinter_def assms(1))
  with assms(2) show ?thesis unfolding manager_ok_def by metis
qed

text \<open>Every change of the configuration goes through \<open>applyPrinterLocked\<close>.\<close>

lemma configuration_applies:
  "CreatePrinter cfg now md = Inr r \<Longrightarrow> applyPrinterLocked cfg now md = Inr r"
  "UpdatePrinter cfg now md = Inr r \<Longrightarrow> applyPrinterLocked cfg now md = Inr r"
  "SetEnabled pid on now md = Inr r \<Longrightarrow> \<exists>c. applyPrinterLocked c now md = Inr r"
  by (auto simp: CreatePrinter_def UpdatePrinter_def SetEnabled_def elim!: sum_bindE
      split: sum.split_asm config_repo_err.split_asm)

lemma UpdatePrinterWith_applies:
  "UpdatePrinterWith pid update now md = Inr (saved, m', d', evs) \<Longrightarrow>
     \<exists>c. applyPrinterLocked c now md = Inr (m', d', evs)"
  by (auto simp: UpdatePrinterWith_def elim!: sum_bindE)

definition managed :: "'c manager \<times> db \<Rightarrow> bool" where
  "managed s \<longleftrightarrow> manager_ok (fst s) (snd s) \<and> printers_ok (snd s)"

lemma managed_apply: "applyPrinterLocked cfg now (m, d) = Inr (m', d', evs) \<Longrightarrow> managed (m, d) \<Longrightarrow> managed (m', d')"
  unfolding managed_def fst_conv snd_conv using apply_ok by blast

lemma managed_workers: "manager_ok m d \<Longrightarrow> manager_ok m' d \<Longrightarrow> managed (m, d) \<Longrightarrow> managed (m', d)"
  by (simp add: managed_def)

lemma ReconnectAll_ok: "manager_ok m d \<Longrightarrow> manager_ok (ReconnectAll m) d"
  by (rule manager_ok_workers) (simp_all add: ReconnectAll_def ReconnectNow_def option.map_comp comp_def)

lemma manager_step_keeps: "manager_step s s' \<Longrightarrow> managed s \<Longrightarrow> managed s'"
proof (induction rule: manager_step.induct)
  case (mg_start ctx d m m')
  then show ?case using Start_ok by (auto simp: managed_def)
next
  case (mg_create cfg now m d m' d' evs)
  then show ?case using configuration_applies(1) managed_apply by metis
next
  case (mg_update cfg now m d m' d' evs)
  then show ?case using configuration_applies(2) managed_apply by metis
next
  case (mg_update_with pid update now m d saved m' d' evs)
  then show ?case using UpdatePrinterWith_applies managed_apply by metis
next
  case (mg_enable pid on now m d m' d' evs)
  then show ?case using configuration_applies(3) managed_apply by metis
next
  case (mg_remove pid now m d res m' d')
  then show ?case unfolding managed_def fst_conv snd_conv using remove_ok by blast
next
  case (mg_wake m d pid)
  then show ?case by (simp add: managed_def Manager_Wake_def update_worker_ok worker_Wake_def)
next
  case (mg_reconnect pid m m' d)
  then have "m' = update_worker ReconnectNow pid m" by (simp add: Reconnect_def split: option.split_asm)
  with mg_reconnect show ?case by (simp add: managed_def update_worker_ok ReconnectNow_def)
next
  case (mg_jobs d' d m)
  then show ?case using jobs_ok [OF mg_jobs.hyps, of m] by (simp add: managed_def printers_ok_def)
next
  case (mg_worker w' w m pid d)
  then have "manager_ok m d" by (simp add: managed_def)
  then have "manager_ok (m\<lparr>mg_workers := (mg_workers m)(pid \<mapsto> w')\<rparr>) d"
    by (rule manager_ok_workers) (simp_all add: mg_worker.hyps)
  with mg_worker.prems show ?case by (simp add: managed_def)
qed (simp_all add: managed_def Stop_ok ReconnectAll_ok)

lemma manager_steps_keep: "manager_step\<^sup>*\<^sup>* s s' \<Longrightarrow> managed s \<Longrightarrow> managed s'"
  by (induction rule: rtranclp_induct) (auto intro: manager_step_keeps)



end
