(* ===== verification/Auth.thy ===== *)
theory Auth
  imports Config
begin

text \<open>
  \<open>internal/api/auth.go\<close>: pairing codes and client tokens. The service is a record of its fields and
  of the rows of \<open>client_tokens\<close>; what \<open>crypto/rand\<close> and the clock return are arguments. \<open>hash\<close>
  stands for \<open>hashToken\<close>, the hexadecimal SHA-256 of a token, and \<open>hex\<close> for \<open>hex.EncodeToString\<close>.
\<close>

section \<open>State\<close>

record token_row =
  tk_id :: string
  tk_hash :: string
  tk_label :: string
  tk_origin :: string
  tk_created_at :: time
  tk_last_used_at :: "time option"
  tk_revoked_at :: "time option"

record auth =
  au_tokens :: "token_row list"
  au_code :: string
  au_expiry :: time
  au_failures :: nat
  au_last_persisted :: "string \<rightharpoonup> time"

datatype auth_err = ErrPairingRejected | TokenConflict | TokenNotFound | AuthDB string | NoRandom

definition pairingCodeTTL :: time where "pairingCodeTTL = 5 * 60 * second"

definition token_use_interval :: time where "token_use_interval = 5 * 60 * second"

definition NewAuthService :: "token_row list \<Rightarrow> auth" where
  "NewAuthService rows = \<lparr>au_tokens = rows, au_code = [], au_expiry = 0, au_failures = 0, au_last_persisted = Map.empty\<rparr>"

section \<open>Text\<close>

text \<open>\<open>fmt.Sprintf("%06d", n)\<close>\<close>

definition six_digits :: "nat \<Rightarrow> string" where
  "six_digits n = map digit_char (digits 6 n)"

fun hex_bytes :: "nat list \<Rightarrow> string" where
  "hex_bytes [] = []"
| "hex_bytes (b # bs) =
     (let h = (\<lambda>n. if n < 10 then char_of (48 + n) else char_of (87 + n))
      in h (b div 16) # h (b mod 16) # hex_bytes bs)"

section \<open>Pairing\<close>

text \<open>\<open>rand.Int\<close> draws \<open>n\<close> below a million, or fails.\<close>

definition GeneratePairingCode :: "nat option \<Rightarrow> time \<Rightarrow> auth \<Rightarrow> (auth_err + string \<times> time) \<times> auth" where
  "GeneratePairingCode drawn now a =
     (case drawn of
        None \<Rightarrow> (Inl NoRandom, a)
      | Some n \<Rightarrow>
         (let code = six_digits n
          in (Inr (code, now + pairingCodeTTL),
              a\<lparr>au_code := code, au_expiry := now + pairingCodeTTL, au_failures := 0\<rparr>)))"

definition code_matches :: "string \<Rightarrow> time \<Rightarrow> auth \<Rightarrow> bool" where
  "code_matches code now a = (au_code a \<noteq> [] \<and> now < au_expiry a \<and> code = au_code a)"

definition count_guess :: "bool \<Rightarrow> auth \<Rightarrow> auth" where
  "count_guess valid a =
     (if valid then a\<lparr>au_code := [], au_failures := 0\<rparr>
      else if au_code a \<noteq> []
      then (let a = a\<lparr>au_failures := au_failures a + 1\<rparr>
            in if au_failures a \<ge> 5 then a\<lparr>au_code := []\<rparr> else a)
      else a)"

text \<open>The insert, with the primary key and the unique index on the hash.\<close>

definition insert_token :: "token_row \<Rightarrow> auth \<Rightarrow> auth_err + auth" where
  "insert_token t a =
     (if tk_id t \<in> tk_id ` set (au_tokens a) \<or> tk_hash t \<in> tk_hash ` set (au_tokens a) then Inl TokenConflict
      else Inr (a\<lparr>au_tokens := au_tokens a @ [t]\<rparr>))"

text \<open>\<open>raw\<close> are the 32 random bytes, \<open>checked\<close> the clock when the code is compared, \<open>now\<close> the clock
  when the row is written.\<close>

definition Pair ::
    "(string \<Rightarrow> string) \<Rightarrow> time \<Rightarrow> nat list option \<Rightarrow> time \<Rightarrow> string \<Rightarrow> string \<Rightarrow> string \<Rightarrow> auth \<Rightarrow> (auth_err + string) \<times> auth" where
  "Pair hash checked raw now code origin label a =
     (let valid = code_matches code checked a; a = count_guess valid a in
      if \<not> valid then (Inl ErrPairingRejected, a)
      else case raw of
        None \<Rightarrow> (Inl NoRandom, a)
      | Some bytes \<Rightarrow>
         (let token = ''pat_'' @ hex_bytes bytes;
              row = \<lparr>tk_id = hex_bytes (take 8 bytes), tk_hash = hash token,
                     tk_label = (if label = [] then ''POS client'' else label), tk_origin = origin,
                     tk_created_at = now, tk_last_used_at = None, tk_revoked_at = None\<rparr>
          in case insert_token row a of
               Inl e \<Rightarrow> (Inl e, a)
             | Inr a \<Rightarrow> (Inr token, a)))"

section \<open>Tokens\<close>

text \<open>
  \<open>validateToken\<close>: whether the token is valid, the error of the database, if any, and the state.
  \<open>read\<close> and \<open>written\<close> are the errors of its two statements.
\<close>

definition validateToken ::
    "(string \<Rightarrow> string) \<Rightarrow> string option \<Rightarrow> string option \<Rightarrow> time \<Rightarrow> string \<Rightarrow> string \<Rightarrow> auth \<Rightarrow>
     (bool \<times> string option) \<times> auth" where
  "validateToken hash read_error write_error now token origin a =
     (if token = [] then ((False, None), a)
      else case read_error of
        Some e \<Rightarrow> ((False, Some e), a)
      | None \<Rightarrow>
         (case List.find (\<lambda>t. tk_hash t = hash token \<and> tk_origin t = origin \<and> tk_revoked_at t = None) (au_tokens a) of
            None \<Rightarrow> ((False, None), a)
          | Some t \<Rightarrow>
              (let last = (case au_last_persisted a (tk_id t) of None \<Rightarrow> 0 | Some l \<Rightarrow> l) in
               if now - last \<ge> token_use_interval
               then (case write_error of
                   Some e \<Rightarrow> ((True, Some e), a)
                 | None \<Rightarrow> ((True, None),
                     a\<lparr>au_tokens := update_where (\<lambda>x. tk_id x = tk_id t) (\<lambda>x. x\<lparr>tk_last_used_at := Some now\<rparr>) (au_tokens a),
                       au_last_persisted := (au_last_persisted a)(tk_id t \<mapsto> now)\<rparr>))
               else ((True, None), a))))"

definition ValidateToken :: "(string \<Rightarrow> string) \<Rightarrow> string option \<Rightarrow> string option \<Rightarrow> time \<Rightarrow> string \<Rightarrow> string \<Rightarrow> auth \<Rightarrow> bool \<times> auth" where
  "ValidateToken hash read_error write_error now token origin a =
     (case validateToken hash read_error write_error now token origin a of ((ok, _), a) \<Rightarrow> (ok, a))"

record token_info =
  ti_id :: string
  ti_label :: string
  ti_allowed_origin :: string
  ti_created_at :: time
  ti_last_used_at :: "time option"
  ti_revoked :: bool

definition token_info :: "token_row \<Rightarrow> token_info" where
  "token_info t = \<lparr>ti_id = tk_id t, ti_label = tk_label t, ti_allowed_origin = tk_origin t,
     ti_created_at = tk_created_at t, ti_last_used_at = tk_last_used_at t, ti_revoked = (tk_revoked_at t \<noteq> None)\<rparr>"

definition ListTokens :: "auth \<Rightarrow> token_info list" where
  "ListTokens a = map token_info (rev (sort_key (\<lambda>t. ts (tk_created_at t)) (au_tokens a)))"

definition RevokeToken :: "string \<Rightarrow> time \<Rightarrow> auth \<Rightarrow> auth_err + auth" where
  "RevokeToken tid now a =
     (let P = (\<lambda>t. tk_id t = tid \<and> tk_revoked_at t = None) in
      if filter P (au_tokens a) = [] then Inl TokenNotFound
      else Inr (a\<lparr>au_tokens := update_where P (\<lambda>t. t\<lparr>tk_revoked_at := Some now\<rparr>) (au_tokens a)\<rparr>))"

definition HasActiveToken :: "auth \<Rightarrow> bool" where
  "HasActiveToken a = (length (filter (\<lambda>t. tk_revoked_at t = None) (au_tokens a)) > 0)"

section \<open>Laws\<close>

definition auth_ok :: "auth \<Rightarrow> bool" where
  "auth_ok a \<longleftrightarrow> distinct (map tk_id (au_tokens a)) \<and> distinct (map tk_hash (au_tokens a)) \<and>
     (au_code a \<noteq> [] \<longrightarrow> au_failures a < 5)"

text \<open>A token row that accepts the token from the origin.\<close>

definition token_of :: "(string \<Rightarrow> string) \<Rightarrow> auth \<Rightarrow> string \<Rightarrow> string \<Rightarrow> token_row \<Rightarrow> bool" where
  "token_of hash a token origin t \<longleftrightarrow> t \<in> set (au_tokens a) \<and> tk_hash t = hash token \<and> tk_origin t = origin \<and>
     tk_revoked_at t = None"

lemma validateToken_iff:
  "fst (fst (validateToken hash re we now token origin a)) \<longleftrightarrow>
     token \<noteq> [] \<and> re = None \<and> (\<exists>t. token_of hash a token origin t)"
proof -
  let ?P = "\<lambda>t. tk_hash t = hash token \<and> tk_origin t = origin \<and> tk_revoked_at t = None"
  show ?thesis
  proof (cases "List.find ?P (au_tokens a)")
    case None
    then have "\<not> (\<exists>t. token_of hash a token origin t)" by (auto simp: find_None_iff token_of_def)
    with None show ?thesis by (simp add: validateToken_def split: option.split)
  next
    case (Some t)
    then have "token_of hash a token origin t" using find_SomeD by (fastforce simp: token_of_def)
    with Some show ?thesis by (auto simp: validateToken_def Let_def split: option.split)
  qed
qed

text \<open>Validating changes nothing but the time of the last use.\<close>

lemma validateToken_state:
  assumes "validateToken hash re we now token origin a = (r, b)"
  shows "map (\<lambda>t. t\<lparr>tk_last_used_at := None\<rparr>) (au_tokens b) = map (\<lambda>t. t\<lparr>tk_last_used_at := None\<rparr>) (au_tokens a) \<and>
    au_code b = au_code a \<and> au_expiry b = au_expiry a \<and> au_failures b = au_failures a"
proof -
  have m: "map (\<lambda>t. t\<lparr>tk_last_used_at := None\<rparr>) (update_where P (\<lambda>x. x\<lparr>tk_last_used_at := l\<rparr>) xs) =
      map (\<lambda>t. t\<lparr>tk_last_used_at := None\<rparr>) xs" for P l and xs :: "token_row list"
    by (rule map_update_where) simp
  show ?thesis
    using assms by (auto simp: validateToken_def Let_def m split: if_split_asm option.split_asm)
qed

lemma count_guess_ok: "auth_ok a \<Longrightarrow> auth_ok (count_guess v a)"
  by (auto simp: auth_ok_def count_guess_def Let_def)

lemma Pair_ok:
  assumes "auth_ok a" "Pair hash checked raw now code origin label a = (r, b)" shows "auth_ok b"
  using assms count_guess_ok [OF assms(1), of "code_matches code checked a"]
  by (auto simp: Pair_def Let_def insert_token_def auth_ok_def split: if_split_asm option.split_asm sum.split_asm)

end
