(* ===== verification/AuthProperties.thy ===== *)
theory AuthProperties
  imports Auth
begin

text \<open>What a pairing code is good for.\<close>

section \<open>Use of the service between two codes\<close>

datatype auth_op =
    OpPair time "nat list option" time string string string
  | OpValidate "string option" "string option" time string string
  | OpRevoke string time

text \<open>The attempts to pair, in order: the code offered, when, and the token it earned.\<close>

fun auth_run ::
    "(string \<Rightarrow> string) \<Rightarrow> auth_op list \<Rightarrow> auth \<Rightarrow> (string \<times> time \<times> string option) list \<times> auth" where
  "auth_run hash [] a = ([], a)"
| "auth_run hash (OpPair checked raw now code origin label # ops) a =
     (case Pair hash checked raw now code origin label a of
        (r, a) \<Rightarrow> apfst (\<lambda>rs. (code, checked, (case r of Inl _ \<Rightarrow> None | Inr t \<Rightarrow> Some t)) # rs) (auth_run hash ops a))"
| "auth_run hash (OpValidate re we now token origin # ops) a =
     auth_run hash ops (snd (validateToken hash re we now token origin a))"
| "auth_run hash (OpRevoke tid now # ops) a =
     auth_run hash ops (case RevokeToken tid now a of Inl _ \<Rightarrow> a | Inr a \<Rightarrow> a)"

lemma Pair_code:
  assumes "Pair hash checked raw now code origin label a = (r, b)"
  shows "au_expiry b = au_expiry a \<and>
    (if code_matches code checked a then au_code b = []
     else (\<exists>e. r = Inl e) \<and> (au_code b = [] \<or> au_code b = au_code a \<and> au_code a \<noteq> [] \<and>
        au_failures b = au_failures a + 1 \<and> au_failures b < 5))"
  using assms
  by (auto simp: Pair_def Let_def count_guess_def insert_token_def split: if_split_asm option.split_asm sum.split_asm)

lemma validateToken_code:
  "au_code (snd (validateToken hash re we now token origin a)) = au_code a \<and>
   au_expiry (snd (validateToken hash re we now token origin a)) = au_expiry a \<and>
   au_failures (snd (validateToken hash re we now token origin a)) = au_failures a"
  using validateToken_state [of hash re we now token origin a] by (metis prod.collapse)

lemma RevokeToken_code:
  "RevokeToken tid now a = Inr b \<Longrightarrow> au_code b = au_code a \<and> au_expiry b = au_expiry a \<and> au_failures b = au_failures a"
  by (auto simp: RevokeToken_def Let_def split: if_split_asm)

lemma no_code_no_token:
  "au_code a = [] \<Longrightarrow> x \<in> set (fst (auth_run hash ops a)) \<Longrightarrow> snd (snd x) = None"
proof (induction hash ops a rule: auth_run.induct)
  case (2 hash checked raw now code origin label ops a)
  obtain r b where p: "Pair hash checked raw now code origin label a = (r, b)" by fastforce
  have "au_code b = []" "\<exists>e. r = Inl e" using Pair_code [OF p] 2(2) by (auto simp: code_matches_def split: if_split_asm)
  with 2 p show ?case by auto
next
  case (3 hash re we now token origin ops a)
  then show ?case using validateToken_code [of hash re we now token origin a] by simp
next
  case (4 hash tid now ops a)
  then show ?case using RevokeToken_code by (auto split: sum.split_asm)
qed simp

lemma earned_bounded:
  assumes "auth_run hash ops a = (pre @ (c, t, Some token) # post, b)" "au_code a \<noteq> []" "au_failures a < 5"
  shows "length pre + au_failures a < 5 \<and> c = au_code a \<and> t < au_expiry a \<and>
    (\<forall>x \<in> set pre \<union> set post. snd (snd x) = None)"
  using assms
proof (induction hash ops a arbitrary: pre rule: auth_run.induct)
  case (2 hash checked raw now given origin label ops a)
  obtain r b' where p: "Pair hash checked raw now given origin label a = (r, b')" by fastforce
  obtain rs where rs: "auth_run hash ops b' = (rs, b)"
    and eq: "(given, checked, (case r of Inl _ \<Rightarrow> None | Inr t \<Rightarrow> Some t)) # rs = pre @ (c, t, Some token) # post"
    using 2(2) p by (auto split: prod.split_asm simp: apfst_def map_prod_def)
  note code = Pair_code [OF p]
  show ?case
  proof (cases "code_matches given checked a")
    case True
    then have none: "x \<in> set rs \<Longrightarrow> snd (snd x) = None" for x
      using code no_code_no_token [of b' x hash ops] rs by simp
    have "pre = []"
    proof (rule ccontr)
      assume "pre \<noteq> []"
      then have "(c, t, Some token) \<in> set rs" using eq by (cases pre) auto
      from none [OF this] show False by simp
    qed
    with eq none True 2(4) show ?thesis by (auto simp: code_matches_def)
  next
    case False
    then obtain e where e: "r = Inl e" using code by auto
    with eq obtain pre' where pre: "pre = (given, checked, None) # pre'" "rs = pre' @ (c, t, Some token) # post"
      by (cases pre) auto
    then have "au_code b' \<noteq> []" using no_code_no_token [of b' "(c, t, Some token)" hash ops] rs by auto
    with False code have b': "au_code b' = au_code a" "au_failures b' = au_failures a + 1" "au_failures b' < 5" by auto
    from 2(1) [OF p [symmetric]] rs pre(2) b' 2(3) have
      "length pre' + au_failures b' < 5 \<and> c = au_code b' \<and> t < au_expiry b' \<and> (\<forall>x \<in> set pre' \<union> set post. snd (snd x) = None)"
      by simp
    with pre b' code show ?thesis by auto
  qed
next
  case (3 hash re we now token' origin ops a)
  then show ?case using validateToken_code [of hash re we now token' origin a] by simp
next
  case (4 hash tid now ops a)
  then show ?case using RevokeToken_code by (cases "RevokeToken tid now a") auto
qed simp

text \<open>C35: A pairing code is good for one token and for at most five guesses. After a code was generated,
  however attempts to pair, token checks and revocations follow each other: an attempt earns a token only
  with exactly the six digits of that code, before it expires and after at most four other attempts, and
  then no other attempt, before or after, earns one until the next code is generated.\<close>

theorem a_pairing_code_is_good_once:
  assumes "GeneratePairingCode (Some n) now a = (Inr (code, expires), b)"
    and "auth_run hash ops b = (pre @ (given, t, Some token) # post, c)"
  shows "length pre < 5 \<and> given = code \<and> code = six_digits n \<and> t < expires \<and> expires = now + pairingCodeTTL \<and>
    (\<forall>x \<in> set pre \<union> set post. snd (snd x) = None)"
proof -
  have "code = six_digits n" "expires = now + pairingCodeTTL" "au_code b = code" "au_expiry b = expires" "au_failures b = 0"
    using assms(1) by (auto simp: GeneratePairingCode_def Let_def)
  moreover have "length (six_digits n) = 6" by (simp add: six_digits_def)
  then have "six_digits n \<noteq> []" by (intro notI) simp
  ultimately show ?thesis using earned_bounded [OF assms(2)] by simp
qed

definition sample_auth_ops :: "auth_op list" where
  "sample_auth_ops = [OpPair 1 (Some [1]) 1 ''000008'' ''https://pos'' [], OpValidate None None 1 ''pat_01'' ''https://pos'',
     OpPair 2 (Some [255]) 2 ''000007'' ''https://pos'' [], OpPair 3 (Some [3]) 3 ''000007'' ''https://pos'' []]"

lemma sample_code: "GeneratePairingCode (Some 7) 0 (NewAuthService []) =
    (Inr (''000007'', pairingCodeTTL), \<lparr>au_tokens = [], au_code = ''000007'', au_expiry = pairingCodeTTL, au_failures = 0,
       au_last_persisted = Map.empty\<rparr>)"
proof -
  have "six_digits 7 = ''000007''" by code_simp
  then show ?thesis by (simp add: GeneratePairingCode_def NewAuthService_def Let_def)
qed

theorem a_pairing_code_is_good_once_witness:
  "fst (auth_run id sample_auth_ops (snd (GeneratePairingCode (Some 7) 0 (NewAuthService [])))) =
     [(''000008'', 1, None), (''000007'', 2, Some ''pat_ff''), (''000007'', 3, None)] \<and> ''000007'' = six_digits 7 \<and> 2 < pairingCodeTTL"
proof -
  let ?b = "snd (GeneratePairingCode (Some 7) 0 (NewAuthService []))"
  have run: "fst (auth_run id sample_auth_ops ?b) =
      [(''000008'', 1, None), (''000007'', 2, Some ''pat_ff''), (''000007'', 3, None)]"
    by code_simp
  then obtain c where "auth_run id sample_auth_ops ?b =
      ([(''000008'', 1, None)] @ (''000007'', 2, Some ''pat_ff'') # [(''000007'', 3, None)], c)"
    by (cases "auth_run id sample_auth_ops ?b") auto
  moreover have "GeneratePairingCode (Some 7) 0 (NewAuthService []) = (Inr (''000007'', pairingCodeTTL), ?b)" by (simp add: sample_code)
  ultimately show ?thesis using a_pairing_code_is_good_once [of 7 0] run by blast
qed

end
