(* ===== verification/Logs.thy ===== *)
theory Logs
  imports ConfigRepository Json
begin

text \<open>
  What the agent records about itself: the event bus (\<open>internal/events/bus.go\<close>), the printer events kept
  for 48 hours (\<open>internal/diagnostics/diagnostics.go\<close>), the system log kept for two hours
  (\<open>internal/logging/store.go\<close>, \<open>rolling_file.go\<close>) and the handler that removes credentials from it
  (\<open>internal/logging/handler.go\<close>). Both tables store a time with three digits after the second in a text
  of fixed width, which sorts like the number of milliseconds.
\<close>

definition stamp_ms :: "time \<Rightarrow> int" where
  "stamp_ms t = t div millisecond"

section \<open>Searching text\<close>

text \<open>SQLite's \<open>text LIKE pattern ESCAPE '\'\<close>, which ignores the case of ASCII letters.\<close>

fun like :: "string \<Rightarrow> string \<Rightarrow> bool" where
  "like [] s = (s = [])"
| "like (p # ps) s =
     (if p = CHR ''%'' then like ps s \<or> (case s of [] \<Rightarrow> False | _ # cs \<Rightarrow> like (p # ps) cs)
      else if p = CHR ''_'' then (case s of [] \<Rightarrow> False | _ # cs \<Rightarrow> like ps cs)
      else if p = CHR 0x5C
      then (case ps of [] \<Rightarrow> False
            | q # qs \<Rightarrow> (case s of [] \<Rightarrow> False | c # cs \<Rightarrow> lower_char c = lower_char q \<and> like qs cs))
      else (case s of [] \<Rightarrow> False | c # cs \<Rightarrow> lower_char c = lower_char p \<and> like ps cs))"

definition replace_all :: "char \<Rightarrow> string \<Rightarrow> string \<Rightarrow> string" where
  "replace_all c r s = concat (map (\<lambda>x. if x = c then r else [x]) s)"

definition escapeLike :: "string \<Rightarrow> string" where
  "escapeLike value =
     replace_all (CHR ''_'') [CHR 0x5C, CHR ''_'']
       (replace_all (CHR ''%'') [CHR 0x5C, CHR ''%''] (replace_all (CHR 0x5C) [CHR 0x5C, CHR 0x5C] value))"

definition like_term :: "string \<Rightarrow> string" where
  "like_term query = ''%'' @ escapeLike (to_lower query) @ ''%''"

definition contains :: "string \<Rightarrow> string \<Rightarrow> bool" where
  "contains s t = (\<exists>pre post. s = pre @ t @ post)"

lemma escapeLike_char:
  "escapeLike (c # s) = (if c = CHR ''%'' \<or> c = CHR ''_'' \<or> c = CHR 0x5C then [CHR 0x5C, c] else [c]) @ escapeLike s"
  by (simp add: escapeLike_def replace_all_def)

lemma escapeLike_Nil [simp]: "escapeLike [] = []"
  by (simp add: escapeLike_def replace_all_def)

lemma like_percent_end: "like ''%'' s"
  by (induction s) auto

lemma like_literal:
  "like (escapeLike t @ ps) s \<longleftrightarrow> (\<exists>u v. s = u @ v \<and> to_lower u = to_lower t \<and> like ps v)"
proof (induction t arbitrary: s)
  case (Cons c t)
  show ?case
  proof (cases s)
    case Nil
    then show ?thesis by (auto simp: escapeLike_char to_lower_def)
  next
    case (Cons d s')
    have "like (escapeLike (c # t) @ ps) s \<longleftrightarrow> lower_char d = lower_char c \<and> like (escapeLike t @ ps) s'"
      by (simp add: escapeLike_char Cons)
    also have "\<dots> \<longleftrightarrow> (\<exists>u v. s = u @ v \<and> to_lower u = to_lower (c # t) \<and> like ps v)"
    proof
      assume "lower_char d = lower_char c \<and> like (escapeLike t @ ps) s'"
      then obtain u v where "s' = u @ v" "to_lower u = to_lower t" "like ps v" "lower_char d = lower_char c"
        using Cons.IH [of s'] by blast
      then show "\<exists>u v. s = u @ v \<and> to_lower u = to_lower (c # t) \<and> like ps v"
        by (intro exI [of _ "d # u"] exI [of _ v]) (simp add: Cons to_lower_def)
    next
      assume "\<exists>u v. s = u @ v \<and> to_lower u = to_lower (c # t) \<and> like ps v"
      then obtain u v where uv: "d # s' = u @ v" "to_lower u = lower_char c # to_lower t" "like ps v"
        unfolding Cons to_lower_def by fastforce
      then obtain u' where "u = d # u'" by (cases u) (auto simp: to_lower_def)
      with uv Cons.IH [of s'] show "lower_char d = lower_char c \<and> like (escapeLike t @ ps) s'"
        by (auto simp: to_lower_def)
    qed
    finally show ?thesis .
  qed
qed (simp add: to_lower_def)

lemma like_anywhere: "like (CHR ''%'' # ps) s \<longleftrightarrow> (\<exists>u v. s = u @ v \<and> like ps v)"
proof (induction s)
  case (Cons c s)
  then show ?case by (auto simp: Cons_eq_append_conv)
qed simp

text \<open>A search term means itself: no character of it is a wildcard.\<close>

lemma contains_empty [simp]: "contains s []"
  unfolding contains_def by (metis append_Nil)

lemma like_term_contains: "like (like_term q) s \<longleftrightarrow> contains (to_lower s) (to_lower q)"
proof -
  have "like (like_term q) s \<longleftrightarrow> (\<exists>a b. s = a @ b \<and> like (escapeLike (to_lower q) @ ''%'') b)"
    by (simp only: like_term_def append_Cons append_Nil like_anywhere)
  also have "\<dots> \<longleftrightarrow> (\<exists>a b. s = a @ b \<and> (\<exists>u v. b = u @ v \<and> to_lower u = to_lower q))"
    unfolding like_literal to_lower_idem using like_percent_end by blast
  also have "\<dots> \<longleftrightarrow> (\<exists>a u v. s = a @ u @ v \<and> to_lower u = to_lower q)" by blast
  also have "\<dots> \<longleftrightarrow> contains (to_lower s) (to_lower q)"
  proof
    assume "\<exists>a u v. s = a @ u @ v \<and> to_lower u = to_lower q"
    then obtain a u v where "s = a @ u @ v" "to_lower u = to_lower q" by blast
    then have "to_lower s = to_lower a @ to_lower q @ to_lower v" by (simp add: to_lower_def)
    then show "contains (to_lower s) (to_lower q)" unfolding contains_def by blast
  next
    assume "contains (to_lower s) (to_lower q)"
    then obtain x y where "map lower_char s = x @ to_lower q @ y" by (auto simp: contains_def to_lower_def)
    then obtain a b where ab: "s = a @ b" "map lower_char b = to_lower q @ y" by (metis map_eq_append_conv)
    then obtain u v where "b = u @ v" "map lower_char u = to_lower q" by (metis map_eq_append_conv)
    with ab show "\<exists>a u v. s = a @ u @ v \<and> to_lower u = to_lower q" by (auto simp: to_lower_def)
  qed
  finally show ?thesis .
qed

section \<open>Events\<close>

text \<open>\<open>events.Bus\<close>: the subscribers run one after the other on the state they share.\<close>

record event =
  e_type :: string
  e_printer_id :: string
  e_run_uid :: string
  e_message :: string
  e_created_at :: time

type_synonym 's bus = "(event \<Rightarrow> 's \<Rightarrow> 's) list"

definition NewBus :: "'s bus" where "NewBus = []"

definition Subscribe :: "(event \<Rightarrow> 's \<Rightarrow> 's) \<Rightarrow> 's bus \<Rightarrow> 's bus" where
  "Subscribe fn b = b @ [fn]"

definition Publish :: "'s bus \<Rightarrow> time \<Rightarrow> event \<Rightarrow> 's \<Rightarrow> 's" where
  "Publish b now e s =
     (let e = (if is_zero_time (e_created_at e) then e\<lparr>e_created_at := now\<rparr> else e) in fold (\<lambda>fn. fn e) b s)"

definition EventRetention :: time where "EventRetention = 48 * hour"

definition sql_null :: "string \<Rightarrow> string option" where
  "sql_null s = (if s = [] then None else Some s)"

definition coalesce :: "string option \<Rightarrow> string" where
  "coalesce v = (case v of None \<Rightarrow> [] | Some s \<Rightarrow> s)"

definition next_event_id :: "db \<Rightarrow> nat" where
  "next_event_id d = fold max (map ev_id (db_events d)) 0 + 1"

definition PersistEvent :: "event \<Rightarrow> db \<Rightarrow> db" where
  "PersistEvent e d = insert_event \<lparr>ev_id = next_event_id d, ev_type = e_type e, ev_printer_id = sql_null (e_printer_id e),
     ev_run_uid = sql_null (e_run_uid e), ev_message = e_message e, ev_created_at = e_created_at e\<rparr> d"

text \<open>\<open>ORDER BY created_at DESC, id DESC LIMIT n\<close>\<close>

definition newest_events :: "nat \<Rightarrow> event_row list \<Rightarrow> event_row list" where
  "newest_events n es = take n (rev (sort_key (\<lambda>e. (stamp_ms (ev_created_at e), ev_id e)) es))"

definition RecentEvents :: "int \<Rightarrow> time \<Rightarrow> db \<Rightarrow> event_row list" where
  "RecentEvents limit now d =
     newest_events (if limit \<le> 0 \<or> limit > 1000 then 100 else nat limit)
       (filter (\<lambda>e. stamp_ms (ev_created_at e) \<ge> stamp_ms (now - EventRetention)) (db_events d))"

record event_filter =
  ef_printer_id :: string
  ef_event_type :: string
  ef_run_uid :: string
  ef_query :: string
  ef_from :: "time option"
  ef_to :: "time option"
  ef_before :: "(time \<times> nat) option"
  ef_limit :: int

definition printer_event_types :: "string list" where
  "printer_event_types = [''printer.connected'', ''printer.disconnected'', ''printer.reconnecting'', ''printer.error'',
     ''config.changed'', ''print_run.queued'', ''print_run.processing'', ''print_run.transmitted'', ''print_run.failed'',
     ''print_run.uncertain'', ''print_run.cancelled'', ''print_run.resolved'']"

definition window_start :: "time \<Rightarrow> time \<Rightarrow> time option \<Rightarrow> time" where
  "window_start retention now from_time =
     (let start = now - retention in
      case from_time of None \<Rightarrow> start | Some f \<Rightarrow> if f > start then f else start)"

definition before_cursor :: "time \<Rightarrow> nat \<Rightarrow> (time \<times> nat) option \<Rightarrow> bool" where
  "before_cursor created i cursor =
     (case cursor of None \<Rightarrow> True
      | Some (t, n) \<Rightarrow> stamp_ms created < stamp_ms t \<or> (stamp_ms created = stamp_ms t \<and> i < n))"

definition event_selected :: "event_filter \<Rightarrow> time \<Rightarrow> event_row \<Rightarrow> bool" where
  "event_selected f now e \<longleftrightarrow>
     stamp_ms (ev_created_at e) \<ge> stamp_ms (window_start EventRetention now (ef_from f)) \<and>
     ev_type e \<in> set printer_event_types \<and>
     (case ef_to f of None \<Rightarrow> True | Some t \<Rightarrow> stamp_ms (ev_created_at e) \<le> stamp_ms t) \<and>
     (ef_printer_id f \<noteq> [] \<longrightarrow> ev_printer_id e = Some (ef_printer_id f)) \<and>
     (ef_event_type f \<noteq> [] \<longrightarrow> ev_type e = ef_event_type f) \<and>
     (ef_run_uid f \<noteq> [] \<longrightarrow> ev_run_uid e = Some (ef_run_uid f)) \<and>
     (ef_query f \<noteq> [] \<longrightarrow>
        like (like_term (ef_query f)) (to_lower (ev_type e)) \<or> like (like_term (ef_query f)) (to_lower (ev_message e)) \<or>
        like (like_term (ef_query f)) (to_lower (coalesce (ev_printer_id e))) \<or>
        like (like_term (ef_query f)) (to_lower (coalesce (ev_run_uid e)))) \<and>
     before_cursor (ev_created_at e) (ev_id e) (ef_before f)"

definition PrinterEvents :: "event_filter \<Rightarrow> time \<Rightarrow> db \<Rightarrow> event_row list" where
  "PrinterEvents f now d =
     newest_events (if ef_limit f \<le> 0 \<or> ef_limit f > 1001 then 100 else nat (ef_limit f))
       (filter (event_selected f now) (db_events d))"

section \<open>The system log\<close>

record log_record =
  lg_id :: nat
  lg_created_at :: time
  lg_level :: string
  lg_message :: string
  lg_printer_id :: string
  lg_run_uid :: string
  lg_attributes :: "(string \<times> json) list"

record log_filter =
  lf_levels :: "string list"
  lf_query :: string
  lf_printer_id :: string
  lf_run_uid :: string
  lf_from :: "time option"
  lf_to :: "time option"
  lf_before :: "(time \<times> nat) option"
  lf_limit :: int

definition LogRetention :: time where "LogRetention = 2 * hour"

text \<open>The check of the column \<open>level\<close> is the only constraint of the table.\<close>

definition Store_Insert :: "log_record \<Rightarrow> log_record list \<Rightarrow> string + log_record list" where
  "Store_Insert r rows =
     (if lg_level r \<in> {''debug'', ''info'', ''warn'', ''error''}
      then Inr (rows @ [r\<lparr>lg_id := fold max (map lg_id rows) 0 + 1\<rparr>]) else Inl ''CHECK constraint failed'')"

definition log_selected :: "(string \<Rightarrow> string) \<Rightarrow> log_filter \<Rightarrow> time \<Rightarrow> log_record \<Rightarrow> bool" where
  "log_selected quote f now r \<longleftrightarrow>
     stamp_ms (lg_created_at r) \<ge> stamp_ms (window_start LogRetention now (lf_from f)) \<and>
     (case lf_to f of None \<Rightarrow> True | Some t \<Rightarrow> stamp_ms (lg_created_at r) \<le> stamp_ms t) \<and>
     (lf_levels f \<noteq> [] \<longrightarrow> lg_level r \<in> set (lf_levels f)) \<and>
     (lf_printer_id f \<noteq> [] \<longrightarrow> lg_printer_id r = lf_printer_id f) \<and>
     (lf_run_uid f \<noteq> [] \<longrightarrow> lg_run_uid r = lf_run_uid f) \<and>
     (lf_query f \<noteq> [] \<longrightarrow>
        like (like_term (lf_query f)) (to_lower (lg_message r)) \<or>
        like (like_term (lf_query f)) (to_lower (marshal quote (JObject (lg_attributes r)))) \<or>
        like (like_term (lf_query f)) (to_lower (lg_printer_id r)) \<or> like (like_term (lf_query f)) (to_lower (lg_run_uid r))) \<and>
     before_cursor (lg_created_at r) (lg_id r) (lf_before f)"

definition newest_logs :: "nat \<Rightarrow> log_record list \<Rightarrow> log_record list" where
  "newest_logs n rs = take n (rev (sort_key (\<lambda>r. (stamp_ms (lg_created_at r), lg_id r)) rs))"

definition Store_Query :: "(string \<Rightarrow> string) \<Rightarrow> log_filter \<Rightarrow> time \<Rightarrow> log_record list \<Rightarrow> log_record list" where
  "Store_Query quote f now rows =
     newest_logs (if lf_limit f \<le> 0 \<or> lf_limit f > 201 then 100 else nat (lf_limit f)) (filter (log_selected quote f now) rows)"

definition Store_Purge :: "time \<Rightarrow> log_record list \<Rightarrow> log_record list" where
  "Store_Purge now rows = filter (\<lambda>r. \<not> stamp_ms (lg_created_at r) < stamp_ms (now - LogRetention)) rows"

section \<open>The log file\<close>

text \<open>
  The lines of the file. \<open>time_of\<close> is the member \<open>time\<close> of a line that is a JSON object; a line beyond
  the buffer of the scanner ends the purge with an error and leaves the file as it is.
\<close>

record rolling_file =
  rf_lines :: "string list"
  rf_last_purge :: time

definition max_line :: nat where "max_line = 1024 * 1024"

definition purgeLocked :: "(string \<Rightarrow> time option) \<Rightarrow> time \<Rightarrow> rolling_file \<Rightarrow> string option \<times> rolling_file" where
  "purgeLocked time_of now f =
     (let f = f\<lparr>rf_last_purge := now\<rparr> in
      if \<exists>l \<in> set (rf_lines f). length l \<ge> max_line then (Some ''token too long'', f)
      else (None, f\<lparr>rf_lines := filter (\<lambda>l. case time_of l of None \<Rightarrow> False | Some t \<Rightarrow> \<not> t < now - LogRetention) (rf_lines f)\<rparr>))"

definition file_Write :: "(string \<Rightarrow> time option) \<Rightarrow> time \<Rightarrow> string \<Rightarrow> rolling_file \<Rightarrow> string option \<times> rolling_file" where
  "file_Write time_of now line f =
     (case (if now - rf_last_purge f \<ge> 60 * second then purgeLocked time_of now f else (None, f)) of
        (Some e, f) \<Rightarrow> (Some e, f)
      | (None, f) \<Rightarrow> (None, f\<lparr>rf_lines := rf_lines f @ [line]\<rparr>))"

definition file_Purge :: "(string \<Rightarrow> time option) \<Rightarrow> time \<Rightarrow> rolling_file \<Rightarrow> string option \<times> rolling_file" where
  "file_Purge time_of now f = purgeLocked time_of now f"

text \<open>\<open>found\<close> is what the file holds already, or the error of creating it.\<close>

definition NewRollingFile :: "(string \<Rightarrow> time option) \<Rightarrow> time \<Rightarrow> string + string list \<Rightarrow> string + rolling_file" where
  "NewRollingFile time_of now found =
     sum_bind found (\<lambda>ls.
     case file_Purge time_of now \<lparr>rf_lines = ls, rf_last_purge = 0\<rparr> of (Some e, _) \<Rightarrow> Inl e | (None, f) \<Rightarrow> Inr f)"

lemma purge_keeps_recent:
  assumes "purgeLocked time_of now f = (None, f')"
  shows "\<forall>l \<in> set (rf_lines f'). \<exists>t. time_of l = Some t \<and> now - LogRetention \<le> t"
  using assms by (auto simp: purgeLocked_def Let_def split: if_split_asm option.split_asm)

text \<open>A line of a mebibyte or more ends every purge, and with it the opening of the file.\<close>

lemma long_line_stops_the_log:
  assumes "l \<in> set ls" "max_line \<le> length l"
  shows "NewRollingFile time_of now (Inr ls) = Inl ''token too long''"
  using assms by (auto simp: NewRollingFile_def file_Purge_def purgeLocked_def Let_def)

end
