(* ===== verification/LogHandler.thy ===== *)
theory LogHandler
  imports Logs
begin

text \<open>
  \<open>internal/logging/handler.go\<close>: what is removed from a log record before it is written. Keys that name
  secrets lose their values at every level, and bearer credentials are removed from every text.
\<close>

section \<open>Texts\<close>

definition redacted :: string where "redacted = ''[REDACTED]''"

text \<open>The classes of the expression \<open>(?i)\bbearer\s+[^\s,;]+\<close>.\<close>

definition word_char :: "char \<Rightarrow> bool" where
  "word_char c = ((CHR ''a'' \<le> c \<and> c \<le> CHR ''z'') \<or> (CHR ''A'' \<le> c \<and> c \<le> CHR ''Z'') \<or>
     (CHR ''0'' \<le> c \<and> c \<le> CHR ''9'') \<or> c = CHR ''_'')"

definition re_space :: "char \<Rightarrow> bool" where
  "re_space c = (c = CHR '' '' \<or> c = CHR 0x09 \<or> c = CHR 0x0A \<or> c = CHR 0x0C \<or> c = CHR 0x0D)"

definition credential_char :: "char \<Rightarrow> bool" where
  "credential_char c = (\<not> re_space c \<and> c \<noteq> CHR '','' \<and> c \<noteq> CHR '';'')"

text \<open>A match that begins here: the credential and the text after it. What precedes white space in it is
  a whole word.\<close>

definition match_bearer :: "string \<Rightarrow> (string \<times> string) option" where
  "match_bearer s =
     (let after_word = dropWhile word_char s; y = dropWhile re_space after_word in
      if to_lower (takeWhile word_char s) = ''bearer'' \<and> takeWhile re_space after_word \<noteq> [] \<and> takeWhile credential_char y \<noteq> []
      then Some (takeWhile credential_char y, dropWhile credential_char y) else None)"

lemma match_bearer_shorter: "match_bearer s = Some (t, r) \<Longrightarrow> length r < length s"
proof -
  assume m: "match_bearer s = Some (t, r)"
  let ?v = "dropWhile word_char s" let ?y = "dropWhile re_space ?v"
  have "r = dropWhile credential_char ?y" "takeWhile re_space ?v \<noteq> []"
    using m by (auto simp: match_bearer_def Let_def split: if_split_asm)
  then have "length r \<le> length ?y" "length ?y < length ?v"
    by (auto simp: length_dropWhile_le) (metis append_self_conv2 le_neq_implies_less length_append length_dropWhile_le
        length_greater_0_conv less_add_same_cancel2 takeWhile_dropWhile_id)
  moreover have "length ?v \<le> length s" by (rule length_dropWhile_le)
  ultimately show ?thesis by simp
qed

text \<open>\<open>ReplaceAllString\<close>; the flag says whether the character before is part of a word.\<close>

function (sequential) redact_from :: "bool \<Rightarrow> string \<Rightarrow> string" where
  "redact_from w [] = []"
| "redact_from w (c # s) =
     (case if w then None else match_bearer (c # s) of
        Some (t, r) \<Rightarrow> ''Bearer '' @ redacted @ redact_from False r
      | None \<Rightarrow> c # redact_from (word_char c) s)"
  by pat_completeness auto
termination
  by (relation "measure (\<lambda>(w, s). length s)") (auto dest: match_bearer_shorter split: if_split_asm)

definition sanitizeText :: "string \<Rightarrow> string" where
  "sanitizeText value = redact_from False value"

text \<open>The credentials the expression finds in a text.\<close>

function (sequential) credentials_from :: "bool \<Rightarrow> string \<Rightarrow> string list" where
  "credentials_from w [] = []"
| "credentials_from w (c # s) =
     (case if w then None else match_bearer (c # s) of
        Some (t, r) \<Rightarrow> t # credentials_from False r
      | None \<Rightarrow> credentials_from (word_char c) s)"
  by pat_completeness auto
termination
  by (relation "measure (\<lambda>(w, s). length s)") (auto dest: match_bearer_shorter split: if_split_asm)

definition credentials :: "string \<Rightarrow> string list" where
  "credentials s = credentials_from False s"

declare redact_from.simps(2) [simp del] credentials_from.simps(2) [simp del]

lemma redact_keeps: "w \<or> match_bearer (c # s) = None \<Longrightarrow> redact_from w (c # s) = c # redact_from (word_char c) s"
  by (auto simp: redact_from.simps(2))

lemma no_match_at: "\<not> word_char c \<Longrightarrow> match_bearer (c # s) = None"
  by (simp add: match_bearer_def to_lower_def)

lemma match_restD: "match_bearer s = Some (t, r) \<Longrightarrow> r = [] \<or> \<not> credential_char (hd r)"
  by (auto simp: match_bearer_def Let_def hd_dropWhile split: if_split_asm)

lemma space_not_word: "re_space c \<Longrightarrow> \<not> word_char c"
  by (auto simp: re_space_def word_char_def)

lemma not_credential_not_word: "\<not> credential_char c \<Longrightarrow> \<not> word_char c"
  using space_not_word by (auto simp: credential_char_def word_char_def)

text \<open>Up to the next place where a word can begin, nothing is changed.\<close>

lemma redact_word:
  "takeWhile word_char (redact_from True s) = takeWhile word_char s \<and>
   dropWhile word_char (redact_from True s) = (case dropWhile word_char s of [] \<Rightarrow> [] | d # v \<Rightarrow> d # redact_from False v)"
proof (induction s)
  case (Cons c s)
  have r: "redact_from True (c # s) = c # redact_from (word_char c) s" by (simp add: redact_keeps)
  show ?case
  proof (cases "word_char c")
    case True
    then show ?thesis using Cons.IH r by simp
  next
    case False
    then show ?thesis using r by simp
  qed
qed simp

lemma redact_space:
  "takeWhile re_space (redact_from False v) = takeWhile re_space v \<and>
   dropWhile re_space (redact_from False v) = redact_from False (dropWhile re_space v)"
proof (induction v)
  case (Cons c v)
  show ?case
  proof (cases "re_space c")
    case True
    then have "redact_from False (c # v) = c # redact_from False v"
      using space_not_word by (simp add: redact_keeps no_match_at)
    then show ?thesis using Cons.IH True by simp
  next
    case False
    have "\<exists>d x. redact_from False (c # v) = d # x \<and> \<not> re_space d"
      using False by (auto simp: redact_from.simps(2) re_space_def split: option.split)
    then obtain d x where "redact_from False (c # v) = d # x" "\<not> re_space d" by blast
    with False show ?thesis by simp
  qed
qed simp

lemma redact_no_credential:
  assumes "takeWhile credential_char y = []" shows "takeWhile credential_char (redact_from False y) = []"
proof (cases y)
  case (Cons c v)
  with assms have c: "\<not> credential_char c" by (auto split: if_split_asm)
  then have "redact_from False (c # v) = c # redact_from (word_char c) v"
    using not_credential_not_word by (intro redact_keeps) (simp add: no_match_at)
  with c Cons show ?thesis by simp
qed simp

lemma no_new_match:
  assumes "match_bearer (c # s) = None" "word_char c"
  shows "match_bearer (c # redact_from True s) = None"
proof (rule ccontr)
  assume "match_bearer (c # redact_from True s) \<noteq> None"
  then have m: "to_lower (takeWhile word_char (c # redact_from True s)) = ''bearer''"
      "takeWhile re_space (dropWhile word_char (c # redact_from True s)) \<noteq> []"
      "takeWhile credential_char (dropWhile re_space (dropWhile word_char (c # redact_from True s))) \<noteq> []"
    by (auto simp: match_bearer_def Let_def split: if_split_asm)
  obtain d v where v: "dropWhile word_char s = d # v"
    using m(2) assms(2) redact_word [of s] by (cases "dropWhile word_char s") auto
  have w: "to_lower (takeWhile word_char (c # s)) = ''bearer''" using m(1) assms(2) redact_word [of s] by simp
  have d: "re_space d" using m(2) assms(2) redact_word [of s] v by (auto split: if_split_asm)
  have "takeWhile credential_char (redact_from False (dropWhile re_space v)) \<noteq> []"
    using m(3) assms(2) redact_word [of s] v d redact_space [of v] by simp
  then have "takeWhile credential_char (dropWhile re_space v) \<noteq> []" using redact_no_credential by blast
  with w d v assms show False by (simp add: match_bearer_def Let_def)
qed

lemma match_redacted:
  assumes "r = [] \<or> \<not> credential_char (hd r)"
  shows "match_bearer (''Bearer '' @ redacted @ redact_from False r) = Some (redacted, redact_from False r)"
proof -
  have "takeWhile credential_char (redact_from False r) = [] \<and> dropWhile credential_char (redact_from False r) = redact_from False r"
  proof (cases r)
    case (Cons c v)
    then have "redact_from False (c # v) = c # redact_from (word_char c) v" "\<not> credential_char c"
      using assms not_credential_not_word [of c] redact_keeps [of False c v] no_match_at [of c v] by auto
    with Cons show ?thesis by simp
  qed simp
  moreover have "to_lower ''Bearer'' = ''bearer''" by code_simp
  ultimately show ?thesis
    by (simp add: match_bearer_def Let_def redacted_def word_char_def re_space_def credential_char_def)
qed

lemma redacted_credentials: "set (credentials_from w (redact_from w s)) \<subseteq> {redacted}"
proof (induction w s rule: redact_from.induct)
  case (2 w c s)
  show ?case
  proof (cases "if w then None else match_bearer (c # s)")
    case None
    then have r: "redact_from w (c # s) = c # redact_from (word_char c) s" by (simp add: redact_from.simps(2))
    have "(if w then None else match_bearer (c # redact_from (word_char c) s)) = None"
      using None no_new_match [of c s] no_match_at by (cases "word_char c") auto
    then have "credentials_from w (c # redact_from (word_char c) s) = credentials_from (word_char c) (redact_from (word_char c) s)"
      by (simp add: credentials_from.simps(2))
    with 2(1) [OF None] r show ?thesis by simp
  next
    case (Some x)
    obtain t rest where x: "x = (t, rest)" by fastforce
    with Some have m: "\<not> w" "match_bearer (c # s) = Some (t, rest)" by (auto split: if_split_asm)
    have "redact_from w (c # s) = ''Bearer '' @ redacted @ redact_from False rest"
      using m by (simp add: redact_from.simps(2))
    moreover have "credentials_from w (''Bearer '' @ redacted @ redact_from False rest) =
        redacted # credentials_from False (redact_from False rest)"
      using match_redacted [OF match_restD [OF m(2)]] m(1) by (simp add: credentials_from.simps(2))
    ultimately show ?thesis using 2(2) [OF Some x [symmetric]] by simp
  qed
qed simp

lemma sanitized_text: "set (credentials (sanitizeText s)) \<subseteq> {redacted}"
  by (simp add: credentials_def sanitizeText_def redacted_credentials)

section \<open>Keys\<close>

fun strings_Contains :: "string \<Rightarrow> string \<Rightarrow> bool" where
  "strings_Contains [] t = (t = [])"
| "strings_Contains (c # s) t = (prefix t (c # s) \<or> strings_Contains s t)"

definition secret_fragments :: "string list" where
  "secret_fragments = [''authorization'', ''accesstoken'', ''bearertoken'', ''clienttoken'', ''pairingcode'', ''password'',
     ''secret'', ''cookie'', ''payload'', ''receiptdata'', ''datajson'', ''requestbody'']"

definition sensitiveKey :: "string \<Rightarrow> bool" where
  "sensitiveKey key =
     (let normalized = filter (\<lambda>c. c \<noteq> CHR ''_'' \<and> c \<noteq> CHR ''-'' \<and> c \<noteq> CHR ''.'') (to_lower key) in
      list_ex (strings_Contains normalized) secret_fragments \<or>
      normalized = ''token'' \<or> normalized = ''body'' \<or> normalized = ''data'')"

section \<open>Values\<close>

definition qualified_key :: "string \<Rightarrow> string \<Rightarrow> string" where
  "qualified_key key child = (if key \<noteq> [] then key @ ''.'' @ child else child)"

fun sanitizeDecoded :: "string \<Rightarrow> json \<Rightarrow> json" where
  "sanitizeDecoded key (JObject kvs) = JObject (map (\<lambda>(k, v).
     (k, if sensitiveKey (qualified_key key k) then JString redacted else sanitizeDecoded (qualified_key key k) v)) kvs)"
| "sanitizeDecoded key (JArray vs) = JArray (map (sanitizeDecoded key) vs)"
| "sanitizeDecoded key (JString s) = JString (sanitizeText s)"
| "sanitizeDecoded key v = v"

text \<open>
  A resolved \<open>slog.Value\<close>. \<open>SAny\<close> holds what marshalling and decoding the value gives, or the name of its
  type when it can not be marshalled; texts of durations, times and numbers are those the library makes.
\<close>

datatype slog_value =
    SString string
  | SBool bool
  | SNumber string
  | SDuration string
  | STime string
  | SError string
  | SAny "string + json"
  | SOther string
  | SGroup "(string \<times> slog_value) list"

definition plain_value :: "string \<Rightarrow> slog_value \<Rightarrow> json" where
  "plain_value key v = (case v of
     SString s \<Rightarrow> JString (sanitizeText s)
   | SBool b \<Rightarrow> JBool b
   | SNumber n \<Rightarrow> JNumber n
   | SDuration s \<Rightarrow> JString s
   | STime s \<Rightarrow> JString s
   | SError s \<Rightarrow> JString (sanitizeText s)
   | SAny (Inl t) \<Rightarrow> JString (''[UNAVAILABLE '' @ sanitizeText t @ '']'')
   | SAny (Inr j) \<Rightarrow> sanitizeDecoded key j
   | SOther s \<Rightarrow> JString (sanitizeText s)
   | SGroup _ \<Rightarrow> JNull)"

fun addSanitizedValue :: "string \<Rightarrow> slog_value \<Rightarrow> (string \<times> json) list" where
  "addSanitizedValue key (SGroup children) =
     concat (map (\<lambda>(k, v). addSanitizedValue (qualified_key key k) v) children)"
| "addSanitizedValue key v = [(key, if sensitiveKey key then JString redacted else plain_value key v)]"

definition addAttr :: "string list \<Rightarrow> string \<times> slog_value \<Rightarrow> (string \<times> json) list" where
  "addAttr groups attr = addSanitizedValue (separated ''.'' (groups @ [fst attr])) (snd attr)"

section \<open>The handler\<close>

record log_handler =
  lh_attrs :: "((string \<times> slog_value) \<times> string list) list"
  lh_groups :: "string list"

definition NewHandler :: log_handler where "NewHandler = \<lparr>lh_attrs = [], lh_groups = []\<rparr>"

definition WithAttrs :: "(string \<times> slog_value) list \<Rightarrow> log_handler \<Rightarrow> log_handler" where
  "WithAttrs attrs h = h\<lparr>lh_attrs := lh_attrs h @ map (\<lambda>a. (a, lh_groups h)) attrs\<rparr>"

definition WithGroup :: "string \<Rightarrow> log_handler \<Rightarrow> log_handler" where
  "WithGroup name h = (if name = [] then h else h\<lparr>lh_groups := lh_groups h @ [name]\<rparr>)"

definition levelName :: "int \<Rightarrow> string" where
  "levelName level = (if level < 0 then ''debug'' else if level < 4 then ''info'' else if level < 8 then ''warn'' else ''error'')"

fun attributeString :: "(string \<times> json) list \<Rightarrow> string list \<Rightarrow> string" where
  "attributeString attrs [] = []"
| "attributeString attrs (k # ks) =
     (case map_of attrs k of Some (JString v) \<Rightarrow> if v \<noteq> redacted then v else attributeString attrs ks
                           | _ \<Rightarrow> attributeString attrs ks)"

text \<open>The map of the attributes: of several with one key the last is kept.\<close>

definition handled_attrs :: "log_handler \<Rightarrow> (string \<times> slog_value) list \<Rightarrow> (string \<times> json) list" where
  "handled_attrs h attrs =
     map_entries (concat (map (\<lambda>(a, groups). addAttr groups a) (lh_attrs h)) @ concat (map (addAttr (lh_groups h)) attrs))"

definition Handle :: "log_handler \<Rightarrow> time \<Rightarrow> time \<Rightarrow> int \<Rightarrow> string \<Rightarrow> (string \<times> slog_value) list \<Rightarrow> log_record" where
  "Handle h now at level message attrs =
     (let as = handled_attrs h attrs in
      \<lparr>lg_id = 0, lg_created_at = (if is_zero_time at then now else at), lg_level = levelName level,
       lg_message = sanitizeText message, lg_printer_id = attributeString as [''printer'', ''printerId''],
       lg_run_uid = attributeString as [''printRun'', ''runUid''], lg_attributes = as\<rparr>)"

section \<open>No secrets\<close>

text \<open>
  A value under a key shows no secret: sensitive keys are redacted at every level, and the only
  credential the texts still contain is the replacement itself. Texts that the library makes of a
  number, a duration, a time or a type are not inspected.
\<close>

definition library_text :: "string \<Rightarrow> slog_value \<Rightarrow> bool" where
  "library_text s v \<longleftrightarrow> v = SDuration s \<or> v = STime s \<or> (\<exists>t. v = SAny (Inl t) \<and> s = ''[UNAVAILABLE '' @ sanitizeText t @ '']'')"

fun no_secret :: "string \<Rightarrow> json \<Rightarrow> bool" where
  "no_secret key (JObject kvs) \<longleftrightarrow> (\<forall>x \<in> set kvs. case x of (k, v) \<Rightarrow>
     if sensitiveKey (qualified_key key k) then v = JString redacted else no_secret (qualified_key key k) v)"
| "no_secret key (JArray vs) \<longleftrightarrow> (\<forall>v \<in> set vs. no_secret key v)"
| "no_secret key (JString s) \<longleftrightarrow> set (credentials s) \<subseteq> {redacted}"
| "no_secret key v \<longleftrightarrow> True"

definition safe_attr :: "string \<times> json \<Rightarrow> bool" where
  "safe_attr kv \<longleftrightarrow> (if sensitiveKey (fst kv) then snd kv = JString redacted
     else no_secret (fst kv) (snd kv) \<or> (\<exists>s v. snd kv = JString s \<and> library_text s v))"

lemma sanitizeDecoded_safe: "no_secret key (sanitizeDecoded key v)"
proof (induction key v rule: sanitizeDecoded.induct)
  case (1 key kvs)
  then show ?case by (auto split: prod.splits)
qed (auto simp: sanitized_text)

lemma plain_value_safe:
  "no_secret key (plain_value key v) \<or> (\<exists>s. plain_value key v = JString s \<and> library_text s v)"
proof (cases v)
  case (SAny x)
  then show ?thesis by (cases x) (simp_all add: plain_value_def library_text_def sanitizeDecoded_safe)
qed (simp_all add: plain_value_def library_text_def sanitized_text)

lemma attr_safe: "safe_attr (key, if sensitiveKey key then JString redacted else plain_value key v)"
  using plain_value_safe [of key v] by (auto simp: safe_attr_def)

lemma addSanitizedValue_safe: "kv \<in> set (addSanitizedValue key v) \<Longrightarrow> safe_attr kv"
proof (induction key v arbitrary: kv rule: addSanitizedValue.induct)
  case (1 key children)
  then obtain k v where kv: "(k, v) \<in> set children" "kv \<in> set (addSanitizedValue (qualified_key key k) v)" by auto
  with 1(1) [OF kv(1) refl] show ?case by blast
qed (simp_all only: addSanitizedValue.simps list.set singleton_iff attr_safe)

lemma map_entries_mem: "x \<in> set (map_entries kvs) \<Longrightarrow> x \<in> set kvs"
proof -
  assume "x \<in> set (map_entries kvs)"
  then obtain k where x: "x = (k, the (map_of (rev kvs) k))" "k \<in> fst ` set kvs" by (auto simp: map_entries_def)
  then obtain v where "map_of (rev kvs) k = Some v" by (metis map_of_eq_None_iff not_None_eq set_rev)
  with x show ?thesis using map_of_SomeD [of "rev kvs" k v] by simp
qed

lemma handled_attrs_safe: "\<forall>x \<in> set (handled_attrs h attrs). safe_attr x"
  by (auto simp: handled_attrs_def addAttr_def dest!: map_entries_mem addSanitizedValue_safe)

end
