(* ===== verification/LogProperties.thy ===== *)
theory LogProperties
  imports LogHandler
begin

text \<open>The properties of the system log.\<close>



lemma term_found:
  "(q \<noteq> [] \<longrightarrow> like (like_term q) (to_lower a) \<or> like (like_term q) (to_lower b) \<or>
      like (like_term q) (to_lower c) \<or> like (like_term q) (to_lower d)) \<longleftrightarrow>
   (\<exists>field. field \<in> {a, b, c, d} \<and> contains (to_lower field) (to_lower q))"
proof (cases "q = []")
  case True
  then have "contains (to_lower a) (to_lower q)" by (simp add: to_lower_def)
  with True show ?thesis by blast
next
  case False
  then show ?thesis unfolding like_term_contains to_lower_idem by blast
qed

lemma log_search:
  "log_selected quote (f\<lparr>lf_query := q\<rparr>) now r \<longleftrightarrow>
      log_selected quote (f\<lparr>lf_query := []\<rparr>) now r \<and>
      (\<exists>field. field \<in> {lg_message r, marshal quote (JObject (lg_attributes r)), lg_printer_id r, lg_run_uid r} \<and>
        contains (to_lower field) (to_lower q))"
  proof (cases f)
  case (fields levels query printer run_uid since till before limit)
  have "contains (to_lower a) (to_lower [])" for a by (simp add: to_lower_def)
  then show ?thesis
    unfolding log_selected_def term_found fields by (simp only: log_filter.simps insert_iff ex_disj_distrib) blast
qed

lemma event_search:
  "event_selected g now e \<longleftrightarrow>
      event_selected (g\<lparr>ef_query := []\<rparr>) now e \<and>
      (\<exists>field. field \<in> {ev_type e, ev_message e, coalesce (ev_printer_id e), coalesce (ev_run_uid e)} \<and>
        contains (to_lower field) (to_lower (ef_query g)))"
  proof (cases g)
  case (fields printer kind run_uid query since till before limit)
  have "contains (to_lower a) (to_lower [])" for a by (simp add: to_lower_def)
  then show ?thesis
    unfolding event_selected_def term_found fields by (simp only: event_filter.simps insert_iff ex_disj_distrib) blast
qed


end
