(* ===== verification/Storage.thy ===== *)
theory Storage
  imports Prelude
begin

text \<open>
  \<open>internal/storage/sqlite.go\<close>: the migrations. \<open>'d\<close> is the content of the database and \<open>exec\<close> runs a
  script on it; each migration and its row in \<open>schema_migrations\<close> are one transaction, so an error
  leaves the migrations before it in place. \<open>sha\<close> is the hexadecimal SHA-256 of a script. The
  failures of the statements on \<open>schema_migrations\<close> itself are not modelled.
\<close>

datatype migrate_err = ErrIncompatibleSchema | ChecksumChanged string | MigrationFailed string string

text \<open>The table: absent, or with or without the column \<open>checksum\<close>.\<close>

datatype migrations_table = NoTable | OldTable | Applied "(string \<times> string) list"

type_synonym script = "string \<times> string"

fun migrate_loop ::
    "(string \<Rightarrow> string) \<Rightarrow> (string \<Rightarrow> 'd \<Rightarrow> string + 'd) \<Rightarrow> script list \<Rightarrow> (string \<times> string) list \<Rightarrow> 'd \<Rightarrow>
     migrate_err option \<times> (string \<times> string) list \<times> 'd" where
  "migrate_loop sha exec [] rows d = (None, rows, d)"
| "migrate_loop sha exec ((name, sql) # files) rows d =
     (case map_of rows name of
        Some stored \<Rightarrow> if stored \<noteq> sha sql then (Some (ChecksumChanged name), rows, d)
                       else migrate_loop sha exec files rows d
      | None \<Rightarrow> (case exec sql d of
            Inl e \<Rightarrow> (Some (MigrationFailed name e), rows, d)
          | Inr d' \<Rightarrow> migrate_loop sha exec files (rows @ [(name, sha sql)]) d'))"

definition migrate ::
    "(string \<Rightarrow> string) \<Rightarrow> (string \<Rightarrow> 'd \<Rightarrow> string + 'd) \<Rightarrow> script list \<Rightarrow> migrations_table \<times> 'd \<Rightarrow>
     migrate_err option \<times> migrations_table \<times> 'd" where
  "migrate sha exec files s = (case s of (table, d) \<Rightarrow>
     (case table of
        OldTable \<Rightarrow> (Some ErrIncompatibleSchema, table, d)
      | NoTable \<Rightarrow> (case migrate_loop sha exec (sort_key fst files) [] d of (e, rows, d) \<Rightarrow> (e, Applied rows, d))
      | Applied rows \<Rightarrow> (case migrate_loop sha exec (sort_key fst files) rows d of (e, rows, d) \<Rightarrow> (e, Applied rows, d))))"

section \<open>Laws\<close>

text \<open>The scripts that are not in the table yet.\<close>

definition pending_scripts :: "(string \<times> string) list \<Rightarrow> script list \<Rightarrow> script list" where
  "pending_scripts rows files = filter (\<lambda>f. map_of rows (fst f) = None) files"

definition script_row :: "(string \<Rightarrow> string) \<Rightarrow> script \<Rightarrow> string \<times> string" where
  "script_row sha f = (fst f, sha (snd f))"

definition run_scripts :: "(string \<Rightarrow> 'd \<Rightarrow> string + 'd) \<Rightarrow> script list \<Rightarrow> 'd \<Rightarrow> string + 'd" where
  "run_scripts exec files d = fold_sum (\<lambda>d f. exec (snd f) d) d files"

lemma migrate_loop_success:
  assumes "migrate_loop sha exec files rows d = (None, rows', d')" "distinct (map fst files)"
  shows "rows' = rows @ map (script_row sha) (pending_scripts rows files) \<and>
    run_scripts exec (pending_scripts rows files) d = Inr d' \<and>
    (\<forall>(name, sql) \<in> set files. map_of rows' name = Some (sha sql))"
  using assms
proof (induction files arbitrary: rows d)
  case Nil
  then show ?case by (simp add: pending_scripts_def run_scripts_def)
next
  case (Cons f files)
  obtain name sql where f: "f = (name, sql)" by fastforce
  show ?case
  proof (cases "map_of rows name")
    case (Some stored)
    then have "stored = sha sql" "migrate_loop sha exec files rows d = (None, rows', d')"
      using Cons.prems(1) f by (auto split: if_split_asm)
    then show ?thesis
      using Cons.IH [of rows d] Cons.prems(2) Some f by (auto simp: pending_scripts_def map_add_def split: option.split)
  next
    case None
    then obtain d1 where d1: "exec sql d = Inr d1" "migrate_loop sha exec files (rows @ [(name, sha sql)]) d1 = (None, rows', d')"
      using Cons.prems(1) f by (auto split: sum.split_asm)
    have same: "pending_scripts (rows @ [(name, sha sql)]) files = pending_scripts rows files"
      unfolding pending_scripts_def using Cons.prems(2) f
      by (intro filter_cong) (auto simp: map_add_def image_iff split: option.split)
    have p: "pending_scripts rows (f # files) = (name, sql) # pending_scripts rows files"
      using None f by (simp add: pending_scripts_def)
    have "distinct (map fst files)" using Cons.prems(2) by simp
    note i = Cons.IH [OF d1(2) this, unfolded same]
    then have ih: "rows' = rows @ [(name, sha sql)] @ map (script_row sha) (pending_scripts rows files)"
      "run_scripts exec (pending_scripts rows files) d1 = Inr d'"
      "\<forall>(name, sql) \<in> set files. map_of rows' name = Some (sha sql)" by auto
    have "map_of rows' name = Some (sha sql)" using None by (simp add: ih(1) map_add_def)
    with ih p d1 f show ?thesis by (auto simp: run_scripts_def script_row_def)
  qed
qed

lemma migrate_loop_done:
  "\<forall>(name, sql) \<in> set files. map_of rows name = Some (sha sql) \<Longrightarrow> migrate_loop sha exec files rows d = (None, rows, d)"
  by (induction files) auto



end
