(* ===== verification/Rfc3339.thy ===== *)
theory Rfc3339
  imports TimeText "HOL-Library.Monad_Syntax"
begin

text \<open>
  The text of a time: Go's \<open>Format\<close> and \<open>Parse\<close> with the layout \<open>RFC3339Nano\<close>, in UTC. The pair of
  \<open>TimeText\<close>, a number of seconds and the characters after them, becomes the byte string. \<open>Parse\<close> also takes
  what the agent never writes: an hour of one digit, a comma before the fraction, a fraction of any
  length, and a zone other than Z.
\<close>

section \<open>Dates\<close>

definition is_leap :: "nat \<Rightarrow> bool" where
  "is_leap year = ((4 dvd year \<and> \<not> 100 dvd year) \<or> 400 dvd year)"

definition days_before :: "nat \<Rightarrow> nat" where
  "days_before years = 365 * years + years div 4 - years div 100 + years div 400"

text \<open>The whole years since the year 1 and the day of the year, as \<open>time.Time.date\<close> finds them.\<close>

definition year_day :: "nat \<Rightarrow> nat \<times> nat" where
  "year_day d =
     (let a = d div 146097; r = d mod 146097;
          b = min 3 (r div 36524); r = r - b * 36524;
          c = r div 1461; r = r mod 1461;
          e = min 3 (r div 365)
      in (400 * a + 100 * b + 4 * c + e, r - e * 365))"

lemma years_div:
  fixes a b c e y :: nat
  assumes "b \<le> 3" "c \<le> 24" "e \<le> 3" "y = 400 * a + 100 * b + 4 * c + e"
  shows "y div 4 = 100 * a + 25 * b + c" "y div 100 = 4 * a + b" "y div 400 = a"
proof -
  show "y div 4 = 100 * a + 25 * b + c" by (rule div_nat_eqI) (use assms in simp_all)
  show "y div 100 = 4 * a + b" by (rule div_nat_eqI) (use assms in simp_all)
  show "y div 400 = a" by (rule div_nat_eqI) (use assms in simp_all)
qed

lemma year_day_correct:
  assumes "year_day d = (y, k)"
  shows "days_before y + k = d" "k < (if is_leap (y + 1) then 366 else 365)"
proof -
  define a r1 where "a = d div 146097" and "r1 = d mod 146097"
  define b where "b = min 3 (r1 div 36524)"
  define r2 where "r2 = r1 - b * 36524"
  define c r3 where "c = r2 div 1461" and "r3 = r2 mod 1461"
  define e where "e = min 3 (r3 div 365)"
  have y: "y = 400 * a + 100 * b + 4 * c + e" and k: "k = r3 - e * 365"
    using assms by (auto simp: year_day_def Let_def a_def r1_def b_def r2_def c_def r3_def e_def)
  have r1: "d = 146097 * a + r1" "r1 < 146097" by (simp_all add: a_def r1_def)
  have b: "b \<le> 3" "b * 36524 \<le> r1" by (auto simp: b_def min_def)
  have r2: "r1 = b * 36524 + r2" using b by (simp add: r2_def)
  have r2': "r2 < 36524 \<or> (b = 3 \<and> r2 \<le> 36524)"
  proof (cases "r1 div 36524 \<le> 3")
    case True
    then have "r2 = r1 mod 36524" by (simp add: r2_def b_def minus_div_mult_eq_mod)
    then show ?thesis by simp
  next
    case False
    then have "b = 3" by (simp add: b_def)
    moreover have "r2 \<le> 36524" using r1(2) unfolding r2_def \<open>b = 3\<close> by simp
    ultimately show ?thesis by simp
  qed
  have r3: "r2 = 1461 * c + r3" "r3 < 1461" by (simp_all add: c_def r3_def)
  have c: "c \<le> 24" using r2' r3 by auto
  have e: "e \<le> 3" "e * 365 \<le> r3" by (auto simp: e_def min_def)
  have k': "r3 = e * 365 + k" using e by (simp add: k)
  have k'': "k < 365 \<or> (e = 3 \<and> k = 365)"
  proof (cases "r3 div 365 \<le> 3")
    case True
    then have "k = r3 mod 365" by (simp add: k e_def minus_div_mult_eq_mod)
    then show ?thesis by simp
  next
    case False
    then have "e = 3" by (simp add: e_def)
    moreover have "k \<le> 365" using r3(2) unfolding k \<open>e = 3\<close> by simp
    ultimately show ?thesis by auto
  qed
  note dv = years_div [OF b(1) c e(1) y]
  have "days_before y = 146097 * a + 36524 * b + 1461 * c + 365 * e"
    unfolding days_before_def dv using y by simp
  then show "days_before y + k = d" using r1 r2 r3 k' by simp
  show "k < (if is_leap (y + 1) then 366 else 365)"
  proof (cases "k < 365")
    case False
    then have e3: "e = 3" "k = 365" using k'' by auto
    have last: "c \<noteq> 24 \<or> b = 3" using r2' r3 k' e3 by auto
    have y1: "y + 1 = 100 * (4 * a + b) + 4 * (c + 1)" "y + 1 = 4 * (100 * a + 25 * b + c + 1)" using y e3 by simp_all
    have "4 dvd y + 1" unfolding y1(2) by simp
    moreover have "100 dvd y + 1 \<longleftrightarrow> c = 24"
    proof -
      have "100 dvd y + 1 \<longleftrightarrow> 100 dvd 4 * (c + 1)" unfolding y1(1) by (simp add: dvd_add_right_iff)
      also have "\<dots> \<longleftrightarrow> c = 24" using c nat_dvd_not_less [of "4 * (c + 1)" 100] by (cases "c = 24") simp_all
      finally show ?thesis .
    qed
    moreover have "400 dvd y + 1" if "c = 24" "b = 3"
    proof -
      have "y + 1 = 400 * (a + 1)" using y e3 that by simp
      then show ?thesis by (simp only: dvd_triv_left)
    qed
    ultimately have "is_leap (y + 1)" using last by (auto simp: is_leap_def)
    with e3 show ?thesis by simp
  qed (simp add: less_SucI)
qed

fun month_day :: "nat list \<Rightarrow> nat \<Rightarrow> nat \<times> nat" where
  "month_day [] k = (0, k)"
| "month_day (m # ms) k = (if k < m then (0, k) else apfst Suc (month_day ms (k - m)))"

lemma month_day_correct:
  "month_day ms k = (i, d) \<Longrightarrow> k < sum_list ms \<Longrightarrow> i < length ms \<and> d < ms ! i \<and> sum_list (take i ms) + d = k"
proof (induction ms arbitrary: k i)
  case (Cons m ms)
  show ?case
  proof (cases "k < m")
    case False
    then obtain j where "month_day ms (k - m) = (j, d)" "i = Suc j"
      using Cons.prems(1) by (auto simp: apfst_def map_prod_def split: prod.split_asm)
    with False Cons.IH [of "k - m" j] Cons.prems(2) have
      "j < length ms \<and> d < ms ! j \<and> sum_list (take j ms) + d = k - m" by simp
    with False \<open>i = Suc j\<close> show ?thesis by (auto intro: le_add_diff_inverse)
  qed (use Cons.prems in auto)
qed simp

definition month_lengths :: "nat \<Rightarrow> nat list" where
  "month_lengths year = [31, if is_leap year then 29 else 28, 31, 30, 31, 30, 31, 31, 30, 31, 30, 31]"

text \<open>Year, month and day from the number of days since 1 January of the year 1, and back.\<close>

definition date_of :: "nat \<Rightarrow> nat \<times> nat \<times> nat" where
  "date_of d = (case year_day d of (y, k) \<Rightarrow> case month_day (month_lengths (y + 1)) k of (m, x) \<Rightarrow> (y + 1, m + 1, x + 1))"

definition days_of :: "nat \<times> nat \<times> nat \<Rightarrow> nat" where
  "days_of ymd = (case ymd of (y, m, x) \<Rightarrow> days_before (y - 1) + sum_list (take (m - 1) (month_lengths y)) + (x - 1))"

definition valid_date :: "nat \<times> nat \<times> nat \<Rightarrow> bool" where
  "valid_date ymd = (case ymd of (y, m, x) \<Rightarrow> 1 \<le> m \<and> m \<le> 12 \<and> 1 \<le> x \<and> x \<le> month_lengths y ! (m - 1))"

lemma date_round_trip: "days_of (date_of d) = d \<and> valid_date (date_of d)"
proof -
  obtain y k where yk: "year_day d = (y, k)" by fastforce
  obtain m x where mx: "month_day (month_lengths (y + 1)) k = (m, x)" by fastforce
  note c = year_day_correct [OF yk]
  have "k < sum_list (month_lengths (y + 1))" using c(2) by (auto simp: month_lengths_def split: if_split_asm)
  from month_day_correct [OF mx this] have m: "m < 12" "x < month_lengths (y + 1) ! m"
    "sum_list (take m (month_lengths (y + 1))) + x = k" by (simp_all add: month_lengths_def)
  have "date_of d = (y + 1, m + 1, x + 1)" unfolding date_of_def yk prod.case mx ..
  with m c(1) show ?thesis by (simp add: days_of_def valid_date_def)
qed

text \<open>January the first of the year 1 is day 0; the year 0, a leap year, is the one before it.\<close>

definition civil_days :: "nat \<Rightarrow> nat \<Rightarrow> nat \<Rightarrow> int" where
  "civil_days y m x =
     (if y = 0 then int (sum_list (take (m - 1) (month_lengths 0)) + (x - 1)) - 366 else int (days_of (y, m, x)))"

section \<open>Text\<close>

definition pad :: "nat \<Rightarrow> nat \<Rightarrow> string" where
  "pad k n = map digit_char (digits k n)"

definition date_text :: "nat \<Rightarrow> string" where
  "date_text d = (case date_of d of (y, m, x) \<Rightarrow> pad 4 y @ ''-'' @ pad 2 m @ ''-'' @ pad 2 x)"

definition clock_text :: "nat \<Rightarrow> string" where
  "clock_text n = pad 2 (n div 3600) @ '':'' @ pad 2 (n div 60 mod 60) @ '':'' @ pad 2 (n mod 60)"

text \<open>\<open>t.UTC().Format(time.RFC3339Nano)\<close>\<close>

definition format_time :: "time \<Rightarrow> string" where
  "format_time t =
     (case ts t of (secs, frac) \<Rightarrow>
        date_text (nat (secs div 86400)) @ ''T'' @ clock_text (nat (secs mod 86400)) @ map char_of frac)"

definition is_digit :: "char \<Rightarrow> bool" where
  "is_digit c = (CHR ''0'' \<le> c \<and> c \<le> CHR ''9'')"

definition digit_of :: "char \<Rightarrow> nat" where
  "digit_of c = of_char c - 48"

fun skip :: "char \<Rightarrow> string \<Rightarrow> string option" where
  "skip c [] = None"
| "skip c (x # s) = (if x = c then Some s else None)"

fun getnum :: "bool \<Rightarrow> string \<Rightarrow> (nat \<times> string) option" where
  "getnum fixed [] = None"
| "getnum fixed [c] = (if is_digit c \<and> \<not> fixed then Some (digit_of c, []) else None)"
| "getnum fixed (c # d # s) =
     (if \<not> is_digit c then None
      else if is_digit d then Some (10 * digit_of c + digit_of d, s)
      else if fixed then None else Some (digit_of c, d # s))"

definition get_year :: "string \<Rightarrow> (nat \<times> string) option" where
  "get_year s =
     (if length s < 4 \<or> \<not> list_all is_digit (take 4 s) then None
      else Some (of_digits 0 (map digit_of (take 4 s)), drop 4 s))"

text \<open>The fraction, of which the first nine digits count.\<close>

definition get_fraction :: "string \<Rightarrow> nat \<times> string" where
  "get_fraction s =
     (case s of
        c # d # r \<Rightarrow>
          if (c = CHR ''.'' \<or> c = CHR '','') \<and> is_digit d
          then (let ds = map digit_of (take 9 (takeWhile is_digit (d # r)))
                in (of_digits 0 (ds @ replicate (9 - length ds) 0), dropWhile is_digit (d # r)))
          else (0, s)
      | _ \<Rightarrow> (0, s))"

definition get_zone :: "string \<Rightarrow> (int \<times> string) option" where
  "get_zone s =
     (if take 1 s = ''Z'' then Some (0, drop 1 s)
      else if length s < 6 \<or> s ! 3 \<noteq> CHR '':'' then None
      else do {
        (hh, _) \<leftarrow> getnum True (take 2 (drop 1 s));
        (mm, _) \<leftarrow> getnum True (take 2 (drop 4 s));
        if hh > 24 \<or> mm > 60 then None
        else if s ! 0 = CHR ''+'' then Some (int (hh * 3600 + mm * 60), drop 6 s)
        else if s ! 0 = CHR ''-'' then Some (- int (hh * 3600 + mm * 60), drop 6 s)
        else None
      })"

definition parse_time :: "string \<Rightarrow> time option" where
  "parse_time s = do {
     (year, s) \<leftarrow> get_year s; s \<leftarrow> skip (CHR ''-'') s;
     (month, s) \<leftarrow> getnum True s; s \<leftarrow> skip (CHR ''-'') s;
     (day, s) \<leftarrow> getnum True s; s \<leftarrow> skip (CHR ''T'') s;
     (hh, s) \<leftarrow> getnum False s; s \<leftarrow> skip (CHR '':'') s;
     (mm, s) \<leftarrow> getnum True s; s \<leftarrow> skip (CHR '':'') s;
     (ss, s) \<leftarrow> getnum True s;
     let (nsec, s) = get_fraction s;
     (offset, s) \<leftarrow> get_zone s;
     if valid_date (year, month, day) \<and> hh < 24 \<and> mm < 60 \<and> ss < 60 \<and> s = []
     then Some ((civil_days year month day * 86400 + int (hh * 3600 + mm * 60 + ss) - offset) * second + int nsec)
     else None
   }"

section \<open>Round trip\<close>

lemma digit_char [simp]: "n < 10 \<Longrightarrow> is_digit (digit_char n) \<and> digit_of (digit_char n) = n"
  by (simp add: is_digit_def digit_char_def digit_of_def less_eq_char_def)

lemma length_pad [simp]: "length (pad k n) = k"
  by (simp add: pad_def)

lemma pad_digits: "c \<in> set (pad k n) \<Longrightarrow> is_digit c"
  using digits_small [of _ k n] by (auto simp: pad_def)

lemma digit_of_pad: "map digit_of (pad k n) = digits k n"
  using digits_small [of _ k n] by (auto simp: pad_def intro!: map_idI)

lemma getnum_pad:
  assumes "n < 100" shows "getnum fixed (pad 2 n @ s) = Some (n, s)"
proof -
  have "pad 2 n = [digit_char (n div 10), digit_char (n mod 10)]"
    using assms by (simp add: pad_def numeral_2_eq_2)
  moreover have "n div 10 < 10" using assms by simp
  ultimately show ?thesis by simp
qed

lemma get_year_pad: "n < 10000 \<Longrightarrow> get_year (pad 4 n @ s) = Some (n, s)"
  using of_digits_digits [of n 4] pad_digits [of _ 4 n]
  by (auto simp: get_year_def digit_of_pad list_all_iff)

lemma days_before_bound:
  assumes "days_before y \<le> d" "d < 3652059" shows "y < 9999"
proof (rule ccontr)
  assume "\<not> y < 9999"
  then have y: "9999 \<le> y" by simp
  define x where "x = y div 4"
  have q: "y div 100 = x div 25" by (simp add: x_def div_mult2_eq [symmetric])
  have "2499 \<le> x" using y div_le_mono [of 9999 y 4] by (simp add: x_def)
  moreover have "25 * (x div 25) \<le> x" by simp
  ultimately have "2400 + x div 25 \<le> x" by linarith
  moreover have "24 \<le> y div 400" using y div_le_mono [of 9999 y 400] by simp
  ultimately have "3652059 \<le> days_before y" using y unfolding days_before_def q x_def [symmetric] by linarith
  with assms show False by simp
qed

lemma date_of_bounds:
  assumes "d < 3652059" "date_of d = (y, m, x)"
  shows "0 < y \<and> y < 10000 \<and> m < 100 \<and> x < 100"
proof -
  obtain a k where ak: "year_day d = (a, k)" by fastforce
  have "days_before a \<le> d" using year_day_correct(1) [OF ak] by simp
  from days_before_bound [OF this assms(1)] have "a < 9999" .
  moreover have "y = a + 1" using assms(2) by (auto simp: date_of_def ak split: prod.split_asm)
  moreover have v: "valid_date (y, m, x)" using date_round_trip [of d] assms(2) by simp
  moreover have "month_lengths y ! (m - 1) \<le> 31" if "m \<le> 12" "1 \<le> m"
  proof -
    have "month_lengths y ! (m - 1) \<in> set (month_lengths y)" using that by (intro nth_mem) (simp add: month_lengths_def)
    then show ?thesis by (auto simp: month_lengths_def split: if_split_asm)
  qed
  ultimately show ?thesis by (auto simp: valid_date_def)
qed

lemma frac_chars: "char_of (46 :: nat) = CHR ''.''" "char_of (90 :: nat) = CHR ''Z''"
  by code_simp+

lemma get_fraction_frac:
  assumes "n < 1000000000" shows "get_fraction (map char_of (frac_text n)) = (n, ''Z'')"
proof (cases "n = 0")
  case False
  define ds where "ds = strip_zeros (digits 9 n)"
  have ne: "ds \<noteq> []" using strip_zeros_digits_nonempty [of n 9] False assms by (simp add: ds_def)
  have small: "d < 10" if "d \<in> set ds" for d
    using that strip_zeros_subset [of "digits 9 n"] digits_small [of d 9 n] by (auto simp: ds_def)
  have len: "length ds \<le> 9" using length_strip_zeros [of "digits 9 n"] by (simp add: ds_def)
  have pad9: "ds @ replicate (9 - length ds) 0 = digits 9 n"
    using strip_zeros_pad [of "digits 9 n"] by (simp add: ds_def)
  have total: "of_digits 0 (ds @ replicate (9 - length ds) 0) = n"
    unfolding pad9 using of_digits_digits [of n 9] assms by simp
  obtain e es where e: "ds = e # es" using ne by (cases ds) auto
  have ft: "map char_of (frac_text n) = CHR ''.'' # map digit_char ds @ ''Z''"
    using False by (simp add: frac_text_def ds_def digit_char_def comp_def frac_chars)
  have dig: "\<forall>c \<in> set (map digit_char ds). is_digit c" using small by auto
  have z: "\<not> is_digit (CHR ''Z'')" by (simp add: is_digit_def)
  have "takeWhile is_digit (map digit_char ds @ ''Z'') = map digit_char ds"
    "dropWhile is_digit (map digit_char ds @ ''Z'') = ''Z''"
    using dig z takeWhile_append2 [of "map digit_char ds" is_digit "''Z''"] dropWhile_append2 [of "map digit_char ds" is_digit "''Z''"]
    by auto
  moreover have "map digit_of (map digit_char ds) = ds" using small by (simp add: map_idI)
  moreover have "is_digit (digit_char e)" using small e by simp
  ultimately show ?thesis
    using len total
    by (simp add: ft get_fraction_def e Let_def del: map_map)
qed (simp add: frac_text_def get_fraction_def frac_chars)

lemma get_zone_Z [simp]: "get_zone ''Z'' = Some (0, [])"
  by (simp add: get_zone_def)

lemma parse_parts:
  assumes "y < 10000" "m < 100" "x < 100" "valid_date (y, m, x)" "hh < 24" "mm < 60" "ss < 60" "get_fraction f = (n, ''Z'')"
  shows "parse_time (pad 4 y @ ''-'' @ pad 2 m @ ''-'' @ pad 2 x @ ''T'' @ pad 2 hh @ '':'' @ pad 2 mm @ '':'' @ pad 2 ss @ f) =
    Some ((civil_days y m x * 86400 + int (hh * 3600 + mm * 60 + ss)) * second + int n)"
  using assms(4-7)
  by (simp add: parse_time_def get_year_pad [OF assms(1)] getnum_pad [OF assms(2)] getnum_pad [OF assms(3)]
      getnum_pad assms(8))

text \<open>The text of a second from the year 1 to the year 9999, with a fraction after it.\<close>

lemma parse_second:
  assumes "0 \<le> secs" "secs < 315537897600" "get_fraction f = (n, ''Z'')"
  shows "parse_time (date_text (nat (secs div 86400)) @ ''T'' @ clock_text (nat (secs mod 86400)) @ f) =
    Some (secs * second + int n)"
proof -
  define d where "d = nat (secs div 86400)"
  define c where "c = nat (secs mod 86400)"
  have d: "d < 3652059" "int d = secs div 86400" using assms(1,2) by (auto simp: d_def nat_less_iff)
  have c: "c < 86400" "int c = secs mod 86400" by (simp_all add: c_def nat_less_iff)
  obtain y m x where ymx: "date_of d = (y, m, x)" by (cases "date_of d") auto
  note b = date_of_bounds [OF d(1) ymx]
  have v: "valid_date (y, m, x)" "days_of (y, m, x) = d" using date_round_trip [of d] ymx by simp_all
  have parts: "c div 3600 < 24" "c div 60 mod 60 < 60" "c mod 60 < 60" using c(1) by simp_all
  have whole: "c div 3600 * 3600 + c div 60 mod 60 * 60 + c mod 60 = c"
  proof -
    have "c div 3600 = c div 60 div 60" by (simp add: div_mult2_eq [symmetric])
    then have "c div 3600 * 60 + c div 60 mod 60 = c div 60" by (simp only: div_mult_mod_eq)
    then show ?thesis using div_mult_mod_eq [of c 60] by linarith
  qed
  have f: "date_text d @ ''T'' @ clock_text c @ f = pad 4 y @ ''-'' @ pad 2 m @ ''-'' @ pad 2 x @ ''T'' @
      pad 2 (c div 3600) @ '':'' @ pad 2 (c div 60 mod 60) @ '':'' @ pad 2 (c mod 60) @ f"
    by (simp add: date_text_def ymx clock_text_def)
  have days: "civil_days y m x = int d" using b v(2) by (simp add: civil_days_def)
  have "parse_time (date_text d @ ''T'' @ clock_text c @ f) = Some ((int d * 86400 + int c) * second + int n)"
    unfolding f using parse_parts [of y m x "c div 3600" "c div 60 mod 60" "c mod 60" f n] b v(1) parts assms(3)
    by (simp only: whole days simp_thms)
  then show ?thesis using d(2) c(2) by (simp add: d_def c_def)
qed

lemma format_then_parse:
  assumes "0 \<le> t" "t < 315537897600 * second"
  shows "parse_time (format_time t) = Some t"
proof -
  define n where "n = nat (t mod second)"
  have n: "n < 1000000000" "int n = t mod second" by (simp_all add: n_def second_def nat_less_iff)
  have "0 \<le> t div second" "t div second < 315537897600" using assms by (auto simp: second_def)
  from parse_second [OF this get_fraction_frac [OF n(1)]] show ?thesis
    using n(2) by (simp add: format_time_def ts_def n_def)
qed

section \<open>Texts with milliseconds\<close>

text \<open>\<open>Format\<close> with a layout that ends in \<open>.000Z\<close>: the last three digits are always there and the rest is cut off.\<close>

definition format_millis :: "time \<Rightarrow> string" where
  "format_millis t =
     date_text (nat (t div second div 86400)) @ ''T'' @ clock_text (nat (t div second mod 86400)) @
     ''.'' @ pad 3 (nat (t mod second div 1000000)) @ ''Z''"

lemma get_fraction_three:
  assumes "a < 10" "b < 10" "c < 10"
  shows "get_fraction (''.'' @ [digit_char a, digit_char b, digit_char c] @ ''Z'') = (of_digits 0 [a, b, c] * 1000000, ''Z'')"
proof -
  have z: "\<not> is_digit (CHR ''Z'')" by (simp add: is_digit_def)
  have r: "replicate 6 (0 :: nat) = [0, 0, 0, 0, 0, 0]" by code_simp
  show ?thesis using assms z by (simp add: get_fraction_def Let_def r)
qed

lemma get_fraction_millis:
  assumes "k < 1000" shows "get_fraction (''.'' @ pad 3 k @ ''Z'') = (k * 1000000, ''Z'')"
proof -
  have d: "digits 3 k = [k div 10 div 10 mod 10, k div 10 mod 10, k mod 10]" by (simp add: numeral_3_eq_3)
  have "of_digits 0 (digits 3 k) = k" using of_digits_digits [of k 3] assms by simp
  then show ?thesis
    using get_fraction_three [of "k div 10 div 10 mod 10" "k div 10 mod 10" "k mod 10"] by (simp add: pad_def d)
qed

lemma millis_then_parse:
  assumes "0 \<le> t" "t < 315537897600 * second"
  shows "parse_time (format_millis t) = Some (t - t mod 1000000)"
proof -
  define k where "k = nat (t mod second div 1000000)"
  have k: "k < 1000" "int k = t mod second div 1000000" by (simp_all add: k_def second_def nat_less_iff)
  have "0 \<le> t div second" "t div second < 315537897600" using assms by (auto simp: second_def)
  from parse_second [OF this get_fraction_millis [OF k(1)]]
  have "parse_time (format_millis t) = Some (t div second * second + int (k * 1000000))"
    by (simp add: format_millis_def k_def)
  also have "t div second * second + int (k * 1000000) = t - t mod 1000000"
  proof -
    have "t mod second mod 1000000 = t mod 1000000" by (rule mod_mod_cancel) (simp add: second_def)
    then have "int k * 1000000 = t mod second - t mod 1000000" using k(2) by (metis minus_mod_eq_div_mult)
    then show ?thesis using minus_mod_eq_div_mult [of t second] by simp
  qed
  finally show ?thesis .
qed

end
