(* ===== verification/GoText.thy ===== *)
theory GoText
  imports Prelude
begin

text \<open>
  Functions of Go's packages \<open>strings\<close> and \<open>net\<close> on byte strings that several components use.
\<close>

section \<open>White space and separators\<close>

text \<open>The white space of \<open>strings.TrimSpace\<close>, in UTF-8.\<close>

definition space_runes :: "string list" where
  "space_runes = map (\<lambda>n. [char_of n]) [9, 10, 11, 12, 13, 32 :: nat] @ map (map char_of)
     ([[194, 133], [194, 160], [225, 154, 128], [226, 128, 168], [226, 128, 169], [226, 128, 175], [226, 129, 159],
       [227, 128, 128]] @ map (\<lambda>n. [226, 128, n]) [128..<139 :: nat])"

lemma space_runes_nonempty: "p \<in> set space_runes \<Longrightarrow> p \<noteq> []"
  by (auto simp: space_runes_def)

function trim_left :: "string list \<Rightarrow> string \<Rightarrow> string" where
  "trim_left ws s = (case List.find (\<lambda>p. p \<noteq> [] \<and> prefix p s) ws of
     None \<Rightarrow> s | Some p \<Rightarrow> trim_left ws (drop (length p) s))"
  by pat_completeness auto
termination
  by (relation "measure (\<lambda>(ws, s). length s)") (auto simp: find_Some_iff prefix_def)

declare trim_left.simps [simp del]

definition TrimSpace :: "string \<Rightarrow> string" where
  "TrimSpace s = rev (trim_left (map rev space_runes) (rev (trim_left space_runes s)))"

fun split_char :: "char \<Rightarrow> string \<Rightarrow> string list" where
  "split_char sep [] = [[]]"
| "split_char sep (c # s) =
     (if c = sep then [] # split_char sep s
      else case split_char sep s of [] \<Rightarrow> [[c]] | p # ps \<Rightarrow> (c # p) # ps)"

text \<open>Text of printing ASCII characters has no white space to trim.\<close>

lemma trim_left_none: "(\<And>p. p \<in> set ws \<Longrightarrow> p = [] \<or> \<not> prefix p s) \<Longrightarrow> trim_left ws s = s"
proof -
  assume "\<And>p. p \<in> set ws \<Longrightarrow> p = [] \<or> \<not> prefix p s"
  then have "List.find (\<lambda>p. p \<noteq> [] \<and> prefix p s) ws = None" by (auto simp: find_None_iff)
  then show ?thesis by (simp add: trim_left.simps)
qed

lemma space_rune_ends:
  "list_all (\<lambda>p. p \<noteq> [] \<and> \<not> (33 \<le> (of_char (hd p) :: nat) \<and> (of_char (hd p) :: nat) < 128) \<and>
     \<not> (33 \<le> (of_char (last p) :: nat) \<and> (of_char (last p) :: nat) < 128)) space_runes"
  by code_simp

lemma TrimSpace_plain:
  assumes "\<And>c. c \<in> set s \<Longrightarrow> 33 \<le> (of_char c :: nat) \<and> (of_char c :: nat) < 128"
  shows "TrimSpace s = s"
proof -
  have no: "\<not> prefix p t" if "p \<noteq> []" "\<not> (33 \<le> (of_char (hd p) :: nat) \<and> (of_char (hd p) :: nat) < 128)" "set t \<subseteq> set s" for p t
  proof
    assume "prefix p t"
    then have "hd p \<in> set t" using that(1) by (metis hd_in_set set_mono_prefix subset_iff)
    with that assms show False by blast
  qed
  have "trim_left space_runes s = s"
    by (rule trim_left_none) (use no space_rune_ends in \<open>auto simp: list_all_iff\<close>)
  moreover have "trim_left (map rev space_runes) (rev s) = rev s"
    by (rule trim_left_none) (use no space_rune_ends in \<open>auto simp: list_all_iff hd_rev\<close>)
  ultimately show ?thesis by (simp add: TrimSpace_def)
qed

section \<open>Hardware addresses\<close>

definition hex_value :: "char \<Rightarrow> nat option" where
  "hex_value c = (let n = of_char c in
     if 48 \<le> n \<and> n \<le> 57 then Some (n - 48) else if 97 \<le> n \<and> n \<le> 102 then Some (n - 87)
     else if 65 \<le> n \<and> n \<le> 70 then Some (n - 55) else None)"

fun hex_pair :: "string \<Rightarrow> nat option" where
  "hex_pair [a, b] = (case (hex_value a, hex_value b) of (Some x, Some y) \<Rightarrow> Some (16 * x + y) | _ \<Rightarrow> None)"
| "hex_pair _ = None"

text \<open>Groups of \<open>k\<close> characters, each but the last followed by the separator.\<close>

fun groups :: "nat \<Rightarrow> char \<Rightarrow> nat \<Rightarrow> string \<Rightarrow> string list option" where
  "groups k sep 0 s = None"
| "groups k sep (Suc 0) s = (if length s = k then Some [s] else None)"
| "groups k sep (Suc n) s =
     (if length s > k \<and> s ! k = sep then map_option ((#) (take k s)) (groups k sep n (drop (Suc k) s)) else None)"

text \<open>\<open>net.ParseMAC\<close>, as far as its result has six bytes: six pairs separated by colons or by hyphens, or
  three groups of four digits separated by dots.\<close>

definition ParseMAC6 :: "string \<Rightarrow> nat list option" where
  "ParseMAC6 s =
     (if length s < 14 then None
      else if s ! 2 = CHR '':'' \<or> s ! 2 = CHR ''-''
      then (case groups 2 (s ! 2) 6 s of None \<Rightarrow> None | Some gs \<Rightarrow> those (map hex_pair gs))
      else if s ! 4 = CHR ''.''
      then (case groups 4 (CHR ''.'') 3 s of None \<Rightarrow> None
            | Some gs \<Rightarrow> those (map hex_pair (concat (map (\<lambda>g. [take 2 g, drop 2 g]) gs))))
      else None)"

definition upper_hex :: "nat \<Rightarrow> char" where
  "upper_hex n = (if n < 10 then char_of (48 + n) else char_of (55 + n))"

text \<open>\<open>strings.ToUpper(hw.String())\<close>\<close>

fun mac_text :: "nat list \<Rightarrow> string" where
  "mac_text [] = []"
| "mac_text [b] = [upper_hex (b div 16), upper_hex (b mod 16)]"
| "mac_text (b # bs) = upper_hex (b div 16) # upper_hex (b mod 16) # CHR '':'' # mac_text bs"

lemma hex_value_upper: "n < 16 \<Longrightarrow> hex_value (upper_hex n) = Some n"
  by (simp add: hex_value_def upper_hex_def Let_def)

lemma hex_value_less: "hex_value c = Some n \<Longrightarrow> n < 16"
  by (auto simp: hex_value_def Let_def split: if_split_asm)

lemma hex_pair_less: "hex_pair p = Some b \<Longrightarrow> b < 256"
  by (cases p rule: hex_pair.cases) (auto split: option.split_asm dest!: hex_value_less)

lemma hex_pair_upper: "b < 256 \<Longrightarrow> hex_pair [upper_hex (b div 16), upper_hex (b mod 16)] = Some b"
  by (simp add: hex_value_upper)

lemma those_Some: "those xs = Some ys \<longleftrightarrow> xs = map Some ys"
  by (induction xs arbitrary: ys) (auto split: option.split)

lemma length_groups: "groups k sep n s = Some gs \<Longrightarrow> length gs = n"
  by (induction k sep n s arbitrary: gs rule: groups.induct) (auto split: if_split_asm)

lemma ParseMAC6_bytes:
  assumes "ParseMAC6 s = Some bs" shows "length bs = 6 \<and> (\<forall>b \<in> set bs. b < 256)"
proof -
  obtain ps where ps: "length ps = 6" "those (map hex_pair ps) = Some bs"
  proof -
    from assms consider gs where "groups 2 (s ! 2) 6 s = Some gs" "those (map hex_pair gs) = Some bs"
      | gs where "groups 4 (CHR ''.'') 3 s = Some gs"
          "those (map hex_pair (concat (map (\<lambda>g. [take 2 g, drop 2 g]) gs))) = Some bs"
      by (auto simp: ParseMAC6_def split: if_split_asm option.split_asm)
    then show ?thesis
    proof cases
      case (1 gs)
      then show ?thesis using that length_groups by blast
    next
      case (2 gs)
      have "length (concat (map (\<lambda>g. [take 2 g, drop 2 g]) gs)) = 2 * length gs" by (induction gs) simp_all
      with 2 length_groups [OF 2(1)] show ?thesis using that by simp
    qed
  qed
  then have m: "map hex_pair ps = map Some bs" by (simp add: those_Some)
  then have "length bs = 6" using ps(1) by (metis length_map)
  moreover have "b < 256" if b: "b \<in> set bs" for b
  proof -
    have "Some b \<in> set (map hex_pair ps)" using b m by simp
    then show ?thesis using hex_pair_less by auto
  qed
  ultimately show ?thesis by blast
qed

lemma colon_groups:
  "groups 2 (CHR '':'') 6 [a, b, CHR '':'', c, d, CHR '':'', e, f, CHR '':'', g, h, CHR '':'', i, j, CHR '':'', k, l] =
     Some [[a, b], [c, d], [e, f], [g, h], [i, j], [k, l]]"
  by (simp add: eval_nat_numeral)

lemma ParseMAC6_text:
  assumes "length bs = 6" "\<forall>b \<in> set bs. b < 256" shows "ParseMAC6 (mac_text bs) = Some bs"
proof -
  obtain a b c d e f where bs: "bs = [a, b, c, d, e, f]"
    using assms(1) by (auto simp: length_Suc_conv eval_nat_numeral)
  have p: "hex_pair [upper_hex (x div 16), upper_hex (x mod 16)] = Some x" if "x \<in> set bs" for x
    using that assms(2) hex_pair_upper by blast
  have "those (map hex_pair (map (\<lambda>x. [upper_hex (x div 16), upper_hex (x mod 16)]) bs)) = Some bs"
    using p by (simp add: those_Some bs)
  moreover have "ParseMAC6 (mac_text bs) = those (map hex_pair (map (\<lambda>x. [upper_hex (x div 16), upper_hex (x mod 16)]) bs))"
  proof -
    have sep: "length (mac_text bs) = 17" "mac_text bs ! 2 = CHR '':''" by (simp_all add: bs numeral_2_eq_2)
    have g: "groups 2 (CHR '':'') 6 (mac_text bs) = Some (map (\<lambda>x. [upper_hex (x div 16), upper_hex (x mod 16)]) bs)"
      unfolding bs mac_text.simps colon_groups by simp
    show ?thesis unfolding ParseMAC6_def sep g by simp
  qed
  ultimately show ?thesis by simp
qed

end
