(* ===== verification/Http.thy ===== *)
theory Http
  imports Manager Auth Logs Complex_Main
begin

text \<open>
  The frame of the HTTP API: \<open>internal/api/server.go\<close> (responses, decoding of bodies, the mapping of errors
  to answers) and \<open>internal/api/middleware.go\<close> (origins, bearer tokens, rate limits). A request holds
  what the handlers read of it; a handler maps a request and the state of the server to a response and the
  state after it. Requests are served one at a time; what other goroutines do in between is part of
  the operations of the other theories.
\<close>

section \<open>Requests and responses\<close>

text \<open>
  The JSON documents in a body, as decoding them into the struct of the handler sees them: a value of
  the struct, or an error. The stream ends after the last one.
\<close>

datatype 'v doc = Doc 'v | DocError string

record printer_request =
  pr_id :: "string option"
  pr_display_name :: "string option"
  pr_enabled :: "bool option"
  pr_transport :: "string option"
  pr_device_address :: "string option"
  pr_endpoint :: "string option"
  pr_baud_rate :: "int option"
  pr_data_bits :: "int option"
  pr_stop_bits :: "int option"
  pr_parity :: "string option"
  pr_characters_per_line :: "int option"
  pr_encoding :: "string option"
  pr_auto_reconnect :: "bool option"
  pr_connection_preference :: "string option"

datatype body =
    CreateBody create_request
  | PairBody string string
  | PrinterBody printer_request
  | BluetoothPairBody string string
  | ReprintBody reprint_request
  | CancelBody "string list" string
  | SettingsBody string

record http_request =
  hr_method :: string
  hr_segments :: "string list"
  hr_origin :: string
  hr_authorization :: string
  hr_content_type :: string
  hr_media :: "string option"
  hr_private_network :: bool
  hr_remote :: string
  hr_path_value :: "string \<Rightarrow> string"
  hr_query :: "string \<Rightarrow> string list"
  hr_body :: "body doc list"

definition query_get :: "http_request \<Rightarrow> string \<Rightarrow> string" where
  "query_get r name = (case hr_query r name of [] \<Rightarrow> [] | v # _ \<Rightarrow> v)"

record bluetooth_device =
  bd_name :: string
  bd_address :: string
  bd_paired :: bool
  bd_connected :: bool
  bd_is_printer :: bool
  bd_endpoint :: string
  bd_supported :: "string list"

record candidate =
  ca_endpoint :: string
  ca_device_name :: string
  ca_device_address :: string
  ca_connected :: bool
  ca_is_printer :: bool

record queue_view =
  qv_printer :: status
  qv_processing :: "print_run option"
  qv_queued :: "print_run list"
  qv_retry_pending :: "print_run list"
  qv_attention :: "print_run list"
  qv_recent_transmitted :: "print_run list"

datatype payload =
    NoBody
  | ErrorBody string string
  | JobBody job_detail
  | JobListBody "job_list_item list" string
  | RunBody print_run
  | ReprintedBody reprint_result
  | TokenBody string
  | StatusBody "status list" persistence_status bool bool
  | HealthBody bool
  | PrintersBody "status list"
  | PrinterConfigBody printer_config
  | FlagBody string bool
  | QueueBody queue_view
  | CandidatesBody "candidate list"
  | DevicesBody bool "bluetooth_device list"
  | PairedDeviceBody bool bluetooth_device
  | SystemLogsBody "log_record list" string int
  | PrinterLogsBody "event_row list" string int
  | EventsBody "event_row list"
  | DiagnosticsBody "status list" "candidate list" string bool "string list"
  | ExportBody "event_row list" "status list" string "token_info list"
  | PairingBody string time
  | TokensBody "token_info list"
  | SettingsAnswer string
  | PageBody string

record response =
  rs_status :: nat
  rs_headers :: "(string \<times> string) list"
  rs_body :: payload

definition writeJSON :: "nat \<Rightarrow> payload \<Rightarrow> response" where
  "writeJSON status v = \<lparr>rs_status = status, rs_headers = [(''Content-Type'', ''application/json'')], rs_body = v\<rparr>"

definition with_header :: "string \<Rightarrow> string \<Rightarrow> response \<Rightarrow> response" where
  "with_header k v r = r\<lparr>rs_headers := (k, v) # rs_headers r\<rparr>"

section \<open>The server\<close>

record bucket =
  bu_tokens :: rat
  bu_max :: rat
  bu_rate :: rat
  bu_last :: time

datatype api_event = AuthDenied string | JobEffect effect | ManagerEvent manager_event

record 'c server =
  sv_db :: db
  sv_auth :: auth
  sv_manager :: "'c manager"
  sv_gate :: gate
  sv_limiter :: "string \<rightharpoonup> bucket"
  sv_pair_limiter :: bucket
  sv_logs :: "log_record list"
  sv_events :: "api_event list"

type_synonym 'c handler = "http_request \<Rightarrow> 'c server \<Rightarrow> response \<times> 'c server"

definition publish :: "api_event list \<Rightarrow> 'c server \<Rightarrow> 'c server" where
  "publish evs s = s\<lparr>sv_events := sv_events s @ evs\<rparr>"

section \<open>Decoding a body\<close>

text \<open>\<open>pick\<close> selects the struct of the handler; any other value has fields the decoder does not know.\<close>

definition decodeJSON :: "(body \<Rightarrow> 'v option) \<Rightarrow> http_request \<Rightarrow> string + 'v" where
  "decodeJSON pick r =
     (if hr_content_type r = [] \<or> hr_media r \<noteq> Some ''application/json''
      then Inl ''Content-Type must be application/json''
      else case hr_body r of
        [] \<Rightarrow> Inl ''invalid JSON: EOF''
      | DocError e # _ \<Rightarrow> Inl (''invalid JSON: '' @ e)
      | Doc v # rest \<Rightarrow>
         (case pick v of
            None \<Rightarrow> Inl ''invalid JSON: json: unknown field''
          | Some x \<Rightarrow>
             (case rest of
                [] \<Rightarrow> Inr x
              | Doc _ # _ \<Rightarrow> Inl ''request body must contain exactly one JSON value''
              | DocError e # _ \<Rightarrow> Inl (''invalid trailing JSON: '' @ e))))"

section \<open>Errors\<close>

datatype platform_err =
    ErrInvalidBluetoothAddress
  | ErrBluetoothDeviceNotFound
  | ErrBluetoothUnavailable
  | ErrBluetoothPairInProgress
  | ErrBluetoothPairRejected
  | ErrBluetoothPairTimeout
  | ErrBluetoothPairFailed
  | ErrBluetoothNotAuthorized
  | ErrBluetoothProtocolUnsupported
  | PlatformOther string

datatype api_err =
    ServiceErr service_err
  | ConfigRepoErr config_repo_err
  | ManagerErr manager_err
  | AuthErr auth_err
  | RequestErr string
  | PlatformErr platform_err

definition conflict_name :: "conflict_code \<Rightarrow> string" where
  "conflict_name c = (case c of
     idempotency_conflict \<Rightarrow> ''idempotency_conflict'' | printer_unavailable \<Rightarrow> ''printer_unavailable''
   | active_print_run \<Rightarrow> ''active_print_run'' | invalid_state \<Rightarrow> ''invalid_state'' | content_changed \<Rightarrow> ''content_changed'')"

text \<open>
  The classes \<open>errors.As\<close> and \<open>errors.Is\<close> tell apart in \<open>writeError\<close>. A refused update is a validation
  error; the conflicts of the manager carry the code \<open>conflict\<close>.
\<close>

datatype err_class = IsValidation | IsConflict string | IsNotFound | IsPairingRejected | IsOther

fun classify :: "api_err \<Rightarrow> err_class" where
  "classify (ServiceErr (Invalid _)) = IsValidation"
| "classify (ServiceErr (Conflict c)) = IsConflict (conflict_name c)"
| "classify (ServiceErr (Repo ErrNotFound)) = IsNotFound"
| "classify (ServiceErr (Repo _)) = IsOther"
| "classify (ConfigRepoErr PrinterNotFound) = IsNotFound"
| "classify (ConfigRepoErr _) = IsOther"
| "classify (ManagerErr ProcessingConflict) = IsConflict ''conflict''"
| "classify (ManagerErr AlreadyExists) = IsConflict ''conflict''"
| "classify (ManagerErr ActiveWork) = IsConflict ''conflict''"
| "classify (ManagerErr (ConfigErr PrinterNotFound)) = IsNotFound"
| "classify (ManagerErr (UpdateRefused _)) = IsValidation"
| "classify (ManagerErr _) = IsOther"
| "classify (AuthErr ErrPairingRejected) = IsPairingRejected"
| "classify (AuthErr _) = IsOther"
| "classify (RequestErr _) = IsValidation"
| "classify (PlatformErr _) = IsOther"

text \<open>\<open>text\<close> stands for the method \<open>Error\<close> of the error values.\<close>

definition writeError :: "(api_err \<Rightarrow> string) \<Rightarrow> api_err \<Rightarrow> response" where
  "writeError error_text e = (case classify e of
     IsValidation \<Rightarrow> writeJSON 400 (ErrorBody ''invalid_request'' (error_text e))
   | IsConflict code \<Rightarrow> writeJSON 409 (ErrorBody (if code = [] then ''conflict'' else code) (error_text e))
   | IsNotFound \<Rightarrow> writeJSON 404 (ErrorBody ''not_found'' ''not found'')
   | IsPairingRejected \<Rightarrow> writeJSON 403 (ErrorBody ''pairing_rejected'' (error_text e))
   | IsOther \<Rightarrow> writeJSON 500 (ErrorBody ''internal_error'' ''internal server error''))"

definition writeBluetoothError :: "(api_err \<Rightarrow> string) \<Rightarrow> platform_err \<Rightarrow> response" where
  "writeBluetoothError error_text e = (case e of
     ErrInvalidBluetoothAddress \<Rightarrow> writeJSON 400 (ErrorBody ''invalid_address'' ''invalid Bluetooth device address'')
   | ErrBluetoothDeviceNotFound \<Rightarrow> writeJSON 404 (ErrorBody ''bluetooth_device_not_found'' ''Bluetooth device is no longer available; scan again'')
   | ErrBluetoothPairInProgress \<Rightarrow> writeJSON 409 (ErrorBody ''pairing_in_progress'' ''Bluetooth pairing is already in progress'')
   | ErrBluetoothPairRejected \<Rightarrow> writeJSON 409 (ErrorBody ''pairing_failed'' ''pairing was rejected; put the printer in pairing mode and verify its PIN'')
   | ErrBluetoothPairTimeout \<Rightarrow> writeJSON 504 (ErrorBody ''pairing_timeout'' ''pairing timed out; put the printer in pairing mode and try again'')
   | ErrBluetoothUnavailable \<Rightarrow> writeJSON 503 (ErrorBody ''bluetooth_unavailable'' ''Bluetooth is unavailable; check that the adapter is powered on'')
   | ErrBluetoothNotAuthorized \<Rightarrow> writeJSON 403 (ErrorBody ''bluetooth_not_authorized'' ''this session is not authorized to manage Bluetooth; use bluetoothctl or the system Bluetooth settings'')
   | ErrBluetoothProtocolUnsupported \<Rightarrow> writeJSON 422 (ErrorBody ''connection_type_unsupported'' (error_text (PlatformErr e)))
   | _ \<Rightarrow> writeJSON 502 (ErrorBody ''bluetooth_error'' ''BlueZ could not pair the device; check the agent log for details''))"

definition writeBluetoothManagementError :: "string \<Rightarrow> platform_err \<Rightarrow> response" where
  "writeBluetoothManagementError act e = (case e of
     ErrInvalidBluetoothAddress \<Rightarrow> writeJSON 400 (ErrorBody ''invalid_address'' ''invalid Bluetooth device address'')
   | ErrBluetoothDeviceNotFound \<Rightarrow> writeJSON 404 (ErrorBody ''bluetooth_device_not_found'' ''Bluetooth device is no longer available; scan again'')
   | ErrBluetoothNotAuthorized \<Rightarrow> writeJSON 403 (ErrorBody ''bluetooth_not_authorized'' ''this session is not authorized to manage Bluetooth; use bluetoothctl or the system Bluetooth settings'')
   | _ \<Rightarrow> writeJSON 502 (ErrorBody ''bluetooth_error'' (''BlueZ could not '' @ act @ '' the device; check the agent log for details'')))"

section \<open>Origins\<close>

definition isLocalOrigin :: "string \<Rightarrow> bool" where
  "isLocalOrigin origin \<longleftrightarrow>
     prefix ''http://127.0.0.1:'' origin \<or> prefix ''http://localhost:'' origin \<or>
     prefix ''https://127.0.0.1:'' origin \<or> prefix ''https://localhost:'' origin"

definition foreign :: "string \<Rightarrow> bool" where
  "foreign origin \<longleftrightarrow> origin \<noteq> [] \<and> \<not> isLocalOrigin origin"

definition requestOwner :: "http_request \<Rightarrow> string" where
  "requestOwner r = (if hr_origin r = [] \<or> isLocalOrigin (hr_origin r) then ''local'' else hr_origin r)"

definition SettingAllowedOrigin :: string where "SettingAllowedOrigin = ''allowed_origin''"

definition cors_headers :: "string \<Rightarrow> http_request \<Rightarrow> response \<Rightarrow> response" where
  "cors_headers allowed r rs =
     with_header ''Access-Control-Allow-Origin'' allowed (with_header ''Vary'' ''Origin'' rs)"

definition preflight :: "string \<Rightarrow> http_request \<Rightarrow> response" where
  "preflight allowed r =
     cors_headers allowed r \<lparr>rs_status = 204,
       rs_headers = [(''Access-Control-Allow-Methods'', ''GET, POST, OPTIONS''),
                     (''Access-Control-Allow-Headers'', ''Authorization, Content-Type''),
                     (''Access-Control-Max-Age'', ''600'')] @
                    (if hr_private_network r then [(''Access-Control-Allow-Private-Network'', ''true'')] else []),
       rs_body = NoBody\<rparr>"

definition posCORS :: "'c handler \<Rightarrow> 'c handler" where
  "posCORS nxt r s =
     (if foreign (hr_origin r)
      then (let allowed = GetSetting SettingAllowedOrigin (sv_db s) in
            if allowed = [] \<or> hr_origin r \<noteq> allowed
            then (writeJSON 403 (ErrorBody ''origin_forbidden'' ''origin not allowed''),
                  publish [AuthDenied (hr_origin r)] s)
            else if hr_method r = ''OPTIONS'' then (preflight allowed r, s)
            else apfst (cors_headers allowed r) (nxt r s))
      else nxt r s)"

section \<open>Tokens\<close>

record auth_env =
  an_hash :: "string \<Rightarrow> string"
  an_now :: time
  an_read_error :: "string option"
  an_write_error :: "string option"

definition requireAuth :: "auth_env \<Rightarrow> 'c handler \<Rightarrow> 'c handler" where
  "requireAuth env nxt r s =
     (if foreign (hr_origin r)
      then (case validateToken (an_hash env) (an_read_error env) (an_write_error env) (an_now env)
                   (trim_prefix (hr_authorization r) ''Bearer '') (hr_origin r) (sv_auth s) of
              ((valid, _), a) \<Rightarrow>
                if \<not> valid
                then (writeJSON 401 (ErrorBody ''unauthorized'' ''invalid or missing token''),
                      publish [AuthDenied (hr_origin r)] (s\<lparr>sv_auth := a\<rparr>))
                else nxt r (s\<lparr>sv_auth := a\<rparr>))
      else nxt r s)"

definition localOnly :: "'c handler \<Rightarrow> 'c handler" where
  "localOnly nxt r s =
     (if foreign (hr_origin r)
      then (writeJSON 403 (ErrorBody ''admin_origin_forbidden'' ''forbidden''), publish [AuthDenied (hr_origin r)] s)
      else nxt r s)"

section \<open>Rate limits\<close>

text \<open>The token bucket, with exact fractions in place of the code's floating point numbers.\<close>

definition newRateLimiter :: "rat \<Rightarrow> rat \<Rightarrow> time \<Rightarrow> bucket" where
  "newRateLimiter ratePerSec burst now = \<lparr>bu_tokens = burst, bu_max = burst, bu_rate = ratePerSec, bu_last = now\<rparr>"

definition NewServer :: "db \<Rightarrow> auth \<Rightarrow> 'c manager \<Rightarrow> gate \<Rightarrow> log_record list \<Rightarrow> time \<Rightarrow> 'c server" where
  "NewServer d a m g logs now =
     \<lparr>sv_db = d, sv_auth = a, sv_manager = m, sv_gate = g, sv_limiter = Map.empty, sv_pair_limiter = newRateLimiter (1 / 5) 5 now,
      sv_logs = logs, sv_events = []\<rparr>"

definition refilled :: "time \<Rightarrow> bucket \<Rightarrow> rat" where
  "refilled now b = min (bu_max b) (bu_tokens b + of_int (now - bu_last b) / of_int second * bu_rate b)"

definition bucket_allow :: "time \<Rightarrow> bucket \<Rightarrow> bool \<times> bucket" where
  "bucket_allow now b =
     (let b = b\<lparr>bu_tokens := refilled now b, bu_last := now\<rparr> in
      if bu_tokens b < 1 then (False, b) else (True, b\<lparr>bu_tokens := bu_tokens b - 1\<rparr>))"

definition requestRateKey :: "(string \<Rightarrow> string) \<Rightarrow> http_request \<Rightarrow> string" where
  "requestRateKey hash r =
     (let identity = hr_origin r @ [CHR 0x00] @ hr_authorization r
      in hash (if identity = [CHR 0x00] then hr_remote r else identity))"

definition keyed_allow :: "rat \<Rightarrow> rat \<Rightarrow> time \<Rightarrow> string \<Rightarrow> (string \<rightharpoonup> bucket) \<Rightarrow> bool \<times> (string \<rightharpoonup> bucket)" where
  "keyed_allow ratePerSec burst now key l =
     (let b = (case l key of None \<Rightarrow> newRateLimiter ratePerSec burst now | Some b \<Rightarrow> b) in
      case bucket_allow now b of (ok, b) \<Rightarrow> (ok, l(key \<mapsto> b)))"

definition rateLimit :: "auth_env \<Rightarrow> 'c handler \<Rightarrow> 'c handler" where
  "rateLimit env nxt r s =
     (case keyed_allow 20 40 (an_now env) (requestRateKey (an_hash env) r) (sv_limiter s) of
        (ok, l) \<Rightarrow>
          if \<not> ok then (writeJSON 429 (ErrorBody ''rate_limited'' ''rate limit exceeded''), s\<lparr>sv_limiter := l\<rparr>)
          else nxt r (s\<lparr>sv_limiter := l\<rparr>))"

definition pairRateLimit :: "auth_env \<Rightarrow> 'c handler \<Rightarrow> 'c handler" where
  "pairRateLimit env nxt r s =
     (case bucket_allow (an_now env) (sv_pair_limiter s) of
        (ok, b) \<Rightarrow>
          if \<not> ok then (writeJSON 429 (ErrorBody ''rate_limited'' ''pairing rate limit exceeded''), s\<lparr>sv_pair_limiter := b\<rparr>)
          else nxt r (s\<lparr>sv_pair_limiter := b\<rparr>))"

text \<open>
  \<open>limitBody\<close> ends the stream of a body after 256 KiB: what the decoder then sees of it is the argument.
\<close>

definition maxRequestBody :: nat where "maxRequestBody = 256 * 1024"

definition limitBody :: "(http_request \<Rightarrow> nat) \<Rightarrow> 'c handler \<Rightarrow> 'c handler" where
  "limitBody body_size nxt r s =
     nxt (if body_size r > maxRequestBody then r\<lparr>hr_body := [DocError ''http: request body too large'']\<rparr> else r) s"

definition chain :: "'c handler \<Rightarrow> ('c handler \<Rightarrow> 'c handler) list \<Rightarrow> 'c handler" where
  "chain h middleware = foldr (\<lambda>m h. m h) middleware h"

end
