(* ===== verification/Cursors.thy ===== *)
theory Cursors
  imports Rfc3339 GoText Http
begin

text \<open>
  How \<open>internal/api/handlers.go\<close> reads the query of a request: the cursors of the lists, which carry the
  position of the last row as \<open>base64.RawURLEncoding\<close>, the limits, and the filters of the logs. A failed
  check is the text of the validation error.
\<close>

section \<open>Base64, URL alphabet, no padding\<close>

definition b64_char :: "nat \<Rightarrow> char" where
  "b64_char n =
     (if n < 26 then char_of (65 + n) else if n < 52 then char_of (71 + n)
      else if n < 62 then char_of (n - 4) else if n = 62 then CHR ''-'' else CHR ''_'')"

definition b64_value :: "char \<Rightarrow> nat option" where
  "b64_value c = (let n = of_char c in
     if 65 \<le> n \<and> n \<le> 90 then Some (n - 65) else if 97 \<le> n \<and> n \<le> 122 then Some (n - 71)
     else if 48 \<le> n \<and> n \<le> 57 then Some (n + 4) else if n = 45 then Some 62 else if n = 95 then Some 63 else None)"

fun sextets :: "nat list \<Rightarrow> nat list" where
  "sextets (a # b # c # r) = [a div 4, (a mod 4) * 16 + b div 16, (b mod 16) * 4 + c div 64, c mod 64] @ sextets r"
| "sextets [a, b] = [a div 4, (a mod 4) * 16 + b div 16, (b mod 16) * 4]"
| "sextets [a] = [a div 4, (a mod 4) * 16]"
| "sextets [] = []"

fun octets :: "nat list \<Rightarrow> nat list option" where
  "octets (w # x # y # z # r) =
     map_option ((@) [w * 4 + x div 16, (x mod 16) * 16 + y div 4, (y mod 4) * 64 + z]) (octets r)"
| "octets [w, x, y] = Some [w * 4 + x div 16, (x mod 16) * 16 + y div 4]"
| "octets [w, x] = Some [w * 4 + x div 16]"
| "octets [w] = None"
| "octets [] = Some []"

definition base64_encode :: "string \<Rightarrow> string" where
  "base64_encode s = map b64_char (sextets (map of_char s))"

definition base64_decode :: "string \<Rightarrow> string option" where
  "base64_decode s = do {
     ns \<leftarrow> those (map b64_value (filter (\<lambda>c. c \<noteq> CHR 0x0D \<and> c \<noteq> CHR 0x0A) s));
     bytes \<leftarrow> octets ns;
     Some (map char_of bytes)
   }"

lemma octets_sextets: "list_all (\<lambda>n. n < 256) bs \<Longrightarrow> octets (sextets bs) = Some bs"
  by (induction bs rule: sextets.induct) (auto simp: div_mult2_eq [symmetric])

lemma mod_bounds: "(a :: nat) mod 64 < 64" "a mod 4 * 16 < 64" "a mod 16 * 4 < 64"
proof -
  have "a mod 4 \<le> 3" "a mod 16 \<le> 15" by (simp_all flip: less_Suc_eq_le)
  then show "a mod 4 * 16 < 64" "a mod 16 * 4 < 64" by linarith+
qed simp

lemma sextet_bounds:
  fixes a b :: nat
  assumes "b < 256"
  shows "b div 4 < 64" "a mod 4 * 16 + b div 16 < 64" "a mod 16 * 4 + b div 64 < 64"
proof -
  have m: "a mod 4 \<le> 3" "a mod 16 \<le> 15" by (simp_all flip: less_Suc_eq_le)
  have d: "b div 16 \<le> 15" "b div 64 \<le> 3" using assms by simp_all
  show "a mod 4 * 16 + b div 16 < 64" "a mod 16 * 4 + b div 64 < 64" using m d by linarith+
qed (use assms in simp_all)

lemma sextets_small: "(\<And>b. b \<in> set bs \<Longrightarrow> b < 256) \<Longrightarrow> n \<in> set (sextets bs) \<Longrightarrow> n < 64"
proof (induction bs rule: sextets.induct)
  case (1 a b c r)
  have lt: "a < 256" "b < 256" "c < 256" using "1.prems"(1) by (meson list.set_intros)+
  consider "n = a div 4" | "n = a mod 4 * 16 + b div 16" | "n = b mod 16 * 4 + c div 64" | "n = c mod 64"
    | "n \<in> set (sextets r)"
    using "1.prems"(2) unfolding sextets.simps by (metis append_Cons append_Nil set_ConsD)
  then show ?case
  proof cases
    case 5
    with "1.IH" "1.prems"(1) show ?thesis by (meson list.set_intros(2))
  qed (use lt sextet_bounds mod_bounds in blast)+
next
  case (2 a b)
  have "a < 256" "b < 256" using "2.prems"(1) by (meson list.set_intros)+
  moreover have "n = a div 4 \<or> n = a mod 4 * 16 + b div 16 \<or> n = b mod 16 * 4"
    using "2.prems"(2) unfolding sextets.simps by (metis empty_iff empty_set set_ConsD)
  ultimately show ?case using sextet_bounds mod_bounds by blast
next
  case (3 a)
  have "a < 256" using "3.prems"(1) by (meson list.set_intros)
  moreover have "n = a div 4 \<or> n = a mod 4 * 16"
    using "3.prems"(2) unfolding sextets.simps by (metis empty_iff empty_set set_ConsD)
  ultimately show ?case using sextet_bounds mod_bounds by blast
qed simp

lemma b64_char_value:
  assumes "n < 64"
  shows "b64_value (b64_char n) = Some n \<and> b64_char n \<noteq> CHR 0x0D \<and> b64_char n \<noteq> CHR 0x0A"
proof -
  consider "n < 26" | "26 \<le> n" "n < 52" | "52 \<le> n" "n < 62" | "n = 62" | "n = 63" using assms by linarith
  then have v: "b64_value (b64_char n) = Some n"
    by cases (simp_all add: b64_value_def b64_char_def Let_def, arith)
  have "b64_value (CHR 0x0D) = None" "b64_value (CHR 0x0A) = None" by (simp_all add: b64_value_def Let_def)
  with v show ?thesis by (metis option.distinct(1))
qed

lemma those_map_Some: "(\<And>x. x \<in> set xs \<Longrightarrow> f x = Some (g x)) \<Longrightarrow> those (map f xs) = Some (map g xs)"
  by (induction xs) simp_all

lemma base64_round_trip [simp]: "base64_decode (base64_encode s) = Some s"
proof -
  let ?bs = "map of_char s :: nat list"
  have bytes: "list_all (\<lambda>n. n < 256) ?bs" by (auto simp: list_all_iff)
  have ok: "b64_value (b64_char n) = Some n \<and> b64_char n \<noteq> CHR 0x0D \<and> b64_char n \<noteq> CHR 0x0A"
    if "n \<in> set (sextets ?bs)" for n
    using b64_char_value sextets_small [OF _ that] bytes unfolding list_all_iff by blast
  have "filter (\<lambda>c. c \<noteq> CHR 0x0D \<and> c \<noteq> CHR 0x0A) (map b64_char (sextets ?bs)) = map b64_char (sextets ?bs)"
    using ok by (auto intro!: filter_True)
  moreover have "those (map b64_value (map b64_char (sextets ?bs))) = Some (sextets ?bs)"
    using those_map_Some [of "sextets ?bs" "b64_value \<circ> b64_char" "\<lambda>n. n"] ok by simp
  ultimately show ?thesis
    by (simp add: base64_decode_def base64_encode_def octets_sextets [OF bytes] comp_def)
qed

section \<open>Numbers\<close>

definition nat_text :: "nat \<Rightarrow> string" where
  "nat_text n = map char_of (decimal n)"

definition max_int64 :: int where "max_int64 = 2 ^ 63 - 1"

text \<open>\<open>strconv.Atoi\<close> and \<open>strconv.ParseInt\<close>: the value, which a number out of range leaves at the bound, and whether
  there was an error.\<close>

definition read_int :: "string \<Rightarrow> int \<times> bool" where
  "read_int s =
     (let neg = (take 1 s = ''-'');
          ds = (if take 1 s = ''-'' \<or> take 1 s = ''+'' then drop 1 s else s)
      in if ds = [] \<or> \<not> list_all is_digit ds then (0, True)
         else (let n = int (of_digits 0 (map digit_of ds)); v = (if neg then - n else n)
               in if v > max_int64 then (max_int64, True)
                  else if v < - max_int64 - 1 then (- max_int64 - 1, True) else (v, False)))"

definition Atoi :: "string \<Rightarrow> int" where
  "Atoi s = fst (read_int s)"

definition logPageLimit :: "string \<Rightarrow> nat" where
  "logPageLimit raw_limit = (let limit = Atoi raw_limit in if limit \<le> 0 then 100 else if limit > 200 then 200 else nat limit)"

section \<open>Cursors\<close>

definition NUL :: char where "NUL = CHR 0x00"

definition cursor_parts :: "string \<Rightarrow> (time \<times> string) option" where
  "cursor_parts cursor = do {
     b \<leftarrow> base64_decode cursor;
     if NUL \<notin> set b then None
     else do {
       t \<leftarrow> parse_time (takeWhile (\<lambda>c. c \<noteq> NUL) b);
       Some (t, tl (dropWhile (\<lambda>c. c \<noteq> NUL) b))
     }
   }"

definition decodeJobCursor :: "string \<Rightarrow> string + (time option \<times> string)" where
  "decodeJobCursor cursor =
     (if cursor = [] then Inr (None, [])
      else case cursor_parts cursor of None \<Rightarrow> Inl ''invalid cursor'' | Some (t, uid) \<Rightarrow> Inr (Some t, uid))"

definition encodeJobCursor :: "time \<Rightarrow> string \<Rightarrow> string" where
  "encodeJobCursor created uid = base64_encode (format_time created @ NUL # uid)"

definition encodeNumericCursor :: "time \<Rightarrow> nat \<Rightarrow> string" where
  "encodeNumericCursor created i = base64_encode (format_time created @ NUL # nat_text i)"

definition decodeNumericCursor :: "string \<Rightarrow> string + (time \<times> nat) option" where
  "decodeNumericCursor cursor =
     (if cursor = [] then Inr None
      else case cursor_parts cursor of
        None \<Rightarrow> Inl ''invalid cursor''
      | Some (t, num) \<Rightarrow>
         (case read_int num of (i, failed) \<Rightarrow>
            if failed \<or> i \<le> 0 then Inl ''invalid cursor'' else Inr (Some (t, nat i))))"

section \<open>Filters\<close>

definition parseLogTime :: "string \<Rightarrow> string \<Rightarrow> string + time option" where
  "parseLogTime raw_time name =
     (if raw_time = [] then Inr None
      else case parse_time raw_time of
        None \<Rightarrow> Inl (name @ '' must be an RFC3339 timestamp'') | Some t \<Rightarrow> Inr (Some t))"

definition logRange :: "http_request \<Rightarrow> string + (time option \<times> time option)" where
  "logRange r =
     sum_bind (parseLogTime (query_get r ''from'') ''from'') (\<lambda>from_time.
     sum_bind (parseLogTime (query_get r ''to'') ''to'') (\<lambda>to_time.
     case (from_time, to_time) of
       (Some f, Some t) \<Rightarrow> if f > t then Inl ''from must not be after to'' else Inr (from_time, to_time)
     | _ \<Rightarrow> Inr (from_time, to_time)))"

definition boundedLogFilter :: "http_request \<Rightarrow> string \<Rightarrow> string + string" where
  "boundedLogFilter r name =
     (let v = TrimSpace (query_get r name) in
      if length v > 250 then Inl (name @ '' must be at most 250 bytes'') else Inr v)"

definition add_level :: "string list \<Rightarrow> string \<Rightarrow> string + string list" where
  "add_level levels word =
     (let level = to_lower (TrimSpace word) in
      if level = [] \<or> level \<in> set levels then Inr levels
      else if level \<in> {''debug'', ''info'', ''warn'', ''error''} then Inr (levels @ [level])
      else Inl ''levels may contain only debug, info, warn, or error'')"

definition parseLevels :: "http_request \<Rightarrow> string + string list" where
  "parseLevels r = fold_sum add_level [] (concat (map (split_char (CHR '','')) (hr_query r ''levels'')))"

definition event_aliases :: "(string \<times> string) list" where
  "event_aliases =
     [(''printer_connected'', ''printer.connected''), (''printer_disconnected'', ''printer.disconnected''),
      (''printer_reconnecting'', ''printer.reconnecting''), (''printer_error'', ''printer.error''),
      (''config_changed'', ''config.changed''), (''print_run_queued'', ''print_run.queued''),
      (''print_run_processing'', ''print_run.processing''), (''print_run_transmitted'', ''print_run.transmitted''),
      (''print_run_failed'', ''print_run.failed''), (''print_run_uncertain'', ''print_run.uncertain''),
      (''print_run_cancelled'', ''print_run.cancelled''), (''print_run_resolved'', ''print_run.resolved'')]"

definition normalizeEventType :: "string \<Rightarrow> string" where
  "normalizeEventType v = (case map_of event_aliases v of Some n \<Rightarrow> n | None \<Rightarrow> v)"

section \<open>Laws\<close>

lemma decimal_digits: "d \<in> set (decimal n) \<Longrightarrow> 48 \<le> d \<and> d \<le> 57"
proof (induction n rule: decimal.induct)
  case (1 n)
  then show ?case by (subst (asm) (2) decimal.simps) (auto split: if_split_asm)
qed

lemma decimal_nonempty [simp]: "decimal n \<noteq> []"
  by (subst decimal.simps) simp

lemma of_digits_decimal: "of_digits 0 (map (\<lambda>d. d - 48) (decimal n)) = n"
proof (induction n rule: decimal.induct)
  case (1 n)
  show ?case
  proof (cases "n < 10")
    case False
    with 1 show ?thesis by (subst decimal.simps) (simp add: of_digits_append)
  qed (subst decimal.simps, simp)
qed

lemma nat_text_digits:
  "list_all is_digit (nat_text n) \<and> map digit_of (nat_text n) = map (\<lambda>d. d - 48) (decimal n) \<and> nat_text n \<noteq> []"
proof -
  have "is_digit (char_of d)" "digit_of (char_of d) = d - 48" if "d \<in> set (decimal n)" for d
    using decimal_digits [OF that] by (auto simp: is_digit_def digit_of_def less_eq_char_def)
  then show ?thesis by (auto simp: nat_text_def list_all_iff)
qed

lemma read_nat_text:
  assumes "int n \<le> max_int64" shows "read_int (nat_text n) = (int n, False)"
proof -
  obtain c s where cs: "nat_text n = c # s" using nat_text_digits [of n] by (cases "nat_text n") auto
  have "is_digit c" using nat_text_digits [of n] cs by simp
  then have "c \<noteq> CHR ''-'' \<and> c \<noteq> CHR ''+''" by (auto simp: is_digit_def)
  then have "take 1 (nat_text n) \<noteq> ''-'' \<and> take 1 (nat_text n) \<noteq> ''+''" by (simp add: cs)
  moreover have "- max_int64 - 1 \<le> int n" by (simp add: max_int64_def)
  ultimately show ?thesis
    using nat_text_digits [of n] assms by (simp add: read_int_def of_digits_decimal)
qed

text \<open>The text of a time holds no NUL.\<close>

lemma format_time_no_NUL: "NUL \<notin> set (format_time t)"
proof -
  have p: "NUL \<notin> set (pad k n)" for k n
    using pad_digits [of NUL k n] by (auto simp: is_digit_def NUL_def)
  have "NUL \<notin> char_of ` set (frac_text n)" for n
  proof
    assume "NUL \<in> char_of ` set (frac_text n)"
    then obtain d where d: "d \<in> set (frac_text n)" "NUL = char_of d" by blast
    have "46 \<le> d \<and> d \<le> 90"
      using d(1) strip_zeros_subset [of "digits 9 n"] digits_small [of _ 9 n] by (force simp: frac_text_def split: if_split_asm)
    with d(2) show False by (auto simp: NUL_def dest!: arg_cong [where f = "of_char :: char \<Rightarrow> nat"])
  qed
  with p show ?thesis
    by (auto simp: format_time_def ts_def date_text_def clock_text_def NUL_def split: prod.splits)
qed

lemma cursor_parts_encoded:
  assumes "0 \<le> t" "t < 315537897600 * second"
  shows "cursor_parts (base64_encode (format_time t @ NUL # s)) = Some (t, s)"
proof -
  have "\<And>c. c \<in> set (format_time t) \<Longrightarrow> c \<noteq> NUL" using format_time_no_NUL by blast
  then have "takeWhile (\<lambda>c. c \<noteq> NUL) (format_time t @ NUL # s) = format_time t"
    "dropWhile (\<lambda>c. c \<noteq> NUL) (format_time t @ NUL # s) = NUL # s"
    by (simp_all add: takeWhile_append2 dropWhile_append2)
  then show ?thesis by (simp add: cursor_parts_def format_then_parse [OF assms])
qed

lemma sextets_eq_Nil [simp]: "sextets bs = [] \<longleftrightarrow> bs = []"
  by (cases bs rule: sextets.cases) simp_all

lemma base64_encode_Nil [simp]: "base64_encode s = [] \<longleftrightarrow> s = []"
  by (simp add: base64_encode_def)

end
