(* ===== verification/Handlers.thy ===== *)
theory Handlers
  imports Cursors
begin

text \<open>
  \<open>internal/api/handlers.go\<close>, first part: Jobs, runs, pairing and printers. A handler is one step of the
  server. What the clock, \<open>crypto/rand\<close>, the goroutines that commit between two transactions and the
  platform give it is its environment; \<open>he_error_text\<close> and \<open>he_config_text\<close> are the texts of the errors.
\<close>

section \<open>Environment\<close>

record url =
  u_scheme :: string
  u_host :: string
  u_user :: bool
  u_path :: string
  u_raw_query :: string
  u_fragment :: string

record pairer =
  pa_devices :: "platform_err + bluetooth_device list"
  pa_start :: "string \<Rightarrow> platform_err + unit"
  pa_stop :: "platform_err + unit"
  pa_pair :: "string \<Rightarrow> string \<Rightarrow> string \<Rightarrow> platform_err + bluetooth_device"
  pa_disconnect :: "string \<Rightarrow> platform_err + unit"
  pa_forget :: "string \<Rightarrow> platform_err + unit"

record 'c api_env =
  he_auth :: auth_env
  he_service :: service_env
  he_worker :: "'c worker_env"
  he_now :: time
  he_later :: time
  he_fresh_job :: "string option"
  he_fresh_runs :: "string \<Rightarrow> string option"
  he_others :: "db \<Rightarrow> db"
  he_code :: "nat option"
  he_token :: "nat list option"
  he_database_ok :: bool
  he_parse_url :: "string \<Rightarrow> url option"
  he_error_text :: "api_err \<Rightarrow> string"
  he_config_text :: "config_error \<Rightarrow> string"
  he_quote :: "string \<Rightarrow> string"
  he_candidates :: "platform_err + candidate list"
  he_pairer :: "pairer option"
  he_open_settings :: "platform_err + unit"
  he_platform :: string
  he_page :: "http_request \<Rightarrow> nat \<times> string"

definition printer_directory_of :: "db \<Rightarrow> printer_dir" where
  "printer_directory_of d = \<lparr>PrinterExists = manager_PrinterExists d, PrinterConfig = manager_PrinterConfig d\<rparr>"

definition wake_for :: "effect \<Rightarrow> 'c manager \<Rightarrow> 'c manager" where
  "wake_for e m = (case e of WakePrinter pid \<Rightarrow> Manager_Wake pid m | _ \<Rightarrow> m)"

text \<open>The Job service has run: its database, the events it published, the workers it woke.\<close>

definition commit_jobs :: "db \<Rightarrow> effect list \<Rightarrow> 'c server \<Rightarrow> 'c server" where
  "commit_jobs d effs s =
     publish (map JobEffect effs) (s\<lparr>sv_db := d, sv_manager := fold wake_for effs (sv_manager s)\<rparr>)"

definition invalid_json :: "string \<Rightarrow> response" where
  "invalid_json e = writeJSON 400 (ErrorBody ''invalid_json'' e)"

section \<open>Jobs and runs\<close>

definition create_body :: "body \<Rightarrow> create_request option" where
  "create_body b = (case b of CreateBody c \<Rightarrow> Some c | _ \<Rightarrow> None)"

definition handleCreateJob :: "'c api_env \<Rightarrow> 'c handler" where
  "handleCreateJob env r s =
     (case decodeJSON create_body r of
        Inl e \<Rightarrow> (invalid_json e, s)
      | Inr req \<Rightarrow>
         (let req = req\<lparr>cr_owner := requestOwner r, cr_source := requestOwner r\<rparr> in
          case Accept (he_service env) (printer_directory_of (sv_db s)) req (he_now env) (he_fresh_job env)
                 (he_fresh_runs env) (he_others env) (sv_db s) of
            (Inl e, d, effs) \<Rightarrow> (writeError (he_error_text env) (ServiceErr e), commit_jobs d effs s)
          | (Inr detail, d, effs) \<Rightarrow>
              (with_header ''Location'' (''/api/v1/jobs/'' @ j_uid (d_job detail))
                 (writeJSON (if d_duplicate detail then 200 else 202) (JobBody detail)), commit_jobs d effs s)))"

definition handleGetJob :: "'c api_env \<Rightarrow> 'c handler" where
  "handleGetJob env r s =
     (case Get (hr_path_value r ''jobUID'') (requestOwner r) (sv_db s) of
        Inl e \<Rightarrow> (writeError (he_error_text env) (ServiceErr e), s)
      | Inr detail \<Rightarrow> (writeJSON 200 (JobBody detail), s))"

definition effective_limit :: "int \<Rightarrow> nat" where
  "effective_limit limit = (if limit \<le> 0 then 50 else if limit > 100 then 100 else nat limit)"

definition next_job_cursor :: "int \<Rightarrow> job_list_item list \<Rightarrow> string" where
  "next_job_cursor limit items =
     (if length items = effective_limit limit
      then encodeJobCursor (li_created_at (last items)) (li_uid (last items)) else [])"

definition handleListJobs :: "'c api_env \<Rightarrow> 'c handler" where
  "handleListJobs env r s =
     (let limit = Atoi (query_get r ''limit''); attention = query_get r ''attention'' in
      case decodeJobCursor (query_get r ''cursor'') of
        Inl e \<Rightarrow> (writeError (he_error_text env) (RequestErr e), s)
      | Inr (before, beforeUID) \<Rightarrow>
          if attention \<noteq> [] \<and> attention \<noteq> ''true'' \<and> attention \<noteq> ''false''
          then (writeError (he_error_text env) (RequestErr ''attention must be true or false''), s)
          else (case List_jobs (query_get r ''jobId'') (query_get r ''template'') attention (requestOwner r) limit
                       before beforeUID (sv_db s) of
              Inl e \<Rightarrow> (writeError (he_error_text env) (ServiceErr e), s)
            | Inr items \<Rightarrow> (writeJSON 200 (JobListBody items (next_job_cursor limit items)), s)))"

definition handleGetPrintRun :: "'c api_env \<Rightarrow> 'c handler" where
  "handleGetPrintRun env r s =
     (case service_GetRun (hr_path_value r ''runUID'') (requestOwner r) (sv_db s) of
        Inl e \<Rightarrow> (writeError (he_error_text env) (ServiceErr e), s)
      | Inr run \<Rightarrow> (writeJSON 200 (RunBody run), s))"

definition handleStatus :: "'c api_env \<Rightarrow> 'c handler" where
  "handleStatus env r s =
     (writeJSON 200 (StatusBody (Statuses (he_worker env) (sv_manager s) (sv_db s)) (PersistenceStatus (sv_gate s))
        False (he_database_ok env)), s)"

definition handleHealth :: "'c api_env \<Rightarrow> 'c handler" where
  "handleHealth env r s =
     (writeJSON (if he_database_ok env then 200 else 503) (HealthBody (he_database_ok env)), s)"

definition noContent :: "'c handler" where
  "noContent r s = (\<lparr>rs_status = 204, rs_headers = [], rs_body = NoBody\<rparr>, s)"

section \<open>Pairing\<close>

definition normalizeOrigin :: "'c api_env \<Rightarrow> string \<Rightarrow> string + string" where
  "normalizeOrigin env origin =
     (if origin = [] \<or> origin = ''null'' \<or> TrimSpace origin \<noteq> origin
      then Inl ''origin must be a non-empty HTTP(S) origin''
      else case he_parse_url env origin of
        None \<Rightarrow> Inl ''origin must contain only an http(s) scheme, host, and optional port''
      | Some u \<Rightarrow>
          if (u_scheme u \<noteq> ''http'' \<and> u_scheme u \<noteq> ''https'') \<or> u_host u = [] \<or> u_user u \<or>
             (u_path u \<noteq> [] \<and> u_path u \<noteq> ''/'') \<or> u_raw_query u \<noteq> [] \<or> u_fragment u \<noteq> []
          then Inl ''origin must contain only an http(s) scheme, host, and optional port''
          else Inr (to_lower (u_scheme u) @ ''://'' @ to_lower (u_host u)))"

definition pair_body :: "body \<Rightarrow> (string \<times> string) option" where
  "pair_body b = (case b of PairBody code label \<Rightarrow> Some (code, label) | _ \<Rightarrow> None)"

definition handlePair :: "'c api_env \<Rightarrow> 'c handler" where
  "handlePair env r s =
     (case decodeJSON pair_body r of
        Inl e \<Rightarrow> (invalid_json e, s)
      | Inr (code, label) \<Rightarrow>
         (case normalizeOrigin env (hr_origin r) of
            Inl e \<Rightarrow> (writeJSON 400 (ErrorBody ''invalid_origin'' e), s)
          | Inr origin \<Rightarrow>
             (case Pair (an_hash (he_auth env)) (he_now env) (he_token env) (he_later env) code origin label (sv_auth s) of
                (Inl e, a) \<Rightarrow> (writeError (he_error_text env) (AuthErr e), s\<lparr>sv_auth := a\<rparr>)
              | (Inr token, a) \<Rightarrow> (writeJSON 200 (TokenBody token), s\<lparr>sv_auth := a\<rparr>))))"

section \<open>Printers\<close>

definition handleListPrinters :: "'c api_env \<Rightarrow> 'c handler" where
  "handleListPrinters env r s =
     (writeJSON 200 (PrintersBody (Statuses (he_worker env) (sv_manager s) (sv_db s))), s)"

definition printer_body :: "body \<Rightarrow> printer_request option" where
  "printer_body b = (case b of PrinterBody p \<Rightarrow> Some p | _ \<Rightarrow> None)"

definition decodePrinterRequest :: "http_request \<Rightarrow> string + printer_request" where
  "decodePrinterRequest r = map_err (\<lambda>e. ''invalid JSON: '' @ e) (decodeJSON printer_body r)"

definition given :: "'v option \<Rightarrow> 'v \<Rightarrow> 'v" where
  "given field old = (case field of None \<Rightarrow> old | Some v \<Rightarrow> v)"

definition merged :: "printer_request \<Rightarrow> printer_config \<Rightarrow> printer_config" where
  "merged req cfg = cfg\<lparr>
     pc_display_name := given (pr_display_name req) (pc_display_name cfg),
     pc_enabled := given (pr_enabled req) (pc_enabled cfg),
     pc_transport := given (pr_transport req) (pc_transport cfg),
     pc_device_address := given (pr_device_address req) (pc_device_address cfg),
     pc_endpoint := given (pr_endpoint req) (pc_endpoint cfg),
     pc_baud_rate := given (pr_baud_rate req) (pc_baud_rate cfg),
     pc_data_bits := given (pr_data_bits req) (pc_data_bits cfg),
     pc_stop_bits := given (pr_stop_bits req) (pc_stop_bits cfg),
     pc_parity := given (pr_parity req) (pc_parity cfg),
     pc_characters_per_line := given (pr_characters_per_line req) (pc_characters_per_line cfg),
     pc_encoding := given (pr_encoding req) (pc_encoding cfg),
     pc_auto_reconnect := given (pr_auto_reconnect req) (pc_auto_reconnect cfg),
     pc_connection_preference := given (pr_connection_preference req) (pc_connection_preference cfg)\<rparr>"

definition escposEncodingOK :: "string \<Rightarrow> bool" where
  "escposEncodingOK name = (case NewBuilder name 32 of None \<Rightarrow> False | Some _ \<Rightarrow> True)"

definition mergePrinter ::
    "'c api_env \<Rightarrow> printer_request \<Rightarrow> printer_config \<Rightarrow> string \<Rightarrow> string + printer_config" where
  "mergePrinter env req cfg existingID =
     (if existingID \<noteq> [] \<and> pr_id req \<noteq> None \<and> pr_id req \<noteq> Some existingID
      then Inl ''id in request body must match printerID in URL''
      else (let cfg = (if existingID = [] then cfg\<lparr>pc_id := given (pr_id req) (pc_id cfg)\<rparr> else cfg);
                cfg = merged req cfg;
                cfg = (if existingID \<noteq> [] then cfg\<lparr>pc_id := existingID\<rparr> else cfg);
                cfg = ApplyDefaults cfg
            in case Validate cfg of
                 Inl e \<Rightarrow> Inl (he_config_text env e)
               | Inr _ \<Rightarrow>
                  if \<not> escposEncodingOK (pc_encoding cfg)
                  then Inl (''unsupported encoding '' @ he_quote env (pc_encoding cfg))
                  else Inr cfg))"

definition new_printer :: printer_config where
  "new_printer = \<lparr>pc_id = [], pc_display_name = [], pc_enabled = True, pc_transport = [], pc_device_address = [],
     pc_endpoint = [], pc_connection_preference = [], pc_baud_rate = 0, pc_data_bits = 0, pc_stop_bits = 0,
     pc_parity = [], pc_characters_per_line = 0, pc_encoding = [], pc_auto_reconnect = True,
     pc_retired_at = None, pc_created_at = 0, pc_updated_at = 0\<rparr>"

definition decodePrinter :: "'c api_env \<Rightarrow> http_request \<Rightarrow> string + printer_config" where
  "decodePrinter env r = sum_bind (decodePrinterRequest r) (\<lambda>req. mergePrinter env req new_printer [])"

definition commit_manager :: "'c manager \<times> db \<times> manager_event list \<Rightarrow> 'c server \<Rightarrow> 'c server" where
  "commit_manager mde s = (case mde of (m, d, evs) \<Rightarrow>
     publish (map ManagerEvent evs) (s\<lparr>sv_manager := m, sv_db := d\<rparr>))"

definition handleCreatePrinter :: "'c api_env \<Rightarrow> 'c handler" where
  "handleCreatePrinter env r s =
     (case decodePrinter env r of
        Inl e \<Rightarrow> (writeError (he_error_text env) (RequestErr e), s)
      | Inr cfg \<Rightarrow>
         (case CreatePrinter cfg (he_now env) (sv_manager s, sv_db s) of
            Inl e \<Rightarrow> (writeError (he_error_text env) (ManagerErr e), s)
          | Inr mde \<Rightarrow>
             (let s = commit_manager mde s in
              case GetPrinter (pc_id cfg) (sv_db s) of
                Inl e \<Rightarrow> (writeError (he_error_text env) (ConfigRepoErr e), s)
              | Inr saved \<Rightarrow> (writeJSON 201 (PrinterConfigBody saved), s))))"

definition handleUpdatePrinter :: "'c api_env \<Rightarrow> 'c handler" where
  "handleUpdatePrinter env r s =
     (let pid = hr_path_value r ''printerID'' in
      case decodePrinterRequest r of
        Inl e \<Rightarrow> (writeError (he_error_text env) (RequestErr e), s)
      | Inr req \<Rightarrow>
         (case UpdatePrinterWith pid (\<lambda>existing. mergePrinter env req existing pid) (he_now env)
                 (sv_manager s, sv_db s) of
            Inl e \<Rightarrow> (writeError (he_error_text env) (ManagerErr e), s)
          | Inr (saved, mde) \<Rightarrow> (writeJSON 200 (PrinterConfigBody saved), commit_manager mde s)))"

definition handleDeletePrinter :: "'c api_env \<Rightarrow> 'c handler" where
  "handleDeletePrinter env r s =
     (case RemovePrinter (hr_path_value r ''printerID'') (he_now env) (sv_manager s, sv_db s) of
        (Inl e, m, d) \<Rightarrow> (writeError (he_error_text env) (ManagerErr e), s\<lparr>sv_manager := m, sv_db := d\<rparr>)
      | (Inr evs, m, d) \<Rightarrow> (writeJSON 200 (FlagBody ''deleted'' True), commit_manager (m, d, evs) s))"

definition handleReconnect :: "'c api_env \<Rightarrow> 'c handler" where
  "handleReconnect env r s =
     (case Reconnect (hr_path_value r ''printerID'') (sv_manager s) of
        Inl e \<Rightarrow> (writeJSON 409 (ErrorBody ''printer_not_active'' (he_error_text env (ManagerErr e))), s)
      | Inr m \<Rightarrow> (writeJSON 200 (FlagBody ''reconnecting'' True), s\<lparr>sv_manager := m\<rparr>))"

definition handleReconnectAll :: "'c handler" where
  "handleReconnectAll r s =
     (writeJSON 200 (FlagBody ''reconnecting'' True), s\<lparr>sv_manager := ReconnectAll (sv_manager s)\<rparr>)"

definition handleEnable :: "'c api_env \<Rightarrow> bool \<Rightarrow> 'c handler" where
  "handleEnable env enabled r s =
     (case SetEnabled (hr_path_value r ''printerID'') enabled (he_now env) (sv_manager s, sv_db s) of
        Inl e \<Rightarrow> (writeError (he_error_text env) (ManagerErr e), s)
      | Inr mde \<Rightarrow> (writeJSON 200 (FlagBody ''enabled'' enabled), commit_manager mde s))"

text \<open>The layout \<open>20060102-150405.000\<close>\<close>

definition test_stamp :: "time \<Rightarrow> string" where
  "test_stamp t =
     (let secs = t div second; n = nat (secs mod 86400) in
      (case date_of (nat (secs div 86400)) of (y, m, x) \<Rightarrow> pad 4 y @ pad 2 m @ pad 2 x) @ ''-'' @
      pad 2 (n div 3600) @ pad 2 (n div 60 mod 60) @ pad 2 (n mod 60) @ ''.'' @ pad 3 (nat (t mod second div millisecond)))"

definition test_request :: "'c api_env \<Rightarrow> string \<Rightarrow> create_request" where
  "test_request env pid =
     \<lparr>cr_job_id = ''local:test:'' @ pid @ '':'' @ test_stamp (he_now env), cr_template = TemplateTestPage,
      cr_data = marshal (se_quote (he_service env))
        (JObject [(''line'', JString ''manual test print''), (''printerId'', JString pid)]),
      cr_printer_ids = [pid], cr_source = ''dashboard'', cr_owner = ''local''\<rparr>"

definition handleTestPrint :: "'c api_env \<Rightarrow> 'c handler" where
  "handleTestPrint env r s =
     (let pid = hr_path_value r ''printerID'' in
      case GetPrinter pid (sv_db s) of
        Inl e \<Rightarrow> (writeError (he_error_text env) (ConfigRepoErr e), s)
      | Inr _ \<Rightarrow>
         (case Accept (he_service env) (printer_directory_of (sv_db s)) (test_request env pid) (he_later env)
                 (he_fresh_job env) (he_fresh_runs env) (he_others env) (sv_db s) of
            (Inl e, d, effs) \<Rightarrow> (writeError (he_error_text env) (ServiceErr e), commit_jobs d effs s)
          | (Inr detail, d, effs) \<Rightarrow> (writeJSON 202 (JobBody detail), commit_jobs d effs s)))"

definition reprint_body :: "body \<Rightarrow> reprint_request option" where
  "reprint_body b = (case b of ReprintBody q \<Rightarrow> Some q | _ \<Rightarrow> None)"

definition handleReprint :: "'c api_env \<Rightarrow> 'c handler" where
  "handleReprint env r s =
     (case decodeJSON reprint_body r of
        Inl e \<Rightarrow> (invalid_json e, s)
      | Inr req \<Rightarrow>
         (case Reprint (he_service env) (printer_directory_of (sv_db s)) (hr_path_value r ''jobUID'') req
                 (requestOwner r) (he_now env) (he_fresh_runs env) (he_others env) (sv_db s) of
            (Inl e, d, effs) \<Rightarrow> (writeError (he_error_text env) (ServiceErr e), commit_jobs d effs s)
          | (Inr res, d, effs) \<Rightarrow>
              (writeJSON (if rr_duplicate res then 200 else 202) (ReprintedBody res), commit_jobs d effs s)))"

definition handleConfirmPrinted :: "'c api_env \<Rightarrow> 'c handler" where
  "handleConfirmPrinted env r s =
     (case ConfirmPrinted (hr_path_value r ''runUID'') (he_now env) (sv_db s) of
        (Inl e, d, effs) \<Rightarrow> (writeError (he_error_text env) (ServiceErr e), commit_jobs d effs s)
      | (Inr _, d, effs) \<Rightarrow> (writeJSON 200 (FlagBody ''confirmedPrinted'' True), commit_jobs d effs s))"

definition handleCancelRun :: "'c api_env \<Rightarrow> 'c handler" where
  "handleCancelRun env r s =
     (case service_CancelRun (hr_path_value r ''runUID'') (he_now env) (he_later env) (sv_db s) of
        (Inl e, d, effs) \<Rightarrow> (writeError (he_error_text env) (ServiceErr e), commit_jobs d effs s)
      | (Inr _, d, effs) \<Rightarrow> (writeJSON 200 (FlagBody ''cancelled'' True), commit_jobs d effs s))"

definition cancel_body :: "body \<Rightarrow> (string list \<times> string) option" where
  "cancel_body b = (case b of CancelBody ids reason \<Rightarrow> Some (ids, reason) | _ \<Rightarrow> None)"

definition handleCancelJob :: "'c api_env \<Rightarrow> 'c handler" where
  "handleCancelJob env r s =
     (case decodeJSON cancel_body r of
        Inl e \<Rightarrow> (invalid_json e, s)
      | Inr (ids, reason) \<Rightarrow>
         (case CancelJobTargets (hr_path_value r ''jobUID'') ids reason (he_now env) (sv_db s) of
            (Inl e, d) \<Rightarrow> (writeError (he_error_text env) (ServiceErr e), s\<lparr>sv_db := d\<rparr>)
          | (Inr _, d) \<Rightarrow> (writeJSON 200 (FlagBody ''cancelled'' True), s\<lparr>sv_db := d\<rparr>)))"

end
