(* ===== verification/AdminHandlers.thy ===== *)
theory AdminHandlers
  imports Handlers
begin

text \<open>
  \<open>internal/api/handlers.go\<close>, second part: discovery, queues, logs, diagnostics, tokens and settings. The
  platform driver is the environment's: what it can list and whether it can pair.
\<close>

section \<open>Bluetooth\<close>

definition not_supported :: "string \<Rightarrow> response" where
  "not_supported what = writeJSON 501 (ErrorBody ''not_supported'' what)"

definition handleCandidates :: "'c api_env \<Rightarrow> 'c handler" where
  "handleCandidates env r s =
     (case he_candidates env of
        Inl e \<Rightarrow> (writeError (he_error_text env) (PlatformErr e), s)
      | Inr cs \<Rightarrow> (writeJSON 200 (CandidatesBody cs), s))"

definition handleBluetoothDevices :: "'c api_env \<Rightarrow> 'c handler" where
  "handleBluetoothDevices env r s =
     (case he_pairer env of
        None \<Rightarrow> (writeJSON 200 (DevicesBody False []), s)
      | Some p \<Rightarrow>
         (case pa_devices p of
            Inl e \<Rightarrow> (writeError (he_error_text env) (PlatformErr e), s)
          | Inr ds \<Rightarrow> (writeJSON 200 (DevicesBody True ds), s)))"

definition connection_type :: "string \<Rightarrow> string option" where
  "connection_type t =
     (let t = or_default [] ConnectionAuto t in
      if t \<noteq> ConnectionAuto \<and> t \<noteq> ConnectionRFCOMM \<and> t \<noteq> ConnectionBLE then None else Some t)"

definition bad_connection_type :: response where
  "bad_connection_type =
     writeJSON 400 (ErrorBody ''invalid_connection_type'' ''connectionType must be auto, rfcomm, or ble'')"

definition handleStartBluetoothDiscovery :: "'c api_env \<Rightarrow> 'c handler" where
  "handleStartBluetoothDiscovery env r s =
     (case he_pairer env of
        None \<Rightarrow> (not_supported ''in-app Bluetooth discovery is not supported on this platform'', s)
      | Some p \<Rightarrow>
         (case connection_type (query_get r ''connectionType'') of
            None \<Rightarrow> (bad_connection_type, s)
          | Some t \<Rightarrow>
             (case pa_start p t of
                Inl e \<Rightarrow> (writeError (he_error_text env) (PlatformErr e), s)
              | Inr _ \<Rightarrow> (writeJSON 200 (FlagBody ''discovering'' True), s))))"

definition handleStopBluetoothDiscovery :: "'c api_env \<Rightarrow> 'c handler" where
  "handleStopBluetoothDiscovery env r s =
     (case he_pairer env of
        None \<Rightarrow> (not_supported ''in-app Bluetooth discovery is not supported on this platform'', s)
      | Some p \<Rightarrow>
         (case pa_stop p of
            Inl e \<Rightarrow> (writeError (he_error_text env) (PlatformErr e), s)
          | Inr _ \<Rightarrow> (writeJSON 200 (FlagBody ''discovering'' False), s)))"

definition bluetooth_pair_body :: "body \<Rightarrow> (string \<times> string) option" where
  "bluetooth_pair_body b = (case b of BluetoothPairBody pin t \<Rightarrow> Some (pin, t) | _ \<Rightarrow> None)"

definition handlePairBluetoothDevice :: "'c api_env \<Rightarrow> 'c handler" where
  "handlePairBluetoothDevice env r s =
     (case he_pairer env of
        None \<Rightarrow> (not_supported ''in-app Bluetooth pairing is not supported on this platform'', s)
      | Some p \<Rightarrow>
         (case decodeJSON bluetooth_pair_body r of
            Inl e \<Rightarrow> (invalid_json e, s)
          | Inr (pin, t) \<Rightarrow>
             (case connection_type t of
                None \<Rightarrow> (bad_connection_type, s)
              | Some t \<Rightarrow>
                 (case pa_pair p (hr_path_value r ''address'') pin t of
                    Inl e \<Rightarrow> (writeBluetoothError (he_error_text env) e, s)
                  | Inr device \<Rightarrow> (writeJSON 200 (PairedDeviceBody (bd_endpoint device \<noteq> []) device), s)))))"

text \<open>\<open>strings.SplitN(endpoint, "://", 2)[1]\<close>, when there is one.\<close>

fun after_scheme :: "string \<Rightarrow> string option" where
  "after_scheme [] = None"
| "after_scheme (c # s) = (if prefix ''://'' (c # s) then Some (drop 3 (c # s)) else after_scheme s)"

definition upper_address :: "string \<Rightarrow> string" where
  "upper_address a = to_upper (replace_char (CHR ''-'') (CHR '':'') a)"

definition printer_address :: "printer_config \<Rightarrow> string" where
  "printer_address p =
     (if pc_device_address p = [] then (case after_scheme (pc_endpoint p) of None \<Rightarrow> [] | Some a \<Rightarrow> a)
      else pc_device_address p)"

definition configuredPrinterForAddress :: "string \<Rightarrow> status list \<Rightarrow> string" where
  "configuredPrinterForAddress address statuses =
     (case List.find (\<lambda>st. upper_address (printer_address (st_printer st)) = upper_address address) statuses of
        None \<Rightarrow> [] | Some st \<Rightarrow> pc_id (st_printer st))"

definition handleDisconnectBluetoothDevice :: "'c api_env \<Rightarrow> 'c handler" where
  "handleDisconnectBluetoothDevice env r s =
     (case he_pairer env of
        None \<Rightarrow> (not_supported ''Bluetooth management is not supported'', s)
      | Some p \<Rightarrow>
         (case pa_disconnect p (hr_path_value r ''address'') of
            Inl e \<Rightarrow> (writeBluetoothManagementError ''disconnect'' e, s)
          | Inr _ \<Rightarrow> (writeJSON 200 (FlagBody ''disconnected'' True), s)))"

definition handleForgetBluetoothDevice :: "'c api_env \<Rightarrow> 'c handler" where
  "handleForgetBluetoothDevice env r s =
     (case he_pairer env of
        None \<Rightarrow> (not_supported ''Bluetooth management is not supported'', s)
      | Some p \<Rightarrow>
         (let address = hr_path_value r ''address'';
              pid = configuredPrinterForAddress address (Statuses (he_worker env) (sv_manager s) (sv_db s))
          in if pid \<noteq> []
             then (writeJSON 409 (ErrorBody ''device_in_use''
                     (''remove printer '' @ pid @ '' before forgetting this Bluetooth device'')), s)
             else (case pa_forget p address of
                 Inl e \<Rightarrow> (writeBluetoothManagementError ''forget'' e, s)
               | Inr _ \<Rightarrow> (writeJSON 200 (FlagBody ''forgotten'' True), s))))"

definition handleOpenBluetooth :: "'c api_env \<Rightarrow> 'c handler" where
  "handleOpenBluetooth env r s =
     (case he_open_settings env of
        Inl e \<Rightarrow> (writeError (he_error_text env) (PlatformErr e), s)
      | Inr _ \<Rightarrow> (writeJSON 200 (FlagBody ''opened'' True), s))"

section \<open>The queue of a printer\<close>

text \<open>The loop of \<open>handlePrinterQueue\<close> files each run under the first heading that fits.\<close>

definition file_run :: "queue_view \<Rightarrow> print_run \<Rightarrow> queue_view" where
  "file_run q run =
     (if r_status run = RunProcessing then q\<lparr>qv_processing := Some run\<rparr>
      else if r_status run = RunQueued then q\<lparr>qv_queued := qv_queued q @ [run]\<rparr>
      else if r_status run = RunFailed \<and> r_retryable run \<and> r_resolution run = None
      then q\<lparr>qv_retry_pending := qv_retry_pending q @ [run]\<rparr>
      else if (r_status run = RunFailed \<or> r_status run = RunUncertain) \<and> r_resolution run = None
      then q\<lparr>qv_attention := qv_attention q @ [run]\<rparr>
      else if r_status run = RunTransmitted \<and> length (qv_recent_transmitted q) < 20
      then q\<lparr>qv_recent_transmitted := qv_recent_transmitted q @ [run]\<rparr>
      else q)"

definition empty_queue :: "status \<Rightarrow> queue_view" where
  "empty_queue st = \<lparr>qv_printer = st, qv_processing = None, qv_queued = [], qv_retry_pending = [],
     qv_attention = [], qv_recent_transmitted = []\<rparr>"

definition handlePrinterQueue :: "'c api_env \<Rightarrow> 'c handler" where
  "handlePrinterQueue env r s =
     (let pid = hr_path_value r ''printerID'';
          runs = ListPrinterRuns pid (Atoi (query_get r ''limit'')) (sv_db s)
      in case List.find (\<lambda>st. pc_id (st_printer st) = pid) (Statuses (he_worker env) (sv_manager s) (sv_db s)) of
           None \<Rightarrow> (writeError (he_error_text env) (ConfigRepoErr PrinterNotFound), s)
         | Some st \<Rightarrow> (writeJSON 200 (QueueBody (foldl file_run (empty_queue st) runs)), s))"

section \<open>Logs\<close>

text \<open>A page: one row more than the limit was asked for, and is cut off again.\<close>

definition page_of :: "nat \<Rightarrow> ('v \<Rightarrow> string) \<Rightarrow> 'v list \<Rightarrow> 'v list \<times> string" where
  "page_of limit cursor rows =
     (if length rows > limit then (let rows = take limit rows in (rows, cursor (last rows))) else (rows, []))"

definition log_query :: "http_request \<Rightarrow> string + log_filter" where
  "log_query r =
     sum_bind (parseLevels r) (\<lambda>levels.
     sum_bind (logRange r) (\<lambda>(from_time, to_time).
     sum_bind (boundedLogFilter r ''q'') (\<lambda>query.
     sum_bind (boundedLogFilter r ''printerId'') (\<lambda>printer.
     sum_bind (boundedLogFilter r ''runUid'') (\<lambda>run.
     sum_bind (decodeNumericCursor (query_get r ''cursor'')) (\<lambda>before.
     Inr \<lparr>lf_levels = levels, lf_query = query, lf_printer_id = printer, lf_run_uid = run, lf_from = from_time,
          lf_to = to_time, lf_before = before, lf_limit = int (logPageLimit (query_get r ''limit'')) + 1\<rparr>))))))"

definition seconds_of :: "time \<Rightarrow> int" where
  "seconds_of t = t div second"

definition handleSystemLogs :: "'c api_env \<Rightarrow> 'c handler" where
  "handleSystemLogs env r s =
     (case log_query r of
        Inl e \<Rightarrow> (writeError (he_error_text env) (RequestErr e), s)
      | Inr f \<Rightarrow>
         (case page_of (logPageLimit (query_get r ''limit'')) (\<lambda>l. encodeNumericCursor (lg_created_at l) (lg_id l))
                 (Store_Query (se_quote (he_service env)) f (he_now env) (sv_logs s)) of
            (rows, cursor) \<Rightarrow> (writeJSON 200 (SystemLogsBody rows cursor (seconds_of LogRetention)), s)))"

definition event_query :: "http_request \<Rightarrow> string + event_filter" where
  "event_query r =
     sum_bind (logRange r) (\<lambda>(from_time, to_time).
     sum_bind (boundedLogFilter r ''q'') (\<lambda>query.
     sum_bind (boundedLogFilter r ''printerId'') (\<lambda>printer.
     sum_bind (boundedLogFilter r ''runUid'') (\<lambda>run.
     sum_bind (boundedLogFilter r ''event'') (\<lambda>event_type.
     sum_bind (decodeNumericCursor (query_get r ''cursor'')) (\<lambda>before.
     Inr \<lparr>ef_printer_id = printer, ef_event_type = normalizeEventType event_type, ef_run_uid = run, ef_query = query,
          ef_from = from_time, ef_to = to_time, ef_before = before,
          ef_limit = int (logPageLimit (query_get r ''limit'')) + 1\<rparr>))))))"

definition handlePrinterLogs :: "'c api_env \<Rightarrow> 'c handler" where
  "handlePrinterLogs env r s =
     (case event_query r of
        Inl e \<Rightarrow> (writeError (he_error_text env) (RequestErr e), s)
      | Inr f \<Rightarrow>
         (case page_of (logPageLimit (query_get r ''limit'')) (\<lambda>e. encodeNumericCursor (ev_created_at e) (ev_id e))
                 (PrinterEvents f (he_now env) (sv_db s)) of
            (rows, cursor) \<Rightarrow> (writeJSON 200 (PrinterLogsBody rows cursor (seconds_of EventRetention)), s)))"

definition handleLogs :: "'c api_env \<Rightarrow> 'c handler" where
  "handleLogs env r s =
     (writeJSON 200 (EventsBody (RecentEvents (Atoi (query_get r ''limit'')) (he_now env) (sv_db s))), s)"

section \<open>Diagnostics\<close>

definition handleDiagnostics :: "'c api_env \<Rightarrow> 'c handler" where
  "handleDiagnostics env r s =
     (case (case he_candidates env of Inl _ \<Rightarrow> ([], [''candidates unavailable'']) | Inr cs \<Rightarrow> (cs, [])) of
        (cs, partial_errors) \<Rightarrow>
          (writeJSON 200 (DiagnosticsBody (Statuses (he_worker env) (sv_manager s) (sv_db s)) cs
             (GetSetting SettingAllowedOrigin (sv_db s)) (HasActiveToken (sv_auth s)) partial_errors), s))"

text \<open>The archive holds the events, the printers, the allowed origin and what \<open>ListTokens\<close> tells of the tokens.\<close>

definition handleDiagnosticsExport :: "'c api_env \<Rightarrow> 'c handler" where
  "handleDiagnosticsExport env r s =
     (\<lparr>rs_status = 200, rs_headers = [(''Content-Type'', ''application/zip'')],
       rs_body = ExportBody (RecentEvents 1000 (he_now env) (sv_db s))
         (Statuses (he_worker env) (sv_manager s) (sv_db s)) (GetSetting SettingAllowedOrigin (sv_db s))
         (ListTokens (sv_auth s))\<rparr>, s)"

section \<open>Tokens and settings\<close>

definition handlePairingCode :: "'c api_env \<Rightarrow> 'c handler" where
  "handlePairingCode env r s =
     (case GeneratePairingCode (he_code env) (he_now env) (sv_auth s) of
        (Inl e, a) \<Rightarrow> (writeError (he_error_text env) (AuthErr e), s\<lparr>sv_auth := a\<rparr>)
      | (Inr (code, expires), a) \<Rightarrow> (writeJSON 200 (PairingBody code expires), s\<lparr>sv_auth := a\<rparr>))"

definition handleListTokens :: "'c api_env \<Rightarrow> 'c handler" where
  "handleListTokens env r s = (writeJSON 200 (TokensBody (ListTokens (sv_auth s))), s)"

definition handleRevokeToken :: "'c api_env \<Rightarrow> 'c handler" where
  "handleRevokeToken env r s =
     (case RevokeToken (hr_path_value r ''tokenID'') (he_now env) (sv_auth s) of
        Inl e \<Rightarrow> (writeJSON 404 (ErrorBody ''not_found'' (he_error_text env (AuthErr e))), s)
      | Inr a \<Rightarrow> (writeJSON 200 (FlagBody ''revoked'' True), s\<lparr>sv_auth := a\<rparr>))"

definition handleGetSettings :: "'c api_env \<Rightarrow> 'c handler" where
  "handleGetSettings env r s = (writeJSON 200 (SettingsAnswer (GetSetting SettingAllowedOrigin (sv_db s))), s)"

definition settings_body :: "body \<Rightarrow> string option" where
  "settings_body b = (case b of SettingsBody origin \<Rightarrow> Some origin | _ \<Rightarrow> None)"

definition handlePutSettings :: "'c api_env \<Rightarrow> 'c handler" where
  "handlePutSettings env r s =
     (case decodeJSON settings_body r of
        Inl e \<Rightarrow> (invalid_json e, s)
      | Inr allowed \<Rightarrow>
         (case normalizeOrigin env allowed of
            Inl e \<Rightarrow> (writeJSON 400 (ErrorBody ''invalid_origin'' e), s)
          | Inr origin \<Rightarrow>
              (writeJSON 200 (SettingsAnswer origin), s\<lparr>sv_db := SetSetting SettingAllowedOrigin origin (sv_db s)\<rparr>)))"

end
