(* ===== verification/Routes.thy ===== *)
theory Routes
  imports AdminHandlers
begin

text \<open>
  The route table of \<open>internal/api/server.go\<close> and its dispatch. A pattern of \<open>http.ServeMux\<close> is a method
  and a list of segments; no two patterns of the table with one method match one path, so the first that
  matches is the one \<open>ServeMux\<close> picks. A pattern for GET serves HEAD too. \<open>he_page\<close> stands for
  the server of the embedded files.
\<close>

datatype segment = Lit string | Var string

fun match_path :: "segment list \<Rightarrow> string list \<Rightarrow> (string \<times> string) list option" where
  "match_path [] [] = Some []"
| "match_path (Lit l # ps) (x # xs) = (if x = l then match_path ps xs else None)"
| "match_path (Var v # ps) (x # xs) = (if x = [] then None else map_option ((#) (v, x)) (match_path ps xs))"
| "match_path _ _ = None"

record 'c route =
  rt_method :: string
  rt_path :: "segment list"
  rt_handler :: "'c handler"

definition pos :: "'c api_env \<Rightarrow> (http_request \<Rightarrow> nat) \<Rightarrow> 'c handler \<Rightarrow> 'c handler" where
  "pos env body_size h = chain h [posCORS, rateLimit (he_auth env), limitBody body_size, requireAuth (he_auth env)]"

definition admin :: "(http_request \<Rightarrow> nat) \<Rightarrow> 'c handler \<Rightarrow> 'c handler" where
  "admin body_size h = chain h [localOnly, limitBody body_size]"

definition api :: "segment list \<Rightarrow> segment list" where
  "api path = [Lit ''api'', Lit ''v1''] @ path"

definition pos_table :: "'c api_env \<Rightarrow> (string \<times> segment list \<times> 'c handler) list" where
  "pos_table env =
     [(''POST'', [Lit ''jobs''], handleCreateJob env),
      (''OPTIONS'', [Lit ''jobs''], noContent),
      (''GET'', [Lit ''jobs''], handleListJobs env),
      (''GET'', [Lit ''jobs'', Var ''jobUID''], handleGetJob env),
      (''OPTIONS'', [Lit ''jobs'', Var ''jobUID''], noContent),
      (''GET'', [Lit ''print-runs'', Var ''runUID''], handleGetPrintRun env),
      (''OPTIONS'', [Lit ''print-runs'', Var ''runUID''], noContent),
      (''POST'', [Lit ''jobs'', Var ''jobUID'', Lit ''reprint''], handleReprint env),
      (''OPTIONS'', [Lit ''jobs'', Var ''jobUID'', Lit ''reprint''], noContent),
      (''GET'', [Lit ''status''], handleStatus env),
      (''OPTIONS'', [Lit ''status''], noContent)]"

definition pos_routes :: "'c api_env \<Rightarrow> (http_request \<Rightarrow> nat) \<Rightarrow> 'c route list" where
  "pos_routes env body_size = map (\<lambda>(m, p, h). \<lparr>rt_method = m, rt_path = api p, rt_handler = pos env body_size h\<rparr>)
     (pos_table env)"

definition open_routes :: "'c api_env \<Rightarrow> (http_request \<Rightarrow> nat) \<Rightarrow> 'c route list" where
  "open_routes env body_size = map (\<lambda>(m, p, h). \<lparr>rt_method = m, rt_path = api p, rt_handler = h\<rparr>)
     [(''POST'', [Lit ''pair''], chain (handlePair env) [posCORS, pairRateLimit (he_auth env), limitBody body_size]),
      (''OPTIONS'', [Lit ''pair''], chain noContent [posCORS]),
      (''GET'', [Lit ''health''], chain (handleHealth env) [posCORS, rateLimit (he_auth env)]),
      (''OPTIONS'', [Lit ''health''], chain noContent [posCORS])]"

definition admin_table :: "'c api_env \<Rightarrow> (string \<times> segment list \<times> 'c handler) list" where
  "admin_table env =
     [(''GET'', [Lit ''printers''], handleListPrinters env),
      (''POST'', [Lit ''printers''], handleCreatePrinter env),
      (''PUT'', [Lit ''printers'', Var ''printerID''], handleUpdatePrinter env),
      (''DELETE'', [Lit ''printers'', Var ''printerID''], handleDeletePrinter env),
      (''POST'', [Lit ''printers'', Lit ''reconnect-all''], handleReconnectAll),
      (''POST'', [Lit ''printers'', Var ''printerID'', Lit ''reconnect''], handleReconnect env),
      (''POST'', [Lit ''printers'', Var ''printerID'', Lit ''test''], handleTestPrint env),
      (''POST'', [Lit ''printers'', Var ''printerID'', Lit ''enable''], handleEnable env True),
      (''POST'', [Lit ''printers'', Var ''printerID'', Lit ''disable''], handleEnable env False),
      (''GET'', [Lit ''bluetooth'', Lit ''candidates''], handleCandidates env),
      (''GET'', [Lit ''bluetooth'', Lit ''devices''], handleBluetoothDevices env),
      (''POST'', [Lit ''bluetooth'', Lit ''discovery'', Lit ''start''], handleStartBluetoothDiscovery env),
      (''POST'', [Lit ''bluetooth'', Lit ''discovery'', Lit ''stop''], handleStopBluetoothDiscovery env),
      (''POST'', [Lit ''bluetooth'', Lit ''devices'', Var ''address'', Lit ''pair''], handlePairBluetoothDevice env),
      (''POST'', [Lit ''bluetooth'', Lit ''devices'', Var ''address'', Lit ''disconnect''], handleDisconnectBluetoothDevice env),
      (''DELETE'', [Lit ''bluetooth'', Lit ''devices'', Var ''address''], handleForgetBluetoothDevice env),
      (''POST'', [Lit ''system'', Lit ''open-bluetooth-settings''], handleOpenBluetooth env),
      (''GET'', [Lit ''printers'', Var ''printerID'', Lit ''queue''], handlePrinterQueue env),
      (''POST'', [Lit ''print-runs'', Var ''runUID'', Lit ''confirm-printed''], handleConfirmPrinted env),
      (''POST'', [Lit ''print-runs'', Var ''runUID'', Lit ''cancel''], handleCancelRun env),
      (''POST'', [Lit ''jobs'', Var ''jobUID'', Lit ''cancel''], handleCancelJob env),
      (''GET'', [Lit ''logs''], handleLogs env),
      (''GET'', [Lit ''system-logs''], handleSystemLogs env),
      (''GET'', [Lit ''printer-logs''], handlePrinterLogs env),
      (''GET'', [Lit ''diagnostics''], handleDiagnostics env),
      (''GET'', [Lit ''diagnostics'', Lit ''export''], handleDiagnosticsExport env),
      (''POST'', [Lit ''admin'', Lit ''pairing-code''], handlePairingCode env),
      (''GET'', [Lit ''admin'', Lit ''tokens''], handleListTokens env),
      (''DELETE'', [Lit ''admin'', Lit ''tokens'', Var ''tokenID''], handleRevokeToken env),
      (''GET'', [Lit ''admin'', Lit ''settings''], handleGetSettings env),
      (''PUT'', [Lit ''admin'', Lit ''settings''], handlePutSettings env)]"

definition admin_routes :: "'c api_env \<Rightarrow> (http_request \<Rightarrow> nat) \<Rightarrow> 'c route list" where
  "admin_routes env body_size = map (\<lambda>(m, p, h). \<lparr>rt_method = m, rt_path = api p, rt_handler = admin body_size h\<rparr>)
     (admin_table env)"

section \<open>The dashboard\<close>

definition redirect :: "string \<Rightarrow> response" where
  "redirect location = \<lparr>rs_status = 302, rs_headers = [(''Location'', location)], rs_body = NoBody\<rparr>"

definition dashboard_routes :: "string list list" where
  "dashboard_routes =
     [[''setup'', ''pair''], [''setup'', ''printers''], [''setup'', ''pos''], [''operations'', ''jobs''],
      [''operations'', ''queue''], [''operations'', ''printer-logs''], [''system'', ''diagnostics''],
      [''system'', ''logs''], [''dev'', ''pos-simulator'']]"

text \<open>\<open>webui.Handler\<close> below \<open>/admin\<close>: every page of the single-page application is \<open>index.html\<close>.\<close>

definition webui_Handler :: "(http_request \<Rightarrow> nat \<times> string) \<Rightarrow> http_request \<Rightarrow> string list \<Rightarrow> response" where
  "webui_Handler files r path =
     (if path = [] \<or> path = [[]] then redirect ''/admin/operations/jobs''
      else if path \<in> set dashboard_routes
      then (if hr_method r \<noteq> ''GET'' \<and> hr_method r \<noteq> ''HEAD''
            then \<lparr>rs_status = 405, rs_headers = [(''Allow'', ''GET, HEAD'')], rs_body = PageBody ''method not allowed''\<rparr>
            else \<lparr>rs_status = 200,
                   rs_headers = [(''Content-Type'', ''text/html; charset=utf-8''), (''Cache-Control'', ''no-cache'')],
                   rs_body = (if hr_method r = ''HEAD'' then NoBody else PageBody ''index.html'')\<rparr>)
      else (case files r of (status, content) \<Rightarrow> \<lparr>rs_status = status, rs_headers = [], rs_body = PageBody content\<rparr>))"

text \<open>The patterns without a method: the dashboard under \<open>/admin/\<close>, and \<open>/\<close> for everything else.\<close>

definition fallback :: "'c api_env \<Rightarrow> 'c handler" where
  "fallback env r s =
     (case hr_segments r of
        [p] \<Rightarrow> (redirect (if p = ''admin'' then ''/admin/operations/jobs'' else ''/admin/''), s)
      | p # ps \<Rightarrow>
          if p = ''admin'' then (webui_Handler (he_page env) r ps, s)
          else if p = ''api'' then (writeJSON 404 (ErrorBody ''not_found'' ''not found''), s)
          else (redirect ''/admin/'', s)
      | [] \<Rightarrow> (redirect ''/admin/'', s))"

definition route_matches :: "http_request \<Rightarrow> 'c route \<Rightarrow> bool" where
  "route_matches r rt \<longleftrightarrow>
     (rt_method rt = hr_method r \<or> (rt_method rt = ''GET'' \<and> hr_method r = ''HEAD'')) \<and>
     match_path (rt_path rt) (hr_segments r) \<noteq> None"

definition path_values :: "segment list \<Rightarrow> http_request \<Rightarrow> http_request" where
  "path_values path r = r\<lparr>hr_path_value := (\<lambda>name.
     case match_path path (hr_segments r) of None \<Rightarrow> []
     | Some vs \<Rightarrow> (case map_of vs name of None \<Rightarrow> [] | Some v \<Rightarrow> v))\<rparr>"

definition Handler :: "'c api_env \<Rightarrow> (http_request \<Rightarrow> nat) \<Rightarrow> 'c handler" where
  "Handler env body_size r s =
     (case List.find (route_matches r) (pos_routes env body_size @ open_routes env body_size @ admin_routes env body_size) of
        None \<Rightarrow> fallback env r s
      | Some rt \<Rightarrow> rt_handler rt (path_values (rt_path rt) r) s)"

text \<open>
  \<open>logRequests\<close> around the whole table: the line that is written for a request, its method, path and origin,
  but not for the two routes a dashboard polls.
\<close>

definition request_log :: "http_request \<Rightarrow> (string \<times> string list \<times> string) list" where
  "request_log r =
     (if hr_segments r = [''api'', ''v1'', ''status''] \<or> hr_segments r = [''api'', ''v1'', ''health''] then []
      else [(hr_method r, hr_segments r, hr_origin r)])"

definition logRequests :: "(http_request \<Rightarrow> 's \<Rightarrow> 'r \<times> 's) \<Rightarrow> http_request \<Rightarrow> 's \<Rightarrow> ('r \<times> 's) \<times> (string \<times> string list \<times> string) list" where
  "logRequests serve r s = (serve r s, request_log r)"

text \<open>The line holds neither the token nor the body of a request.\<close>

lemma log_ignores_secrets: "request_log (r\<lparr>hr_authorization := a, hr_body := b\<rparr>) = request_log r"
  by (simp add: request_log_def)

end
