(* ===== verification/ApiSteps.thy ===== *)
theory ApiSteps
  imports Routes ManagerProperties
begin

text \<open>
  What a request can do to the stored configuration and to the workers: the handlers as steps of the
  manager and transactions on the Job tables.
\<close>

section \<open>Job transactions leave the configuration alone\<close>

definition configuration :: "db \<Rightarrow> printer_config list \<times> (string \<times> string) list" where
  "configuration d = (db_printers d, db_settings d)"

named_theorems frame

lemma statement_frames [frame]:
  "insert_job j d = Inr d' \<Longrightarrow> configuration d' = configuration d"
  "insert_target t d = Inr d' \<Longrightarrow> configuration d' = configuration d"
  "insert_run r d = Inr d' \<Longrightarrow> configuration d' = configuration d"
  "insert_dedup x d = Inr d' \<Longrightarrow> configuration d' = configuration d"
  "update_runs P f d = Inr (n, d') \<Longrightarrow> configuration d' = configuration d"
  by (auto simp: insert_job_def insert_target_def insert_run_def insert_dedup_def update_runs_def configuration_def
      Let_def split: if_split_asm)

lemma update_frames [simp]:
  "configuration (update_expiry Q e d) = configuration d"
  "configuration (extend_retention uid e d) = configuration d"
  "update_cancellation jobUID printerID cancelled reason d = (n, d') \<Longrightarrow> configuration d' = configuration d"
  by (auto simp: update_expiry_def extend_retention_def update_cancellation_def configuration_def Let_def)

lemma fold_frame:
  assumes "fold_sum f d xs = Inr d'" "\<And>d x d'. f d x = Inr d' \<Longrightarrow> configuration d' = configuration d"
  shows "configuration d' = configuration d"
  using fold_sum_invariant [OF assms(1), of "\<lambda>e. configuration e = configuration d"] assms(2) by metis

lemma InsertJob_frame [frame]: "InsertJob job targets runs d = Inr d' \<Longrightarrow> configuration d' = configuration d"
  unfolding InsertJob_def lift_db_simps
  by (elim sum_bindE) (metis fold_frame statement_frames(1-3))

lemma transition_frame: "transition uid target P f now d = Inr d' \<Longrightarrow> configuration d' = configuration d"
  by (auto simp: transition_def elim!: sum_bindE dest: frame)

lemma run_frames [frame]:
  "CancelRun uid now later_now d = Inr d' \<Longrightarrow> configuration d' = configuration d"
  "ResolveUncertain uid res now d = Inr d' \<Longrightarrow> configuration d' = configuration d"
  by (auto simp: CancelRun_def transition_frame ResolveUncertain_def elim!: sum_bindE dest: frame split: option.split_asm)

lemma CancelTargets_frame [frame]:
  assumes "CancelTargets jobUID pids reason now d = Inr d'" shows "configuration d' = configuration d"
proof -
  have "configuration e' = configuration e" if "cancel_target jobUID reason now e p = Inr e'" for e p e'
    using that by (auto simp: cancel_target_def elim!: sum_bindE dest!: frame split: prod.split_asm)
  with assms show ?thesis by (auto simp: CancelTargets_def elim!: sum_bindE dest: fold_frame)
qed

lemma InsertManualReprints_frame [frame]:
  assumes "InsertManualReprints jobUID req hash reason pids now fresh render d = Inr (runs, d')"
  shows "configuration d' = configuration d"
proof -
  have one: "configuration (fst e') = configuration (fst e)"
    if "reprint_target job req reason now fresh render e p = Inr e'" for job e p e'
    using that by (auto simp: reprint_target_def Let_def elim!: sum_bindE dest!: frame split: prod.split_asm)
  obtain d1 job d2 created where d1: "insert_dedup \<lparr>dd_kind = ''manual_reprint'', dd_scope_uid = jobUID,
        dd_request_id = req, dd_request_hash = hash, dd_created_at = now\<rparr> d = Inr d1"
    and loop: "fold_sum (reprint_target job req reason now fresh render) (d1, []) (sort pids) = Inr (d2, created)"
    and d': "d' = update_expiry (\<lambda>j. j_uid j = jobUID) (now + retentionWindow) d2"
    using assms by (auto simp: InsertManualReprints_def elim!: sum_bindE split: sum.split_asm db_err.split_asm prod.split_asm)
  have "configuration (fst (d2, created)) = configuration d1"
    using fold_sum_invariant [OF loop, of "\<lambda>e. configuration (fst e) = configuration d1"] one by (metis fst_conv)
  then show ?thesis using d' by (simp add: statement_frames(4) [OF d1])
qed

text \<open>The operations of the Job service, whatever other goroutines commit to the Job tables meanwhile.\<close>

lemma service_frames:
  assumes "\<And>d. configuration (other d) = configuration d"
  shows "Accept env dir req now fresh_job fresh_runs other d = (res, d', effs) \<Longrightarrow> configuration d' = configuration d"
    and "Reprint env dir jobUID rq owner now fresh other d = (res', d', effs) \<Longrightarrow> configuration d' = configuration d"
    and "ConfirmPrinted uid now d = (res'', d', effs) \<Longrightarrow> configuration d' = configuration d"
    and "service_CancelRun uid now later_now d = (res'', d', effs) \<Longrightarrow> configuration d' = configuration d"
    and "CancelJobTargets jobUID pids reason now d = (res'', d') \<Longrightarrow> configuration d' = configuration d"
  by (auto simp: Accept_def Reprint_def ConfirmPrinted_def service_CancelRun_def CancelJobTargets_def Let_def assms
      dest!: frame split: sum.split_asm prod.split_asm if_split_asm)

section \<open>Steps\<close>

definition valid_printer :: "printer_config \<Rightarrow> bool" where
  "valid_printer p \<longleftrightarrow> Validate p = Inr () \<and> escposEncodingOK (pc_encoding p)"

inductive api_change :: "'c manager \<times> db \<Rightarrow> 'c manager \<times> db \<Rightarrow> bool" where
  ac_none: "api_change md md"
| ac_jobs: "configuration d' = configuration d \<Longrightarrow> api_change (m, d) (fold wake_for effs m, d')"
| ac_create: "CreatePrinter cfg now (m, d) = Inr (m', d', evs) \<Longrightarrow> valid_printer cfg \<Longrightarrow> api_change (m, d) (m', d')"
| ac_update: "UpdatePrinterWith pid update now (m, d) = Inr (saved, m', d', evs) \<Longrightarrow>
    (\<And>old cfg. update old = Inr cfg \<Longrightarrow> valid_printer cfg) \<Longrightarrow> api_change (m, d) (m', d')"
| ac_enable: "SetEnabled pid on now (m, d) = Inr (m', d', evs) \<Longrightarrow> api_change (m, d) (m', d')"
| ac_remove: "RemovePrinter pid now (m, d) = (res, m', d') \<Longrightarrow> api_change (m, d) (m', d')"
| ac_reconnect: "Reconnect pid m = Inr m' \<Longrightarrow> api_change (m, d) (m', d)"
| ac_reconnect_all: "api_change (m, d) (ReconnectAll m, d)"
| ac_setting: "api_change (m, d) (m, SetSetting k v d)"

definition moves :: "'c server \<Rightarrow> 'c server \<Rightarrow> bool" where
  "moves s s' \<longleftrightarrow> api_change (sv_manager s, sv_db s) (sv_manager s', sv_db s')"

lemma moves_none: "sv_manager s' = sv_manager s \<Longrightarrow> sv_db s' = sv_db s \<Longrightarrow> moves s s'"
  by (simp add: moves_def ac_none)

lemma publish_sel [simp]:
  "sv_manager (publish evs s) = sv_manager s" "sv_db (publish evs s) = sv_db s" "sv_auth (publish evs s) = sv_auth s"
  by (simp_all add: publish_def)

lemma moves_jobs: "configuration d = configuration (sv_db s) \<Longrightarrow> moves s (commit_jobs d effs s)"
  by (simp add: moves_def commit_jobs_def ac_jobs)

lemma moves_jobs_db: "configuration d = configuration (sv_db s) \<Longrightarrow> moves s (s\<lparr>sv_db := d\<rparr>)"
  using ac_jobs [of d "sv_db s" "sv_manager s" "[]"] by (simp add: moves_def)

lemma merged_valid: "mergePrinter env req cfg pid = Inr cfg' \<Longrightarrow> valid_printer cfg'"
  by (auto simp: mergePrinter_def valid_printer_def Let_def split: if_split_asm sum.split_asm)

section \<open>The middleware\<close>

text \<open>
  A relation between the states before and after a handler that does not see the rate limits, the
  tokens and the published events is kept by the chains of the route table.
\<close>

locale handler_relation =
  fixes R :: "'c server \<Rightarrow> 'c server \<Rightarrow> bool"
  assumes frame_step: "sv_manager s' = sv_manager s \<Longrightarrow> sv_db s' = sv_db s \<Longrightarrow> R s s'"
    and frame_then: "sv_manager t = sv_manager s \<Longrightarrow> sv_db t = sv_db s \<Longrightarrow> R t s' \<Longrightarrow> R s s'"
begin

definition keeps :: "'c handler \<Rightarrow> bool" where
  "keeps h \<longleftrightarrow> (\<forall>r s. R s (snd (h r s)))"

lemma keepsI: "(\<And>r s. R s (snd (h r s))) \<Longrightarrow> keeps h"
  by (simp add: keeps_def)

lemma frames_then:
  "R (s\<lparr>sv_limiter := l\<rparr>) s' \<Longrightarrow> R s s'" "R (s\<lparr>sv_pair_limiter := b\<rparr>) s' \<Longrightarrow> R s s'" "R (s\<lparr>sv_auth := a\<rparr>) s' \<Longrightarrow> R s s'"
  by (erule frame_then [rotated 2], simp, simp)+

lemma posCORS_keeps: "keeps h \<Longrightarrow> keeps (posCORS h)"
  unfolding keeps_def by (auto simp: posCORS_def Let_def frame_step publish_def)

lemma rateLimit_keeps: "keeps h \<Longrightarrow> keeps (rateLimit env h)"
  unfolding keeps_def by (auto simp: rateLimit_def frame_step split: prod.split intro: frames_then)

lemma pairRateLimit_keeps: "keeps h \<Longrightarrow> keeps (pairRateLimit env h)"
  unfolding keeps_def by (auto simp: pairRateLimit_def frame_step split: prod.split intro: frames_then)

lemma limitBody_keeps: "keeps h \<Longrightarrow> keeps (limitBody n h)"
  unfolding keeps_def by (simp add: limitBody_def)

lemma requireAuth_keeps: "keeps h \<Longrightarrow> keeps (requireAuth env h)"
  unfolding keeps_def
  by (auto simp: requireAuth_def frame_step publish_def split: prod.split intro: frames_then)

lemma localOnly_keeps: "keeps h \<Longrightarrow> keeps (localOnly h)"
  unfolding keeps_def by (simp add: localOnly_def frame_step publish_def)

lemmas middleware_keeps = posCORS_keeps rateLimit_keeps pairRateLimit_keeps limitBody_keeps requireAuth_keeps
  localOnly_keeps

lemma chain_keeps: "keeps h \<Longrightarrow> (\<And>m h. m \<in> set ms \<Longrightarrow> keeps h \<Longrightarrow> keeps (m h)) \<Longrightarrow> keeps (chain h ms)"
  by (induction ms) (simp_all add: chain_def)

lemma pos_keeps: "keeps h \<Longrightarrow> keeps (pos env n h)"
  unfolding pos_def by (rule chain_keeps) (auto intro: middleware_keeps)

lemma admin_keeps: "keeps h \<Longrightarrow> keeps (admin n h)"
  unfolding admin_def by (rule chain_keeps) (auto intro: middleware_keeps)

end

interpretation api_moves: handler_relation moves
  by unfold_locales (auto simp: moves_def intro: ac_none)

section \<open>The handlers\<close>

definition others_leave_configuration :: "'c api_env \<Rightarrow> bool" where
  "others_leave_configuration env \<longleftrightarrow> (\<forall>d. configuration (he_others env d) = configuration d)"

lemmas same_state = moves_none

lemma job_handlers_move:
  assumes "others_leave_configuration env"
  shows "moves s (snd (handleCreateJob env r s))" "moves s (snd (handleTestPrint env r s))"
    "moves s (snd (handleReprint env r s))" "moves s (snd (handleConfirmPrinted env r s))"
    "moves s (snd (handleCancelRun env r s))" "moves s (snd (handleCancelJob env r s))"
proof -
  have o: "\<And>d. configuration (he_others env d) = configuration d" using assms by (simp add: others_leave_configuration_def)
  note sf = service_frames [of "he_others env", OF o]
  show "moves s (snd (handleCreateJob env r s))" "moves s (snd (handleTestPrint env r s))"
    by (auto simp: handleCreateJob_def handleTestPrint_def Let_def same_state split: sum.split prod.split intro!: moves_jobs sf(1))
  show "moves s (snd (handleReprint env r s))"
    by (auto simp: handleReprint_def same_state split: sum.split prod.split intro!: moves_jobs sf(2))
  show "moves s (snd (handleConfirmPrinted env r s))"
    by (auto simp: handleConfirmPrinted_def split: sum.split prod.split intro!: moves_jobs sf(3))
  show "moves s (snd (handleCancelRun env r s))"
    by (auto simp: handleCancelRun_def split: sum.split prod.split intro!: moves_jobs sf(4))
  show "moves s (snd (handleCancelJob env r s))"
    by (auto simp: handleCancelJob_def same_state split: sum.split prod.split intro!: moves_jobs_db sf(5))
qed

lemma moves_manager:
  "api_change (sv_manager s, sv_db s) (m, d) \<Longrightarrow> moves s (commit_manager (m, d, evs) s)"
  "api_change (sv_manager s, sv_db s) (m, d) \<Longrightarrow> moves s (s\<lparr>sv_manager := m, sv_db := d\<rparr>)"
  by (simp_all add: moves_def commit_manager_def)

lemma printer_handlers_move:
  "moves s (snd (handleCreatePrinter env r s))" "moves s (snd (handleUpdatePrinter env r s))"
  "moves s (snd (handleDeletePrinter env r s))" "moves s (snd (handleEnable env on r s))"
  "moves s (snd (handleReconnect env r s))" "moves s (snd (handleReconnectAll r s))"
proof -
  show "moves s (snd (handleCreatePrinter env r s))"
    by (auto simp: handleCreatePrinter_def decodePrinter_def Let_def same_state split: sum.split prod.split
        intro!: moves_manager ac_create elim!: sum_bindE dest: merged_valid)
  show "moves s (snd (handleUpdatePrinter env r s))"
    by (auto simp: handleUpdatePrinter_def Let_def same_state split: sum.split prod.split
        intro!: moves_manager ac_update dest: merged_valid)
  show "moves s (snd (handleDeletePrinter env r s))"
    by (auto simp: handleDeletePrinter_def split: sum.split prod.split intro!: moves_manager intro: ac_remove)
  show "moves s (snd (handleEnable env on r s))"
    by (auto simp: handleEnable_def same_state split: sum.split prod.split intro!: moves_manager intro: ac_enable)
  show "moves s (snd (handleReconnect env r s))"
    by (auto simp: handleReconnect_def same_state moves_def split: sum.split intro: ac_reconnect ac_none)
  show "moves s (snd (handleReconnectAll r s))"
    by (simp add: handleReconnectAll_def moves_def ac_reconnect_all)
qed

lemma other_handlers_move:
  "moves s (snd (handlePutSettings env r s))" "moves s (snd (handlePair env r s))"
  "moves s (snd (handlePairingCode env r s))" "moves s (snd (handleRevokeToken env r s))"
  by (auto simp: handlePutSettings_def handlePair_def handlePairingCode_def handleRevokeToken_def same_state moves_def
      split: sum.split prod.split intro: ac_none ac_setting)

lemmas reading_handlers = handleGetJob_def handleListJobs_def handleGetPrintRun_def handleStatus_def handleHealth_def
  noContent_def handleListPrinters_def handleCandidates_def handleBluetoothDevices_def handleStartBluetoothDiscovery_def
  handleStopBluetoothDiscovery_def handlePairBluetoothDevice_def handleDisconnectBluetoothDevice_def
  handleForgetBluetoothDevice_def handleOpenBluetooth_def handlePrinterQueue_def handleLogs_def handleSystemLogs_def
  handlePrinterLogs_def handleDiagnostics_def handleDiagnosticsExport_def handleListTokens_def handleGetSettings_def

lemma reading_handlers_state:
  "snd (handleGetJob env r s) = s" "snd (handleListJobs env r s) = s" "snd (handleGetPrintRun env r s) = s"
  "snd (handleStatus env r s) = s" "snd (handleHealth env r s) = s" "snd (noContent r s) = s"
  "snd (handleListPrinters env r s) = s" "snd (handleCandidates env r s) = s" "snd (handleBluetoothDevices env r s) = s"
  "snd (handleStartBluetoothDiscovery env r s) = s" "snd (handleStopBluetoothDiscovery env r s) = s"
  "snd (handlePairBluetoothDevice env r s) = s" "snd (handleDisconnectBluetoothDevice env r s) = s"
  "snd (handleForgetBluetoothDevice env r s) = s" "snd (handleOpenBluetooth env r s) = s"
  "snd (handlePrinterQueue env r s) = s" "snd (handleLogs env r s) = s" "snd (handleSystemLogs env r s) = s"
  "snd (handlePrinterLogs env r s) = s" "snd (handleDiagnostics env r s) = s" "snd (handleDiagnosticsExport env r s) = s"
  "snd (handleListTokens env r s) = s" "snd (handleGetSettings env r s) = s"
  by (simp_all add: reading_handlers Let_def split: sum.split prod.split option.split)

lemma moves_refl [simp]: "moves s s"
  by (simp add: moves_none)

lemma fallback_state: "snd (fallback env r s) = s"
  by (auto simp: fallback_def split: list.split)

lemma unchanged_keeps: "(\<And>r s. snd (h r s) = s) \<Longrightarrow> api_moves.keeps h"
  by (rule api_moves.keepsI) simp

lemma table_keeps:
  assumes "others_leave_configuration env"
  shows "list_all (\<lambda>(m, p, h). api_moves.keeps h) (pos_table env)" "list_all (\<lambda>(m, p, h). api_moves.keeps h) (admin_table env)"
  by (simp_all add: pos_table_def admin_table_def reading_handlers_state job_handlers_move [OF assms] printer_handlers_move
      other_handlers_move api_moves.keepsI)

lemma routes_keep:
  assumes "others_leave_configuration env"
    "rt \<in> set (pos_routes env n @ open_routes env n @ admin_routes env n)"
  shows "api_moves.keeps (rt_handler rt)"
proof -
  note k = table_keeps [OF assms(1)]
  have "rt \<in> set (pos_routes env n) \<Longrightarrow> api_moves.keeps (rt_handler rt)"
    using k(1) by (auto simp: pos_routes_def list_all_iff intro!: api_moves.pos_keeps)
  moreover have "rt \<in> set (admin_routes env n) \<Longrightarrow> api_moves.keeps (rt_handler rt)"
    using k(2) by (auto simp: admin_routes_def list_all_iff intro!: api_moves.admin_keeps)
  moreover have "api_moves.keeps (handlePair env)" "api_moves.keeps (handleHealth env)" "api_moves.keeps noContent"
    by (simp_all add: api_moves.keepsI other_handlers_move reading_handlers_state)
  then have "rt \<in> set (open_routes env n) \<Longrightarrow> api_moves.keeps (rt_handler rt)"
    by (auto simp: open_routes_def chain_def intro!: api_moves.middleware_keeps)
  ultimately show ?thesis using assms(2) by auto
qed

lemma Handler_moves:
  assumes "others_leave_configuration env" shows "moves s (snd (Handler env n r s))"
proof (cases "List.find (route_matches r) (pos_routes env n @ open_routes env n @ admin_routes env n)")
  case (Some rt)
  from find_SomeD [OF this] have "api_moves.keeps (rt_handler rt)" using routes_keep [OF assms] by blast
  with Some show ?thesis by (simp add: Handler_def api_moves.keeps_def)
qed (simp add: Handler_def fallback_state)

end
