(* ===== verification/ApiProperties.thy ===== *)
theory ApiProperties
  imports ApiSteps WorkerProperties
begin

text \<open>The properties of the HTTP API as a whole.\<close>

section \<open>Stored configurations\<close>

definition printers_valid :: "db \<Rightarrow> bool" where
  "printers_valid d = list_all valid_printer (db_printers d)"

lemma valid_printer_settings:
  "valid_printer p \<Longrightarrow> valid_printer (p\<lparr>pc_enabled := on, pc_retired_at := ret, pc_created_at := c, pc_updated_at := u\<rparr>)"
proof -
  have "Validate (p\<lparr>pc_enabled := on, pc_retired_at := ret, pc_created_at := c, pc_updated_at := u\<rparr>) = Validate p"
    by (cases p) (simp only: Validate_def endpoint_mismatch_def printer_config.simps cong: if_cong)
  then show "valid_printer p \<Longrightarrow> valid_printer (p\<lparr>pc_enabled := on, pc_retired_at := ret, pc_created_at := c, pc_updated_at := u\<rparr>)"
    by (simp add: valid_printer_def)
qed

lemma valid_printer_saved_over:
  assumes "valid_printer p" "pc_id p = pc_id q" shows "valid_printer (saved_over p now q)"
proof -
  have "saved_over p now q = p\<lparr>pc_enabled := pc_enabled p, pc_retired_at := pc_retired_at q,
      pc_created_at := pc_created_at q, pc_updated_at := now\<rparr>"
    using assms(2) by (simp add: saved_over_def)
  with valid_printer_settings [OF assms(1)] show ?thesis by metis
qed

lemma SavePrinter_valid:
  assumes "SavePrinter p now d = Inr d'" "valid_printer p" "printers_valid d" shows "printers_valid d'"
  using assms valid_printer_settings [OF assms(2), where on = "pc_enabled p" and ret = None and c = now and u = now] valid_printer_saved_over [OF assms(2)]
  by (auto simp: SavePrinter_def printers_valid_def list_all_iff set_update_where split: if_split_asm)

lemma apply_valid:
  "applyPrinterLocked cfg now (m, d) = Inr (m', d', evs) \<Longrightarrow> valid_printer cfg \<Longrightarrow> printers_valid d \<Longrightarrow> printers_valid d'"
  by (auto simp: applyPrinterLocked_def Let_def intro: SavePrinter_valid elim!: sum_bindE split: if_split_asm)

lemma GetPrinter_valid: "GetPrinter pid d = Inr p \<Longrightarrow> printers_valid d \<Longrightarrow> valid_printer p"
  using GetPrinter_InrD by (fastforce simp: printers_valid_def list_all_iff live_printers_def)

lemma RemovePrinter_valid:
  assumes "RemovePrinter pid now (m, d) = (res, m', d')" "printers_valid d" shows "printers_valid d'"
proof -
  have "printers_valid e" if "DeletePrinter pid now d = Inr e" for e
  proof -
    have v: "valid_printer (q\<lparr>pc_enabled := False, pc_retired_at := Some now, pc_updated_at := now\<rparr>)" if "valid_printer q" for q
      using valid_printer_settings [OF that, where on = False and ret = "Some now" and c = "pc_created_at q" and u = now] by simp
    show ?thesis using that assms(2) v
      by (auto simp: DeletePrinter_def printers_valid_def list_all_iff set_update_where split: if_split_asm)
  qed
  with assms show ?thesis by (auto simp: RemovePrinter_def Let_def split: if_split_asm sum.split_asm)
qed

lemma api_change_valid: "api_change md md' \<Longrightarrow> printers_valid (snd md) \<Longrightarrow> printers_valid (snd md')"
proof (induction rule: api_change.induct)
  case (ac_create cfg now m d m' d' evs)
  then show ?case using configuration_applies(1) apply_valid by (metis snd_conv)
next
  case (ac_update pid update now m d saved m' d' evs)
  then obtain old cfg where "update old = Inr cfg" "applyPrinterLocked cfg now (m, d) = Inr (m', d', evs)"
    by (auto simp: UpdatePrinterWith_def elim!: sum_bindE)
  with ac_update show ?case using apply_valid by (metis snd_conv)
next
  case (ac_enable pid on now m d m' d' evs)
  then obtain p where p: "GetPrinter pid d = Inr p"
    "applyPrinterLocked (p\<lparr>pc_enabled := on\<rparr>) now (m, d) = Inr (m', d', evs)"
    by (auto simp: SetEnabled_def elim!: sum_bindE)
  have "valid_printer (p\<lparr>pc_enabled := on\<rparr>)"
    using valid_printer_settings [OF GetPrinter_valid [OF p(1)], where on = on and ret = "pc_retired_at p" and c = "pc_created_at p" and u = "pc_updated_at p"]
      ac_enable by simp
  with p(2) ac_enable show ?case using apply_valid by (metis snd_conv)
next
  case (ac_remove pid now m d res m' d')
  then show ?case using RemovePrinter_valid by (metis snd_conv)
qed (simp_all add: printers_valid_def configuration_def SetSetting_def)

text \<open>A client that follows any number of requests, each in an environment of its own.\<close>

fun serve_all :: "('c api_env \<times> (http_request \<Rightarrow> nat) \<times> http_request) list \<Rightarrow> 'c server \<Rightarrow> 'c server" where
  "serve_all [] s = s"
| "serve_all ((env, n, r) # rest) s = serve_all rest (snd (Handler env n r s))"

lemma serve_all_valid:
  "list_all (\<lambda>(env, n, r). others_leave_configuration env) reqs \<Longrightarrow> printers_valid (sv_db s) \<Longrightarrow>
     printers_valid (sv_db (serve_all reqs s))"
proof (induction reqs s rule: serve_all.induct)
  case (2 env n r rest s)
  then have "moves s (snd (Handler env n r s))" by (simp add: Handler_moves)
  from api_change_valid [OF this [unfolded moves_def]] 2 have "printers_valid (sv_db (snd (Handler env n r s)))" by simp
  with 2 show ?case by simp
qed simp

section \<open>The API drives the manager\<close>

lemma wake_steps: "manager_step\<^sup>*\<^sup>* (m, d) (fold wake_for effs m, d)"
proof (induction effs arbitrary: m)
  case (Cons e effs)
  have "manager_step\<^sup>*\<^sup>* (m, d) (wake_for e m, d)" by (cases e) (auto simp: wake_for_def intro: mg_wake)
  with Cons [of "wake_for e m"] show ?case by simp
qed simp

lemma api_change_steps: "api_change md md' \<Longrightarrow> manager_step\<^sup>*\<^sup>* md md'"
proof (induction rule: api_change.induct)
  case (ac_jobs d' d m effs)
  then have "manager_step (m, d) (m, d')" by (intro mg_jobs) (simp add: configuration_def)
  from converse_rtranclp_into_rtranclp [where r = manager_step, OF this wake_steps] show ?case .
next
  case (ac_setting m d k v)
  have "manager_step (m, d) (m, SetSetting k v d)" by (rule mg_jobs) (simp add: SetSetting_def)
  then show ?case ..
qed (auto intro: manager_step.intros r_into_rtranclp)

section \<open>Requests from other origins\<close>

text \<open>What a response may tell a page that has shown no token.\<close>

definition public_body :: "payload \<Rightarrow> bool" where
  "public_body b = (case b of NoBody \<Rightarrow> True | ErrorBody _ _ \<Rightarrow> True | TokenBody _ \<Rightarrow> True | HealthBody _ \<Rightarrow> True
     | PageBody _ \<Rightarrow> True | _ \<Rightarrow> False)"

definition holds_token :: "auth_env \<Rightarrow> http_request \<Rightarrow> 'c server \<Rightarrow> bool" where
  "holds_token an r s \<longleftrightarrow> hr_origin r = GetSetting SettingAllowedOrigin (sv_db s) \<and>
     (\<exists>t. token_of (an_hash an) (sv_auth s) (trim_prefix (hr_authorization r) ''Bearer '') (hr_origin r) t)"

definition shut_out :: "response \<times> 'c server \<Rightarrow> 'c server \<Rightarrow> bool" where
  "shut_out res s \<longleftrightarrow> public_body (rs_body (fst res)) \<and> sv_db (snd res) = sv_db s \<and> sv_manager (snd res) = sv_manager s"

lemma json_body [simp]: "rs_body (writeJSON n b) = b"
  by (simp add: writeJSON_def)

lemma header_body [simp]: "rs_body (with_header k v r) = rs_body r" "rs_body (cors_headers a q rs) = rs_body rs"
  by (simp_all add: with_header_def cors_headers_def)

lemma public_bodies [simp]:
  "public_body NoBody" "public_body (ErrorBody a b)" "public_body (TokenBody t)" "public_body (HealthBody ok)"
  "public_body (PageBody p)"
  by (simp_all add: public_body_def)

lemma error_body [simp]: "public_body (rs_body (writeError f e))"
  by (auto simp: writeError_def split: err_class.split)

lemma admin_shut_out: "foreign (hr_origin r) \<Longrightarrow> shut_out (admin n h r s) s"
  by (simp add: admin_def chain_def localOnly_def shut_out_def)

lemma requireAuth_shut_out:
  assumes "foreign (hr_origin r)"
    "\<not> (\<exists>t. token_of (an_hash an) (sv_auth s) (trim_prefix (hr_authorization r) ''Bearer '') (hr_origin r) t)"
  shows "shut_out (requireAuth an h r s) s"
proof -
  obtain v e a where v: "validateToken (an_hash an) (an_read_error an) (an_write_error an) (an_now an)
      (trim_prefix (hr_authorization r) ''Bearer '') (hr_origin r) (sv_auth s) = ((v, e), a)"
    by (metis prod.collapse)
  with assms(2) have "\<not> v" using validateToken_iff by (metis fst_conv)
  with assms(1) v show ?thesis by (simp add: requireAuth_def shut_out_def)
qed

lemma posCORS_shut_out:
  assumes "foreign (hr_origin r)" "hr_origin r = GetSetting SettingAllowedOrigin (sv_db s) \<Longrightarrow> shut_out (h r s) s"
  shows "shut_out (posCORS h r s) s"
proof -
  have "public_body (rs_body (preflight a r))" for a by (simp add: preflight_def)
  with assms show ?thesis by (auto simp: posCORS_def shut_out_def Let_def)
qed

lemma rateLimit_shut_out:
  assumes "\<And>l. shut_out (h r (s\<lparr>sv_limiter := l\<rparr>)) s" shows "shut_out (rateLimit an h r s) s"
  using assms by (auto simp: rateLimit_def shut_out_def split: prod.split)

lemma pos_shut_out:
  assumes "foreign (hr_origin r)" "\<not> holds_token (he_auth env) r s"
  shows "shut_out (pos env n h r s) s"
  unfolding pos_def chain_def foldr.simps comp_def id_apply
proof (intro posCORS_shut_out rateLimit_shut_out)
  fix l assume "hr_origin r = GetSetting SettingAllowedOrigin (sv_db s)"
  with assms(2) have "\<not> (\<exists>t. token_of (an_hash (he_auth env)) (sv_auth s) (trim_prefix (hr_authorization r) ''Bearer '')
      (hr_origin r) t)" by (simp add: holds_token_def)
  with assms(1) requireAuth_shut_out [of _ "he_auth env" "s\<lparr>sv_limiter := l\<rparr>" h]
  show "shut_out (limitBody n (requireAuth (he_auth env) h) r (s\<lparr>sv_limiter := l\<rparr>)) s"
    by (simp add: limitBody_def shut_out_def)
qed (rule assms(1))

lemma pairRateLimit_shut_out:
  assumes "\<And>b. shut_out (h r (s\<lparr>sv_pair_limiter := b\<rparr>)) s" shows "shut_out (pairRateLimit an h r s) s"
  using assms by (auto simp: pairRateLimit_def shut_out_def split: prod.split)

lemma open_shut_out:
  assumes "foreign (hr_origin r)" "rt \<in> set (open_routes env n)" shows "shut_out (rt_handler rt r s) s"
proof -
  have h: "shut_out (handlePair env q t) s" if "sv_db t = sv_db s" "sv_manager t = sv_manager s" for q t
    using that by (auto simp: handlePair_def shut_out_def invalid_json_def split: sum.split prod.split)
  have "shut_out (handleHealth env q t) s" if "sv_db t = sv_db s" "sv_manager t = sv_manager s" for q t
    using that by (simp add: handleHealth_def shut_out_def)
  moreover have "shut_out (noContent q s) s" for q by (simp add: noContent_def shut_out_def)
  ultimately show ?thesis
    using assms h
    by (auto simp: open_routes_def chain_def limitBody_def
        intro!: posCORS_shut_out rateLimit_shut_out pairRateLimit_shut_out)
qed

lemma fallback_shut_out: "shut_out (fallback env r s) s"
  by (auto simp: shut_out_def fallback_def redirect_def webui_Handler_def split: list.split prod.split)

lemma path_values_same [simp]: "hr_origin (path_values p r) = hr_origin r" "hr_authorization (path_values p r) = hr_authorization r"
  by (simp_all add: path_values_def)

lemma foreign_shut_out:
  assumes "foreign (hr_origin r)" "\<not> holds_token (he_auth env) r s" shows "shut_out (Handler env n r s) s"
proof (cases "List.find (route_matches r) (pos_routes env n @ open_routes env n @ admin_routes env n)")
  case (Some rt)
  let ?r = "path_values (rt_path rt) r"
  have f: "foreign (hr_origin ?r)" "\<not> holds_token (he_auth env) ?r s" using assms by (simp_all add: holds_token_def)
  have "rt \<in> set (pos_routes env n) \<or> rt \<in> set (open_routes env n) \<or> rt \<in> set (admin_routes env n)"
    using find_SomeD [OF Some] by auto
  then have "shut_out (rt_handler rt ?r s) s"
    using open_shut_out [OF f(1)] pos_shut_out [OF f] admin_shut_out [OF f(1)]
    by (auto simp: pos_routes_def admin_routes_def)
  with Some show ?thesis by (simp add: Handler_def)
qed (simp add: Handler_def fallback_shut_out)

section \<open>A server to instantiate the properties in\<close>

definition sample_api_env :: "conn api_env" where
  "sample_api_env = \<lparr>he_auth = \<lparr>an_hash = (\<lambda>s. s), an_now = 100, an_read_error = None, an_write_error = None\<rparr>,
     he_service = sample_service, he_worker = sample_worker_env, he_now = 100, he_later = 101,
     he_fresh_job = Some ''job_9'', he_fresh_runs = (\<lambda>_. Some ''run_9''), he_others = (\<lambda>d. d), he_code = None,
     he_token = None, he_database_ok = True, he_parse_url = (\<lambda>_. None), he_error_text = (\<lambda>_. ''error''),
     he_config_text = (\<lambda>_. ''invalid''), he_quote = (\<lambda>s. s), he_candidates = Inr [], he_pairer = None,
     he_open_settings = Inr (), he_platform = ''linux'', he_page = (\<lambda>_. (404, ''not found''))\<rparr>"

definition pos_origin :: string where "pos_origin = ''https://pos.example''"

definition sample_token :: token_row where
  "sample_token = \<lparr>tk_id = ''t1'', tk_hash = ''pat_1'', tk_label = ''till'', tk_origin = pos_origin, tk_created_at = 5,
     tk_last_used_at = None, tk_revoked_at = None\<rparr>"

definition sample_server :: "conn server" where
  "sample_server = \<lparr>sv_db = sample_empty\<lparr>db_settings := [(''allowed_origin'', pos_origin)]\<rparr>,
     sv_auth = NewAuthService [sample_token], sv_manager = NewManager, sv_gate = newPersistenceGate,
     sv_limiter = Map.empty, sv_pair_limiter = newRateLimiter 1 5 0, sv_logs = [], sv_events = []\<rparr>"

definition sample_request :: http_request where
  "sample_request = \<lparr>hr_method = ''GET'', hr_segments = [''api'', ''v1'', ''status''], hr_origin = pos_origin,
     hr_authorization = ''Bearer pat_1'', hr_content_type = [], hr_media = None, hr_private_network = False,
     hr_remote = ''10.0.0.7:4000'', hr_path_value = (\<lambda>_. []), hr_query = (\<lambda>_. []), hr_body = []\<rparr>"

definition printer_request_of :: "string \<Rightarrow> printer_request" where
  "printer_request_of pid = \<lparr>pr_id = Some pid, pr_display_name = None, pr_enabled = None, pr_transport = Some ''mock'',
     pr_device_address = None, pr_endpoint = None, pr_baud_rate = None, pr_data_bits = None, pr_stop_bits = None,
     pr_parity = None, pr_characters_per_line = None, pr_encoding = None, pr_auto_reconnect = None,
     pr_connection_preference = None\<rparr>"

definition sample_create :: http_request where
  "sample_create = sample_request\<lparr>hr_method := ''POST'', hr_segments := [''api'', ''v1'', ''printers''], hr_origin := [],
     hr_content_type := ''application/json'', hr_media := Some ''application/json'',
     hr_body := [Doc (PrinterBody (printer_request_of ''kitchen''))]\<rparr>"

lemmas sample_api_defs = sample_api_env_def sample_server_def sample_request_def sample_token_def pos_origin_def

lemma sample_others: "others_leave_configuration sample_api_env"
  by (simp add: others_leave_configuration_def sample_api_env_def)

lemma pos_origin_foreign: "foreign pos_origin"
  by (simp add: foreign_def isLocalOrigin_def pos_origin_def)

lemma sample_status_served:
  "rs_body (fst (Handler sample_api_env (\<lambda>_. 0) sample_request sample_server)) =
     StatusBody (Statuses sample_worker_env NewManager (sv_db sample_server)) (gate_status newPersistenceGate) False True"
proof -
  define r where "r = path_values (api [Lit ''status'']) sample_request"
  have h: "Handler sample_api_env (\<lambda>_. 0) sample_request sample_server =
      pos sample_api_env (\<lambda>_. 0) (handleStatus sample_api_env) r sample_server"
    by (simp add: Handler_def pos_routes_def pos_table_def route_matches_def api_def r_def sample_request_def)
  have o: "hr_origin r = pos_origin" "hr_authorization r = ''Bearer pat_1''" "hr_method r = ''GET''"
    by (simp_all add: r_def path_values_def sample_request_def)
  have "validateToken (\<lambda>s. s) None None 100 ''pat_1'' pos_origin (sv_auth sample_server) =
      ((True, None), sv_auth sample_server)"
    by (simp add: validateToken_def sample_server_def NewAuthService_def sample_token_def token_use_interval_def second_def)
  moreover have "trim_prefix ''Bearer pat_1'' ''Bearer '' = ''pat_1''" by (simp add: trim_prefix_def)
  ultimately show ?thesis
    unfolding h pos_def chain_def foldr.simps comp_def id_apply
    using pos_origin_foreign
    by (simp add: posCORS_def o GetSetting_def SettingAllowedOrigin_def rateLimit_def limitBody_def requireAuth_def
        keyed_allow_def bucket_allow_def refilled_def newRateLimiter_def Let_def handleStatus_def
        PersistenceStatus_def sample_server_def sample_api_env_def) (simp add: pos_origin_def)
qed



text \<open>C30: Every stored printer is valid. Starting from valid printers, after any sequence of requests and
  whatever the environment answers, every stored printer, retired ones included, passes
  \<open>Validate\<close> and has an encoding the document builder knows.\<close>

theorem stored_printers_are_valid:
  assumes "list_all (\<lambda>(env, n, r). others_leave_configuration env) reqs" "printers_valid (sv_db s)"
    "p \<in> set (db_printers (sv_db (serve_all reqs s)))"
  shows "Validate p = Inr () \<and> (\<exists>b. NewBuilder (pc_encoding p) 32 = Some b)"
  using serve_all_valid [OF assms(1,2)] assms(3)
  by (auto simp: printers_valid_def list_all_iff valid_printer_def escposEncodingOK_def split: option.split_asm)

definition kitchen_printer :: printer_config where
  "kitchen_printer = sample_printer\<lparr>pc_id := ''kitchen'', pc_display_name := ''kitchen'', pc_endpoint := []\<rparr>"

lemma sample_decode: "decodePrinter sample_api_env (sample_create\<lparr>hr_path_value := f\<rparr>) = Inr kitchen_printer"
proof -
  have "Validate kitchen_printer = Inr ()" "escposEncodingOK (pc_encoding kitchen_printer)" by code_simp+
  moreover have "ApplyDefaults (merged (printer_request_of ''kitchen'') (new_printer\<lparr>pc_id := ''kitchen''\<rparr>)) = kitchen_printer"
    by (simp add: ApplyDefaults_def merged_def printer_request_of_def new_printer_def kitchen_printer_def sample_printer_def
        given_def or_default_def config_consts)
  ultimately show ?thesis
    by (simp add: decodePrinter_def decodePrinterRequest_def decodeJSON_def sample_create_def sample_request_def
        printer_body_def mergePrinter_def Let_def given_def) (simp add: printer_request_of_def given_def new_printer_def)
qed

lemma sample_created:
  "Handler sample_api_env (\<lambda>_. 0) sample_create sample_server =
     (writeJSON 201 (PrinterConfigBody (kitchen_printer\<lparr>pc_created_at := 100, pc_updated_at := 100\<rparr>)),
      publish [ManagerEvent (ConfigChanged ''kitchen'' ''printer configuration saved'')]
        (sample_server\<lparr>sv_db := (sv_db sample_server)\<lparr>db_printers :=
           [sample_printer, kitchen_printer\<lparr>pc_created_at := 100, pc_updated_at := 100\<rparr>]\<rparr>\<rparr>))"
proof -
  define r where "r = path_values (api [Lit ''printers'']) sample_create"
  have h: "Handler sample_api_env (\<lambda>_. 0) sample_create sample_server =
      admin (\<lambda>_. 0) (handleCreatePrinter sample_api_env) r sample_server"
    by (simp add: Handler_def pos_routes_def pos_table_def open_routes_def admin_routes_def admin_table_def
        route_matches_def api_def r_def sample_create_def sample_request_def)
  have o: "\<not> foreign (hr_origin r)" by (simp add: r_def path_values_def sample_create_def foreign_def)
  have d: "decodePrinter sample_api_env r = Inr kitchen_printer" unfolding r_def path_values_def by (rule sample_decode)
  have now: "he_now sample_api_env = 100" by (simp add: sample_api_env_def)
  have "\<not> HasProcessingRun ''kitchen'' (sv_db sample_server)"
    by (simp add: HasProcessingRun_def runsWhere_def sample_server_def sample_empty_def)
  moreover have "GetPrinter ''kitchen'' (sv_db sample_server) = Inl PrinterNotFound"
    by (simp add: GetPrinter_def sample_server_def sample_empty_def sample_printer_def)
  moreover have "SavePrinter kitchen_printer 100 (sv_db sample_server) = Inr ((sv_db sample_server)\<lparr>db_printers :=
      [sample_printer, kitchen_printer\<lparr>pc_created_at := 100, pc_updated_at := 100\<rparr>]\<rparr>)"
    by (simp add: SavePrinter_def sample_server_def sample_empty_def sample_printer_def kitchen_printer_def)
  moreover have "stopWorker ''kitchen'' (sv_manager sample_server) = sv_manager sample_server"
    "startWorker kitchen_printer (sv_manager sample_server) = sv_manager sample_server"
    by (simp_all add: sample_server_def NewManager_def stopWorker_def startWorker_def)
  moreover have "pc_id kitchen_printer = ''kitchen''" "pc_enabled kitchen_printer"
    by (simp_all add: kitchen_printer_def sample_printer_def)
  ultimately have "CreatePrinter kitchen_printer 100 (sv_manager sample_server, sv_db sample_server) =
      Inr (sv_manager sample_server, (sv_db sample_server)\<lparr>db_printers :=
        [sample_printer, kitchen_printer\<lparr>pc_created_at := 100, pc_updated_at := 100\<rparr>]\<rparr>,
        [ConfigChanged ''kitchen'' ''printer configuration saved''])"
    by (simp add: CreatePrinter_def applyPrinterLocked_def)
  moreover have "GetPrinter (pc_id kitchen_printer) ((sv_db sample_server)\<lparr>db_printers :=
        [sample_printer, kitchen_printer\<lparr>pc_created_at := 100, pc_updated_at := 100\<rparr>]\<rparr>) =
      Inr (kitchen_printer\<lparr>pc_created_at := 100, pc_updated_at := 100\<rparr>)"
    by (simp add: GetPrinter_def kitchen_printer_def sample_printer_def)
  ultimately show ?thesis
    using o unfolding h
    by (simp add: admin_def chain_def localOnly_def limitBody_def handleCreatePrinter_def d now Let_def commit_manager_def)
qed

theorem stored_printers_are_valid_witness:
  "map pc_id (db_printers (sv_db (serve_all [(sample_api_env, \<lambda>_. 0, sample_create)] sample_server))) = [''bar'', ''kitchen''] \<and>
   Validate (last (db_printers (sv_db (serve_all [(sample_api_env, \<lambda>_. 0, sample_create)] sample_server)))) = Inr ()"
proof -
  let ?reqs = "[(sample_api_env, \<lambda>_. 0, sample_create)] :: (conn api_env \<times> (http_request \<Rightarrow> nat) \<times> http_request) list"
  have ps: "db_printers (sv_db (serve_all ?reqs sample_server)) =
      [sample_printer, kitchen_printer\<lparr>pc_created_at := 100, pc_updated_at := 100\<rparr>]"
    by (simp add: sample_created)
  have others: "list_all (\<lambda>(env, n, r). others_leave_configuration env) ?reqs" by (simp add: sample_others)
  have "Validate sample_printer = Inr ()" "escposEncodingOK (pc_encoding sample_printer)" by code_simp+
  then have "printers_valid (sv_db sample_server)"
    by (simp add: printers_valid_def valid_printer_def sample_server_def sample_empty_def)
  note valid = stored_printers_are_valid [OF others this]
  have "Validate (kitchen_printer\<lparr>pc_created_at := 100, pc_updated_at := 100\<rparr>) = Inr ()"
    using valid [of "kitchen_printer\<lparr>pc_created_at := 100, pc_updated_at := 100\<rparr>"] unfolding ps by simp
  then show ?thesis unfolding ps by (simp add: kitchen_printer_def sample_printer_def)
qed

text \<open>C29: The API changes workers and configuration only as the manager does. Every request, seen on the
  running workers and the database, is a sequence of steps of the manager and of transactions on other
  tables than the printers.\<close>

theorem requests_are_manager_steps:
  assumes "others_leave_configuration env" "Handler env n r s = (rs, s')"
  shows "manager_step\<^sup>*\<^sup>* (sv_manager s, sv_db s) (sv_manager s', sv_db s')"
  using api_change_steps Handler_moves [OF assms(1), of s n r] assms(2) by (simp add: moves_def)

theorem requests_are_manager_steps_witness:
  "\<exists>m d. manager_step\<^sup>*\<^sup>* (NewManager :: conn manager, sv_db sample_server) (m, d) \<and> map pc_id (db_printers d) = [''bar'', ''kitchen'']"
proof -
  obtain rs s' where h: "Handler sample_api_env (\<lambda>_. 0) sample_create sample_server = (rs, s')" by fastforce
  have "map pc_id (db_printers (sv_db s')) = [''bar'', ''kitchen'']"
    using h sample_created by (simp add: kitchen_printer_def sample_printer_def) (auto simp: publish_def)
  moreover have "sv_manager sample_server = NewManager" by (simp add: sample_server_def)
  ultimately show ?thesis using requests_are_manager_steps [OF sample_others h] by metis
qed

end
