(* ===== verification/Rows.thy ===== *)
theory Rows
  imports Samples Rfc3339
begin

text \<open>
  Rows as SQLite holds them. \<open>Database\<close> keeps the records of a table; here is what \<open>InsertJob\<close> and
  \<open>insertRunTx\<close> hand to SQLite, column by column, and how \<open>scanJob\<close>, \<open>scanTarget\<close> and \<open>scanRun\<close> of
  \<open>internal/jobs/repository.go\<close> read it. A time is the text \<open>ts\<close> writes, which SQLite compares
  character by character; \<open>TimeText\<close> compares a pair instead, and the first part shows that this is the same.
\<close>

section \<open>The order of the stored texts\<close>

text \<open>The times from the year 1 to the year 9999, whose text has a year of four digits.\<close>

definition representable :: "time \<Rightarrow> bool" where
  "representable t \<longleftrightarrow> 0 \<le> t \<and> t < 315537897600 * second"

lemma representable_parse: "representable t \<Longrightarrow> parse_time (format_time t) = Some t"
  unfolding representable_def by (intro format_then_parse) simp_all

lemma append_less_append:
  fixes xs ys :: "'a :: linorder list"
  shows "length xs = length ys \<Longrightarrow> xs @ as < ys @ bs \<longleftrightarrow> xs < ys \<or> xs = ys \<and> as < bs"
  by (induction xs ys rule: list_induct2) auto

lemma strict_mono_on_order:
  fixes f :: "'a :: linorder \<Rightarrow> 'b :: linorder"
  assumes "\<And>a b. P a \<Longrightarrow> P b \<Longrightarrow> a < b \<Longrightarrow> f a < f b" "P a" "P b"
  shows "f a < f b \<longleftrightarrow> a < b" "f a = f b \<longleftrightarrow> a = b"
  using assms(1) [OF assms(2,3)] assms(1) [OF assms(3,2)] by (cases a b rule: linorder_cases; auto)+

lemma digit_char_less: "n < 10 \<Longrightarrow> m < 10 \<Longrightarrow> digit_char n < digit_char m \<longleftrightarrow> n < m"
  by (simp add: digit_char_def less_char_def)

lemma pad_less: "n < m \<Longrightarrow> m < 10 ^ k \<Longrightarrow> pad k n < pad k m"
proof (induction k arbitrary: n m)
  case (Suc k)
  have step: "pad (Suc k) i = pad k (i div 10) @ [digit_char (i mod 10)]" for i by (simp add: pad_def)
  have "m div 10 < 10 ^ k" using Suc.prems(2) by (simp add: less_mult_imp_div_less mult.commute)
  show ?case
  proof (cases "n div 10 = m div 10")
    case True
    then have "n mod 10 < m mod 10" using Suc.prems(1) by (metis div_mult_mod_eq nat_add_left_cancel_less)
    with True show ?thesis by (simp add: step append_less_append digit_char_less)
  next
    case False
    then have "n div 10 < m div 10" using Suc.prems(1) by (simp add: div_le_mono le_neq_implies_less)
    from Suc.IH [OF this \<open>m div 10 < 10 ^ k\<close>] show ?thesis by (simp add: step append_less_append)
  qed
qed simp

lemmas pad_order = strict_mono_on_order [where f = "pad k" and P = "\<lambda>n. n < 10 ^ k" for k, OF pad_less]
lemmas pad_order_simps = pad_order [where k = 4, simplified] pad_order [where k = 2, simplified]

lemma days_before_Suc: "days_before (Suc y) = days_before y + (if is_leap (Suc y) then 366 else 365)"
proof -
  have dvd: "100 dvd Suc y \<Longrightarrow> 4 dvd Suc y" "400 dvd Suc y \<Longrightarrow> 100 dvd Suc y"
    by (erule dvd_trans [rotated], simp)+
  have step: "Suc y div k = y div k + (if k dvd Suc y then 1 else 0)" for k
    by (simp add: div_Suc dvd_eq_mod_eq_0)
  have "y div 100 \<le> y div 4" by (rule div_le_mono2) simp_all
  then obtain k where k: "y div 4 = y div 100 + k" using le_Suc_ex by blast
  show ?thesis
    using dvd by (cases "4 dvd Suc y"; cases "100 dvd Suc y"; cases "400 dvd Suc y")
      (simp_all add: days_before_def is_leap_def step k)
qed

lemma days_before_mono: "x \<le> y \<Longrightarrow> days_before x \<le> days_before y"
  by (rule lift_Suc_mono_le [of days_before]) (simp_all add: days_before_Suc)

lemma sum_take_mono: "i \<le> j \<Longrightarrow> sum_list (take i xs) \<le> sum_list (take j (xs :: nat list))"
  by (metis le_Suc_ex le_add1 sum_list_append take_add)

lemma day_of_year_less:
  assumes "valid_date (y, m, x)"
  shows "sum_list (take (m - 1) (month_lengths y)) + (x - 1) < sum_list (take m (month_lengths y))"
proof -
  have "1 \<le> m" "m \<le> 12" using assms by (simp_all add: valid_date_def)
  then have "m - 1 < length (month_lengths y)" by (simp add: month_lengths_def)
  then have "take m (month_lengths y) = take (m - 1) (month_lengths y) @ [month_lengths y ! (m - 1)]"
    using assms take_Suc_conv_app_nth [of "m - 1"] by (simp add: valid_date_def)
  moreover have "1 \<le> x" "x \<le> month_lengths y ! (m - 1)" using assms by (simp_all add: valid_date_def)
  ultimately show ?thesis by simp
qed

lemma sum_months: "sum_list (take m (month_lengths y)) \<le> (if is_leap y then 366 else 365)"
proof -
  have "sum_list (take m (month_lengths y)) \<le> sum_list (take (max m 12) (month_lengths y))"
    by (rule sum_take_mono) simp
  then show ?thesis by (cases "is_leap y") (simp_all add: month_lengths_def)
qed

lemma days_of_mono:
  assumes "valid_date p" "valid_date q" "0 < fst p" "p < q"
  shows "days_of p < days_of q"
proof -
  obtain y m x y' m' x' where p: "p = (y, m, x)" and q: "q = (y', m', x')" by (cases p; cases q) auto
  note less = day_of_year_less [OF assms(1) [unfolded p]]
  consider "y < y'" | "y = y'" "m < m'" | "y = y'" "m = m'" "x < x'" using assms(4) unfolding p q by (auto simp: le_less)
  then show ?thesis
  proof cases
    case 1
    have "days_before (y - 1) + (if is_leap y then 366 else 365) \<le> days_before (y' - 1)"
      using 1 assms(3) p days_before_Suc [of "y - 1"] days_before_mono [of y "y' - 1"] by simp
    with less sum_months [of m y] show ?thesis by (simp add: days_of_def p q)
  next
    case 2
    have "sum_list (take m (month_lengths y)) \<le> sum_list (take (m' - 1) (month_lengths y))"
      using 2 by (intro sum_take_mono) simp
    with less 2 show ?thesis by (simp add: days_of_def p q)
  next
    case 3
    then show ?thesis using assms(1,2) p q by (auto simp: days_of_def valid_date_def)
  qed
qed

lemma date_of_less:
  assumes "d < e" shows "date_of d < date_of e"
proof (rule ccontr)
  assume "\<not> ?thesis"
  then consider "date_of e = date_of d" | "date_of e < date_of d" by fastforce
  moreover have "0 < fst (date_of e)" by (simp add: date_of_def split: prod.split)
  ultimately have "days_of (date_of e) \<le> days_of (date_of d)"
    using days_of_mono [of "date_of e" "date_of d"] date_round_trip by cases auto
  with assms show False using date_round_trip by simp
qed

lemma date_text_less:
  assumes "d < e" "e < 3652059" shows "date_text d < date_text e"
proof -
  obtain y m x y' m' x' where de: "date_of d = (y, m, x)" "date_of e = (y', m', x')"
    by (cases "date_of d"; cases "date_of e") auto
  have b: "y < 10000" "m < 100" "x < 100" "y' < 10000" "m' < 100" "x' < 100"
    using date_of_bounds [OF _ de(1)] date_of_bounds [OF _ de(2)] assms by auto
  show ?thesis using date_of_less [OF assms(1)] b
    by (auto simp: de date_text_def append_less_append pad_order_simps)
qed

lemma quotient_less: "n < (m :: nat) \<Longrightarrow> n div k < m div k \<or> n div k = m div k \<and> n mod k < m mod k"
  by (metis div_le_mono div_mult_mod_eq le_neq_implies_less nat_add_left_cancel_less less_imp_le_nat)

lemma clock_text_less:
  assumes "n < m" "m < 86400" shows "clock_text n < clock_text m"
proof -
  have b: "n div 3600 < 100" "n div 60 mod 60 < 100" "n mod 60 < 100"
    "m div 3600 < 100" "m div 60 mod 60 < 100" "m mod 60 < 100"
    using assms by (simp_all add: less_mult_imp_div_less less_trans [of _ 60])
  have "i div 3600 = i div 60 div 60" for i :: nat by (simp add: div_mult2_eq [symmetric])
  then have "n div 3600 < m div 3600 \<or> n div 3600 = m div 3600 \<and>
      (n div 60 mod 60 < m div 60 mod 60 \<or> n div 60 mod 60 = m div 60 mod 60 \<and> n mod 60 < m mod 60)"
    using quotient_less [OF assms(1), of 60] quotient_less [of "n div 60" "m div 60" 60] by metis
  then show ?thesis using b by (auto simp: clock_text_def append_less_append pad_order_simps)
qed

lemma frac_text_bound: "c \<in> set (frac_text n) \<Longrightarrow> c < 256"
  using strip_zeros_subset [of "digits 9 n"] digits_small [of _ 9 n]
  by (auto simp: frac_text_def split: if_split_asm) fastforce

lemma map_char_less:
  "\<forall>c \<in> set xs. c < 256 \<Longrightarrow> \<forall>c \<in> set ys. c < 256 \<Longrightarrow>
    map char_of xs < map char_of ys \<longleftrightarrow> xs < (ys :: nat list)"
proof (induction xs arbitrary: ys)
  case (Cons x xs)
  then show ?case
    by (cases ys) (auto simp: less_char_def char_of_eq_iff [of _ "char_of _"] dest: arg_cong [where f = of_char])
next
  case Nil
  then show ?case by (cases ys) simp_all
qed

text \<open>The texts of two stored times compare as the pairs of \<open>TimeText\<close> do.\<close>

lemma stored_text_order:
  assumes "representable t" "representable u"
  shows "format_time t < format_time u \<longleftrightarrow> ts t < ts u"
proof -
  have split: "\<exists>d c. d < 3652059 \<and> c < 86400 \<and> i div second = int d * 86400 + int c \<and>
      format_time i = date_text d @ ''T'' @ clock_text c @ map char_of (snd (ts i))" if "representable i" for i
  proof (intro exI conjI)
    have "0 \<le> i div second" "i div second < 315537897600"
      using that by (auto simp: representable_def second_def)
    then show "nat (i div second div 86400) < 3652059"
      "i div second = int (nat (i div second div 86400)) * 86400 + int (nat (i div second mod 86400))"
      by simp_all
  qed (simp_all add: format_time_def ts_def nat_less_iff)
  obtain d c where t: "d < 3652059" "c < 86400" "t div second = int d * 86400 + int c"
    "format_time t = date_text d @ ''T'' @ clock_text c @ map char_of (snd (ts t))" using split assms(1) by blast
  obtain d' c' where u: "d' < 3652059" "c' < 86400" "u div second = int d' * 86400 + int c'"
    "format_time u = date_text d' @ ''T'' @ clock_text c' @ map char_of (snd (ts u))" using split assms(2) by blast
  note date = strict_mono_on_order [where f = date_text and P = "\<lambda>d. d < 3652059", OF date_text_less t(1) u(1)]
  note clock = strict_mono_on_order [where f = clock_text and P = "\<lambda>c. c < 86400", OF clock_text_less t(2) u(2)]
  have len: "length (date_text d) = length (date_text d')" "length (clock_text c) = length (clock_text c')"
    by (simp_all add: date_text_def clock_text_def split: prod.split)
  have "map char_of (snd (ts t)) < map char_of (snd (ts u)) \<longleftrightarrow> snd (ts t) < snd (ts u)"
    by (rule map_char_less) (auto simp: ts_def dest: frac_text_bound)
  then have "format_time t < format_time u \<longleftrightarrow>
      d < d' \<or> d = d' \<and> (c < c' \<or> c = c' \<and> snd (ts t) < snd (ts u))"
    by (simp add: t(4) u(4) append_less_append len date clock)
  also have "\<dots> \<longleftrightarrow> t div second < u div second \<or> t div second = u div second \<and> snd (ts t) < snd (ts u)"
    using t(2) u(2) unfolding t(3) u(3) by auto
  finally show ?thesis by (auto simp: ts_def)
qed

section \<open>Columns\<close>

datatype sql_value = SNull | SText string | SInt int

type_synonym row = "sql_value list"

datatype scan_err = ScanError nat | BadTimestamp string string

text \<open>\<open>Scan\<close> into a string, an integer, a boolean and a \<open>sql.NullString\<close>; the number is that of the column.\<close>

definition scan_text :: "row \<Rightarrow> nat \<Rightarrow> scan_err + string" where
  "scan_text row i = (case row ! i of SText s \<Rightarrow> Inr s | _ \<Rightarrow> Inl (ScanError i))"

definition scan_int :: "row \<Rightarrow> nat \<Rightarrow> scan_err + int" where
  "scan_int row i = (case row ! i of SInt n \<Rightarrow> Inr n | _ \<Rightarrow> Inl (ScanError i))"

definition scan_bool :: "row \<Rightarrow> nat \<Rightarrow> scan_err + bool" where
  "scan_bool row i = (if row ! i = SInt 1 then Inr True else if row ! i = SInt 0 then Inr False else Inl (ScanError i))"

definition scan_null :: "row \<Rightarrow> nat \<Rightarrow> scan_err + string option" where
  "scan_null row i =
     (case row ! i of SNull \<Rightarrow> Inr None | SText s \<Rightarrow> Inr (Some s) | SInt _ \<Rightarrow> Inl (ScanError i))"

lemmas scan_defs = scan_text_def scan_int_def scan_bool_def scan_null_def

definition parseTS :: "string \<Rightarrow> string \<Rightarrow> scan_err + time" where
  "parseTS field v = (case parse_time v of None \<Rightarrow> Inl (BadTimestamp field v) | Some t \<Rightarrow> Inr t)"

definition parseTSPtr :: "string \<Rightarrow> string option \<Rightarrow> scan_err + time option" where
  "parseTSPtr field v =
     (case v of None \<Rightarrow> Inr None | Some s \<Rightarrow> if s = [] then Inr None else sum_bind (parseTS field s) (\<lambda>t. Inr (Some t)))"

definition ts_value :: "time \<Rightarrow> sql_value" where
  "ts_value t = SText (format_time t)"

definition timeOrNil :: "time option \<Rightarrow> sql_value" where
  "timeOrNil t = (case t of None \<Rightarrow> SNull | Some t \<Rightarrow> ts_value t)"

definition null_value :: "string option \<Rightarrow> sql_value" where
  "null_value v = (case v of None \<Rightarrow> SNull | Some s \<Rightarrow> SText s)"

text \<open>\<open>COALESCE(column, '')\<close> in the list of columns of a query.\<close>

definition coalesce_columns :: "nat list \<Rightarrow> row \<Rightarrow> row" where
  "coalesce_columns cs row = map (\<lambda>(i, v). if i \<in> set cs \<and> v = SNull then SText [] else v) (enumerate 0 row)"

lemma nth_coalesce_columns:
  "i < length row \<Longrightarrow> coalesce_columns cs row ! i = (if i \<in> set cs \<and> row ! i = SNull then SText [] else row ! i)"
  by (simp add: coalesce_columns_def nth_enumerate_eq)

section \<open>Jobs and targets\<close>

text \<open>The arguments of the statements in \<open>InsertJob\<close>, in the order of \<open>jobCols\<close> and \<open>targetCols\<close>.\<close>

definition job_values :: "job \<Rightarrow> row" where
  "job_values j = [SText (j_uid j), SText (j_job_id j), SText (j_template j), SText (j_data j), SText (j_request_hash j),
     SText (j_source j), SText (j_owner_origin j), ts_value (j_created_at j), ts_value (j_expires_at j)]"

definition scanJob :: "row \<Rightarrow> scan_err + job" where
  "scanJob row =
     sum_bind (scan_text row 0) (\<lambda>uid. sum_bind (scan_text row 1) (\<lambda>jobID. sum_bind (scan_text row 2) (\<lambda>templ.
     sum_bind (scan_text row 3) (\<lambda>data. sum_bind (scan_text row 4) (\<lambda>hash. sum_bind (scan_text row 5) (\<lambda>source.
     sum_bind (scan_text row 6) (\<lambda>owner. sum_bind (scan_text row 7) (\<lambda>created. sum_bind (scan_text row 8) (\<lambda>expires.
     sum_bind (parseTS ''created_at'' created) (\<lambda>created.
     sum_bind (parseTS ''expires_at'' expires) (\<lambda>expires.
       Inr \<lparr>j_uid = uid, j_job_id = jobID, j_template = templ, j_data = data, j_request_hash = hash, j_source = source,
            j_owner_origin = owner, j_created_at = created, j_expires_at = expires\<rparr>)))))))))))"

definition target_values :: "job_printer \<Rightarrow> row" where
  "target_values t = [SText (t_job_uid t), SText (t_printer_id t), SInt (int (t_target_order t)), SText (t_encoding t),
     SInt (t_characters_per_line t), SText (t_accepted_content_hash t)]"

text \<open>
  The two columns an insertion leaves NULL and \<open>CancelTargets\<close> sets follow. \<open>CHECK (target_order \<ge> 0)\<close>
  is why the order is a natural number.
\<close>

definition target_row :: "job_printer \<Rightarrow> row" where
  "target_row t = target_values t @ [timeOrNil (t_cancelled_at t), null_value (t_cancellation_reason t)]"

definition scanTarget :: "row \<Rightarrow> scan_err + job_printer" where
  "scanTarget stored =
     (let row = coalesce_columns [7] stored in
      sum_bind (scan_text row 0) (\<lambda>uid. sum_bind (scan_text row 1) (\<lambda>printer. sum_bind (scan_int row 2) (\<lambda>order.
      sum_bind (scan_text row 3) (\<lambda>enc. sum_bind (scan_int row 4) (\<lambda>width. sum_bind (scan_text row 5) (\<lambda>hash.
      sum_bind (scan_null row 6) (\<lambda>cancelled. sum_bind (scan_text row 7) (\<lambda>reason.
      sum_bind (parseTSPtr ''cancelled_at'' cancelled) (\<lambda>cancelled.
        Inr \<lparr>t_job_uid = uid, t_printer_id = printer, t_target_order = nat order, t_encoding = enc,
             t_characters_per_line = width, t_accepted_content_hash = hash, t_cancelled_at = cancelled,
             t_cancellation_reason = nullable reason\<rparr>))))))))))"

section \<open>Print Runs\<close>

definition status_text :: "run_status \<Rightarrow> string" where
  "status_text s =
     (case s of RunQueued \<Rightarrow> ''queued'' | RunProcessing \<Rightarrow> ''processing'' | RunTransmitted \<Rightarrow> ''transmitted''
      | RunFailed \<Rightarrow> ''failed'' | RunUncertain \<Rightarrow> ''uncertain'' | RunCancelled \<Rightarrow> ''cancelled'')"

definition trigger_text :: "run_trigger \<Rightarrow> string" where
  "trigger_text t = (case t of TriggerInitial \<Rightarrow> ''initial'' | TriggerAutomaticRetry \<Rightarrow> ''automatic_retry''
      | TriggerManualReprint \<Rightarrow> ''manual_reprint'')"

definition mode_text :: "content_mode \<Rightarrow> string" where
  "mode_text m = (case m of ContentNormal \<Rightarrow> ''normal'' | ContentReprint \<Rightarrow> ''reprint'')"

definition resolution_text :: "run_resolution option \<Rightarrow> string" where
  "resolution_text r = (case r of None \<Rightarrow> [] | Some ResolutionConfirmedPrinted \<Rightarrow> ''confirmed_printed''
      | Some ResolutionReprintRequested \<Rightarrow> ''reprint_requested'')"

text \<open>
  The conversions of a text to its constant. The checks of the table admit no other text; where Go
  would keep one as it is, the scan of its column fails here.
\<close>

definition constant_of :: "('a \<Rightarrow> string) \<Rightarrow> 'a list \<Rightarrow> nat \<Rightarrow> string \<Rightarrow> scan_err + 'a" where
  "constant_of text_of all i s = (case List.find (\<lambda>c. text_of c = s) all of None \<Rightarrow> Inl (ScanError i) | Some c \<Rightarrow> Inr c)"

definition all_statuses :: "run_status list" where
  "all_statuses = [RunQueued, RunProcessing, RunTransmitted, RunFailed, RunUncertain, RunCancelled]"

definition run_values :: "print_run \<Rightarrow> row" where
  "run_values r = [SText (r_uid r), SText (r_job_uid r), SText (r_printer_id r), SInt (int (r_run_number r)),
     SText (trigger_text (r_trigger r)), SText (mode_text (r_content_mode r)), null_value (r_previous_run_uid r),
     null_value (r_reprint_of_run_uid r), null_value (r_reprint_request_id r), null_value (r_reprint_reason r),
     SText (r_expected_content_hash r), SText (status_text (r_status r)), SInt (if r_retryable r then 1 else 0),
     null_value (nullable (resolution_text (r_resolution r))), null_value (r_error_code r), null_value (r_error_message r),
     SInt (r_bytes_accepted r), ts_value (r_created_at r), timeOrNil (r_started_at r), timeOrNil (r_finished_at r),
     timeOrNil (r_transmitted_at r), timeOrNil (r_resolved_at r)]"

text \<open>SQLite puts the queue sequence it assigned in front.\<close>

definition run_row :: "print_run \<Rightarrow> row" where
  "run_row r = SInt (int (r_queue_sequence r)) # run_values r"

definition scanRun :: "row \<Rightarrow> scan_err + print_run" where
  "scanRun stored =
     (let row = coalesce_columns [7, 8, 9, 10, 14, 15, 16] stored in
      sum_bind (scan_int row 0) (\<lambda>sequ. sum_bind (scan_text row 1) (\<lambda>uid. sum_bind (scan_text row 2) (\<lambda>job.
      sum_bind (scan_text row 3) (\<lambda>printer. sum_bind (scan_int row 4) (\<lambda>num. sum_bind (scan_text row 5) (\<lambda>trigger.
      sum_bind (scan_text row 6) (\<lambda>mode. sum_bind (scan_text row 7) (\<lambda>prev. sum_bind (scan_text row 8) (\<lambda>reprint_of.
      sum_bind (scan_text row 9) (\<lambda>request. sum_bind (scan_text row 10) (\<lambda>reason. sum_bind (scan_text row 11) (\<lambda>hash.
      sum_bind (scan_text row 12) (\<lambda>status. sum_bind (scan_bool row 13) (\<lambda>retryable.
      sum_bind (scan_text row 14) (\<lambda>resolution. sum_bind (scan_text row 15) (\<lambda>code.
      sum_bind (scan_text row 16) (\<lambda>message. sum_bind (scan_int row 17) (\<lambda>accepted.
      sum_bind (scan_text row 18) (\<lambda>created. sum_bind (scan_null row 19) (\<lambda>started.
      sum_bind (scan_null row 20) (\<lambda>finished. sum_bind (scan_null row 21) (\<lambda>transmitted.
      sum_bind (scan_null row 22) (\<lambda>resolved.
      sum_bind (constant_of trigger_text [TriggerInitial, TriggerAutomaticRetry, TriggerManualReprint] 5 trigger) (\<lambda>trigger.
      sum_bind (constant_of mode_text [ContentNormal, ContentReprint] 6 mode) (\<lambda>mode.
      sum_bind (constant_of status_text all_statuses 12 status) (\<lambda>status.
      sum_bind (constant_of resolution_text
        [None, Some ResolutionConfirmedPrinted, Some ResolutionReprintRequested] 14 resolution) (\<lambda>resolution.
      sum_bind (parseTS ''created_at'' created) (\<lambda>created.
      sum_bind (parseTSPtr ''started_at'' started) (\<lambda>started.
      sum_bind (parseTSPtr ''finished_at'' finished) (\<lambda>finished.
      sum_bind (parseTSPtr ''transmitted_at'' transmitted) (\<lambda>transmitted.
      sum_bind (parseTSPtr ''resolved_at'' resolved) (\<lambda>resolved.
        Inr \<lparr>r_queue_sequence = nat sequ, r_uid = uid, r_job_uid = job, r_printer_id = printer, r_run_number = nat num,
             r_trigger = trigger, r_content_mode = mode, r_previous_run_uid = nullable prev,
             r_reprint_of_run_uid = nullable reprint_of, r_reprint_request_id = nullable request,
             r_reprint_reason = nullable reason, r_expected_content_hash = hash, r_status = status,
             r_retryable = retryable, r_resolution = resolution, r_error_code = nullable code,
             r_error_message = nullable message, r_bytes_accepted = accepted, r_created_at = created,
             r_started_at = started, r_finished_at = finished, r_transmitted_at = transmitted,
             r_resolved_at = resolved\<rparr>)))))))))))))))))))))))))))))))))"

text \<open>The texts that name a status.\<close>

definition ValidPrintRunStatus :: "string \<Rightarrow> bool" where
  "ValidPrintRunStatus s \<longleftrightarrow>
     s \<in> {''queued'', ''processing'', ''transmitted'', ''failed'', ''uncertain'', ''cancelled''}"

lemma valid_status_iff: "ValidPrintRunStatus s \<longleftrightarrow> (\<exists>x. status_text x = s)"
proof
  assume "ValidPrintRunStatus s"
  then have "s \<in> status_text ` {RunQueued, RunProcessing, RunTransmitted, RunFailed, RunUncertain, RunCancelled}"
    by (simp add: ValidPrintRunStatus_def status_text_def)
  then show "\<exists>x. status_text x = s" by auto
next
  assume "\<exists>x. status_text x = s"
  then obtain x where "status_text x = s" ..
  then show "ValidPrintRunStatus s" by (cases x) (auto simp: ValidPrintRunStatus_def status_text_def)
qed

section \<open>Reading back\<close>

text \<open>
  What can be stored: times with a year of four digits, and no text that is present but empty, which
  \<open>nullable\<close> stores as NULL.
\<close>

definition storable_text :: "string option \<Rightarrow> bool" where
  "storable_text s \<longleftrightarrow> s \<noteq> Some []"

definition storable_time :: "time option \<Rightarrow> bool" where
  "storable_time t \<longleftrightarrow> (case t of None \<Rightarrow> True | Some t \<Rightarrow> representable t)"

definition storable_job :: "job \<Rightarrow> bool" where
  "storable_job j \<longleftrightarrow> representable (j_created_at j) \<and> representable (j_expires_at j)"

definition storable_target :: "job_printer \<Rightarrow> bool" where
  "storable_target t \<longleftrightarrow> storable_time (t_cancelled_at t) \<and> storable_text (t_cancellation_reason t)"

definition storable_run :: "print_run \<Rightarrow> bool" where
  "storable_run r \<longleftrightarrow> representable (r_created_at r) \<and>
     list_all storable_time [r_started_at r, r_finished_at r, r_transmitted_at r, r_resolved_at r] \<and>
     list_all storable_text [r_previous_run_uid r, r_reprint_of_run_uid r, r_reprint_request_id r, r_reprint_reason r,
       r_error_code r, r_error_message r]"

definition coalesced :: "string option \<Rightarrow> string" where
  "coalesced v = (case v of None \<Rightarrow> [] | Some s \<Rightarrow> s)"

lemma nullable_coalesced: "storable_text v \<Longrightarrow> nullable (coalesced v) = v"
  by (auto simp: storable_text_def nullable_def coalesced_def split: option.split)

lemma coalesced_nullable [simp]: "coalesced (nullable s) = s"
  by (simp add: nullable_def coalesced_def)

lemma parseTS_format: "representable t \<Longrightarrow> parseTS field (format_time t) = Inr t"
  by (simp add: parseTS_def representable_parse)

lemma format_time_nonempty: "format_time t \<noteq> []"
  by (simp add: format_time_def split: prod.split)

definition stored_time :: "time option \<Rightarrow> string option" where
  "stored_time t = map_option format_time t"

lemma timeOrNil_null_value: "timeOrNil t = null_value (stored_time t)"
  by (simp add: timeOrNil_def null_value_def stored_time_def ts_value_def split: option.split)

lemma parseTSPtr_stored: "storable_time t \<Longrightarrow> parseTSPtr field (stored_time t) = Inr t"
  by (cases t) (simp_all add: storable_time_def parseTSPtr_def stored_time_def parseTS_format format_time_nonempty)

lemma scan_column [simp]:
  "row ! i = SText s \<Longrightarrow> scan_text row i = Inr s" "row ! i = SInt n \<Longrightarrow> scan_int row i = Inr n"
  "row ! i = SInt (if b then 1 else 0) \<Longrightarrow> scan_bool row i = Inr b" "row ! i = null_value v \<Longrightarrow> scan_null row i = Inr v"
  by (simp_all add: scan_defs null_value_def split: option.split)

lemma scan_coalesced [simp]:
  "i \<in> set cs \<Longrightarrow> i < length row \<Longrightarrow> row ! i = null_value v \<Longrightarrow>
    scan_text (coalesce_columns cs row) i = Inr (coalesced v)"
  by (cases v) (simp_all add: nth_coalesce_columns scan_text_def null_value_def coalesced_def)

lemma nth_not_coalesced [simp]:
  "i \<notin> set cs \<Longrightarrow> i < length row \<Longrightarrow> coalesce_columns cs row ! i = row ! i"
  by (simp add: nth_coalesce_columns)

lemma constant_of_text [simp]:
  "constant_of trigger_text [TriggerInitial, TriggerAutomaticRetry, TriggerManualReprint] i (trigger_text t) = Inr t"
  "constant_of mode_text [ContentNormal, ContentReprint] i (mode_text m) = Inr m"
  "constant_of status_text all_statuses i (status_text s) = Inr s"
  "constant_of resolution_text [None, Some ResolutionConfirmedPrinted, Some ResolutionReprintRequested] i
     (resolution_text r) = Inr r"
  by (simp_all add: constant_of_def trigger_text_def mode_text_def status_text_def all_statuses_def resolution_text_def
      split: run_trigger.split content_mode.split run_status.split option.split run_resolution.split)

lemma scanJob_values: "storable_job j \<Longrightarrow> scanJob (job_values j) = Inr j"
  by (simp add: scanJob_def job_values_def ts_value_def storable_job_def parseTS_format)

lemma scanTarget_row: "storable_target t \<Longrightarrow> scanTarget (target_row t) = Inr t"
  by (simp add: scanTarget_def Let_def target_row_def target_values_def timeOrNil_null_value
      storable_target_def parseTSPtr_stored nullable_coalesced)

lemma scanRun_row: "storable_run r \<Longrightarrow> scanRun (run_row r) = Inr r"
  by (simp add: scanRun_def Let_def run_row_def run_values_def timeOrNil_null_value ts_value_def
      storable_run_def parseTS_format parseTSPtr_stored nullable_coalesced)

section \<open>Printers and events\<close>

text \<open>A row of \<open>printers\<close> in the order of \<open>printerCols\<close>; \<open>SavePrinter\<close> writes all but \<open>retired_at\<close>.\<close>

definition printer_values :: "printer_config \<Rightarrow> row" where
  "printer_values p = [SText (pc_id p), SText (pc_display_name p), SInt (if pc_enabled p then 1 else 0), SText (pc_transport p),
     SText (pc_device_address p), SText (pc_endpoint p), SInt (pc_baud_rate p), SInt (pc_data_bits p), SInt (pc_stop_bits p),
     SText (pc_parity p), SInt (pc_characters_per_line p), SText (pc_encoding p), SInt (if pc_auto_reconnect p then 1 else 0),
     SText (pc_connection_preference p)]"

definition printer_row :: "printer_config \<Rightarrow> row" where
  "printer_row p = printer_values p @ [timeOrNil (pc_retired_at p), ts_value (pc_created_at p), ts_value (pc_updated_at p)]"

definition scanPrinter :: "row \<Rightarrow> scan_err + printer_config" where
  "scanPrinter stored =
     (let row = coalesce_columns [4, 5] stored in
      sum_bind (scan_text row 0) (\<lambda>pid. sum_bind (scan_text row 1) (\<lambda>display. sum_bind (scan_bool row 2) (\<lambda>enabled.
      sum_bind (scan_text row 3) (\<lambda>kind. sum_bind (scan_text row 4) (\<lambda>address. sum_bind (scan_text row 5) (\<lambda>endpoint.
      sum_bind (scan_int row 6) (\<lambda>baud. sum_bind (scan_int row 7) (\<lambda>bits. sum_bind (scan_int row 8) (\<lambda>stop.
      sum_bind (scan_text row 9) (\<lambda>parity. sum_bind (scan_int row 10) (\<lambda>width. sum_bind (scan_text row 11) (\<lambda>enc.
      sum_bind (scan_bool row 12) (\<lambda>auto_on. sum_bind (scan_text row 13) (\<lambda>preference.
      sum_bind (scan_null row 14) (\<lambda>retired. sum_bind (scan_text row 15) (\<lambda>created. sum_bind (scan_text row 16) (\<lambda>updated.
      sum_bind (case retired of None \<Rightarrow> Inr None | Some s \<Rightarrow> sum_bind (parseTS ''retired_at'' s) (\<lambda>t. Inr (Some t))) (\<lambda>retired.
      sum_bind (parseTS ''created_at'' created) (\<lambda>created.
      sum_bind (parseTS ''updated_at'' updated) (\<lambda>updated.
        Inr \<lparr>pc_id = pid, pc_display_name = display, pc_enabled = enabled, pc_transport = kind,
             pc_device_address = address, pc_endpoint = endpoint, pc_connection_preference = preference,
             pc_baud_rate = baud, pc_data_bits = bits, pc_stop_bits = stop, pc_parity = parity,
             pc_characters_per_line = width, pc_encoding = enc, pc_auto_reconnect = auto_on,
             pc_retired_at = retired, pc_created_at = created, pc_updated_at = updated\<rparr>)))))))))))))))))))))"

definition storable_printer :: "printer_config \<Rightarrow> bool" where
  "storable_printer p \<longleftrightarrow> storable_time (pc_retired_at p) \<and> representable (pc_created_at p) \<and> representable (pc_updated_at p)"

lemma parse_retired:
  "storable_time t \<Longrightarrow>
    (case stored_time t of None \<Rightarrow> Inr None | Some s \<Rightarrow> sum_bind (parseTS field s) (\<lambda>t. Inr (Some t))) = Inr t"
  by (cases t) (simp_all add: storable_time_def stored_time_def parseTS_format)

lemma scan_coalesced_text [simp]:
  "i \<in> set cs \<Longrightarrow> i < length row \<Longrightarrow> row ! i = SText s \<Longrightarrow> scan_text (coalesce_columns cs row) i = Inr s"
  by (simp add: nth_coalesce_columns scan_text_def)

lemma scanPrinter_row: "storable_printer p \<Longrightarrow> scanPrinter (printer_row p) = Inr p"
  by (simp add: scanPrinter_def Let_def printer_row_def printer_values_def timeOrNil_null_value ts_value_def
      storable_printer_def parseTS_format parse_retired)

text \<open>
  \<open>readEventRows\<close>: the rows until the end or the first that cannot be read. An event is stored with the
  milliseconds of its time, so that is what is read.
\<close>

definition event_values :: "event_row \<Rightarrow> row" where
  "event_values e = [SInt (int (ev_id e)), null_value (ev_run_uid e), null_value (ev_printer_id e), SText (ev_type e),
     null_value (nullable (ev_message e)), SText (format_millis (ev_created_at e))]"

definition scanEvent :: "row \<Rightarrow> scan_err + event_row" where
  "scanEvent stored =
     (let row = coalesce_columns [1, 2, 4] stored in
      sum_bind (scan_int row 0) (\<lambda>eid. sum_bind (scan_text row 1) (\<lambda>run. sum_bind (scan_text row 2) (\<lambda>printer.
      sum_bind (scan_text row 3) (\<lambda>kind. sum_bind (scan_text row 4) (\<lambda>message. sum_bind (scan_text row 5) (\<lambda>created.
      sum_bind (parseTS [] created) (\<lambda>created.
        Inr \<lparr>ev_id = nat eid, ev_type = kind, ev_printer_id = nullable printer, ev_run_uid = nullable run,
             ev_message = message, ev_created_at = created\<rparr>))))))))"

definition readEventRows :: "row list \<Rightarrow> scan_err + event_row list" where
  "readEventRows rows = fold_sum (\<lambda>out row. sum_bind (scanEvent row) (\<lambda>e. Inr (out @ [e]))) [] rows"

definition to_millis :: "event_row \<Rightarrow> event_row" where
  "to_millis e = e\<lparr>ev_created_at := ev_created_at e - ev_created_at e mod 1000000\<rparr>"

definition storable_event :: "event_row \<Rightarrow> bool" where
  "storable_event e \<longleftrightarrow> representable (ev_created_at e) \<and> storable_text (ev_run_uid e) \<and> storable_text (ev_printer_id e)"

lemma scanEvent_values: "storable_event e \<Longrightarrow> scanEvent (event_values e) = Inr (to_millis e)"
  by (simp add: scanEvent_def Let_def event_values_def storable_event_def nullable_coalesced parseTS_def
      millis_then_parse representable_def to_millis_def)

lemma read_events_from:
  "list_all storable_event es \<Longrightarrow>
    fold_sum (\<lambda>out row. sum_bind (scanEvent row) (\<lambda>e. Inr (out @ [e]))) out (map event_values es) = Inr (out @ map to_millis es)"
  by (induction es arbitrary: out) (simp_all add: scanEvent_values)

lemma readEventRows_values: "list_all storable_event es \<Longrightarrow> readEventRows (map event_values es) = Inr (map to_millis es)"
  by (simp add: readEventRows_def read_events_from)



end
