(* ===== verification/PagingProperties.thy ===== *)
theory PagingProperties
  imports Handlers Rows
begin

text \<open>The lists are read page by page: what a cursor carries and where the next page starts.\<close>

section \<open>Pages of a strictly descending list\<close>

lemma filter_below:
  assumes "sorted_wrt (\<lambda>a b. k b < k a) xs" "m < length xs"
  shows "filter (\<lambda>x. k x < (k (xs ! m) :: 'k :: linorder)) xs = drop (Suc m) xs"
  using assms
proof (induction xs arbitrary: m)
  case (Cons x xs)
  show ?case
  proof (cases m)
    case 0
    with Cons.prems show ?thesis by (simp add: filter_id_conv)
  next
    case (Suc i)
    with Cons.prems have i: "i < length xs" by simp
    then have "k (xs ! i) < k x" using Cons.prems(1) by simp
    then have "\<not> k x < k (xs ! i)" by (rule less_not_sym)
    with Suc Cons i show ?thesis by simp
  qed
qed simp

lemma descending:
  assumes "distinct (map k xs)" shows "sorted_wrt (\<lambda>a b. k b < k a) (rev (sort_key k xs))"
proof -
  have "distinct (map k (sort_key k xs))" using assms by (simp add: distinct_map)
  moreover have "sorted (map k (sort_key k xs))" by simp
  ultimately have "sorted_wrt (<) (map k (sort_key k xs))" using strict_sorted_iff by blast
  then show ?thesis by (simp add: sorted_wrt_map sorted_wrt_rev)
qed

section \<open>The list of Jobs\<close>

definition job_key :: "job \<Rightarrow> stamp \<times> string" where
  "job_key j = (ts (j_created_at j), j_uid j)"

text \<open>All Jobs the filters of the request select, newest first.\<close>

definition selected :: "string \<Rightarrow> string \<Rightarrow> string \<Rightarrow> string \<Rightarrow> db \<Rightarrow> job \<Rightarrow> bool" where
  "selected jobID templ attention owner d j \<longleftrightarrow>
     (jobID \<noteq> [] \<longrightarrow> j_job_id j = jobID) \<and> (templ \<noteq> [] \<longrightarrow> j_template j = templ) \<and>
     (owner \<noteq> [] \<and> owner \<noteq> ''local'' \<longrightarrow> j_owner_origin j = owner) \<and>
     (attention \<noteq> [] \<longrightarrow> (if attention = ''true'' then attention_predicate d j else \<not> attention_predicate d j))"

definition listing :: "string \<Rightarrow> string \<Rightarrow> string \<Rightarrow> string \<Rightarrow> db \<Rightarrow> job list" where
  "listing jobID templ attention owner d =
     rev (sort_key job_key (filter (selected jobID templ attention owner d) (db_jobs d)))"

lemma list_jobs_first: "list_jobs jobID templ attention owner limit None uid d =
    take (list_limit limit) (listing jobID templ attention owner d)"
  by (simp add: list_jobs_def listing_def job_key_def [abs_def] selected_def [abs_def])

lemma list_jobs_after:
  "list_jobs jobID templ attention owner limit (Some (j_created_at j)) (j_uid j) d =
    take (list_limit limit) (filter (\<lambda>x. job_key x < job_key j) (listing jobID templ attention owner d))"
proof -
  let ?after = "\<lambda>x. ts (j_created_at x) < ts (j_created_at j) \<or> (ts (j_created_at x) = ts (j_created_at j) \<and> j_uid x < j_uid j)"
  have lt: "(\<lambda>x. job_key x < job_key j) = ?after" by (auto simp: job_key_def fun_eq_iff)
  have "list_jobs jobID templ attention owner limit (Some (j_created_at j)) (j_uid j) d =
      take (list_limit limit) (rev (sort_key job_key (filter (\<lambda>x. selected jobID templ attention owner d x \<and> ?after x) (db_jobs d))))"
    by (simp only: list_jobs_def job_key_def [abs_def] selected_def option.case Let_def conj_assoc)
  also have "filter (\<lambda>x. selected jobID templ attention owner d x \<and> ?after x) (db_jobs d) =
      filter ?after (filter (selected jobID templ attention owner d) (db_jobs d))"
    by (simp only: filter_filter conj_commute)
  finally show ?thesis unfolding lt listing_def by (simp only: filter_sort [symmetric] rev_filter)
qed

lemma listing_descending:
  assumes "distinct (map j_uid (db_jobs d))"
  shows "sorted_wrt (\<lambda>a b. job_key b < job_key a) (listing jobID templ attention owner d)"
  unfolding listing_def
proof (rule descending)
  let ?P = "selected jobID templ attention owner d"
  have "distinct (map j_uid (filter ?P (db_jobs d)))" using assms by (rule distinct_map_filter)
  then show "distinct (map job_key (filter ?P (db_jobs d)))"
    by (auto simp: distinct_map job_key_def inj_on_def)
qed

lemma job_cursor_round_trip:
  "representable t \<Longrightarrow> decodeJobCursor (encodeJobCursor t uid) = Inr (Some t, uid)"
  by (simp add: representable_def decodeJobCursor_def encodeJobCursor_def cursor_parts_encoded)

text \<open>Cursors mean what they encode. A cursor of the Job list, for any time up to the year 9999 and any
  identifier, decodes to that time, to the nanosecond, and that identifier; a cursor of a log decodes
  to its time and its row number.\<close>

theorem cursors_round_trip:
  assumes "representable t" "0 < i" "int i \<le> max_int64"
  shows "decodeJobCursor (encodeJobCursor t uid) = Inr (Some t, uid) \<and>
    decodeNumericCursor (encodeNumericCursor t i) = Inr (Some (t, i))"
  using assms
  by (simp add: job_cursor_round_trip representable_def decodeNumericCursor_def encodeNumericCursor_def
      cursor_parts_encoded read_nat_text)

theorem cursors_round_trip_witness:
  "decodeJobCursor (encodeJobCursor 63890000000123456789 ''job_1'') = Inr (Some 63890000000123456789, ''job_1'') \<and>
   decodeNumericCursor (encodeNumericCursor 63890000000123456789 42) = Inr (Some (63890000000123456789, 42))"
  by (rule cursors_round_trip) (simp_all add: representable_def second_def max_int64_def)


definition two_jobs :: db where
  "two_jobs = sample_empty\<lparr>db_jobs := [sample_job, sample_job\<lparr>j_uid := ''job_2'', j_job_id := ''order-2''\<rparr>]\<rparr>"


end
