(* ===== verification/LinuxDriver.thy ===== *)
theory LinuxDriver
  imports GoText Http
begin

unbundle bit_operations_syntax

text \<open>
  \<open>internal/platform/linux/driver.go\<close> and the parts of \<open>rfcomm.go\<close> and \<open>gatt.go\<close> that open a connection: which
  Bluetooth devices are printers, which endpoint reaches them, and the three operations the workers
  rely on. What BlueZ lists is an argument, and so is what the profile broker knows of a link.
\<close>

section \<open>Devices\<close>

record bluez_device =
  bz_path :: string
  bz_address :: string
  bz_name :: string
  bz_icon :: string
  bz_class :: "32 word"
  bz_paired :: bool
  bz_bonded :: bool
  bz_connected :: bool
  bz_uuids :: "string list"

definition serialPortUUID :: string where "serialPortUUID = ''00001101-0000-1000-8000-00805f9b34fb''"
definition blePrintServiceUUID :: string where "blePrintServiceUUID = ''000018f0-0000-1000-8000-00805f9b34fb''"
definition rfcommEndpointBase :: string where "rfcommEndpointBase = ''rfcomm://''"
definition bleEndpointBase :: string where "bleEndpointBase = ''ble://''"

definition EqualFold :: "string \<Rightarrow> string \<Rightarrow> bool" where
  "EqualFold a b = (to_lower a = to_lower b)"

definition hasUUID :: "string list \<Rightarrow> string \<Rightarrow> bool" where
  "hasUUID uuids wanted = list_ex (\<lambda>u. EqualFold u wanted) uuids"

definition isPrinterDevice :: "bluez_device \<Rightarrow> bool" where
  "isPrinterDevice dev \<longleftrightarrow> EqualFold (bz_icon dev) ''printer'' \<or>
     (drop_bit 8 (bz_class dev) AND 0x1F = 6 \<and> bz_class dev AND 0x80 \<noteq> 0)"

definition isObviouslyNotPrinter :: "bluez_device \<Rightarrow> bool" where
  "isObviouslyNotPrinter dev \<longleftrightarrow>
     list_ex (\<lambda>p. prefix p (to_lower (bz_icon dev)))
       [''audio-'', ''input-'', ''phone'', ''computer'', ''network-'', ''video-''] \<or>
     drop_bit 8 (bz_class dev) AND 0x1F \<in> {1, 2, 4, 5}"

definition isConnectionEligible :: "bluez_device \<Rightarrow> bool" where
  "isConnectionEligible dev \<longleftrightarrow> bz_paired dev \<or> bz_bonded dev \<or>
     (isPrinterDevice dev \<and> hasUUID (bz_uuids dev) blePrintServiceUUID) \<or>
     (bz_connected dev \<and> isPrinterDevice dev \<and> hasUUID (bz_uuids dev) serialPortUUID)"

definition isUsableCandidate :: "bluez_device \<Rightarrow> bool" where
  "isUsableCandidate dev \<longleftrightarrow>
     isConnectionEligible dev \<and>
     ((hasUUID (bz_uuids dev) serialPortUUID \<or> hasUUID (bz_uuids dev) blePrintServiceUUID) \<or> isPrinterDevice dev) \<and>
     (isPrinterDevice dev \<or> \<not> isObviouslyNotPrinter dev)"

section \<open>Addresses and endpoints\<close>

datatype driver_err =
    BadAddress string
  | AddressRequired
  | QueryFailed string
  | LegacyEndpoint
  | NotEligible string
  | NoSerialProfile string
  | Unsupported string string
  | MustBePaired string
  | NotAvailable string
  | Bluetooth platform_err
  | NoSettingsApp
  | SettingsFailed "string list"

definition normalizeAddress :: "string \<Rightarrow> driver_err + string" where
  "normalizeAddress v = (case ParseMAC6 (TrimSpace v) of None \<Rightarrow> Inl (BadAddress v) | Some bs \<Rightarrow> Inr (mac_text bs))"

definition rfcommEndpoint :: "string \<Rightarrow> string" where "rfcommEndpoint address = rfcommEndpointBase @ address"
definition bleEndpoint :: "string \<Rightarrow> string" where "bleEndpoint address = bleEndpointBase @ address"

definition parseRFCOMMEndpoint :: "string \<Rightarrow> driver_err + string" where
  "parseRFCOMMEndpoint endpoint =
     (let v = TrimSpace endpoint; lower = to_lower v;
          v = (if prefix rfcommEndpointBase lower then drop (length rfcommEndpointBase) v
               else if prefix bleEndpointBase lower then drop (length bleEndpointBase) v else v)
      in if v = [] then Inl AddressRequired else normalizeAddress v)"

definition configAddress :: "printer_config \<Rightarrow> driver_err + string" where
  "configAddress cfg =
     (if pc_device_address cfg \<noteq> [] then normalizeAddress (pc_device_address cfg)
      else parseRFCOMMEndpoint (pc_endpoint cfg))"

definition isLegacySerialEndpoint :: "string \<Rightarrow> bool" where
  "isLegacySerialEndpoint endpoint = prefix ''/dev/'' endpoint"

definition endpointForDevice :: "bluez_device \<Rightarrow> string \<Rightarrow> string" where
  "endpointForDevice dev address =
     (if (bz_paired dev \<or> bz_bonded dev) \<and> hasUUID (bz_uuids dev) serialPortUUID then rfcommEndpoint address
      else if hasUUID (bz_uuids dev) blePrintServiceUUID then bleEndpoint address
      else rfcommEndpoint address)"

definition supportsConnection :: "bluez_device \<Rightarrow> string \<Rightarrow> bool" where
  "supportsConnection dev preference \<longleftrightarrow> preference = [] \<or> preference = ConnectionAuto \<or>
     (preference = ConnectionRFCOMM \<and> hasUUID (bz_uuids dev) serialPortUUID) \<or>
     (preference = ConnectionBLE \<and> hasUUID (bz_uuids dev) blePrintServiceUUID)"

definition preferredEndpoint :: "string \<Rightarrow> bluez_device \<Rightarrow> string \<Rightarrow> string" where
  "preferredEndpoint preference dev address =
     (if preference = ConnectionRFCOMM then rfcommEndpoint address
      else if preference = ConnectionBLE then bleEndpoint address
      else endpointForDevice dev address)"

section \<open>Listing and pairing\<close>

definition publicBluetoothDevice :: "bluez_device \<Rightarrow> string \<Rightarrow> bluetooth_device" where
  "publicBluetoothDevice dev address =
     \<lparr>bd_name = bz_name dev, bd_address = address, bd_paired = (bz_paired dev \<or> bz_bonded dev),
      bd_connected = bz_connected dev, bd_is_printer = isPrinterDevice dev,
      bd_endpoint = (if isUsableCandidate dev then endpointForDevice dev address else []),
      bd_supported = (if hasUUID (bz_uuids dev) serialPortUUID then [ConnectionRFCOMM] else []) @
        (if hasUUID (bz_uuids dev) blePrintServiceUUID then [ConnectionBLE] else [])\<rparr>"

text \<open>The loops skip the devices whose address does not parse.\<close>

definition addressed :: "bluez_device list \<Rightarrow> (bluez_device \<times> string) list" where
  "addressed devs = concat (map (\<lambda>dev. case normalizeAddress (bz_address dev) of Inl _ \<Rightarrow> [] | Inr a \<Rightarrow> [(dev, a)]) devs)"

definition ListBluetoothDevices :: "string + bluez_device list \<Rightarrow> driver_err + bluetooth_device list" where
  "ListBluetoothDevices devices =
     sum_bind (map_err QueryFailed devices) (\<lambda>devs.
     Inr (sort_key (\<lambda>d. (\<not> bd_paired d, \<not> bd_is_printer d, to_lower (bd_name d), bd_address d))
            (map (\<lambda>(dev, a). publicBluetoothDevice dev a) (addressed devs))))"

text \<open>Candidates with one name in different cases are ordered by their endpoint here; for those the comparison of
  the code is not an order.\<close>

definition ListCandidates :: "string + bluez_device list \<Rightarrow> driver_err + candidate list" where
  "ListCandidates devices =
     sum_bind (map_err QueryFailed devices) (\<lambda>devs.
     Inr (sort_key (\<lambda>c. (\<not> ca_is_printer c, to_lower (ca_device_name c), ca_endpoint c))
            (map (\<lambda>(dev, a). \<lparr>ca_endpoint = endpointForDevice dev a, ca_device_name = bz_name dev, ca_device_address = a,
                               ca_connected = bz_connected dev, ca_is_printer = isPrinterDevice dev\<rparr>)
              (addressed (filter isUsableCandidate devs)))))"

definition bluetoothDevice :: "string + bluez_device list \<Rightarrow> string \<Rightarrow> driver_err + bluez_device" where
  "bluetoothDevice devices address =
     (case devices of
        Inl _ \<Rightarrow> Inl (Bluetooth ErrBluetoothUnavailable)
      | Inr devs \<Rightarrow>
         (case List.find (\<lambda>d. normalizeAddress (bz_address d) = Inr address) devs of
            None \<Rightarrow> Inl (Bluetooth ErrBluetoothDeviceNotFound) | Some d \<Rightarrow> Inr d))"

text \<open>\<open>before\<close> and \<open>afterwards\<close> are what BlueZ lists before and after the pairing, \<open>pair\<close> its answer.\<close>

definition PairBluetoothDevice ::
    "string + bluez_device list \<Rightarrow> (string \<Rightarrow> string \<Rightarrow> driver_err + unit) \<Rightarrow> string + bluez_device list \<Rightarrow>
     string \<Rightarrow> string \<Rightarrow> string \<Rightarrow> driver_err + bluetooth_device" where
  "PairBluetoothDevice before pair_device afterwards address pin connectionType =
     sum_bind (map_err (\<lambda>_. Bluetooth ErrInvalidBluetoothAddress) (normalizeAddress address)) (\<lambda>normalized.
     sum_bind (bluetoothDevice before normalized) (\<lambda>device.
     let connectionType = or_default [] ConnectionAuto connectionType in
     if \<not> supportsConnection device connectionType then Inl (Bluetooth ErrBluetoothProtocolUnsupported)
     else
       (let ready = publicBluetoothDevice device normalized in
        if (bd_endpoint ready \<noteq> [] \<and> connectionType \<noteq> ConnectionRFCOMM) \<or>
           (connectionType = ConnectionRFCOMM \<and> (bz_paired device \<or> bz_bonded device))
        then Inr (ready\<lparr>bd_endpoint := preferredEndpoint connectionType device normalized\<rparr>)
        else
          sum_bind (pair_device normalized pin) (\<lambda>_.
          sum_bind (bluetoothDevice afterwards normalized) (\<lambda>device.
          Inr ((publicBluetoothDevice device normalized)\<lparr>bd_endpoint := preferredEndpoint connectionType device normalized\<rparr>))))))"

definition with_address :: "(string \<Rightarrow> driver_err + unit) \<Rightarrow> string \<Rightarrow> driver_err + unit" where
  "with_address act address =
     sum_bind (map_err (\<lambda>_. Bluetooth ErrInvalidBluetoothAddress) (normalizeAddress address)) act"

definition DisconnectBluetoothDevice where "DisconnectBluetoothDevice = with_address"
definition ForgetBluetoothDevice where "ForgetBluetoothDevice = with_address"

section \<open>Connecting\<close>

type_synonym routes = "string \<rightharpoonup> string"

definition setRoute :: "string \<Rightarrow> string \<Rightarrow> routes \<Rightarrow> routes" where
  "setRoute address endpoint r = r(address \<mapsto> endpoint)"

definition resolvedEndpoint :: "string \<Rightarrow> string \<Rightarrow> routes \<Rightarrow> string" where
  "resolvedEndpoint address configured r =
     (case r address of None \<Rightarrow> configured | Some e \<Rightarrow> if e \<noteq> [] then e else configured)"

definition EnsureConnected :: "string + bluez_device list \<Rightarrow> printer_config \<Rightarrow> routes \<Rightarrow> (driver_err + string) \<times> routes" where
  "EnsureConnected devices cfg r =
     (if isLegacySerialEndpoint (pc_endpoint cfg) then (Inl LegacyEndpoint, r)
      else case configAddress cfg of
        Inl e \<Rightarrow> (Inl e, r)
      | Inr address \<Rightarrow>
         (case devices of
            Inl e \<Rightarrow> (Inl (QueryFailed e), r)
          | Inr devs \<Rightarrow>
             (case List.find (\<lambda>d. normalizeAddress (bz_address d) = Inr address) devs of
                None \<Rightarrow> (Inl (NotAvailable address), r)
              | Some dev \<Rightarrow>
                  if \<not> isConnectionEligible dev then (Inl (NotEligible address), r)
                  else if bz_uuids dev \<noteq> [] \<and> \<not> hasUUID (bz_uuids dev) serialPortUUID \<and> \<not> isPrinterDevice dev
                  then (Inl (NoSerialProfile address), r)
                  else (let endpoint = preferredEndpoint (pc_connection_preference cfg) dev address in
                        if \<not> supportsConnection dev (pc_connection_preference cfg)
                        then (Inl (Unsupported address (pc_connection_preference cfg)), r)
                        else if pc_connection_preference cfg = ConnectionRFCOMM \<and> \<not> (bz_paired dev \<or> bz_bonded dev)
                        then (Inl (MustBePaired address), r)
                        else (Inr endpoint, setRoute address endpoint r)))))"

text \<open>\<open>known\<close> is \<open>profileBroker.ConnectionState\<close>.\<close>

definition LinkState ::
    "string + bluez_device list \<Rightarrow> (string \<Rightarrow> bool option) \<Rightarrow> routes \<Rightarrow> printer_config \<Rightarrow> link_state \<times> driver_err option" where
  "LinkState devices known r cfg =
     (case configAddress cfg of
        Inl e \<Rightarrow> (LinkUnknown, Some e)
      | Inr address \<Rightarrow>
         (case (if prefix bleEndpointBase (resolvedEndpoint address (pc_endpoint cfg) r) then None else known address) of
            Some up \<Rightarrow> (if up then LinkConnected else LinkDisconnected, None)
          | None \<Rightarrow>
             (case devices of
                Inl e \<Rightarrow> (LinkUnknown, Some (QueryFailed e))
              | Inr devs \<Rightarrow>
                 (case List.find (\<lambda>d. normalizeAddress (bz_address d) = Inr address) devs of
                    None \<Rightarrow> (LinkUnknown, None)
                  | Some dev \<Rightarrow> (if bz_connected dev then LinkConnected else LinkDisconnected, None)))))"

definition VerifyConnected ::
    "string + bluez_device list \<Rightarrow> (string \<Rightarrow> bool option) \<Rightarrow> routes \<Rightarrow> printer_config \<Rightarrow> (driver_err + bool)" where
  "VerifyConnected devices known r cfg =
     (case LinkState devices known r cfg of (_, Some e) \<Rightarrow> Inl e | (st, None) \<Rightarrow> Inr (st = LinkConnected))"

definition Disconnect ::
    "(string \<Rightarrow> driver_err + unit) \<Rightarrow> routes \<Rightarrow> printer_config \<Rightarrow> driver_err + unit" where
  "Disconnect profile_disconnect r cfg =
     (if isLegacySerialEndpoint (pc_endpoint cfg) then Inl LegacyEndpoint
      else sum_bind (configAddress cfg) (\<lambda>address.
        if prefix bleEndpointBase (resolvedEndpoint address (pc_endpoint cfg) r) then Inr ()
        else profile_disconnect address))"

datatype linux_transport = GATT printer_config | RFCOMM printer_config

definition NewTransport :: "printer_config \<Rightarrow> linux_transport" where
  "NewTransport cfg = (if prefix bleEndpointBase (to_lower (pc_endpoint cfg)) then GATT cfg else RFCOMM cfg)"

definition rfcomm_Endpoint :: "printer_config \<Rightarrow> string" where
  "rfcomm_Endpoint cfg = (case configAddress cfg of Inl _ \<Rightarrow> pc_endpoint cfg | Inr a \<Rightarrow> rfcommEndpoint a)"

definition gatt_Endpoint :: "printer_config \<Rightarrow> string" where
  "gatt_Endpoint cfg = (case configAddress cfg of Inl _ \<Rightarrow> pc_endpoint cfg | Inr a \<Rightarrow> bleEndpoint a)"

text \<open>
  \<open>Connect\<close> of both transports, on the connection they hold: \<open>meanwhile\<close> is the connection another call
  has installed while this one was made. The result is the error if any, the connection held then and those
  that were closed again.
\<close>

datatype link_err = BadConfig driver_err | NoGATT | LinkFailed string

definition rfcomm_Connect ::
    "(string \<Rightarrow> string + 'k) \<Rightarrow> 'k option \<Rightarrow> printer_config \<Rightarrow> 'k option \<Rightarrow> link_err option \<times> 'k option \<times> 'k list" where
  "rfcomm_Connect connect meanwhile cfg held =
     (if held \<noteq> None then (None, held, [])
      else case configAddress cfg of
        Inl e \<Rightarrow> (Some (BadConfig e), None, [])
      | Inr address \<Rightarrow>
         (case connect address of
            Inl e \<Rightarrow> (Some (LinkFailed (''connect '' @ rfcommEndpoint address @ '': '' @ e)), meanwhile, [])
          | Inr c \<Rightarrow> (case meanwhile of Some other \<Rightarrow> (None, Some other, [c]) | None \<Rightarrow> (None, Some c, []))))"

definition gatt_Connect ::
    "(string \<Rightarrow> string + 'k) option \<Rightarrow> 'k option \<Rightarrow> printer_config \<Rightarrow> 'k option \<Rightarrow> link_err option \<times> 'k option \<times> 'k list" where
  "gatt_Connect connector meanwhile cfg held =
     (if held \<noteq> None then (None, held, [])
      else case connector of
        None \<Rightarrow> (Some NoGATT, None, [])
      | Some connect \<Rightarrow>
         (case configAddress cfg of
            Inl e \<Rightarrow> (Some (BadConfig e), None, [])
          | Inr address \<Rightarrow>
             (case connect address of
                Inl e \<Rightarrow> (Some (LinkFailed (''connect '' @ bleEndpoint address @ '': '' @ e)), meanwhile, [])
              | Inr c \<Rightarrow> (case meanwhile of Some other \<Rightarrow> (None, Some other, [c]) | None \<Rightarrow> (None, Some c, [])))))"

section \<open>The settings of the desktop\<close>

definition settings_commands :: "(string \<times> string list) list" where
  "settings_commands =
     [(''gnome-control-center'', [''bluetooth'']), (''systemsettings6'', [''kcm_bluetooth'']),
      (''systemsettings5'', [''kcm_bluetooth'']), (''blueman-manager'', [])]"

fun open_settings ::
    "(string \<Rightarrow> string option) \<Rightarrow> (string \<Rightarrow> string list \<Rightarrow> string option) \<Rightarrow> (string \<times> string list) list \<Rightarrow> string list \<Rightarrow>
     driver_err + unit" where
  "open_settings lookPath launch [] tried = Inl (if tried = [] then NoSettingsApp else SettingsFailed tried)"
| "open_settings lookPath launch ((name, args) # rest) tried =
     (case lookPath name of
        None \<Rightarrow> open_settings lookPath launch rest tried
      | Some path \<Rightarrow>
         (case launch path args of
            None \<Rightarrow> Inr ()
          | Some e \<Rightarrow> open_settings lookPath launch rest (tried @ [name @ '': '' @ e])))"

definition OpenSystemBluetoothSettings where
  "OpenSystemBluetoothSettings lookPath launch = open_settings lookPath launch settings_commands []"

section \<open>Discovery and launching\<close>

text \<open>The controller is missing where the agent runs without BlueZ; \<open>start\<close> and \<open>stop\<close> are its answers.\<close>

definition StartBluetoothDiscovery :: "(string \<Rightarrow> string option) option \<Rightarrow> string \<Rightarrow> string option" where
  "StartBluetoothDiscovery bluetooth connectionType =
     (case bluetooth of None \<Rightarrow> Some ''BlueZ discovery is unavailable'' | Some start \<Rightarrow> start connectionType)"

definition StopBluetoothDiscovery :: "string option option \<Rightarrow> string option" where
  "StopBluetoothDiscovery bluetooth =
     (case bluetooth of None \<Rightarrow> Some ''BlueZ discovery is unavailable'' | Some stop \<Rightarrow> stop)"

text \<open>A program is started unless the context has ended; it is not waited for.\<close>

definition launchDetached :: "string option \<Rightarrow> (string \<Rightarrow> string list \<Rightarrow> string option) \<Rightarrow> string \<Rightarrow> string list \<Rightarrow> string option" where
  "launchDetached ctx start path args = (case ctx of Some e \<Rightarrow> Some e | None \<Rightarrow> start path args)"

lemma ended_context_launches_nothing:
  "OpenSystemBluetoothSettings lookPath (launchDetached (Some e) start) = OpenSystemBluetoothSettings lookPath (\<lambda>_ _. Some e)"
proof -
  have "launchDetached (Some e) start = (\<lambda>_ _. Some e)" by (intro ext) (simp add: launchDetached_def)
  then show ?thesis by (simp add: OpenSystemBluetoothSettings_def)
qed

section \<open>Laws\<close>

lemma mac_text_chars: "c \<in> set (mac_text bs) \<Longrightarrow> \<forall>b \<in> set bs. b < 256 \<Longrightarrow>
    48 \<le> (of_char c :: nat) \<and> (of_char c :: nat) \<le> 70"
proof -
  have u: "48 \<le> (of_char (upper_hex n) :: nat) \<and> (of_char (upper_hex n) :: nat) \<le> 70" if "n < 16" for n
    using that by (simp add: upper_hex_def)
  show "c \<in> set (mac_text bs) \<Longrightarrow> \<forall>b \<in> set bs. b < 256 \<Longrightarrow> 48 \<le> (of_char c :: nat) \<and> (of_char c :: nat) \<le> 70"
    by (induction bs rule: mac_text.induct) (auto simp: u)
qed

lemma plain_mac:
  assumes "ParseMAC6 s = Some bs" "c \<in> set (mac_text bs)" shows "33 \<le> (of_char c :: nat) \<and> (of_char c :: nat) < 128"
  using mac_text_chars [OF assms(2)] ParseMAC6_bytes [OF assms(1)] by force

lemma normalizeAddress_InrD:
  assumes "normalizeAddress v = Inr a"
  shows "normalizeAddress a = Inr a" "parseRFCOMMEndpoint (rfcommEndpoint a) = Inr a" "parseRFCOMMEndpoint (bleEndpoint a) = Inr a"
proof -
  obtain bs where bs: "ParseMAC6 (TrimSpace v) = Some bs" "a = mac_text bs"
    using assms by (auto simp: normalizeAddress_def split: option.split_asm)
  have plain: "\<And>c. c \<in> set a \<Longrightarrow> 33 \<le> (of_char c :: nat) \<and> (of_char c :: nat) < 128" using plain_mac [OF bs(1)] bs(2) by simp
  have parse: "ParseMAC6 a = Some bs" using ParseMAC6_text ParseMAC6_bytes [OF bs(1)] bs(2) by simp
  show n: "normalizeAddress a = Inr a" using parse by (simp add: normalizeAddress_def TrimSpace_plain [OF plain] bs(2))
  have "length bs = 6" using ParseMAC6_bytes [OF bs(1)] by simp
  then have ne: "a \<noteq> []" using bs(2) by (cases bs rule: mac_text.cases) auto
  have t: "TrimSpace (rfcommEndpoint a) = rfcommEndpoint a" "TrimSpace (bleEndpoint a) = bleEndpoint a"
    by (rule TrimSpace_plain, auto simp: rfcommEndpoint_def rfcommEndpointBase_def bleEndpoint_def bleEndpointBase_def dest: plain)+
  have l: "to_lower (rfcommEndpoint a) = rfcommEndpointBase @ to_lower a" "to_lower (bleEndpoint a) = bleEndpointBase @ to_lower a"
    by (simp_all add: rfcommEndpoint_def bleEndpoint_def to_lower_def rfcommEndpointBase_def bleEndpointBase_def lower_char_def Let_def)
  have q: "prefix rfcommEndpointBase (to_lower (rfcommEndpoint a))" "prefix bleEndpointBase (to_lower (bleEndpoint a))"
    "\<not> prefix rfcommEndpointBase (to_lower (bleEndpoint a))"
    unfolding l by (simp_all add: rfcommEndpointBase_def bleEndpointBase_def)
  have r: "drop (length rfcommEndpointBase) (rfcommEndpoint a) = a" "drop (length bleEndpointBase) (bleEndpoint a) = a"
    by (simp_all add: rfcommEndpoint_def bleEndpoint_def)
  show "parseRFCOMMEndpoint (rfcommEndpoint a) = Inr a" "parseRFCOMMEndpoint (bleEndpoint a) = Inr a"
    using ne n by (simp_all add: parseRFCOMMEndpoint_def t q r Let_def)
qed

lemma configAddress_canonical: "configAddress cfg = Inr a \<Longrightarrow> normalizeAddress a = Inr a"
  by (auto simp: configAddress_def parseRFCOMMEndpoint_def Let_def split: if_split_asm dest: normalizeAddress_InrD(1))

lemma preferredEndpoint_cases: "preferredEndpoint pr dev a = rfcommEndpoint a \<or> preferredEndpoint pr dev a = bleEndpoint a"
  by (simp add: preferredEndpoint_def endpointForDevice_def)

text \<open>A connect that succeeds leaves the transport with one connection, and closes the one it does not keep.\<close>

lemma rfcomm_Connect_holds:
  assumes "rfcomm_Connect connect meanwhile cfg held = (None, held', dropped)"
  shows "held' \<noteq> None" "dropped \<noteq> [] \<longleftrightarrow> held = None \<and> meanwhile \<noteq> None"
  using assms by (auto simp: rfcomm_Connect_def split: if_split_asm sum.split_asm option.split_asm)

lemma gatt_Connect_holds:
  assumes "gatt_Connect connector meanwhile cfg held = (None, held', dropped)"
  shows "held' \<noteq> None" "dropped \<noteq> [] \<longleftrightarrow> held = None \<and> meanwhile \<noteq> None"
  using assms by (auto simp: gatt_Connect_def split: if_split_asm sum.split_asm option.split_asm)

end
