(* ===== verification/ProfileBroker.thy ===== *)
theory ProfileBroker
  imports LinuxDriver
begin

text \<open>
  \<open>internal/platform/linux/profile.go\<close>: the broker of the serial-port profile. It waits for BlueZ to hand over
  the descriptor of each RFCOMM connection and gives it to the transport that asked for it. Its methods run
  in many goroutines; what is atomic are the sections under \<open>mu\<close>, one definition each. A step of the
  system runs one section of one goroutine, in any order. The descriptor of a socket, the pending request
  of a connect call and its token are named by numbers.
\<close>

section \<open>State\<close>

record broker =
  br_registration :: "nat option"
  br_waiters :: "string \<rightharpoonup> nat"
  br_active :: "string \<rightharpoonup> nat"
  br_connect_calls :: "string \<rightharpoonup> nat"
  br_states :: "string \<rightharpoonup> bool"

definition newProfileBroker :: broker where
  "newProfileBroker = \<lparr>br_registration = None, br_waiters = Map.empty, br_active = Map.empty,
     br_connect_calls = Map.empty, br_states = Map.empty\<rparr>"

text \<open>What is left to do in a goroutine.\<close>

datatype task =
    RemoveWaiter string nat
  | DropResult nat
  | SetState string bool
  | CloseSocket nat
  | Deliver nat nat

text \<open>
  The broker, the pending connects with the device and the address they ask for, the buffered channel of
  each, the calls of \<open>Connect\<close> that have not returned, the sockets by descriptor, those whose close has
  run, the sockets \<open>Connect\<close> has returned, and the goroutines.
\<close>

record link_world =
  lw_broker :: broker
  lw_pending :: "nat \<rightharpoonup> string \<times> string"
  lw_channel :: "nat \<rightharpoonup> nat"
  lw_waiting :: "nat set"
  lw_sockets :: "nat \<rightharpoonup> string \<times> string"
  lw_closed :: "nat set"
  lw_returned :: "nat \<rightharpoonup> nat"
  lw_tasks :: "task list list"

definition newLinkWorld :: link_world where
  "newLinkWorld = \<lparr>lw_broker = newProfileBroker, lw_pending = Map.empty, lw_channel = Map.empty, lw_waiting = {},
     lw_sockets = Map.empty, lw_closed = {}, lw_returned = Map.empty, lw_tasks = []\<rparr>"

definition spawn :: "task list \<Rightarrow> link_world \<Rightarrow> link_world" where
  "spawn tasks w = w\<lparr>lw_tasks := tasks # lw_tasks w\<rparr>"

section \<open>Connecting\<close>

datatype connect_err =
    ConnectDriver driver_err
  | ConnectNotEligible string
  | AlreadyConnected string
  | AlreadyConnecting string
  | CallNotReturned string

text \<open>
  \<open>ensureRegistered\<close> after BlueZ has answered with the registration \<open>r\<close>. A different one means that the bus
  was replaced: the sockets of the old one, \<open>stale\<close> in the order of the map, are closed afterwards.
\<close>

definition replaced :: "nat \<Rightarrow> broker \<Rightarrow> bool" where
  "replaced r b \<longleftrightarrow> br_registration b \<noteq> None \<and> br_registration b \<noteq> Some r"

definition ensureRegistered :: "nat \<Rightarrow> nat list \<Rightarrow> link_world \<Rightarrow> link_world" where
  "ensureRegistered r stale w =
     (let b = lw_broker w in
      if replaced r b
      then spawn (map CloseSocket stale)
             (w\<lparr>lw_broker := b\<lparr>br_registration := Some r, br_active := Map.empty, br_connect_calls := Map.empty\<rparr>\<rparr>)
      else w\<lparr>lw_broker := b\<lparr>br_registration := Some r\<rparr>\<rparr>)"

text \<open>What \<open>Connect\<close> checks before it takes the lock.\<close>

definition connect_device :: "(string \<Rightarrow> driver_err + bluez_device) \<Rightarrow> string \<Rightarrow> connect_err + string \<times> string" where
  "connect_device deviceByAddress address =
     sum_bind (map_err ConnectDriver (normalizeAddress address)) (\<lambda>address.
     sum_bind (map_err ConnectDriver (deviceByAddress address)) (\<lambda>device.
     if \<not> isConnectionEligible device then Inl (ConnectNotEligible address)
     else Inr (bz_path device, address)))"

definition Connect_pending :: "string \<Rightarrow> string \<Rightarrow> nat \<Rightarrow> link_world \<Rightarrow> connect_err + link_world" where
  "Connect_pending path address n w =
     (let b = lw_broker w in
      if br_active b path \<noteq> None then Inl (AlreadyConnected address)
      else if br_waiters b path \<noteq> None then Inl (AlreadyConnecting address)
      else if br_connect_calls b path \<noteq> None then Inl (CallNotReturned address)
      else Inr (w\<lparr>lw_broker := b\<lparr>br_waiters := (br_waiters b)(path \<mapsto> n), br_connect_calls := (br_connect_calls b)(path \<mapsto> n)\<rparr>,
                  lw_pending := (lw_pending w)(n \<mapsto> (path, address)), lw_waiting := insert n (lw_waiting w)\<rparr>))"

text \<open>The goroutine around \<open>connectProfile\<close>, once that has returned.\<close>

definition call_returned :: "string \<Rightarrow> nat \<Rightarrow> link_world \<Rightarrow> link_world" where
  "call_returned path token w =
     (let b = lw_broker w in
      if br_connect_calls b path = Some token
      then w\<lparr>lw_broker := b\<lparr>br_connect_calls := (br_connect_calls b)(path := None)\<rparr>\<rparr> else w)"

text \<open>The two ways \<open>Connect\<close> returns: with the socket in the channel, or after \<open>cancelPending\<close>.\<close>

definition Connect_returns :: "nat \<Rightarrow> nat \<Rightarrow> link_world \<Rightarrow> link_world" where
  "Connect_returns n s w =
     w\<lparr>lw_channel := (lw_channel w)(n := None), lw_waiting := lw_waiting w - {n}, lw_returned := (lw_returned w)(n \<mapsto> s)\<rparr>"

definition cancelPending :: "string \<Rightarrow> string \<Rightarrow> nat \<Rightarrow> link_world \<Rightarrow> link_world" where
  "cancelPending path address n w =
     spawn [RemoveWaiter path n, DropResult n, SetState address False] (w\<lparr>lw_waiting := lw_waiting w - {n}\<rparr>)"

section \<open>What BlueZ calls\<close>

datatype rejection = BadDescriptor | NoPending | NotOwned

definition pending_address :: "link_world \<Rightarrow> nat \<Rightarrow> string" where
  "pending_address w n = (case lw_pending w n of None \<Rightarrow> [] | Some (_, a) \<Rightarrow> a)"

text \<open>\<open>owned\<close> tells whether the descriptor, when BlueZ sends a valid one, can be opened as a file; it is the socket \<open>s\<close>.\<close>

definition NewConnection :: "string \<Rightarrow> bool \<Rightarrow> bool \<Rightarrow> nat \<Rightarrow> link_world \<Rightarrow> rejection + link_world" where
  "NewConnection path valid owned s w =
     (let b = lw_broker w in
      if \<not> valid then Inl BadDescriptor
      else case br_waiters b path of
        None \<Rightarrow> Inl NoPending
      | Some n \<Rightarrow>
          if br_active b path \<noteq> None then Inl NoPending
          else if \<not> owned then Inl NotOwned
          else let address = pending_address w n in
            Inr (spawn [Deliver n s]
              (w\<lparr>lw_broker := b\<lparr>br_waiters := (br_waiters b)(path := None), br_active := (br_active b)(path \<mapsto> s),
                               br_states := (br_states b)(address \<mapsto> True)\<rparr>,
                 lw_sockets := (lw_sockets w)(s \<mapsto> (path, address))\<rparr>)))"

definition RequestDisconnection :: "string \<Rightarrow> link_world \<Rightarrow> link_world" where
  "RequestDisconnection path w =
     (case br_active (lw_broker w) path of None \<Rightarrow> w | Some s \<Rightarrow> spawn [CloseSocket s] w)"

definition socket_address :: "link_world \<Rightarrow> nat \<Rightarrow> string" where
  "socket_address w s = (case lw_sockets w s of None \<Rightarrow> [] | Some (_, a) \<Rightarrow> a)"

definition Release :: "nat list \<Rightarrow> link_world \<Rightarrow> link_world" where
  "Release sockets w =
     (let b = lw_broker w in
      spawn (map CloseSocket sockets)
        (w\<lparr>lw_broker := b\<lparr>br_registration := None, br_active := Map.empty,
             br_states := fold (\<lambda>s st. st(socket_address w s \<mapsto> False)) sockets (br_states b)\<rparr>\<rparr>))"

section \<open>Closing\<close>

text \<open>\<open>socket.close\<close>, which runs \<open>closeSocket\<close> once: the section under the lock.\<close>

definition closeSocket :: "nat \<Rightarrow> link_world \<Rightarrow> link_world" where
  "closeSocket s w =
     (if s \<in> lw_closed w then w
      else case lw_sockets w s of
        None \<Rightarrow> w
      | Some (path, address) \<Rightarrow>
          let b = lw_broker w in
          w\<lparr>lw_broker := b\<lparr>br_active := (if br_active b path = Some s then (br_active b)(path := None) else br_active b),
                           br_states := (br_states b)(address \<mapsto> False)\<rparr>,
            lw_closed := insert s (lw_closed w)\<rparr>)"

definition socket_Close :: "nat \<Rightarrow> link_world \<Rightarrow> link_world" where
  "socket_Close s w = spawn [CloseSocket s] w"

definition removeWaiter :: "string \<Rightarrow> nat \<Rightarrow> link_world \<Rightarrow> link_world" where
  "removeWaiter path n w =
     (let b = lw_broker w in
      if br_waiters b path = Some n then w\<lparr>lw_broker := b\<lparr>br_waiters := (br_waiters b)(path := None)\<rparr>\<rparr> else w)"

definition broker_setState :: "string \<Rightarrow> bool \<Rightarrow> link_world \<Rightarrow> link_world" where
  "broker_setState address up w =
     w\<lparr>lw_broker := (lw_broker w)\<lparr>br_states := (br_states (lw_broker w))(address \<mapsto> up)\<rparr>\<rparr>"

text \<open>\<open>Disconnect\<close>, on the device that BlueZ has found for the address; \<open>disconnectProfile\<close> has no effect here.\<close>

definition profile_Disconnect :: "string \<Rightarrow> string \<Rightarrow> link_world \<Rightarrow> link_world" where
  "profile_Disconnect path address w =
     spawn ((case br_active (lw_broker w) path of None \<Rightarrow> [] | Some s \<Rightarrow> [CloseSocket s]) @ [SetState address False]) w"

definition ConnectionState :: "string \<Rightarrow> link_world \<Rightarrow> bool option" where
  "ConnectionState address w =
     (case normalizeAddress address of Inl _ \<Rightarrow> None | Inr a \<Rightarrow> br_states (lw_broker w) a)"

section \<open>Goroutines\<close>

text \<open>One section of a goroutine: the state after it, and what is left of it.\<close>

fun run_task :: "task \<Rightarrow> task list \<Rightarrow> link_world \<Rightarrow> task list \<times> link_world" where
  "run_task (RemoveWaiter path n) rest w = (rest, removeWaiter path n w)"
| "run_task (DropResult n) rest w =
     (case lw_channel w n of
        None \<Rightarrow> (rest, w)
      | Some s \<Rightarrow> (CloseSocket s # rest, w\<lparr>lw_channel := (lw_channel w)(n := None)\<rparr>))"
| "run_task (SetState address up) rest w = (rest, broker_setState address up w)"
| "run_task (CloseSocket s) rest w = (rest, closeSocket s w)"
| "run_task (Deliver n s) rest w = (rest, w\<lparr>lw_channel := (lw_channel w)(n \<mapsto> s)\<rparr>)"

inductive link_step :: "link_world \<Rightarrow> link_world \<Rightarrow> bool" where
  registered: "distinct stale \<Longrightarrow> set stale = ran (br_active (lw_broker w)) \<Longrightarrow> link_step w (ensureRegistered r stale w)"
| connect: "connect_device deviceByAddress input = Inr (path, address) \<Longrightarrow> n \<notin> dom (lw_pending w) \<Longrightarrow>
    Connect_pending path address n w = Inr w' \<Longrightarrow> link_step w w'"
| call: "lw_pending w n = Some (path, address) \<Longrightarrow> link_step w (call_returned path n w)"
| returns: "n \<in> lw_waiting w \<Longrightarrow> lw_channel w n = Some s \<Longrightarrow> link_step w (Connect_returns n s w)"
| gives_up: "n \<in> lw_waiting w \<Longrightarrow> lw_pending w n = Some (path, address) \<Longrightarrow> link_step w (cancelPending path address n w)"
| arrives: "s \<notin> dom (lw_sockets w) \<Longrightarrow> NewConnection path valid owned s w = Inr w' \<Longrightarrow> link_step w w'"
| drops: "link_step w (RequestDisconnection path w)"
| releases: "distinct ss \<Longrightarrow> set ss = ran (br_active (lw_broker w)) \<Longrightarrow> link_step w (Release ss w)"
| closes: "s \<in> ran (lw_returned w) \<Longrightarrow> link_step w (socket_Close s w)"
| disconnects: "normalizeAddress input = Inr address \<Longrightarrow> link_step w (profile_Disconnect path address w)"
| runs: "lw_tasks w = before @ (t # rest) # behind \<Longrightarrow> run_task t rest w = (left, w') \<Longrightarrow>
    link_step w (w'\<lparr>lw_tasks := before @ left # behind\<rparr>)"

text \<open>
  The wait of \<open>Connect\<close>: one thing that wakes one of its two \<open>select\<close> statements. \<open>receiveNow\<close> looks into the
  channel when the call has answered; a call without an error waits on for the socket or the end of the
  context, so each wake either ends \<open>Connect\<close> or leaves it waiting.
\<close>

datatype wake = ResultThere | CallAnswered "string option" | ContextDone string

datatype connect_end = StillWaiting | WithSocket nat link_world | WithError string link_world

definition receiveNow :: "nat \<Rightarrow> link_world \<Rightarrow> nat option" where
  "receiveNow n w = lw_channel w n"

definition connect_failed :: "string \<Rightarrow> string \<Rightarrow> string" where
  "connect_failed address e = ''connect SPP profile for '' @ address @ '': '' @ e"

definition Connect_wakes :: "wake \<Rightarrow> string \<Rightarrow> string \<Rightarrow> nat \<Rightarrow> link_world \<Rightarrow> connect_end" where
  "Connect_wakes ev path address n w =
     (let give_up = (\<lambda>e. WithError (connect_failed address e) (cancelPending path address n w));
          result = (\<lambda>none. case receiveNow n w of Some s \<Rightarrow> WithSocket s (Connect_returns n s w) | None \<Rightarrow> none) in
      case ev of
        ResultThere \<Rightarrow> result StillWaiting
      | CallAnswered None \<Rightarrow> result StillWaiting
      | CallAnswered (Some e) \<Rightarrow> result (give_up e)
      | ContextDone e \<Rightarrow> give_up e)"

definition end_world :: "link_world \<Rightarrow> connect_end \<Rightarrow> link_world" where
  "end_world w r = (case r of StillWaiting \<Rightarrow> w | WithSocket _ w' \<Rightarrow> w' | WithError _ w' \<Rightarrow> w')"

text \<open>Each is no step, or one of the steps \<open>returns\<close> and \<open>gives_up\<close>; a socket that is there when the call fails is not lost.\<close>

lemma wakes_are_steps:
  assumes "n \<in> lw_waiting w" "lw_pending w n = Some (path, address)"
  shows "link_step\<^sup>=\<^sup>= w (end_world w (Connect_wakes ev path address n w))"
  using link_step.returns [OF assms(1)] link_step.gives_up [OF assms]
  by (auto simp: Connect_wakes_def end_world_def receiveNow_def Let_def split: wake.split option.split)

lemma ready_socket_wins:
  "lw_channel w n = Some s \<Longrightarrow> Connect_wakes (CallAnswered ce) path address n w = WithSocket s (Connect_returns n s w)"
  by (cases ce) (simp_all add: Connect_wakes_def receiveNow_def)

lemma failed_connect_stops_waiting:
  "Connect_wakes ev path address n w = WithError e w' \<Longrightarrow> n \<notin> lw_waiting w'"
  by (auto simp: Connect_wakes_def cancelPending_def spawn_def Let_def split: wake.split_asm option.split_asm)

definition reachable_link :: "link_world \<Rightarrow> bool" where
  "reachable_link = link_step\<^sup>*\<^sup>* newLinkWorld"

section \<open>Invariants\<close>

definition todo :: "link_world \<Rightarrow> task set" where
  "todo w = (\<Union>tasks \<in> set (lw_tasks w). set tasks)"

text \<open>
  Open sockets can be closed and links that are reported up are open; \<open>T\<close> is what the goroutines still do.
\<close>

definition sockets_ok :: "task set \<Rightarrow> link_world \<Rightarrow> bool" where
  "sockets_ok T w \<longleftrightarrow>
     (\<forall>p s. br_active (lw_broker w) p = Some s \<longrightarrow> (\<exists>a. lw_sockets w s = Some (p, a)) \<and> s \<notin> lw_closed w) \<and>
     (\<forall>p a s. lw_sockets w s = Some (p, a) \<longrightarrow> s \<notin> lw_closed w \<longrightarrow>
        br_active (lw_broker w) p = Some s \<or> CloseSocket s \<in> T) \<and>
     (\<forall>a. br_states (lw_broker w) a = Some True \<longrightarrow> (\<exists>s p. lw_sockets w s = Some (p, a) \<and> s \<notin> lw_closed w)) \<and>
     (\<forall>a. SetState a True \<notin> T) \<and>
     lw_closed w \<subseteq> dom (lw_sockets w)"

text \<open>The socket \<open>s\<close> is on its way to the connect \<open>n\<close>, or was returned by it.\<close>

definition given :: "task set \<Rightarrow> link_world \<Rightarrow> nat \<Rightarrow> nat \<Rightarrow> bool" where
  "given T w n s \<longleftrightarrow> lw_channel w n = Some s \<or> lw_returned w n = Some s \<or> Deliver n s \<in> T"

definition routing_ok :: "task set \<Rightarrow> link_world \<Rightarrow> bool" where
  "routing_ok T w \<longleftrightarrow>
     (\<forall>p n. br_waiters (lw_broker w) p = Some n \<longrightarrow> (\<exists>a. lw_pending w n = Some (p, a)) \<and> (\<forall>s. \<not> given T w n s)) \<and>
     (\<forall>n s. given T w n s \<longrightarrow> lw_sockets w s \<noteq> None \<and> lw_pending w n = lw_sockets w s) \<and>
     (\<forall>n s s'. given T w n s \<longrightarrow> given T w n s' \<longrightarrow> s = s') \<and>
     (\<forall>n n' s. given T w n s \<longrightarrow> given T w n' s \<longrightarrow> n = n')"

lemma todo_spawn [simp]: "todo (spawn tasks w) = set tasks \<union> todo w"
  by (simp add: todo_def spawn_def)

lemma spawn_simps [simp]:
  "lw_broker (spawn tasks w) = lw_broker w" "lw_pending (spawn tasks w) = lw_pending w"
  "lw_channel (spawn tasks w) = lw_channel w" "lw_waiting (spawn tasks w) = lw_waiting w"
  "lw_sockets (spawn tasks w) = lw_sockets w" "lw_closed (spawn tasks w) = lw_closed w"
  "lw_returned (spawn tasks w) = lw_returned w"
  by (simp_all add: spawn_def)

lemma todo_simps [simp]:
  "todo (w\<lparr>lw_broker := b\<rparr>) = todo w" "todo (w\<lparr>lw_pending := p\<rparr>) = todo w" "todo (w\<lparr>lw_channel := c\<rparr>) = todo w"
  "todo (w\<lparr>lw_waiting := q\<rparr>) = todo w" "todo (w\<lparr>lw_sockets := so\<rparr>) = todo w" "todo (w\<lparr>lw_closed := cl\<rparr>) = todo w"
  "todo (w\<lparr>lw_returned := re\<rparr>) = todo w"
  by (simp_all add: todo_def)

lemma todo_tasks: "todo (w\<lparr>lw_tasks := before @ l # behind\<rparr>) = set l \<union> (\<Union>tasks \<in> set (before @ behind). set tasks)"
  by (auto simp: todo_def)

lemma ok_tasks [simp]:
  "sockets_ok T (w\<lparr>lw_tasks := l\<rparr>) = sockets_ok T w" "routing_ok T (w\<lparr>lw_tasks := l\<rparr>) = routing_ok T w"
  "given T (w\<lparr>lw_tasks := l\<rparr>) = given T w"
  by (simp_all add: sockets_ok_def routing_ok_def given_def fun_eq_iff)

lemma sockets_okI:
  assumes "\<And>p s. br_active (lw_broker w) p = Some s \<Longrightarrow> \<exists>a. lw_sockets w s = Some (p, a)"
    "\<And>p s. br_active (lw_broker w) p = Some s \<Longrightarrow> s \<notin> lw_closed w"
    "\<And>p a s. lw_sockets w s = Some (p, a) \<Longrightarrow> s \<notin> lw_closed w \<Longrightarrow> br_active (lw_broker w) p = Some s \<or> CloseSocket s \<in> T"
    "\<And>a. br_states (lw_broker w) a = Some True \<Longrightarrow> \<exists>s p. lw_sockets w s = Some (p, a) \<and> s \<notin> lw_closed w"
    "\<And>a. SetState a True \<notin> T" "lw_closed w \<subseteq> dom (lw_sockets w)"
  shows "sockets_ok T w"
  unfolding sockets_ok_def by (intro conjI allI impI) (use assms in blast)+

lemma sockets_okD:
  assumes "sockets_ok T w"
  shows "br_active (lw_broker w) p = Some s \<Longrightarrow> \<exists>a. lw_sockets w s = Some (p, a)"
    "br_active (lw_broker w) p = Some s \<Longrightarrow> s \<notin> lw_closed w"
    "lw_sockets w s = Some (p, a) \<Longrightarrow> s \<notin> lw_closed w \<Longrightarrow> br_active (lw_broker w) p = Some s \<or> CloseSocket s \<in> T"
    "br_states (lw_broker w) a = Some True \<Longrightarrow> \<exists>s p. lw_sockets w s = Some (p, a) \<and> s \<notin> lw_closed w"
    "SetState a True \<notin> T" "lw_closed w \<subseteq> dom (lw_sockets w)"
  using assms unfolding sockets_ok_def by blast+

text \<open>Steps that leave sockets alone.\<close>

lemma sockets_frame:
  assumes "sockets_ok T w" "lw_sockets w' = lw_sockets w" "lw_closed w' = lw_closed w"
    and "br_active (lw_broker w') = br_active (lw_broker w)"
    and "\<And>a. br_states (lw_broker w') a = Some True \<Longrightarrow> br_states (lw_broker w) a = Some True"
    and "\<And>s. CloseSocket s \<in> T \<Longrightarrow> CloseSocket s \<in> T'" "\<And>a. SetState a True \<notin> T'"
  shows "sockets_ok T' w'"
  by (rule sockets_okI) (use assms(2-) sockets_okD [OF assms(1)] in \<open>metis\<close>)+

lemma routing_okI:
  assumes "\<And>p n. br_waiters (lw_broker w) p = Some n \<Longrightarrow> \<exists>a. lw_pending w n = Some (p, a)"
    "\<And>p n s. br_waiters (lw_broker w) p = Some n \<Longrightarrow> \<not> given T w n s"
    "\<And>n s. given T w n s \<Longrightarrow> lw_sockets w s \<noteq> None \<and> lw_pending w n = lw_sockets w s"
    "\<And>n s s'. given T w n s \<Longrightarrow> given T w n s' \<Longrightarrow> s = s'"
    "\<And>n n' s. given T w n s \<Longrightarrow> given T w n' s \<Longrightarrow> n = n'"
  shows "routing_ok T w"
  unfolding routing_ok_def by (intro conjI allI impI) (use assms in blast)+

lemma routing_okD:
  assumes "routing_ok T w"
  shows "br_waiters (lw_broker w) p = Some n \<Longrightarrow> \<exists>a. lw_pending w n = Some (p, a)"
    "br_waiters (lw_broker w) p = Some n \<Longrightarrow> \<not> given T w n s"
    "given T w n s \<Longrightarrow> lw_sockets w s \<noteq> None" "given T w n s \<Longrightarrow> lw_pending w n = lw_sockets w s"
    "given T w n s \<Longrightarrow> given T w n s' \<Longrightarrow> s = s'"
    "given T w n s \<Longrightarrow> given T w n' s \<Longrightarrow> n = n'"
  using assms unfolding routing_ok_def by blast+

lemma routing_frame:
  assumes ok: "routing_ok T w" and so: "lw_sockets w' = lw_sockets w" and pe: "lw_pending w' = lw_pending w"
    and wa: "\<And>p n. br_waiters (lw_broker w') p = Some n \<Longrightarrow> br_waiters (lw_broker w) p = Some n"
    and gi: "\<And>n s. given T' w' n s \<Longrightarrow> given T w n s"
  shows "routing_ok T' w'"
proof (rule routing_okI)
  show "\<exists>a. lw_pending w' n = Some (p, a)" if "br_waiters (lw_broker w') p = Some n" for p n
    using routing_okD(1) [OF ok wa [OF that]] by (simp add: pe)
  show "\<not> given T' w' n s" if "br_waiters (lw_broker w') p = Some n" for p n s
    using routing_okD(2) [OF ok wa [OF that]] gi by blast
  show "lw_sockets w' s \<noteq> None \<and> lw_pending w' n = lw_sockets w' s" if "given T' w' n s" for n s
    using routing_okD(3,4) [OF ok gi [OF that]] by (simp add: so pe)
  show "s = s'" if "given T' w' n s" "given T' w' n s'" for n s s'
    using routing_okD(5) [OF ok gi [OF that(1)] gi [OF that(2)]] .
  show "n = n'" if "given T' w' n s" "given T' w' n' s" for n n' s
    using routing_okD(6) [OF ok gi [OF that(1)] gi [OF that(2)]] .
qed

lemma closeSocket_frame:
  "lw_channel (closeSocket s w) = lw_channel w" "lw_returned (closeSocket s w) = lw_returned w"
  "lw_pending (closeSocket s w) = lw_pending w" "lw_sockets (closeSocket s w) = lw_sockets w"
  "br_waiters (lw_broker (closeSocket s w)) = br_waiters (lw_broker w)"
  by (auto simp: closeSocket_def Let_def split: option.split)

lemma closeSocket_sockets:
  assumes "sockets_ok (insert (CloseSocket s) T) w" shows "sockets_ok T (closeSocket s w)"
proof (cases "s \<in> lw_closed w \<or> lw_sockets w s = None")
  case True
  then have "closeSocket s w = w" by (auto simp: closeSocket_def)
  moreover have "sockets_ok T w"
  proof (rule sockets_okI)
    show "br_active (lw_broker w) p = Some u \<or> CloseSocket u \<in> T" if "lw_sockets w u = Some (p, a)" "u \<notin> lw_closed w" for p a u
      using sockets_okD(3) [OF assms that] True that by auto
  qed (use sockets_okD [OF assms] in blast)+
  ultimately show ?thesis by simp
next
  case False
  then obtain p a where pa: "lw_sockets w s = Some (p, a)" "s \<notin> lw_closed w" by auto
  note ok = sockets_okD [OF assms]
  have w': "closeSocket s w = w\<lparr>lw_broker := (lw_broker w)
      \<lparr>br_active := (if br_active (lw_broker w) p = Some s then (br_active (lw_broker w))(p := None) else br_active (lw_broker w)),
       br_states := (br_states (lw_broker w))(a \<mapsto> False)\<rparr>, lw_closed := insert s (lw_closed w)\<rparr>"
    using pa by (simp add: closeSocket_def Let_def)
  show ?thesis
  proof (rule sockets_okI)
    fix q u assume "br_active (lw_broker (closeSocket s w)) q = Some u"
    then have q: "br_active (lw_broker w) q = Some u" "\<not> (q = p \<and> u = s)" by (auto simp: w' split: if_split_asm)
    then show "\<exists>a. lw_sockets (closeSocket s w) u = Some (q, a)" using ok(1) by (simp add: w')
    show "u \<notin> lw_closed (closeSocket s w)" using q ok(1,2) pa by (force simp: w')
  next
    fix q b u assume u: "lw_sockets (closeSocket s w) u = Some (q, b)" "u \<notin> lw_closed (closeSocket s w)"
    then show "br_active (lw_broker (closeSocket s w)) q = Some u \<or> CloseSocket u \<in> T"
      using ok(3) [of u q b] by (auto simp: w')
  next
    fix b assume b: "br_states (lw_broker (closeSocket s w)) b = Some True"
    then have "b \<noteq> a" "br_states (lw_broker w) b = Some True" by (auto simp: w' split: if_split_asm)
    then obtain u q where "lw_sockets w u = Some (q, b)" "u \<notin> lw_closed w" using ok(4) by blast
    moreover have "u \<noteq> s" using calculation(1) pa(1) \<open>b \<noteq> a\<close> by auto
    ultimately show "\<exists>u q. lw_sockets (closeSocket s w) u = Some (q, b) \<and> u \<notin> lw_closed (closeSocket s w)"
      by (auto simp: w')
  qed (use ok pa in \<open>auto simp: w'\<close>)
qed

lemma run_task_sockets:
  assumes "run_task t rest w = (left, w')" "sockets_ok (insert t (set rest \<union> T)) w"
  shows "sockets_ok (set left \<union> T) w'"
proof (cases t)
  case (CloseSocket s)
  then show ?thesis using assms closeSocket_sockets by auto
qed (rule sockets_frame [OF assms(2)]; use assms sockets_okD(5) [OF assms(2)] in
    \<open>auto simp: broker_setState_def removeWaiter_def Let_def split: option.split_asm if_split_asm\<close>)+

lemma run_task_routing:
  assumes "run_task t rest w = (left, w')" "routing_ok (insert t (set rest \<union> T)) w"
  shows "routing_ok (set left \<union> T) w'"
proof (cases t)
  case (CloseSocket s)
  then have "left = rest" "w' = closeSocket s w" using assms(1) by auto
  then show ?thesis
    using assms(2) closeSocket_frame by (intro routing_frame [OF assms(2)]) (auto simp: given_def)
qed (rule routing_frame [OF assms(2)]; use assms(1) in
    \<open>auto simp: given_def broker_setState_def removeWaiter_def Let_def split: option.split_asm if_split_asm\<close>)+

section \<open>Every step keeps them\<close>

lemma NewConnection_cases:
  assumes "NewConnection path valid owned s w = Inr w'"
  obtains n where "br_waiters (lw_broker w) path = Some n" "br_active (lw_broker w) path = None"
    "w' = spawn [Deliver n s] (w\<lparr>lw_broker := (lw_broker w)\<lparr>br_waiters := (br_waiters (lw_broker w))(path := None),
         br_active := (br_active (lw_broker w))(path \<mapsto> s),
         br_states := (br_states (lw_broker w))(pending_address w n \<mapsto> True)\<rparr>,
       lw_sockets := (lw_sockets w)(s \<mapsto> (path, pending_address w n))\<rparr>)"
  using assms by (auto simp: NewConnection_def Let_def split: if_split_asm option.split_asm)

lemma Connect_pending_cases:
  assumes "Connect_pending path address n w = Inr w'"
  shows "br_active (lw_broker w) path = None" "br_waiters (lw_broker w) path = None"
    "w' = w\<lparr>lw_broker := (lw_broker w)\<lparr>br_waiters := (br_waiters (lw_broker w))(path \<mapsto> n),
              br_connect_calls := (br_connect_calls (lw_broker w))(path \<mapsto> n)\<rparr>,
            lw_pending := (lw_pending w)(n \<mapsto> (path, address)), lw_waiting := insert n (lw_waiting w)\<rparr>"
  using assms by (auto simp: Connect_pending_def Let_def split: if_split_asm)

lemma NewConnection_sockets:
  assumes ok: "sockets_ok T w" and s: "s \<notin> dom (lw_sockets w)" and n: "NewConnection path valid owned s w = Inr w'"
  shows "sockets_ok (insert (Deliver n s) T) w'"
proof -
  note ok = sockets_okD [OF ok]
  obtain n where w': "br_active (lw_broker w) path = None"
    "w' = spawn [Deliver n s] (w\<lparr>lw_broker := (lw_broker w)\<lparr>br_waiters := (br_waiters (lw_broker w))(path := None),
         br_active := (br_active (lw_broker w))(path \<mapsto> s),
         br_states := (br_states (lw_broker w))(pending_address w n \<mapsto> True)\<rparr>,
       lw_sockets := (lw_sockets w)(s \<mapsto> (path, pending_address w n))\<rparr>)"
    using NewConnection_cases [OF n] by metis
  define a where "a = pending_address w n"
  have s: "lw_sockets w s = None" "s \<notin> lw_closed w" using s ok(6) by auto
  note w' = w' [folded a_def]
  show ?thesis
  proof (rule sockets_okI)
    show "\<exists>b. lw_sockets w' u = Some (p, b)" if "br_active (lw_broker w') p = Some u" for p u
    proof (cases "p = path")
      case False
      then have "br_active (lw_broker w) p = Some u" using that by (simp add: w')
      then show ?thesis using ok(1) [of p u] s by (auto simp: w')
    qed (use that in \<open>simp add: w'\<close>)
    show "u \<notin> lw_closed w'" if "br_active (lw_broker w') p = Some u" for p u
      using that ok(2) [of p u] s by (auto simp: w' split: if_split_asm)
    show "br_active (lw_broker w') p = Some u \<or> CloseSocket u \<in> insert (Deliver n' s) T"
      if "lw_sockets w' u = Some (p, b)" "u \<notin> lw_closed w'" for p b u n'
      using that ok(3) [of u p b] w'(1) by (auto simp: w'(2) split: if_split_asm)
    show "\<exists>u p. lw_sockets w' u = Some (p, b) \<and> u \<notin> lw_closed w'" if "br_states (lw_broker w') b = Some True" for b
    proof (cases "b = a")
      case True
      then show ?thesis using s by (auto simp: w'(2))
    next
      case False
      then have "br_states (lw_broker w) b = Some True" using that by (simp add: w'(2))
      from ok(4) [OF this] obtain u p where "lw_sockets w u = Some (p, b)" "u \<notin> lw_closed w" by blast
      moreover have "u \<noteq> s" using calculation s by auto
      ultimately show ?thesis by (auto simp: w'(2))
    qed
    show "lw_closed w' \<subseteq> dom (lw_sockets w')" using ok(6) by (auto simp: w'(2))
  qed (use ok(5) in auto)
qed

lemma cleared_states: "fold (\<lambda>s st. st(f s \<mapsto> False)) ss st a = (if a \<in> f ` set ss then Some False else st a)"
  by (induction ss arbitrary: st) auto

lemma step_sockets:
  assumes "link_step w w'" "sockets_ok (todo w) w" shows "sockets_ok (todo w') w'"
  using assms
proof (induction rule: link_step.induct)
  case (registered stale w r)
  show ?case
  proof (cases "replaced r (lw_broker w)")
    case True
    show ?thesis
    proof (rule sockets_okI)
      fix p a s assume "lw_sockets (ensureRegistered r stale w) s = Some (p, a)" "s \<notin> lw_closed (ensureRegistered r stale w)"
      then have "br_active (lw_broker w) p = Some s \<or> CloseSocket s \<in> todo w"
        using True sockets_okD(3) [OF registered(3)] by (simp add: ensureRegistered_def Let_def)
      then show "br_active (lw_broker (ensureRegistered r stale w)) p = Some s \<or> CloseSocket s \<in> todo (ensureRegistered r stale w)"
        using True registered(2) by (auto simp: ensureRegistered_def Let_def ran_def)
    qed (use True sockets_okD [OF registered(3)] in \<open>auto simp: ensureRegistered_def Let_def\<close>)
  next
    case False
    then show ?thesis
      by (intro sockets_frame [OF registered(3)]) (use sockets_okD(5) [OF registered(3)] in \<open>auto simp: ensureRegistered_def Let_def\<close>)
  qed
next
  case (connect deviceByAddress input path address n w w')
  then show ?case
    by (intro sockets_frame [OF connect(4)])
      (use sockets_okD(5) [OF connect(4)] in \<open>auto simp: Connect_pending_cases(3) [OF connect(3)]\<close>)
next
  case (call w n path address)
  then show ?case
    by (intro sockets_frame [OF call(2)]) (use sockets_okD(5) [OF call(2)] in \<open>auto simp: call_returned_def Let_def split: if_split_asm\<close>)
next
  case (returns n w s)
  then show ?case
    by (intro sockets_frame [OF returns(3)]) (use sockets_okD(5) [OF returns(3)] in \<open>auto simp: Connect_returns_def\<close>)
next
  case (gives_up n w path address)
  then show ?case
    by (intro sockets_frame [OF gives_up(3)]) (use sockets_okD(5) [OF gives_up(3)] in \<open>auto simp: cancelPending_def\<close>)
next
  case (arrives s w path valid owned w')
  show ?case
  proof (rule NewConnection_cases [OF arrives(2)])
    fix n assume "w' = spawn [Deliver n s] (w\<lparr>lw_broker := (lw_broker w)\<lparr>br_waiters := (br_waiters (lw_broker w))(path := None),
         br_active := (br_active (lw_broker w))(path \<mapsto> s),
         br_states := (br_states (lw_broker w))(pending_address w n \<mapsto> True)\<rparr>,
       lw_sockets := (lw_sockets w)(s \<mapsto> (path, pending_address w n))\<rparr>)"
    then have "todo w' = insert (Deliver n s) (todo w)" by simp
    then show ?case using NewConnection_sockets [OF arrives(3,1,2)] by simp
  qed
next
  case (drops w path)
  then show ?case
    by (intro sockets_frame [OF drops]) (use sockets_okD(5) [OF drops] in \<open>auto simp: RequestDisconnection_def split: option.split option.split_asm\<close>)
next
  case (releases ss w)
  have states: "fold (\<lambda>s st. st(socket_address w s \<mapsto> False)) ss (br_states (lw_broker w)) a = Some True \<Longrightarrow>
      br_states (lw_broker w) a = Some True" for a
    by (auto simp: cleared_states split: if_split_asm)
  show ?case
  proof (rule sockets_okI)
    fix p a s assume "lw_sockets (Release ss w) s = Some (p, a)" "s \<notin> lw_closed (Release ss w)"
    then have "br_active (lw_broker w) p = Some s \<or> CloseSocket s \<in> todo w"
      using sockets_okD(3) [OF releases(3)] by (simp add: Release_def Let_def)
    then show "br_active (lw_broker (Release ss w)) p = Some s \<or> CloseSocket s \<in> todo (Release ss w)"
      using releases(2) by (auto simp: Release_def Let_def ran_def)
  qed (use sockets_okD [OF releases(3)] in \<open>auto simp: Release_def Let_def dest: states\<close>)
next
  case (closes s w)
  then show ?case
    by (intro sockets_frame [OF closes(2)]) (use sockets_okD(5) [OF closes(2)] in \<open>auto simp: socket_Close_def\<close>)
next
  case (disconnects input address w path)
  then show ?case
    by (intro sockets_frame [OF disconnects(2)])
      (use sockets_okD(5) [OF disconnects(2)] in \<open>auto simp: profile_Disconnect_def split: option.split\<close>)
next
  case (runs w before t rest behind left w')
  have "todo w = insert t (set rest \<union> (\<Union>tasks \<in> set (before @ behind). set tasks))" using runs(1) by (auto simp: todo_def)
  then show ?case using run_task_sockets [OF runs(2)] runs(3) by (simp add: todo_tasks)
qed

lemma given_weaker: "given T w n s \<Longrightarrow> T \<subseteq> T' \<Longrightarrow> given T' w n s"
  by (auto simp: given_def)

lemma NewConnection_routing:
  assumes ok: "routing_ok T w" and s: "s \<notin> dom (lw_sockets w)" and n: "NewConnection path valid owned s w = Inr w'"
    and "d = Deliver m s" "br_waiters (lw_broker w) path = Some m"
  shows "routing_ok (insert d T) w'"
proof -
  note ok = routing_okD [OF ok]
  obtain a where a: "lw_pending w m = Some (path, a)" using ok(1) assms(5) by blast
  have w': "w' = spawn [Deliver m s] (w\<lparr>lw_broker := (lw_broker w)\<lparr>br_waiters := (br_waiters (lw_broker w))(path := None),
         br_active := (br_active (lw_broker w))(path \<mapsto> s), br_states := (br_states (lw_broker w))(a \<mapsto> True)\<rparr>,
       lw_sockets := (lw_sockets w)(s \<mapsto> (path, a))\<rparr>)"
    by (rule NewConnection_cases [OF n]) (use assms(5) a in \<open>simp add: pending_address_def\<close>)
  have g: "given (insert d T) w' n u \<longleftrightarrow> given T w n u \<or> (n = m \<and> u = s)" for n u
    by (auto simp: given_def w' assms(4))
  have new: "\<not> given T w n s" for n using ok(3) s by blast
  have free: "\<not> given T w m u" for u using ok(2) assms(5) by blast
  show ?thesis
  proof (rule routing_okI)
    show "\<exists>b. lw_pending w' n = Some (p, b)" if "br_waiters (lw_broker w') p = Some n" for p n
      using that ok(1) [of p n] by (simp add: w' split: if_split_asm)
    show "\<not> given (insert d T) w' n u" if "br_waiters (lw_broker w') p = Some n" for p n u
    proof -
      have p: "p \<noteq> path" "br_waiters (lw_broker w) p = Some n" using that by (auto simp: w' split: if_split_asm)
      then have "n \<noteq> m" using ok(1) [of p n] a by auto
      then show ?thesis using ok(2) [OF p(2)] g by blast
    qed
    show "lw_sockets w' u \<noteq> None \<and> lw_pending w' n = lw_sockets w' u" if "given (insert d T) w' n u" for n u
    proof (cases "n = m \<and> u = s")
      case True
      then show ?thesis using a by (simp add: w')
    next
      case False
      then have "given T w n u" using that g by blast
      moreover from this have "u \<noteq> s" using new by blast
      ultimately show ?thesis using ok(3,4) by (simp add: w')
    qed
    show "u = u'" if "given (insert d T) w' n u" "given (insert d T) w' n u'" for n u u'
      using that g free ok(5) by metis
    show "n = n'" if "given (insert d T) w' n u" "given (insert d T) w' n' u" for n n' u
      using that g new ok(6) by metis
  qed
qed

lemma step_routing:
  assumes "link_step w w'" "routing_ok (todo w) w" shows "routing_ok (todo w') w'"
  using assms
proof (induction rule: link_step.induct)
  case (registered stale w r)
  then show ?case
    by (intro routing_frame [OF registered(3)]) (auto simp: ensureRegistered_def Let_def given_def split: if_split_asm)
next
  case (connect deviceByAddress input path address n w w')
  note ok = routing_okD [OF connect(4)]
  note w' = Connect_pending_cases(3) [OF connect(3)]
  have unused: "\<not> given (todo w) w n s" for s using ok(3,4) [of n s] connect(2) by force
  have g: "given (todo w') w' = given (todo w) w" by (simp add: w' given_def fun_eq_iff)
  show ?case
  proof (rule routing_okI)
    show "\<exists>a. lw_pending w' m = Some (p, a)" if "br_waiters (lw_broker w') p = Some m" for p m
      using that ok(1) [of p m] connect(2) by (auto simp: w' split: if_split_asm)
    show "\<not> given (todo w') w' m s" if "br_waiters (lw_broker w') p = Some m" for p m s
      using that ok(2) [of p m s] unused g by (auto simp: w' split: if_split_asm)
    show "lw_sockets w' s \<noteq> None \<and> lw_pending w' m = lw_sockets w' s" if "given (todo w') w' m s" for m s
    proof -
      have "given (todo w) w m s" using that g by metis
      moreover from this have "m \<noteq> n" using unused by blast
      ultimately show ?thesis using ok(3,4) by (simp add: w')
    qed
  qed (use g ok(5,6) in metis)+
next
  case (call w n path address)
  then show ?case
    by (intro routing_frame [OF call(2)]) (auto simp: call_returned_def Let_def given_def split: if_split_asm)
next
  case (returns n w s)
  then show ?case
    by (intro routing_frame [OF returns(3)]) (auto simp: Connect_returns_def given_def split: if_split_asm)
next
  case (gives_up n w path address)
  then show ?case
    by (intro routing_frame [OF gives_up(3)]) (auto simp: cancelPending_def given_def)
next
  case (arrives s w path valid owned w')
  show ?case
  proof (rule NewConnection_cases [OF arrives(2)])
    fix n assume n: "br_waiters (lw_broker w) path = Some n"
      and w': "w' = spawn [Deliver n s] (w\<lparr>lw_broker := (lw_broker w)\<lparr>br_waiters := (br_waiters (lw_broker w))(path := None),
         br_active := (br_active (lw_broker w))(path \<mapsto> s),
         br_states := (br_states (lw_broker w))(pending_address w n \<mapsto> True)\<rparr>,
       lw_sockets := (lw_sockets w)(s \<mapsto> (path, pending_address w n))\<rparr>)"
    then have "todo w' = insert (Deliver n s) (todo w)" by simp
    then show ?case using NewConnection_routing [OF arrives(3,1,2) refl n] by simp
  qed
next
  case (drops w path)
  then show ?case
    by (intro routing_frame [OF drops])
      (auto simp: RequestDisconnection_def given_def split: option.split option.split_asm)
next
  case (releases ss w)
  then show ?case by (intro routing_frame [OF releases(3)]) (auto simp: Release_def Let_def given_def)
next
  case (closes s w)
  then show ?case by (intro routing_frame [OF closes(2)]) (auto simp: socket_Close_def given_def)
next
  case (disconnects input address w path)
  then show ?case
    by (intro routing_frame [OF disconnects(2)]) (auto simp: profile_Disconnect_def given_def split: option.split_asm)
next
  case (runs w before t rest behind left w')
  have "todo w = insert t (set rest \<union> (\<Union>tasks \<in> set (before @ behind). set tasks))" using runs(1) by (auto simp: todo_def)
  then show ?case using run_task_routing [OF runs(2)] runs(3) by (simp add: todo_tasks)
qed

lemma new_link_world_ok: "sockets_ok (todo newLinkWorld) newLinkWorld" "routing_ok (todo newLinkWorld) newLinkWorld"
  by (simp_all add: sockets_ok_def routing_ok_def given_def newLinkWorld_def newProfileBroker_def todo_def)

lemma reachable_link_ok:
  assumes "reachable_link w" shows "sockets_ok (todo w) w" "routing_ok (todo w) w"
proof -
  have *: "link_step\<^sup>*\<^sup>* newLinkWorld w" using assms by (simp add: reachable_link_def)
  show "sockets_ok (todo w) w"
    using * by (induction rule: rtranclp_induct) (blast intro: new_link_world_ok step_sockets)+
  show "routing_ok (todo w) w"
    using * by (induction rule: rtranclp_induct) (blast intro: new_link_world_ok step_routing)+
qed

end
