(* ===== verification/PlatformDrivers.thy ===== *)
theory PlatformDrivers
  imports LinuxDriver
begin

text \<open>
  The other platform drivers: \<open>internal/platform/darwin/driver.go\<close>, \<open>UnimplementedDriver\<close> of
  \<open>internal/platform/driver.go\<close>, which Windows uses unchanged, and the contract of the link checks that
  the workers rely on. What \<open>system_profiler\<close> prints, decoded, the device nodes and \<open>os.Stat\<close> are arguments.
\<close>

section \<open>Paired devices on macOS\<close>

record paired_device =
  pd_name :: string
  pd_address :: string
  pd_minor_type :: string
  pd_connected :: bool

text \<open>
  A section of the document maps keys to lists of maps from a name to an address and a type; a value that
  is not such a list is \<open>None\<close>. The loop visits the two keys in the order \<open>keys\<close>.
\<close>

type_synonym profiler_entry = "(string \<times> string \<times> string) list"
type_synonym profiler_section = "(string \<times> profiler_entry list option) list"

definition section_devices :: "string \<times> bool \<Rightarrow> profiler_section \<Rightarrow> paired_device list" where
  "section_devices key sec =
     (case map_of sec (fst key) of
        Some (Some entries) \<Rightarrow> map (\<lambda>(name, address, minor).
            \<lparr>pd_name = name, pd_address = address, pd_minor_type = minor, pd_connected = snd key\<rparr>) (concat entries)
      | _ \<Rightarrow> [])"

definition pairedDevices :: "(string \<times> bool) list \<Rightarrow> string + profiler_section list \<Rightarrow> string + paired_device list" where
  "pairedDevices keys out =
     sum_bind out (\<lambda>sections. Inr (concat (map (\<lambda>sec. concat (map (\<lambda>k. section_devices k sec) keys)) sections)))"

definition remove_char :: "char \<Rightarrow> string \<Rightarrow> string" where
  "remove_char c s = filter (\<lambda>d. d \<noteq> c) s"

definition matchesDeviceName :: "string \<Rightarrow> string \<Rightarrow> bool" where
  "matchesDeviceName deviceName nodeName \<longleftrightarrow>
     remove_char CHR '' '' deviceName = nodeName \<or>
     map (\<lambda>c. if c = CHR '' '' then CHR ''-'' else c) deviceName = nodeName"

definition deviceCacheTTL :: time where "deviceCacheTTL = 3 * second"

record darwin_cache =
  dc_cached :: "string + paired_device list"
  dc_cached_at :: time

definition darwin_New :: darwin_cache where
  "darwin_New = \<lparr>dc_cached = Inr [], dc_cached_at = 0\<rparr>"

definition darwin_devices :: "time \<Rightarrow> string + paired_device list \<Rightarrow> darwin_cache \<Rightarrow> darwin_cache" where
  "darwin_devices now listed d =
     (if now - dc_cached_at d > deviceCacheTTL then \<lparr>dc_cached = listed, dc_cached_at = now\<rparr> else d)"

section \<open>The macOS driver\<close>

fun strip_slashes :: "string \<Rightarrow> string" where
  "strip_slashes [] = []"
| "strip_slashes (c # s) = (if c = CHR ''/'' then strip_slashes s else c # s)"

definition filepath_Base :: "string \<Rightarrow> string" where
  "filepath_Base path =
     (if path = [] then ''.''
      else let p = rev (strip_slashes (rev path)) in
        if p = [] then ''/'' else last (split_char CHR ''/'' p))"

definition node_name :: "string \<Rightarrow> string" where
  "node_name endpoint = trim_prefix (filepath_Base endpoint) ''cu.''"

definition darwin_match :: "printer_config \<Rightarrow> paired_device \<Rightarrow> bool" where
  "darwin_match cfg dev \<longleftrightarrow>
     (pc_device_address cfg \<noteq> [] \<and> EqualFold (pd_address dev) (pc_device_address cfg)) \<or>
     matchesDeviceName (pd_name dev) (node_name (pc_endpoint cfg))"

definition darwin_LinkState :: "darwin_cache \<Rightarrow> printer_config \<Rightarrow> link_state \<times> string option" where
  "darwin_LinkState d cfg =
     (case dc_cached d of
        Inl e \<Rightarrow> (LinkUnknown, Some e)
      | Inr devs \<Rightarrow> (case List.find (darwin_match cfg) devs of
            None \<Rightarrow> (LinkUnknown, None)
          | Some dev \<Rightarrow> (if pd_connected dev then LinkConnected else LinkDisconnected, None)))"

definition darwin_VerifyConnected :: "darwin_cache \<Rightarrow> printer_config \<Rightarrow> verify_answer" where
  "darwin_VerifyConnected d cfg =
     (case darwin_LinkState d cfg of
        (_, Some e) \<Rightarrow> VerifyError e
      | (st, None) \<Rightarrow> if st \<noteq> LinkConnected then ErrNotConnected else VerifyOK)"

definition node_candidate :: "paired_device list \<Rightarrow> string \<Rightarrow> candidate" where
  "node_candidate paired dev =
     (case List.find (\<lambda>p. matchesDeviceName (pd_name p) (node_name dev)) paired of
        None \<Rightarrow> \<lparr>ca_endpoint = dev, ca_device_name = [], ca_device_address = [], ca_connected = False, ca_is_printer = False\<rparr>
      | Some p \<Rightarrow> \<lparr>ca_endpoint = dev, ca_device_name = pd_name p, ca_device_address = pd_address p,
                   ca_connected = pd_connected p, ca_is_printer = (pd_minor_type p = ''Printer'')\<rparr>)"

definition darwin_ListCandidates :: "string + string list \<Rightarrow> darwin_cache \<Rightarrow> string + candidate list" where
  "darwin_ListCandidates nodes d =
     sum_bind nodes (\<lambda>devs. sum_bind (dc_cached d) (\<lambda>paired.
     Inr (sort_key ca_endpoint (map (node_candidate paired)
       (filter (\<lambda>dev. node_name dev \<noteq> ''debug-console'' \<and> \<not> prefix ''Bluetooth-Incoming'' (node_name dev)) devs)))))"

definition darwin_EnsureConnected ::
    "(string \<Rightarrow> bool) \<Rightarrow> string + string list \<Rightarrow> darwin_cache \<Rightarrow> printer_config \<Rightarrow> string + string" where
  "darwin_EnsureConnected exists_file nodes d cfg =
     (if pc_endpoint cfg \<noteq> [] \<and> exists_file (pc_endpoint cfg) then Inr (pc_endpoint cfg)
      else case darwin_ListCandidates nodes d of
        Inl e \<Rightarrow> Inl (''endpoint '' @ pc_endpoint cfg @ '' missing and candidate scan failed: '' @ e)
      | Inr cands \<Rightarrow>
         (case List.find (\<lambda>c. pc_device_address cfg \<noteq> [] \<and> EqualFold (ca_device_address c) (pc_device_address cfg)) cands of
            Some c \<Rightarrow> Inr (ca_endpoint c)
          | None \<Rightarrow> Inl (''endpoint '' @ pc_endpoint cfg @ '' not present and no candidate matches device'')))"

definition darwin_Disconnect :: "printer_config \<Rightarrow> string + unit" where
  "darwin_Disconnect cfg = Inr ()"

section \<open>The driver of the other systems\<close>

definition unimplemented_EnsureConnected :: "string \<Rightarrow> printer_config \<Rightarrow> string + string" where
  "unimplemented_EnsureConnected os cfg =
     (if pc_endpoint cfg \<noteq> [] then Inr (pc_endpoint cfg)
      else Inl (''no endpoint configured and endpoint discovery is not implemented on '' @ os))"

definition unimplemented_Disconnect :: "printer_config \<Rightarrow> string + unit" where
  "unimplemented_Disconnect cfg = Inr ()"

definition unimplemented_ListCandidates :: "string \<Rightarrow> string + candidate list" where
  "unimplemented_ListCandidates os = Inl (''endpoint discovery is not implemented on '' @ os)"

definition unimplemented_VerifyConnected :: "printer_config \<Rightarrow> verify_answer" where
  "unimplemented_VerifyConnected cfg = VerifyOK"

definition unimplemented_OpenSystemBluetoothSettings :: "string \<Rightarrow> string + unit" where
  "unimplemented_OpenSystemBluetoothSettings os = Inl (''opening Bluetooth settings is not implemented on '' @ os)"

section \<open>What the workers see\<close>

text \<open>The drivers as the interface of the workers; \<open>txt_of\<close> is the text of an error of the Linux driver.\<close>

definition linux_driver ::
    "(driver_err \<Rightarrow> string) \<Rightarrow> string + bluez_device list \<Rightarrow> (string \<Rightarrow> bool option) \<Rightarrow> routes \<Rightarrow> driver" where
  "linux_driver txt_of devices known r =
     \<lparr>dr_link_state = Some (\<lambda>cfg. case LinkState devices known r cfg of (st, e) \<Rightarrow> (st, map_option txt_of e)),
      dr_verify = (\<lambda>cfg. case VerifyConnected devices known r cfg of
         Inl e \<Rightarrow> VerifyError (txt_of e) | Inr up \<Rightarrow> if up then VerifyOK else ErrNotConnected),
      dr_ensure = (\<lambda>cfg. map_err txt_of (fst (EnsureConnected devices cfg r)))\<rparr>"

definition darwin_driver :: "(string \<Rightarrow> bool) \<Rightarrow> string + string list \<Rightarrow> darwin_cache \<Rightarrow> driver" where
  "darwin_driver exists_file nodes d =
     \<lparr>dr_link_state = Some (darwin_LinkState d), dr_verify = darwin_VerifyConnected d,
      dr_ensure = darwin_EnsureConnected exists_file nodes d\<rparr>"

definition unimplemented_driver :: "string \<Rightarrow> driver" where
  "unimplemented_driver os =
     \<lparr>dr_link_state = None, dr_verify = unimplemented_VerifyConnected, dr_ensure = unimplemented_EnsureConnected os\<rparr>"

text \<open>
  The contract of a driver that can tell a confirmed link from an unknown one: \<open>VerifyConnected\<close> accepts exactly the
  confirmed links.
\<close>

locale link_verifier =
  fixes drv :: driver and state_of :: "printer_config \<Rightarrow> link_state \<times> string option"
  assumes has_state: "dr_link_state drv = Some state_of"
    and verify_ok: "dr_verify drv cfg = VerifyOK \<longleftrightarrow> state_of cfg = (LinkConnected, None)"
begin

lemma worker_sees: "pc_transport cfg \<noteq> TransportMock \<Longrightarrow> linkState drv cfg = state_of cfg"
  by (simp add: linkState_def has_state)

lemma up_iff_verified: "pc_transport cfg \<noteq> TransportMock \<Longrightarrow> link_up drv cfg \<longleftrightarrow> dr_verify drv cfg = VerifyOK"
  by (simp add: link_up_def worker_sees verify_ok)

lemma unconfirmed_is_down:
  "pc_transport cfg \<noteq> TransportMock \<Longrightarrow> state_of cfg \<noteq> (LinkConnected, None) \<Longrightarrow> \<not> link_up drv cfg"
  by (simp add: link_up_def worker_sees)

end

interpretation linux: link_verifier "linux_driver txt_of devices known r"
  "\<lambda>cfg. case LinkState devices known r cfg of (st, e) \<Rightarrow> (st, map_option txt_of e)"
  by unfold_locales (auto simp: linux_driver_def VerifyConnected_def split: prod.split option.split)

interpretation darwin: link_verifier "darwin_driver exists_file nodes d" "darwin_LinkState d"
  by unfold_locales (auto simp: darwin_driver_def darwin_VerifyConnected_def split: prod.split option.split)

text \<open>Without a view of the link, a worker takes every link for up.\<close>

lemma unimplemented_is_up: "link_up (unimplemented_driver os) cfg"
  by (simp add: link_up_def linkState_def unimplemented_driver_def unimplemented_VerifyConnected_def)

lemma darwin_up_listed:
  assumes "darwin_LinkState d cfg = (LinkConnected, None)"
  shows "\<exists>devs dev. dc_cached d = Inr devs \<and> dev \<in> set devs \<and> darwin_match cfg dev \<and> pd_connected dev"
proof -
  obtain devs dev where "dc_cached d = Inr devs" "List.find (darwin_match cfg) devs = Some dev" "pd_connected dev"
    using assms by (auto simp: darwin_LinkState_def split: sum.split_asm option.split_asm if_split_asm)
  then show ?thesis using find_SomeD by metis
qed

text \<open>A device that was renamed or whose node is gone is found again by its address.\<close>

lemma darwin_endpoint_is_present:
  assumes "darwin_EnsureConnected exists_file (Inr nodes) d cfg = Inr ep"
  shows "ep = pc_endpoint cfg \<and> exists_file ep \<or> ep \<in> set nodes"
proof (cases "pc_endpoint cfg \<noteq> [] \<and> exists_file (pc_endpoint cfg)")
  case True
  then show ?thesis using assms by (simp add: darwin_EnsureConnected_def)
next
  case False
  then obtain cands c where c: "darwin_ListCandidates (Inr nodes) d = Inr cands" "c \<in> set cands" "ep = ca_endpoint c"
    using assms by (auto simp: darwin_EnsureConnected_def split: sum.split_asm option.split_asm dest!: find_SomeD)
  have "ca_endpoint (node_candidate paired dev) = dev" for paired dev by (simp add: node_candidate_def split: option.split)
  then show ?thesis using c by (auto simp: darwin_ListCandidates_def sum_bind_Inr_iff)
qed

end
