(* ===== verification/LinuxProperties.thy ===== *)
theory LinuxProperties
  imports ProfileBroker PlatformDrivers Samples
begin

text \<open>
  The properties of the Linux driver and of its profile broker: the endpoint of a printer, the descriptors
  of its connections and the state its link is reported in.
\<close>

section \<open>The endpoint\<close>

text \<open>What \<open>EnsureConnected\<close> has checked of the device it found.\<close>

lemma EnsureConnected_found:
  assumes "EnsureConnected devices cfg r = (Inr ep, r')"
  obtains devs dev a where "devices = Inr devs" "dev \<in> set devs" "configAddress cfg = Inr a"
    "normalizeAddress (bz_address dev) = Inr a" "isConnectionEligible dev"
    "supportsConnection dev (pc_connection_preference cfg)" "ep = preferredEndpoint (pc_connection_preference cfg) dev a"
    "pc_connection_preference cfg = ConnectionRFCOMM \<longrightarrow> bz_paired dev \<or> bz_bonded dev" "r' = setRoute a ep r"
  using assms
  by (auto simp: EnsureConnected_def Let_def split: if_split_asm sum.split_asm option.split_asm dest!: find_SomeD)

lemma preferred_rfcomm: "preferredEndpoint ConnectionRFCOMM dev a = rfcommEndpoint a"
  and preferred_ble: "preferredEndpoint ConnectionBLE dev a = bleEndpoint a"
  by (simp_all add: preferredEndpoint_def ConnectionRFCOMM_def ConnectionBLE_def)

lemma resolved_route: "ep \<noteq> [] \<Longrightarrow> resolvedEndpoint a configured (setRoute a ep r) = ep"
  by (simp add: resolvedEndpoint_def setRoute_def)


definition sample_bluez :: bluez_device where
  "sample_bluez = \<lparr>bz_path = ''/org/bluez/hci0/dev_1'', bz_address = ''00:11:22:33:44:55'', bz_name = ''Printer'',
     bz_icon = ''printer'', bz_class = 0, bz_paired = True, bz_bonded = True, bz_connected = True,
     bz_uuids = [serialPortUUID]\<rparr>"

definition bluetooth_printer :: printer_config where
  "bluetooth_printer = sample_printer\<lparr>pc_transport := TransportBluetoothSerial, pc_device_address := ''00:11:22:33:44:55'', pc_endpoint := [], pc_connection_preference := ConnectionAuto\<rparr>"

lemma normalizeAddress_mac:
  assumes "length bs = 6" "\<forall>b \<in> set bs. b < 256" shows "normalizeAddress (mac_text bs) = Inr (mac_text bs)"
proof -
  have p: "ParseMAC6 (mac_text bs) = Some bs" using ParseMAC6_text assms by blast
  have "TrimSpace (mac_text bs) = mac_text bs" by (rule TrimSpace_plain) (use plain_mac [OF p] in blast)
  then show ?thesis using p by (simp add: normalizeAddress_def)
qed

lemma sample_address: "normalizeAddress ''00:11:22:33:44:55'' = Inr ''00:11:22:33:44:55''"
proof -
  have "mac_text [0, 17, 34, 51, 68, 85] = ''00:11:22:33:44:55''" by code_simp
  then show ?thesis using normalizeAddress_mac [of "[0, 17, 34, 51, 68, 85]"] by simp
qed


section \<open>Connections\<close>

text \<open>The world after BlueZ has answered the connect \<open>n\<close> with the socket \<open>s\<close>.\<close>

definition connect_done :: "string \<Rightarrow> string \<Rightarrow> nat \<Rightarrow> nat \<Rightarrow> link_world \<Rightarrow> link_world" where
  "connect_done path address n s w =
     (let b = lw_broker w in
      w\<lparr>lw_broker := b\<lparr>br_waiters := (br_waiters b)(path := None), br_active := (br_active b)(path \<mapsto> s),
                       br_connect_calls := (br_connect_calls b)(path := None), br_states := (br_states b)(address \<mapsto> True)\<rparr>,
        lw_pending := (lw_pending w)(n \<mapsto> (path, address)), lw_channel := (lw_channel w)(n := None),
        lw_waiting := lw_waiting w - {n}, lw_sockets := (lw_sockets w)(s \<mapsto> (path, address)),
        lw_returned := (lw_returned w)(n \<mapsto> s), lw_tasks := [] # lw_tasks w\<rparr>)"

lemma connect_succeeds:
  assumes device: "connect_device deviceByAddress input = Inr (path, address)"
    and new: "n \<notin> dom (lw_pending w)" "s \<notin> dom (lw_sockets w)"
    and free: "br_active (lw_broker w) path = None" "br_waiters (lw_broker w) path = None" "br_connect_calls (lw_broker w) path = None"
  shows "link_step\<^sup>*\<^sup>* w (connect_done path address n s w)"
proof -
  let ?b = "lw_broker w"
  let ?w1 = "w\<lparr>lw_broker := ?b\<lparr>br_waiters := (br_waiters ?b)(path \<mapsto> n), br_connect_calls := (br_connect_calls ?b)(path \<mapsto> n)\<rparr>,
               lw_pending := (lw_pending w)(n \<mapsto> (path, address)), lw_waiting := insert n (lw_waiting w)\<rparr>"
  let ?w2 = "spawn [Deliver n s] (?w1\<lparr>lw_broker := ?b\<lparr>br_connect_calls := (br_connect_calls ?b)(path \<mapsto> n),
      br_waiters := (br_waiters ?b)(path := None),
      br_active := (br_active ?b)(path \<mapsto> s), br_states := (br_states ?b)(address \<mapsto> True)\<rparr>,
      lw_sockets := (lw_sockets w)(s \<mapsto> (path, address))\<rparr>)"
  let ?w3 = "?w2\<lparr>lw_channel := (lw_channel w)(n \<mapsto> s), lw_tasks := [] @ [] # lw_tasks w\<rparr>"
  let ?w4 = "call_returned path n ?w3"
  have "link_step w ?w1" by (rule link_step.connect [OF device new(1)]) (simp add: Connect_pending_def Let_def free)
  then have s1: "link_step\<^sup>*\<^sup>* w ?w1" by (rule r_into_rtranclp)
  have "link_step ?w1 ?w2"
    by (rule link_step.arrives [where path = path and valid = True and owned = True and s = s])
      (use new(2) free in \<open>simp_all add: NewConnection_def Let_def pending_address_def\<close>)
  with s1 have s2: "link_step\<^sup>*\<^sup>* w ?w2" by (rule rtranclp.rtrancl_into_rtrancl)
  have "link_step ?w2 ?w3"
    by (rule link_step.runs [where before = "[]" and t = "Deliver n s" and rest = "[]"
        and behind = "lw_tasks w" and left = "[]"]) (simp_all add: spawn_def)
  with s2 have s3: "link_step\<^sup>*\<^sup>* w ?w3" by (rule rtranclp.rtrancl_into_rtrancl)
  have "link_step ?w3 ?w4" by (rule link_step.call [where address = address]) simp
  with s3 have s4: "link_step\<^sup>*\<^sup>* w ?w4" by (rule rtranclp.rtrancl_into_rtrancl)
  have "link_step ?w4 (Connect_returns n s ?w4)" by (rule link_step.returns) (simp_all add: call_returned_def Let_def)
  with s4 have "link_step\<^sup>*\<^sup>* w (Connect_returns n s ?w4)" by (rule rtranclp.rtrancl_into_rtrancl)
  moreover have "Connect_returns n s ?w4 = connect_done path address n s w"
    by (rule link_world.equality; (rule broker.equality)?)
      (simp_all add: call_returned_def Let_def Connect_returns_def connect_done_def spawn_def)
  ultimately show ?thesis by simp
qed

lemma sample_device: "connect_device (\<lambda>_. Inr sample_bluez) ''00:11:22:33:44:55'' = Inr (bz_path sample_bluez, ''00:11:22:33:44:55'')"
  by (simp add: connect_device_def sample_address isConnectionEligible_def sample_bluez_def)

definition sample_link :: link_world where
  "sample_link = connect_done (bz_path sample_bluez) ''00:11:22:33:44:55'' 0 0 newLinkWorld"

lemma sample_link_reachable: "reachable_link sample_link"
  unfolding reachable_link_def sample_link_def
  by (rule connect_succeeds [OF sample_device]) (simp_all add: newLinkWorld_def newProfileBroker_def)

text \<open>C32: A transport gets the connection of its own device. In whatever order the calls of the workers, of
  BlueZ and of the goroutines interleave, a socket that \<open>Connect\<close> has returned was handed over by BlueZ for the
  device and the address of that very call, and no other call has returned it. A descriptor that is still
  open is the active one of its device or is about to be closed; once the goroutines are done, no device
  has two.\<close>

theorem connects_get_their_own_socket:
  assumes "reachable_link w" "lw_returned w n = Some s"
  shows "\<exists>path address. lw_pending w n = Some (path, address) \<and> lw_sockets w s = Some (path, address) \<and>
    (\<forall>m. lw_returned w m = Some s \<longrightarrow> m = n) \<and>
    (s \<in> lw_closed w \<or> br_active (lw_broker w) path = Some s \<or> CloseSocket s \<in> todo w) \<and>
    (todo w = {} \<longrightarrow> s \<notin> lw_closed w \<longrightarrow>
      (\<forall>u a. lw_sockets w u = Some (path, a) \<and> u \<notin> lw_closed w \<longrightarrow> u = s))"
proof -
  note so = sockets_okD [OF reachable_link_ok(1) [OF assms(1)]] and ro = routing_okD [OF reachable_link_ok(2) [OF assms(1)]]
  have g: "given (todo w) w n s" using assms(2) by (simp add: given_def)
  then obtain path address where pa: "lw_pending w n = Some (path, address)" "lw_sockets w s = Some (path, address)"
    using ro(3,4) [OF g] by fastforce
  have "\<forall>m. lw_returned w m = Some s \<longrightarrow> m = n" using ro(6) g by (metis given_def)
  moreover have "s \<in> lw_closed w \<or> br_active (lw_broker w) path = Some s \<or> CloseSocket s \<in> todo w" using so(3) pa(2) by blast
  moreover have "u = s" if "todo w = {}" "s \<notin> lw_closed w" "lw_sockets w u = Some (path, a)" "u \<notin> lw_closed w" for u a
    using so(3) [OF pa(2) that(2)] so(3) [OF that(3,4)] that(1) by simp
  ultimately show ?thesis using pa by blast
qed

theorem connects_get_their_own_socket_witness:
  "\<exists>path address. lw_pending sample_link 0 = Some (path, address) \<and> lw_sockets sample_link 0 = Some (path, address) \<and>
    0 \<notin> lw_closed sample_link"
proof -
  have "lw_returned sample_link 0 = Some 0" "0 \<notin> lw_closed sample_link"
    by (simp_all add: sample_link_def connect_done_def Let_def newLinkWorld_def)
  then show ?thesis using connects_get_their_own_socket [OF sample_link_reachable, of 0 0] by blast
qed

text \<open>C31: A link that is reported up is up. When the workers, asking the Linux driver, take the link of a Bluetooth
  printer as confirmed, which they do before they claim a run and before they record one as transmitted, then
  either a descriptor to its configured address is open in the agent, or BlueZ itself lists the device with
  this address as connected, for a BLE route or an address the broker has no record of.\<close>

theorem a_link_reported_up_is_open:
  assumes "reachable_link w"
    and "pc_transport cfg \<noteq> TransportMock" "link_up (linux_driver txt_of devices (\<lambda>a. ConnectionState a w) r) cfg"
  shows "\<exists>a. configAddress cfg = Inr a \<and>
    ((\<exists>s path. lw_sockets w s = Some (path, a) \<and> s \<notin> lw_closed w) \<or>
     ((prefix bleEndpointBase (resolvedEndpoint a (pc_endpoint cfg) r) \<or> br_states (lw_broker w) a = None) \<and>
      (\<exists>devs dev. devices = Inr devs \<and> dev \<in> set devs \<and> normalizeAddress (bz_address dev) = Inr a \<and> bz_connected dev)))"
proof -
  have up: "LinkState devices (\<lambda>a. ConnectionState a w) r cfg = (LinkConnected, None)"
    using assms(3) linux.worker_sees [OF assms(2)] by (auto simp: link_up_def split: prod.split_asm)
  obtain a where a: "configAddress cfg = Inr a" using up by (auto simp: LinkState_def split: sum.split_asm)
  have c: "ConnectionState a w = br_states (lw_broker w) a" by (simp add: ConnectionState_def configAddress_canonical [OF a])
  show ?thesis
  proof (cases "prefix bleEndpointBase (resolvedEndpoint a (pc_endpoint cfg) r) \<or> br_states (lw_broker w) a = None")
    case True
    then show ?thesis using up a c
      by (auto simp: LinkState_def split: if_split_asm sum.split_asm option.split_asm dest!: find_SomeD)
  next
    case False
    then have "br_states (lw_broker w) a = Some True"
      using up a c by (auto simp: LinkState_def split: if_split_asm option.split_asm)
    then show ?thesis using sockets_okD(4) [OF reachable_link_ok(1) [OF assms(1)]] a by blast
  qed
qed

theorem a_link_reported_up_is_open_witness:
  "\<exists>s path. lw_sockets sample_link s = Some (path, ''00:11:22:33:44:55'') \<and> s \<notin> lw_closed sample_link"
proof -
  have c: "configAddress bluetooth_printer = Inr ''00:11:22:33:44:55''"
    by (simp add: configAddress_def bluetooth_printer_def sample_address)
  have st: "br_states (lw_broker sample_link) ''00:11:22:33:44:55'' = Some True"
    by (simp add: sample_link_def connect_done_def Let_def)
  have "LinkState (Inr []) (\<lambda>a. ConnectionState a sample_link) Map.empty bluetooth_printer = (LinkConnected, None)"
    unfolding LinkState_def c
    by (simp add: resolvedEndpoint_def bluetooth_printer_def bleEndpointBase_def ConnectionState_def sample_address st)
  then have "link_up (linux_driver (\<lambda>_. []) (Inr []) (\<lambda>a. ConnectionState a sample_link) Map.empty) bluetooth_printer"
    "pc_transport bluetooth_printer \<noteq> TransportMock"
    by (simp_all add: link_up_def linkState_def linux_driver_def bluetooth_printer_def sample_printer_def TransportMock_def
        TransportBluetoothSerial_def)
  from a_link_reported_up_is_open [OF sample_link_reachable this(2,1)] show ?thesis using c st by auto
qed

text \<open>
  The other direction does not hold: a close that is still on its way when the profile was released and
  the device has connected again marks the new connection as down.
\<close>

lemma a_late_close_hides_a_live_link:
  "\<exists>w. reachable_link w \<and> todo w = {} \<and> br_active (lw_broker w) (bz_path sample_bluez) = Some 1 \<and>
     1 \<notin> lw_closed w \<and> br_states (lw_broker w) ''00:11:22:33:44:55'' = Some False"
proof -
  let ?p = "bz_path sample_bluez" and ?a = "''00:11:22:33:44:55''"
  let ?w1 = "Release [0] sample_link"
  let ?w2 = "connect_done ?p ?a 1 1 ?w1"
  let ?w3 = "(closeSocket 0 ?w2)\<lparr>lw_tasks := [[]] @ [] # [[]]\<rparr>"
  have w1: "lw_broker ?w1 = \<lparr>br_registration = None, br_waiters = Map.empty, br_active = Map.empty, br_connect_calls = Map.empty,
      br_states = [?a \<mapsto> False]\<rparr>" "lw_pending ?w1 = [0 \<mapsto> (?p, ?a)]" "lw_sockets ?w1 = [0 \<mapsto> (?p, ?a)]" "lw_closed ?w1 = {}"
    "lw_tasks ?w1 = [[CloseSocket 0], []]"
    by (simp_all add: Release_def Let_def sample_link_def connect_done_def newLinkWorld_def newProfileBroker_def spawn_def
        socket_address_def)
  have "link_step sample_link ?w1"
    by (rule link_step.releases) (simp_all add: sample_link_def connect_done_def Let_def newLinkWorld_def newProfileBroker_def)
  moreover have "link_step\<^sup>*\<^sup>* ?w1 ?w2" by (rule connect_succeeds [OF sample_device]) (simp_all add: w1)
  moreover have "link_step ?w2 ?w3"
    by (rule link_step.runs [where before = "[[]]" and t = "CloseSocket 0" and rest = "[]" and left = "[]"])
      (simp_all add: connect_done_def Let_def w1)
  ultimately have "reachable_link ?w3" using sample_link_reachable unfolding reachable_link_def by (meson rtranclp.rtrancl_into_rtrancl rtranclp_trans)
  moreover have "todo ?w3 = {}" by (simp add: todo_def)
  moreover have "br_active (lw_broker ?w3) ?p = Some 1" "1 \<notin> lw_closed ?w3" "br_states (lw_broker ?w3) ?a = Some False"
    by (simp_all add: closeSocket_def connect_done_def Let_def w1)
  ultimately show ?thesis by blast
qed

end
