(* ===== verification/Bluez.thy ===== *)
theory Bluez
  imports LinuxDriver
begin

text \<open>
  \<open>internal/platform/linux/bluez.go\<close>: how the agent asks BlueZ. The bus is outside of the repository: its
  connection, the objects it lists and its answers to calls are the fields of \<open>bus\<close>, and an operation
  returns its error, if any, with the calls it has made. The objects are listed in the order in which
  the loops meet them.
\<close>

section \<open>The bus\<close>

datatype dbus_value =
    VString string
  | VBool bool
  | VUInt32 "32 word"
  | VUInt16 "16 word"
  | VStrings "string list"
  | VPath string
  | VOther

type_synonym properties = "(string \<times> dbus_value) list"
type_synonym managed_objects = "(string \<times> (string \<times> properties) list) list"

text \<open>An error with a D-Bus name, an expired deadline, or another one.\<close>

datatype bus_err = BusError string string | BusDeadline string | BusFailure string

datatype bus_act = Export | Unexport | Call string string string

record bus =
  bus_connection :: "string option"
  bus_objects :: "bus_err + managed_objects"
  bus_export :: "bus_err option"
  bus_answer :: "string \<Rightarrow> string \<Rightarrow> bus_err option"

definition adapterInterface :: string where "adapterInterface = ''org.bluez.Adapter1''"
definition deviceInterface :: string where "deviceInterface = ''org.bluez.Device1''"
definition agentManager :: string where "agentManager = ''org.bluez.AgentManager1''"
definition pairingAgentPath :: string where "pairingAgentPath = ''/com/print_agent/pairing_agent''"
definition blePrintCharUUID :: string where "blePrintCharUUID = ''00002af1-0000-1000-8000-00805f9b34fb''"

definition isBlueZError :: "string \<Rightarrow> bus_err \<Rightarrow> bool" where
  "isBlueZError name e = (case e of BusError n _ \<Rightarrow> n = name | _ \<Rightarrow> False)"

datatype bluez_err =
    Plain bus_err
  | PoweredOff
  | NoAdapter
  | Wrapped string bus_err
  | NoDevice string
  | Classified platform_err string bus_err
  | NotFoundBecause bluez_err
  | UnavailableBecause bluez_err

definition bus_connect :: "bus \<Rightarrow> bluez_err + unit" where
  "bus_connect b = (case bus_connection b of None \<Rightarrow> Inr () | Some e \<Rightarrow> Inl (Wrapped ''connect to system D-Bus'' (BusFailure e)))"

definition bluez_objects :: "bus \<Rightarrow> bluez_err + managed_objects" where
  "bluez_objects b = sum_bind (bus_connect b) (\<lambda>_. map_err Plain (bus_objects b))"

section \<open>Devices and adapters\<close>

definition string_of :: "properties \<Rightarrow> string \<Rightarrow> string" where
  "string_of props name = (case map_of props name of Some (VString s) \<Rightarrow> s | _ \<Rightarrow> [])"

definition bool_of :: "properties \<Rightarrow> string \<Rightarrow> bool" where
  "bool_of props name = (case map_of props name of Some (VBool v) \<Rightarrow> v | _ \<Rightarrow> False)"

definition uint32_of :: "properties \<Rightarrow> string \<Rightarrow> 32 word" where
  "uint32_of props name = (case map_of props name of Some (VUInt32 n) \<Rightarrow> n | _ \<Rightarrow> 0)"

definition uint16_of :: "properties \<Rightarrow> string \<Rightarrow> 16 word" where
  "uint16_of props name = (case map_of props name of Some (VUInt16 n) \<Rightarrow> n | _ \<Rightarrow> 0)"

definition strings_of :: "properties \<Rightarrow> string \<Rightarrow> string list" where
  "strings_of props name = (case map_of props name of Some (VStrings l) \<Rightarrow> l | _ \<Rightarrow> [])"

definition path_of :: "properties \<Rightarrow> string \<Rightarrow> string" where
  "path_of props name = (case map_of props name of Some (VPath p) \<Rightarrow> p | _ \<Rightarrow> [])"

definition parse_device :: "string \<Rightarrow> properties \<Rightarrow> bluez_device" where
  "parse_device path props =
     \<lparr>bz_path = path, bz_address = string_of props ''Address'',
      bz_name = (if string_of props ''Alias'' = [] then string_of props ''Name'' else string_of props ''Alias''),
      bz_icon = string_of props ''Icon'', bz_class = uint32_of props ''Class'', bz_paired = bool_of props ''Paired'',
      bz_bonded = bool_of props ''Bonded'', bz_connected = bool_of props ''Connected'', bz_uuids = strings_of props ''UUIDs''\<rparr>"

definition parseManagedDevices :: "managed_objects \<Rightarrow> bluez_device list" where
  "parseManagedDevices objects =
     concat (map (\<lambda>(path, interfaces). case map_of interfaces deviceInterface of
       None \<Rightarrow> [] | Some props \<Rightarrow> [parse_device path props]) objects)"

definition Devices :: "bus \<Rightarrow> bluez_err + bluez_device list" where
  "Devices b = sum_bind (bluez_objects b) (\<lambda>objects. Inr (parseManagedDevices objects))"

definition deviceByAddress :: "bus \<Rightarrow> string \<Rightarrow> bluez_err + bluez_device" where
  "deviceByAddress b address =
     sum_bind (Devices b) (\<lambda>devs.
     case List.find (\<lambda>d. normalizeAddress (bz_address d) = Inr address) devs of
       None \<Rightarrow> Inl (NoDevice address) | Some d \<Rightarrow> Inr d)"

fun adapter_loop :: "managed_objects \<Rightarrow> string \<Rightarrow> bluez_err + string" where
  "adapter_loop [] fallback = Inl (if fallback \<noteq> [] then PoweredOff else NoAdapter)"
| "adapter_loop ((path, interfaces) # objects) fallback =
     (case map_of interfaces adapterInterface of
        None \<Rightarrow> adapter_loop objects fallback
      | Some props \<Rightarrow>
          if bool_of props ''Powered'' then Inr path
          else adapter_loop objects (if fallback = [] then path else fallback))"

definition adapterPath :: "bus \<Rightarrow> bluez_err + string" where
  "adapterPath b = sum_bind (bluez_objects b) (\<lambda>objects. adapter_loop objects [])"

section \<open>Discovery and management\<close>

definition discovery_transport :: "string \<Rightarrow> string" where
  "discovery_transport connectionType =
     (if connectionType = ConnectionBLE then ''le'' else if connectionType = ConnectionRFCOMM then ''bredr'' else ''auto'')"

type_synonym outcome_of_calls = "bluez_err option \<times> bus_act list"

definition on_adapter :: "bus \<Rightarrow> (string \<Rightarrow> outcome_of_calls) \<Rightarrow> outcome_of_calls" where
  "on_adapter b act =
     (case sum_bind (adapterPath b) (\<lambda>path. sum_bind (bus_connect b) (\<lambda>_. Inr path)) of
        Inl e \<Rightarrow> (Some e, []) | Inr path \<Rightarrow> act path)"

definition StartDiscovery :: "bus \<Rightarrow> string \<Rightarrow> outcome_of_calls" where
  "StartDiscovery b connectionType = on_adapter b (\<lambda>path.
     let transport = discovery_transport connectionType;
         filter_call = Call path (adapterInterface @ ''.SetDiscoveryFilter'') transport;
         start = adapterInterface @ ''.StartDiscovery'' in
     case bus_answer b path (adapterInterface @ ''.SetDiscoveryFilter'') of
       Some e \<Rightarrow> (Some (Wrapped (''set Bluetooth discovery transport '' @ transport) e), [filter_call])
     | None \<Rightarrow>
        ((case bus_answer b path start of
            None \<Rightarrow> None
          | Some e \<Rightarrow> if isBlueZError ''org.bluez.Error.InProgress'' e then None
                      else Some (Wrapped ''start Bluetooth discovery'' e)), [filter_call, Call path start []]))"

definition StopDiscovery :: "bus \<Rightarrow> outcome_of_calls" where
  "StopDiscovery b = on_adapter b (\<lambda>path.
     let stop = adapterInterface @ ''.StopDiscovery'' in
     ((case bus_answer b path stop of
         None \<Rightarrow> None
       | Some e \<Rightarrow> if isBlueZError ''org.bluez.Error.NotReady'' e \<or> isBlueZError ''org.bluez.Error.Failed'' e then None
                   else Some (Wrapped ''stop Bluetooth discovery'' e)), [Call path stop []]))"

definition classifyBluetoothManagementError :: "bus_err option \<Rightarrow> bluez_err option" where
  "classifyBluetoothManagementError err =
     (case err of
        None \<Rightarrow> None
      | Some e \<Rightarrow> if isBlueZError ''org.bluez.Error.NotAuthorized'' e \<or> isBlueZError ''org.freedesktop.DBus.Error.AccessDenied'' e
                  then Some (Classified ErrBluetoothNotAuthorized [] e) else Some (Plain e))"

definition DisconnectDevice :: "bus \<Rightarrow> string \<Rightarrow> outcome_of_calls" where
  "DisconnectDevice b address =
     (case deviceByAddress b address of
        Inl e \<Rightarrow> (Some (NotFoundBecause e), [])
      | Inr device \<Rightarrow>
         (case bus_connect b of
            Inl e \<Rightarrow> (Some e, [])
          | Inr _ \<Rightarrow>
             (let disconnect = deviceInterface @ ''.Disconnect''; err = bus_answer b (bz_path device) disconnect in
              ((case err of
                  Some e \<Rightarrow> if isBlueZError ''org.bluez.Error.NotConnected'' e then None else classifyBluetoothManagementError err
                | None \<Rightarrow> None), [Call (bz_path device) disconnect []]))))"

definition ForgetDevice :: "bus \<Rightarrow> string \<Rightarrow> outcome_of_calls" where
  "ForgetDevice b address =
     (case deviceByAddress b address of
        Inl e \<Rightarrow> (Some (NotFoundBecause e), [])
      | Inr device \<Rightarrow> on_adapter b (\<lambda>path.
          let remove = adapterInterface @ ''.RemoveDevice'' in
          (classifyBluetoothManagementError (bus_answer b path remove), [Call path remove (bz_path device)])))"

section \<open>Pairing\<close>

definition classifyPairingError :: "string \<Rightarrow> bus_err \<Rightarrow> bluez_err" where
  "classifyPairingError action e =
     Classified
       (if (\<exists>m. e = BusDeadline m) \<or> isBlueZError ''org.bluez.Error.AuthenticationTimeout'' e then ErrBluetoothPairTimeout
        else if isBlueZError ''org.bluez.Error.InProgress'' e \<or> isBlueZError ''org.bluez.Error.AlreadyExists'' e
        then ErrBluetoothPairInProgress
        else if isBlueZError ''org.bluez.Error.AuthenticationCanceled'' e \<or>
          isBlueZError ''org.bluez.Error.AuthenticationFailed'' e \<or> isBlueZError ''org.bluez.Error.AuthenticationRejected'' e
        then ErrBluetoothPairRejected
        else if isBlueZError ''org.bluez.Error.NotReady'' e then ErrBluetoothUnavailable
        else ErrBluetoothPairFailed) action e"

text \<open>The agent answers with the PIN; for a passkey its digits are read into 32 bits.\<close>

definition agent_pin :: "string \<Rightarrow> string" where
  "agent_pin pin = (let p = TrimSpace pin in if p = [] then ''0000'' else p)"

fun read_passkey :: "32 word \<Rightarrow> string \<Rightarrow> 32 word option" where
  "read_passkey passkey [] = Some passkey"
| "read_passkey passkey (c # pin) =
     (let n = of_char c :: nat in
      if n < 48 \<or> n > 57 then None else read_passkey (passkey * 10 + of_nat (n - 48)) pin)"

definition RequestPasskey :: "string \<Rightarrow> 32 word option" where
  "RequestPasskey pin = read_passkey 0 pin"

definition RequestPinCode :: "string \<Rightarrow> string" where
  "RequestPinCode pin = pin"

text \<open>\<open>PairDevice\<close>: the deferred calls come last, in the reverse order of their \<open>defer\<close> statements.\<close>

definition PairDevice :: "bus \<Rightarrow> string \<Rightarrow> outcome_of_calls" where
  "PairDevice b address =
     (case deviceByAddress b address of
        Inl e \<Rightarrow> (Some (NotFoundBecause e), [])
      | Inr device \<Rightarrow>
         if bz_paired device \<or> bz_bonded device then (None, [])
         else case bus_connect b of
           Inl e \<Rightarrow> (Some (UnavailableBecause e), [])
         | Inr _ \<Rightarrow>
            (case bus_export b of
               Some e \<Rightarrow> (Some (classifyPairingError ''export Bluetooth pairing agent'' e), [Export])
             | None \<Rightarrow>
                (let register = Call ''/org/bluez'' (agentManager @ ''.RegisterAgent'') pairingAgentPath;
                     unregister = Call ''/org/bluez'' (agentManager @ ''.UnregisterAgent'') pairingAgentPath;
                     pair_call = deviceInterface @ ''.Pair'' in
                 case bus_answer b ''/org/bluez'' (agentManager @ ''.RegisterAgent'') of
                   Some e \<Rightarrow> (Some (classifyPairingError ''register Bluetooth pairing agent'' e), [Export, register, Unexport])
                 | None \<Rightarrow>
                    ((case bus_answer b (bz_path device) pair_call of
                        None \<Rightarrow> None
                      | Some e \<Rightarrow> if isBlueZError ''org.bluez.Error.AlreadyExists'' e then None
                                  else Some (classifyPairingError (''pair Bluetooth device '' @ address) e)),
                     [Export, register, Call (bz_path device) pair_call [], unregister, Unexport]))))"

section \<open>Profiles and GATT\<close>

definition connectProfile :: "bus \<Rightarrow> string \<Rightarrow> outcome_of_calls" where
  "connectProfile b path =
     (case bus_connect b of
        Inl e \<Rightarrow> (Some e, [])
      | Inr _ \<Rightarrow> (map_option Plain (bus_answer b path (deviceInterface @ ''.ConnectProfile'')),
                  [Call path (deviceInterface @ ''.ConnectProfile'') serialPortUUID]))"

definition disconnectProfile :: "bus \<Rightarrow> string \<Rightarrow> outcome_of_calls" where
  "disconnectProfile b path =
     (case bus_connect b of
        Inl e \<Rightarrow> (Some e, [])
      | Inr _ \<Rightarrow> (map_option Plain (bus_answer b path (deviceInterface @ ''.DisconnectProfile'')),
                  [Call path (deviceInterface @ ''.DisconnectProfile'') serialPortUUID]))"

definition connectDevice :: "bus \<Rightarrow> string \<Rightarrow> outcome_of_calls" where
  "connectDevice b path =
     (case bus_connect b of
        Inl e \<Rightarrow> (Some e, [])
      | Inr _ \<Rightarrow> (map_option Plain (bus_answer b path (deviceInterface @ ''.Connect'')),
                  [Call path (deviceInterface @ ''.Connect'') []]))"

text \<open>
  \<open>registerProfile\<close>: a registration is the connection, numbered here, with the name that owns BlueZ on it. The
  last two arguments are whether the connection passes descriptors and the registration of before.
\<close>

definition registerProfile ::
    "bus \<Rightarrow> nat \<Rightarrow> bus_err + string \<Rightarrow> bool \<Rightarrow> (nat \<times> string) option \<Rightarrow> (bluez_err + nat \<times> string) \<times> bus_act list" where
  "registerProfile b conn owner passes_fds previous =
     (case bus_connect b of
        Inl e \<Rightarrow> (Inl e, [])
      | Inr _ \<Rightarrow>
         (case owner of
            Inl e \<Rightarrow> (Inl (Wrapped ''find BlueZ D-Bus owner'' e), [])
          | Inr name \<Rightarrow>
              if previous = Some (conn, name) then (Inr (conn, name), [])
              else if \<not> passes_fds
              then (Inl (Plain (BusFailure ''system D-Bus connection does not support Unix file descriptor passing'')), [])
              else case bus_export b of
                Some e \<Rightarrow> (Inl (Wrapped ''export BlueZ SPP profile'' e), [Export])
              | None \<Rightarrow>
                 (let register = ''org.bluez.ProfileManager1.RegisterProfile'';
                      calls = [Export, Call ''/org/bluez'' register serialPortUUID] in
                  case bus_answer b ''/org/bluez'' register of
                    Some e \<Rightarrow> (Inl (Wrapped ''register BlueZ SPP profile'' e), calls)
                  | None \<Rightarrow> (Inr (conn, name), calls))))"

record gatt_target =
  gt_path :: string
  gt_mtu :: "16 word"
  gt_write_type :: string

definition print_services :: "string \<Rightarrow> managed_objects \<Rightarrow> string list" where
  "print_services devicePath objects =
     map fst (filter (\<lambda>(path, interfaces). case map_of interfaces ''org.bluez.GattService1'' of
        None \<Rightarrow> False
      | Some props \<Rightarrow> path_of props ''Device'' = devicePath \<and> EqualFold (string_of props ''UUID'') blePrintServiceUUID) objects)"

definition gatt_characteristic :: "string list \<Rightarrow> string \<Rightarrow> properties \<Rightarrow> gatt_target option" where
  "gatt_characteristic services path props =
     (if path_of props ''Service'' \<notin> set services \<or> \<not> EqualFold (string_of props ''UUID'') blePrintCharUUID then None
      else let flags = strings_of props ''Flags'' in
        if ''write'' \<notin> set flags \<and> ''write-without-response'' \<notin> set flags then None
        else Some \<lparr>gt_path = path, gt_mtu = (let mtu = uint16_of props ''MTU'' in if mtu < 23 then 23 else mtu),
                   gt_write_type = (if ''write'' \<in> set flags then ''request'' else ''command'')\<rparr>)"

fun gatt_loop_targets :: "string list \<Rightarrow> managed_objects \<Rightarrow> gatt_target option" where
  "gatt_loop_targets services [] = None"
| "gatt_loop_targets services ((path, interfaces) # objects) =
     (case map_of interfaces ''org.bluez.GattCharacteristic1'' of
        None \<Rightarrow> gatt_loop_targets services objects
      | Some props \<Rightarrow> (case gatt_characteristic services path props of
            Some t \<Rightarrow> Some t | None \<Rightarrow> gatt_loop_targets services objects))"

definition parseGATTTarget :: "managed_objects \<Rightarrow> string \<Rightarrow> gatt_target option" where
  "parseGATTTarget objects devicePath = gatt_loop_targets (print_services devicePath objects) objects"

text \<open>
  The loop of \<open>ConnectGATT\<close>: \<open>polls\<close> are the answers until the deadline, a quarter of a second apart.
\<close>

definition findGATTTarget :: "bus \<Rightarrow> string \<Rightarrow> gatt_target option" where
  "findGATTTarget b devicePath = (case bluez_objects b of Inl _ \<Rightarrow> None | Inr objects \<Rightarrow> parseGATTTarget objects devicePath)"

fun resolve_gatt :: "string \<Rightarrow> bus list \<Rightarrow> gatt_target option" where
  "resolve_gatt path [] = None"
| "resolve_gatt path (b # polls) =
     (case findGATTTarget b path of Some t \<Rightarrow> Some t | None \<Rightarrow> resolve_gatt path polls)"

datatype gatt_err = GattAddress driver_err | GattDevice bluez_err | GattConnect bluez_err | GattUnresolved string

definition ConnectGATT :: "bus \<Rightarrow> bus \<Rightarrow> bus list \<Rightarrow> string \<Rightarrow> gatt_err + gatt_target" where
  "ConnectGATT b refreshed polls address =
     sum_bind (map_err GattAddress (normalizeAddress address)) (\<lambda>address.
     sum_bind (map_err GattDevice (deviceByAddress b address)) (\<lambda>device.
     sum_bind
       (if bz_connected device then Inr ()
        else case fst (connectDevice b (bz_path device)) of
          None \<Rightarrow> Inr ()
        | Some e \<Rightarrow>
            if (case e of Plain be \<Rightarrow> isBlueZError ''org.bluez.Error.AlreadyConnected'' be | _ \<Rightarrow> False) then Inr ()
            else case deviceByAddress refreshed address of
              Inl _ \<Rightarrow> Inl (GattConnect e)
            | Inr again \<Rightarrow> if bz_connected again then Inr () else Inl (GattConnect e)) (\<lambda>_.
     case resolve_gatt (bz_path device) polls of None \<Rightarrow> Inl (GattUnresolved address) | Some t \<Rightarrow> Inr t)))"

section \<open>Laws\<close>

lemma deviceByAddress_InrD:
  assumes "deviceByAddress b address = Inr d"
  obtains devs where "Devices b = Inr devs" "d \<in> set devs" "normalizeAddress (bz_address d) = Inr address"
proof -
  obtain devs where devs: "Devices b = Inr devs" "List.find (\<lambda>d. normalizeAddress (bz_address d) = Inr address) devs = Some d"
    using assms by (auto simp: deviceByAddress_def sum_bind_Inr_iff split: option.split_asm)
  then show ?thesis using that find_SomeD [OF devs(2)] by blast
qed

text \<open>The pairing agent is gone after \<open>PairDevice\<close>, however it ends.\<close>

lemma pairing_cleans_up:
  assumes "PairDevice b address = (err, calls)" "bus_export b = None" "calls \<noteq> []"
  shows "last calls = Unexport"
    "Call ''/org/bluez'' (agentManager @ ''.RegisterAgent'') pairingAgentPath \<in> set calls"
    "err = None \<Longrightarrow> Call ''/org/bluez'' (agentManager @ ''.UnregisterAgent'') pairingAgentPath \<in> set calls"
  using assms by (auto simp: PairDevice_def Let_def split: sum.split_asm option.split_asm if_split_asm)

lemma gatt_loop_target_found:
  assumes "gatt_loop_targets services objects = Some t"
  shows "\<exists>interfaces props. (gt_path t, interfaces) \<in> set objects \<and>
    map_of interfaces ''org.bluez.GattCharacteristic1'' = Some props \<and> path_of props ''Service'' \<in> set services \<and>
    gt_mtu t \<ge> 23 \<and> (gt_write_type t = ''request'' \<longleftrightarrow> ''write'' \<in> set (strings_of props ''Flags'')) \<and>
    (gt_write_type t = ''command'' \<longrightarrow> ''write-without-response'' \<in> set (strings_of props ''Flags''))"
  using assms
  by (induction services objects rule: gatt_loop_targets.induct)
    (force simp: gatt_characteristic_def Let_def split: option.split_asm if_split_asm)+

text \<open>A passkey is the number its digits spell, modulo the 32 bits: one that does not fit wraps around.\<close>

lemma read_passkey_digits:
  assumes "\<forall>d \<in> set ds. d < 10"
  shows "read_passkey (of_nat n) (map digit_char ds) = Some (of_nat (of_digits n ds))"
  using assms
proof (induction ds arbitrary: n)
  case (Cons d ds)
  then have "(of_char (digit_char d) :: nat) = 48 + d" by (simp add: digit_char_def)
  then show ?case using Cons.prems Cons.IH [of "10 * n + d"] by (simp add: mult.commute)
qed simp

lemma passkey_wraps_around: "RequestPasskey ''4294967296'' = Some 0"
  by (simp add: RequestPasskey_def)

section \<open>The pairing agent and the characteristic\<close>

text \<open>What BlueZ may call on the agent while a device is paired, and the answers.\<close>

datatype agent_call =
    AgentRelease | AskPinCode string | AskPasskey string | DisplayPinCode string string | DisplayPasskey string
  | AskConfirmation string "32 word" | AskAuthorization string | AuthorizeService string string | AgentCancel

datatype agent_reply = Consent | PinCode string | Passkey "32 word" | Refusal string

definition agent_answers :: "string \<Rightarrow> agent_call \<Rightarrow> agent_reply" where
  "agent_answers pin c =
     (case c of
        AskPinCode device \<Rightarrow> PinCode (RequestPinCode pin)
      | AskPasskey device \<Rightarrow>
          (case RequestPasskey pin of Some k \<Rightarrow> Passkey k | None \<Rightarrow> Refusal ''Bluetooth PIN must be numeric for passkey pairing'')
      | _ \<Rightarrow> Consent)"

definition gatt_MTU :: "gatt_target \<Rightarrow> int" where
  "gatt_MTU t = uint (gt_mtu t)"

definition WriteValue :: "bus \<Rightarrow> gatt_target \<Rightarrow> bluez_err option \<times> bus_act list" where
  "WriteValue b t =
     (case bus_connect b of
        Inl e \<Rightarrow> (Some e, [])
      | Inr _ \<Rightarrow>
         (let write = ''org.bluez.GattCharacteristic1.WriteValue'' in
          (map_option Plain (bus_answer b (gt_path t) write), [Call (gt_path t) write (gt_write_type t)])))"

text \<open>The agent gives its PIN and nothing else away, and refuses only a passkey it does not have.\<close>

lemma agent_refuses: "agent_answers pin c = Refusal m \<Longrightarrow> (\<exists>device. c = AskPasskey device) \<and> RequestPasskey pin = None"
  by (auto simp: agent_answers_def split: agent_call.split_asm option.split_asm)

lemma agent_tells_its_pin: "agent_answers pin c = PinCode s \<Longrightarrow> s = pin"
  by (auto simp: agent_answers_def RequestPinCode_def split: agent_call.split_asm option.split_asm)

lemma write_needs_bus: "bus_connect b = Inl e \<Longrightarrow> snd (WriteValue b t) = []"
  by (simp add: WriteValue_def)

lemma chunk_fits: "23 \<le> gt_mtu t \<Longrightarrow> 20 \<le> gatt_MTU t - 3"
  by (simp add: gatt_MTU_def word_le_def)

end
