(* ===== verification/AppService.thy ===== *)
theory AppService
  imports RepositoryProperties Manager Auth Logs Storage
begin

text \<open>
  \<open>internal/app/service.go\<close>: the life of the agent. \<open>New\<close> opens the database, recovers what a crash left
  behind and wires the components, \<open>Run\<close> starts and stops them, and the retention loop deletes what is
  old. The file system, the listener and the failures of the database are arguments; so are the migrations
  and the time. The database is open, and the requests and the retention loop are running, as the flags of
  the agent say.
\<close>

section \<open>State\<close>

record options =
  op_data_dir :: string
  op_port :: int
  op_console :: bool

definition DefaultDataDir :: "string \<Rightarrow> string option \<Rightarrow> string" where
  "DefaultDataDir env config_dir =
     (if env \<noteq> [] then env else (case config_dir of None \<Rightarrow> ''print-agent'' | Some base \<Rightarrow> base @ ''/print-agent''))"

definition with_defaults :: "string \<Rightarrow> options \<Rightarrow> options" where
  "with_defaults default_dir opts =
     opts\<lparr>op_port := or_default 0 17432 (op_port opts), op_data_dir := or_default [] default_dir (op_data_dir opts)\<rparr>"

record 'c agent =
  ag_opts :: options
  ag_db :: db
  ag_logs :: "log_record list"
  ag_file :: rolling_file
  ag_auth :: auth
  ag_manager :: "'c manager"
  ag_serving :: bool
  ag_retaining :: bool
  ag_db_open :: bool
  ag_closed :: bool

datatype app_err =
    DirectoryFailed string
  | OpenFailed string
  | LoggerFailed string
  | RecoveryFailed repo_err
  | ListenFailed string
  | ManagerFailed manager_err
  | ServeFailed string

section \<open>Opening the database\<close>

text \<open>\<open>storage.Open\<close>: the answers of the file system, the integrity check and the content found on disk.\<close>

record disk =
  dk_directory :: "string option"
  dk_content :: "string + migrations_table \<times> db"
  dk_integrity :: "string + string"
  dk_secure :: "string option"

definition storage_Open ::
    "(string \<Rightarrow> string) \<Rightarrow> (string \<Rightarrow> db \<Rightarrow> string + db) \<Rightarrow> script list \<Rightarrow> (migrate_err \<Rightarrow> string) \<Rightarrow> disk \<Rightarrow> string + db" where
  "storage_Open sha exec files txt_of disk =
     (case dk_directory disk of
        Some e \<Rightarrow> Inl e
      | None \<Rightarrow> sum_bind (dk_content disk) (\<lambda>content.
          case migrate sha exec files content of
            (Some e, _) \<Rightarrow> Inl (txt_of e)
          | (None, _, d) \<Rightarrow>
             (case dk_integrity disk of
                Inl e \<Rightarrow> Inl (''database integrity check: '' @ e)
              | Inr answer \<Rightarrow>
                 if answer \<noteq> ''ok'' then Inl (''database integrity check failed: '' @ answer)
                 else case dk_secure disk of Some e \<Rightarrow> Inl (''secure database file'' @ e) | None \<Rightarrow> Inr d)))"

section \<open>New\<close>

text \<open>\<open>make_dir\<close> makes the directory of the logs private, \<open>found\<close> is what the log file holds.\<close>

definition buildLogger ::
    "(string \<Rightarrow> string option) \<Rightarrow> (string \<Rightarrow> time option) \<Rightarrow> time \<Rightarrow> (string \<Rightarrow> string + string list) \<Rightarrow> options \<Rightarrow> string + rolling_file" where
  "buildLogger make_dir time_of now found opts =
     (let logDir = op_data_dir opts @ ''/logs'' in
      case make_dir logDir of
        Some e \<Rightarrow> Inl e | None \<Rightarrow> NewRollingFile time_of now (found (logDir @ ''/print-agent.log'')))"

text \<open>Every event of the bus is stored; that is the only subscriber. The agent starts with the log file that \<open>buildLogger\<close> opens.\<close>

definition agent_bus :: "db bus" where
  "agent_bus = Subscribe PersistEvent NewBus"

definition recovered_event :: "print_run \<Rightarrow> event" where
  "recovered_event run = \<lparr>e_type = ''print_run.uncertain'', e_printer_id = r_printer_id run, e_run_uid = r_uid run,
     e_message = ''recovered as uncertain after restart'', e_created_at = 0\<rparr>"

definition publish_recovered :: "time \<Rightarrow> print_run list \<Rightarrow> db \<Rightarrow> db" where
  "publish_recovered now runs d = fold (\<lambda>run. Publish agent_bus now (recovered_event run)) runs d"

definition New ::
    "(options \<Rightarrow> string option) \<Rightarrow> string + db \<Rightarrow> (options \<Rightarrow> string + rolling_file) \<Rightarrow> log_record list \<Rightarrow> token_row list \<Rightarrow>
     string \<Rightarrow> time \<Rightarrow> options \<Rightarrow> app_err + 'c agent" where
  "New make_dir opened logger logs tokens default_dir now opts =
     (let opts = with_defaults default_dir opts in
      case make_dir opts of
        Some e \<Rightarrow> Inl (DirectoryFailed e)
      | None \<Rightarrow>
         sum_bind (map_err OpenFailed opened) (\<lambda>d.
         sum_bind (map_err LoggerFailed (logger opts)) (\<lambda>file.
         sum_bind (map_err RecoveryFailed (RecoverAbandoned now d)) (\<lambda>(recovered, d).
         Inr \<lparr>ag_opts = opts, ag_db = publish_recovered now recovered d, ag_logs = logs, ag_file = file,
              ag_auth = NewAuthService tokens, ag_manager = NewManager, ag_serving = False, ag_retaining = False,
              ag_db_open = True, ag_closed = False\<rparr>))))"

section \<open>Run and Close\<close>

definition agent_event :: "string \<Rightarrow> string \<Rightarrow> event" where
  "agent_event ty msg = \<lparr>e_type = ty, e_printer_id = [], e_run_uid = [], e_message = msg, e_created_at = 0\<rparr>"

definition tell :: "time \<Rightarrow> event \<Rightarrow> 'c agent \<Rightarrow> 'c agent" where
  "tell now e a = a\<lparr>ag_db := Publish agent_bus now e (ag_db a)\<rparr>"

definition Close :: "'c agent \<Rightarrow> 'c agent" where
  "Close a = (if ag_closed a then a
     else a\<lparr>ag_closed := True, ag_serving := False, ag_manager := Stop (ag_manager a), ag_db_open := False\<rparr>)"

text \<open>\<open>Run\<close> up to its wait, and what follows when the context ends or the listener fails.\<close>

definition Run_start :: "string option \<Rightarrow> string \<Rightarrow> time \<Rightarrow> 'c agent \<Rightarrow> app_err option \<times> 'c agent" where
  "Run_start listen started now a =
     (case listen of
        Some e \<Rightarrow> (Some (ListenFailed e), Close a)
      | None \<Rightarrow>
         (case Start True (ag_db a) (ag_manager a) of
            Inl e \<Rightarrow> (Some (ManagerFailed e), Close a)
          | Inr m \<Rightarrow> (None, (tell now (agent_event ''agent.started'' started) (a\<lparr>ag_manager := m\<rparr>))
                              \<lparr>ag_retaining := True, ag_serving := True\<rparr>)))"

definition Run_stop :: "string option \<Rightarrow> time \<Rightarrow> 'c agent \<Rightarrow> app_err option \<times> 'c agent" where
  "Run_stop serve_error now a =
     (let a = tell now (agent_event ''agent.stopping'' []) a;
          a = a\<lparr>ag_serving := False, ag_manager := Stop (ag_manager a), ag_retaining := False\<rparr>
      in (map_option ServeFailed serve_error, Close a))"

section \<open>Retention\<close>

text \<open>
  One round of the loop: \<open>previous\<close> is \<open>lastJobPurge\<close>, \<open>fails\<close> whether the statements of \<open>PurgeExpired\<close> fail; the
  log purge is one statement.
\<close>

definition retention_round ::
    "(string \<Rightarrow> time option) \<Rightarrow> time \<times> bool \<Rightarrow> time \<times> 'c agent \<Rightarrow> time \<times> 'c agent" where
  "retention_round time_of round s = (case (round, s) of ((now, fails), previous, a) \<Rightarrow>
     let a = a\<lparr>ag_logs := Store_Purge now (ag_logs a), ag_file := snd (purgeLocked time_of now (ag_file a))\<rparr> in
     if is_zero_time previous \<or> now - previous \<ge> 24 * hour
     then (now, if fails then a else a\<lparr>ag_db := PurgeExpired now (ag_db a)\<rparr>)
     else (previous, a))"

definition retentionLoop :: "(string \<Rightarrow> time option) \<Rightarrow> (time \<times> bool) list \<Rightarrow> 'c agent \<Rightarrow> 'c agent" where
  "retentionLoop time_of rounds a = snd (fold (retention_round time_of) rounds (0, a))"

section \<open>Laws\<close>

lemma Publish_agent:
  "Publish agent_bus now e d = PersistEvent (if is_zero_time (e_created_at e) then e\<lparr>e_created_at := now\<rparr> else e) d"
  by (simp add: Publish_def agent_bus_def Subscribe_def NewBus_def Let_def)

text \<open>Events leave the other tables alone.\<close>

lemma PersistEvent_rows [simp]:
  "db_runs (PersistEvent e d) = db_runs d" "db_jobs (PersistEvent e d) = db_jobs d"
  "db_targets (PersistEvent e d) = db_targets d" "db_printers (PersistEvent e d) = db_printers d"
  "db_events (PersistEvent e d) = db_events d @ [\<lparr>ev_id = next_event_id d, ev_type = e_type e,
     ev_printer_id = sql_null (e_printer_id e), ev_run_uid = sql_null (e_run_uid e), ev_message = e_message e,
     ev_created_at = e_created_at e\<rparr>]"
  by (simp_all add: PersistEvent_def insert_event_def)

lemma publish_recovered_rows [simp]:
  "db_runs (publish_recovered now runs d) = db_runs d" "db_jobs (publish_recovered now runs d) = db_jobs d"
  "db_targets (publish_recovered now runs d) = db_targets d" "db_printers (publish_recovered now runs d) = db_printers d"
  unfolding publish_recovered_def by (induction runs arbitrary: d) (simp_all add: Publish_agent)

lemma publish_recovered_events:
  "set (db_events d) \<subseteq> set (db_events (publish_recovered now runs d)) \<and>
   (\<forall>run \<in> set runs. \<exists>e \<in> set (db_events (publish_recovered now runs d)).
      ev_type e = ''print_run.uncertain'' \<and> ev_run_uid e = sql_null (r_uid run) \<and> ev_created_at e = now)"
proof (induction runs arbitrary: d)
  case (Cons run runs)
  let ?d = "Publish agent_bus now (recovered_event run) d"
  have d: "\<exists>e \<in> set (db_events ?d). ev_type e = ''print_run.uncertain'' \<and> ev_run_uid e = sql_null (r_uid run) \<and> ev_created_at e = now"
    "set (db_events d) \<subseteq> set (db_events ?d)"
    by (auto simp: Publish_agent recovered_event_def is_zero_time_def)
  then show ?case using Cons.IH [of ?d] unfolding publish_recovered_def by (simp add: subset_iff) metis
qed (simp add: publish_recovered_def)

lemma New_InrD:
  assumes "New make_dir opened logger logs tokens default_dir now opts = Inr a"
  obtains d recovered d' where "opened = Inr d" "RecoverAbandoned now d = Inr (recovered, d')"
    "ag_db a = publish_recovered now recovered d'" "ag_manager a = NewManager" "\<not> ag_serving a" "ag_db_open a"
  using assms by (auto simp: New_def Let_def sum_bind_Inr_iff map_err_def split: option.split_asm sum.split_asm prod.split_asm)

text \<open>A run that ends leaves nothing behind, and closing again changes nothing.\<close>

lemma run_ends_closed:
  assumes "Run_stop serve_error now a = (e, a')"
  shows "ag_closed a'" "\<not> ag_closed a \<Longrightarrow> \<not> ag_db_open a' \<and> \<not> ag_serving a' \<and> \<not> ag_retaining a' \<and>
    mg_workers (ag_manager a') = Map.empty" "Close a' = a'"
  using assms by (auto simp: Run_stop_def Let_def Close_def tell_def Stop_def split: if_split_asm)

lemma failed_start_is_closed:
  assumes "Run_start listen started now a = (Some e, a')" shows "Close a' = a'"
  using assms by (auto simp: Run_start_def Close_def split: option.split_asm sum.split_asm)

lemma PersistEvent_db_ok: "db_ok d \<Longrightarrow> db_ok (PersistEvent e d)"
  using insert_event_keeps [of d]
  by (simp add: PersistEvent_def db_ok_def)
    (simp add: insert_event_def lineage_ok_def initial_ok_def child_ok_def retry_source_def)

lemma publish_recovered_db_ok: "db_ok d \<Longrightarrow> db_ok (publish_recovered now runs d)"
  unfolding publish_recovered_def by (induction runs arbitrary: d) (simp_all add: Publish_agent PersistEvent_db_ok)


text \<open>The options and the log file of the witness.\<close>

definition sample_opts :: options where
  "sample_opts = \<lparr>op_data_dir = ''/data'', op_port = 0, op_console = False\<rparr>"


section \<open>What retention keeps\<close>

lemma retention_round_db:
  "snd (retention_round time_of (now, fails) (previous, a)) = b \<Longrightarrow> ag_db b = ag_db a \<or> ag_db b = PurgeExpired now (ag_db a)"
  by (auto simp: retention_round_def Let_def)

definition open_work :: "db \<Rightarrow> print_run \<Rightarrow> bool" where
  "open_work d r \<longleftrightarrow> r \<in> set (db_runs d) \<and>
     (active_status (r_status r) \<or>
      ((r_status r = RunFailed \<or> r_status r = RunUncertain) \<and> r_resolution r = None \<and>
       \<not> (\<exists>t \<in> set (db_targets d). target_key t = run_target r \<and> t_cancelled_at t \<noteq> None)))"

lemma PurgeExpired_targets: "set (db_targets (PurgeExpired now d)) \<subseteq> set (db_targets d)"
  by (auto simp: PurgeExpired_def delete_events_def delete_jobs_def Let_def)

lemma PurgeExpired_open_work:
  assumes "db_ok d" "open_work d r" shows "open_work (PurgeExpired now d) r"
proof -
  have "r \<in> set (db_runs (PurgeExpired now d))"
  proof (rule ccontr)
    assume "r \<notin> set (db_runs (PurgeExpired now d))"
    then obtain j where "j_uid j = r_job_uid r" "\<not> unresolved_work d j"
      using PurgeExpired_runs [OF assms(1)] assms(2) unfolding open_work_def by metis
    with assms(2) show False by (auto simp: open_work_def unresolved_work_def target_key_def run_target_def)
  qed
  then show ?thesis using assms(2) PurgeExpired_targets [of now d] unfolding open_work_def by blast
qed

lemma retention_rounds_open_work:
  assumes "db_ok (ag_db a)" "open_work (ag_db a) r"
  shows "db_ok (ag_db (snd (fold (retention_round time_of) rounds (previous, a)))) \<and>
    open_work (ag_db (snd (fold (retention_round time_of) rounds (previous, a)))) r"
  using assms
proof (induction rounds arbitrary: previous a)
  case (Cons round rounds)
  obtain now fails p b where e: "round = (now, fails)" "retention_round time_of (now, fails) (previous, a) = (p, b)" by (metis surj_pair)
  then have "ag_db b = ag_db a \<or> ag_db b = PurgeExpired now (ag_db a)" using retention_round_db [of time_of now fails previous a b] by simp
  then have "db_ok (ag_db b)" "open_work (ag_db b) r"
    using Cons.prems PurgeExpired_keeps PurgeExpired_open_work by metis+
  then show ?case using Cons.IH [of b p] e by simp
qed simp

lemma retention_logs:
  "ag_logs (snd (retention_round time_of (now, fails) s)) = Store_Purge now (ag_logs (snd s))"
  by (cases s) (simp add: retention_round_def Let_def)


definition sample_agent :: "nat agent" where
  "sample_agent = \<lparr>ag_opts = sample_opts, ag_db = sample_uncertain, ag_logs = [], ag_file = \<lparr>rf_lines = [], rf_last_purge = 0\<rparr>,
     ag_auth = NewAuthService [], ag_manager = NewManager, ag_serving = False, ag_retaining = True, ag_db_open = True,
     ag_closed = False\<rparr>"


end
