(* ===== verification/AgentMain.thy ===== *)
theory AgentMain
  imports AppService
begin

text \<open>
  \<open>cmd/print-agent/main.go\<close>: the options, the two signals and the exit code. The flags a user gave are
  read by the package \<open>flag\<close>; here they are present or not.
\<close>

record flags =
  fg_port :: "int option"
  fg_data_dir :: "string option"
  fg_console :: "bool option"

definition given_or :: "'a \<Rightarrow> 'a option \<Rightarrow> 'a" where
  "given_or d v = (case v of None \<Rightarrow> d | Some x \<Rightarrow> x)"

datatype main_event = SignalReceived | RunReturned "string option"

text \<open>The process: how many signals the goroutine took, whether the context is cancelled, and the exit code.\<close>

record agent_process =
  pr_signals :: nat
  pr_cancelled :: bool
  pr_exit :: "nat option"
  pr_stderr :: "string list"

definition main_step :: "main_event \<Rightarrow> agent_process \<Rightarrow> agent_process" where
  "main_step ev p =
     (if pr_exit p \<noteq> None then p
      else case ev of
        SignalReceived \<Rightarrow>
          (if pr_signals p = 0 then p\<lparr>pr_signals := 1, pr_cancelled := True\<rparr>
           else p\<lparr>pr_signals := 2, pr_exit := Some 2, pr_stderr := pr_stderr p @ [''second signal received; forcing shutdown'']\<rparr>)
      | RunReturned None \<Rightarrow> p\<lparr>pr_exit := Some 0\<rparr>
      | RunReturned (Some e) \<Rightarrow> p\<lparr>pr_exit := Some 1, pr_stderr := pr_stderr p @ [''error: '' @ e]\<rparr>)"

definition options_of :: "flags \<Rightarrow> options" where
  "options_of f = \<lparr>op_data_dir = given_or [] (fg_data_dir f), op_port = given_or 17432 (fg_port f),
     op_console = given_or True (fg_console f)\<rparr>"

text \<open>\<open>main\<close>: \<open>app.New\<close> first, then what happens while \<open>Run\<close> runs, in its order.\<close>

definition main :: "(options \<Rightarrow> string + 'c agent) \<Rightarrow> flags \<Rightarrow> main_event list \<Rightarrow> agent_process" where
  "main app_new f events =
     (let p = \<lparr>pr_signals = 0, pr_cancelled = False, pr_exit = None, pr_stderr = []\<rparr> in
      case app_new (options_of f) of
        Inl e \<Rightarrow> p\<lparr>pr_exit := Some 1, pr_stderr := [''error: '' @ e]\<rparr>
      | Inr _ \<Rightarrow> fold main_step events p)"

text \<open>Without flags the agent listens on the port \<open>New\<close> takes by default, too.\<close>

lemma default_options:
  "with_defaults dir (options_of \<lparr>fg_port = None, fg_data_dir = None, fg_console = None\<rparr>) =
    \<lparr>op_data_dir = dir, op_port = 17432, op_console = True\<rparr>"
  by (simp add: with_defaults_def options_of_def given_or_def or_default_def)

text \<open>
  The context is cancelled with the first signal and not before; the second signal ends a process that
  is still shutting down with code 2; code 0 means that \<open>Run\<close> returned without an error.
\<close>

definition process_ok :: "main_event list \<Rightarrow> agent_process \<Rightarrow> bool" where
  "process_ok evs p \<longleftrightarrow>
     (pr_cancelled p \<longleftrightarrow> 0 < pr_signals p) \<and> pr_signals p \<le> length (filter ((=) SignalReceived) evs) \<and>
     (pr_exit p = None \<longrightarrow> pr_signals p = length (filter ((=) SignalReceived) evs) \<and> pr_signals p \<le> 1) \<and>
     (pr_exit p = Some 2 \<longrightarrow> pr_signals p = 2) \<and> (pr_exit p = Some 0 \<longrightarrow> RunReturned None \<in> set evs \<and> pr_signals p \<le> 1)"

lemma main_step_ok: "process_ok evs p \<Longrightarrow> process_ok (evs @ [ev]) (main_step ev p)"
  by (cases "pr_exit p"; cases ev; auto simp: process_ok_def main_step_def le_Suc_eq split: option.split)

lemma fold_main_ok: "process_ok evs p \<Longrightarrow> process_ok (evs @ events) (fold main_step events p)"
proof (induction events arbitrary: evs p)
  case (Cons ev events)
  from Cons.IH [OF main_step_ok [OF Cons.prems]] show ?case by simp
qed simp

lemma main_obeys_signals:
  assumes "app_new (options_of f) = Inr a"
  shows "process_ok events (main app_new f events)"
proof -
  have "process_ok [] \<lparr>pr_signals = 0, pr_cancelled = False, pr_exit = None, pr_stderr = []\<rparr>" by (simp add: process_ok_def)
  from fold_main_ok [OF this, of events] show ?thesis using assms by (simp add: main_def)
qed

end
