(* ===== verification/RateLimit.thy ===== *)
theory RateLimit
  imports Http
begin

text \<open>
  What the token buckets of \<open>internal/api/middleware.go\<close> let through: a bound on every window of requests
  of one client, and what the choice of the key leaves open. The tokens are exact here, where the code has
  \<open>float64\<close>.
\<close>

section \<open>One bucket\<close>

definition bucket_ok :: "bucket \<Rightarrow> bool" where
  "bucket_ok b \<longleftrightarrow> 0 \<le> bu_tokens b \<and> 0 \<le> bu_rate b \<and> 0 \<le> bu_max b"

fun bucket_run :: "time list \<Rightarrow> bucket \<Rightarrow> nat \<times> bucket" where
  "bucket_run [] b = (0, b)"
| "bucket_run (t # arrivals) b =
     (case bucket_allow t b of (ok, b) \<Rightarrow> case bucket_run arrivals b of (n, b) \<Rightarrow> ((if ok then Suc n else n), b))"

lemma bucket_allow_fields:
  "bu_rate (snd (bucket_allow t b)) = bu_rate b" "bu_max (snd (bucket_allow t b)) = bu_max b"
  "bu_last (snd (bucket_allow t b)) = t"
  "bu_tokens (snd (bucket_allow t b)) = refilled t b - (if fst (bucket_allow t b) then 1 else 0)"
  "fst (bucket_allow t b) \<longleftrightarrow> 1 \<le> refilled t b"
  by (auto simp: bucket_allow_def Let_def not_less)

lemma refilled_nonneg: "bucket_ok b \<Longrightarrow> bu_last b \<le> t \<Longrightarrow> 0 \<le> refilled t b"
  by (simp add: refilled_def bucket_ok_def second_def)

lemma bucket_allow_ok: "bucket_ok b \<Longrightarrow> bu_last b \<le> t \<Longrightarrow> bucket_ok (snd (bucket_allow t b))"
  using refilled_nonneg [of b t] by (auto simp: bucket_ok_def bucket_allow_fields)

lemma refilled_grows:
  "refilled t b \<le> bu_tokens b + of_int (t - bu_last b) / of_int second * bu_rate b"
  by (simp add: refilled_def)

lemma bucket_run_bound:
  assumes "bucket_ok b" "sorted (bu_last b # arrivals)"
  shows "of_nat (fst (bucket_run arrivals b)) \<le>
    bu_tokens b + of_int (last (bu_last b # arrivals) - bu_last b) / of_int second * bu_rate b"
  using assms
proof (induction arrivals arbitrary: b)
  case Nil
  then show ?case by (simp add: bucket_ok_def)
next
  case (Cons t arrivals)
  let ?b = "snd (bucket_allow t b)"
  have ok: "bucket_ok ?b" using bucket_allow_ok Cons.prems by simp
  have "sorted (bu_last ?b # arrivals)" using Cons.prems(2) by (simp add: bucket_allow_fields)
  note ih = Cons.IH [OF ok this]
  let ?stop = "last (t # arrivals)"
  have split_time: "of_int (t - bu_last b) / of_int second * bu_rate b + of_int (?stop - t) / of_int second * bu_rate b =
      of_int (?stop - bu_last b) / of_int second * bu_rate b" for dummy :: rat
    by (simp add: algebra_simps add_divide_distrib diff_divide_distrib)
  have "of_nat (fst (bucket_run (t # arrivals) b)) =
      of_nat (fst (bucket_run arrivals ?b)) + (if fst (bucket_allow t b) then 1 else (0 :: rat))"
    by (simp add: split_beta)
  also have "\<dots> \<le> refilled t b + of_int (?stop - t) / of_int second * bu_rate b"
    using ih by (simp add: bucket_allow_fields split: if_split_asm)
  also have "\<dots> \<le> bu_tokens b + of_int (?stop - bu_last b) / of_int second * bu_rate b"
    using refilled_grows [of t b] split_time by linarith
  finally show ?case by simp
qed

text \<open>A window starts with at most a full bucket, whatever was saved up before it.\<close>

lemma bucket_run_window:
  assumes "bucket_ok b" "bu_last b \<le> t" "sorted (t # arrivals)"
  shows "of_nat (fst (bucket_run (t # arrivals) b)) \<le> bu_max b + of_int (last (t # arrivals) - t) / of_int second * bu_rate b"
proof -
  let ?b = "b\<lparr>bu_tokens := refilled t b, bu_last := t\<rparr>"
  have ok: "bucket_ok ?b" using assms(1) refilled_nonneg [OF assms(1,2)] by (simp add: bucket_ok_def)
  have "refilled t ?b = refilled t b" by (simp add: refilled_def)
  then have "bucket_allow t ?b = bucket_allow t b" by (simp add: bucket_allow_def Let_def)
  then have "fst (bucket_run (t # arrivals) b) = fst (bucket_run (t # arrivals) ?b)" by simp
  also have "of_nat \<dots> \<le> bu_tokens ?b + of_int (last (bu_last ?b # t # arrivals) - bu_last ?b) / of_int second * bu_rate ?b"
    by (rule bucket_run_bound [OF ok]) (use assms(3) in simp)
  also have "\<dots> \<le> bu_max b + of_int (last (t # arrivals) - t) / of_int second * bu_rate b"
    by (simp add: refilled_def)
  finally show ?thesis .
qed

section \<open>The buckets of all clients\<close>

fun limiter_run :: "rat \<Rightarrow> rat \<Rightarrow> (time \<times> string) list \<Rightarrow> (string \<rightharpoonup> bucket) \<Rightarrow> bool list \<times> (string \<rightharpoonup> bucket)" where
  "limiter_run rate burst [] l = ([], l)"
| "limiter_run rate burst ((now, key) # calls) l =
     (case keyed_allow rate burst now key l of (ok, l) \<Rightarrow> case limiter_run rate burst calls l of (oks, l) \<Rightarrow> (ok # oks, l))"

definition passed :: "string \<Rightarrow> bool list \<Rightarrow> (time \<times> string) list \<Rightarrow> nat" where
  "passed key oks calls = length (filter (\<lambda>(ok, _, k). ok \<and> k = key) (zip oks calls))"

definition client_times :: "string \<Rightarrow> (time \<times> string) list \<Rightarrow> time list" where
  "client_times key calls = map fst (filter (\<lambda>(_, k). k = key) calls)"

definition limiter_ok :: "rat \<Rightarrow> rat \<Rightarrow> time \<Rightarrow> (string \<rightharpoonup> bucket) \<Rightarrow> bool" where
  "limiter_ok rate burst now l \<longleftrightarrow>
     (\<forall>key b. l key = Some b \<longrightarrow> bucket_ok b \<and> bu_rate b = rate \<and> bu_max b = burst \<and> bu_last b \<le> now)"

definition bucket_of :: "rat \<Rightarrow> rat \<Rightarrow> time \<Rightarrow> string \<Rightarrow> (string \<rightharpoonup> bucket) \<Rightarrow> bucket" where
  "bucket_of rate burst now key l = (case l key of None \<Rightarrow> newRateLimiter rate burst now | Some b \<Rightarrow> b)"

lemma bucket_of_ok:
  assumes "limiter_ok rate burst now l" "0 \<le> rate" "0 \<le> burst"
  shows "bucket_ok (bucket_of rate burst now key l)" "bu_last (bucket_of rate burst now key l) \<le> now"
    "bu_max (bucket_of rate burst now key l) = burst" "bu_rate (bucket_of rate burst now key l) = rate"
  using assms by (auto simp: bucket_of_def limiter_ok_def bucket_ok_def newRateLimiter_def split: option.split)

lemma keyed_allow_bucket:
  "keyed_allow rate burst now key l = (fst (bucket_allow now (bucket_of rate burst now key l)),
     l(key \<mapsto> snd (bucket_allow now (bucket_of rate burst now key l))))"
  by (simp add: keyed_allow_def bucket_of_def Let_def split_beta)

lemma keyed_allow_ok:
  assumes "limiter_ok rate burst now l" "0 \<le> rate" "0 \<le> burst"
  shows "limiter_ok rate burst now (snd (keyed_allow rate burst now key l))"
  using assms(1) bucket_allow_ok [OF bucket_of_ok(1,2) [OF assms]] bucket_of_ok(3,4) [OF assms]
  by (auto simp: limiter_ok_def keyed_allow_bucket bucket_allow_fields)

lemma limiter_ok_later: "limiter_ok rate burst now l \<Longrightarrow> now \<le> now' \<Longrightarrow> limiter_ok rate burst now' l"
  unfolding limiter_ok_def by fastforce

text \<open>Seen from one client, the limiter is the bucket of that client.\<close>

lemma limiter_run_client:
  assumes "l key = Some b"
  shows "passed key (fst (limiter_run rate burst calls l)) calls = fst (bucket_run (client_times key calls) b)"
  using assms
proof (induction calls arbitrary: l b)
  case Nil
  then show ?case by (simp add: passed_def client_times_def)
next
  case (Cons call calls)
  obtain now k where c: "call = (now, k)" by fastforce
  define l1 where "l1 = snd (keyed_allow rate burst now k l)"
  have head: "passed key (fst (limiter_run rate burst (call # calls) l)) (call # calls) =
      (if fst (keyed_allow rate burst now k l) \<and> k = key then 1 else 0) +
      passed key (fst (limiter_run rate burst calls l1)) calls"
    by (auto simp: passed_def c split_beta l1_def)
  show ?case
  proof (cases "k = key")
    case True
    have "l1 key = Some (snd (bucket_allow now b))" "fst (keyed_allow rate burst now k l) = fst (bucket_allow now b)"
      using True Cons.prems by (simp_all add: l1_def keyed_allow_bucket bucket_of_def)
    then show ?thesis using True c unfolding head by (simp add: Cons.IH client_times_def split_beta)
  next
    case False
    then have "l1 key = Some b" using Cons.prems by (simp add: l1_def keyed_allow_bucket)
    then show ?thesis using False c unfolding head by (simp add: Cons.IH client_times_def)
  qed
qed

lemma limiter_run_ok:
  assumes "limiter_ok rate burst now l" "sorted (now # map fst calls)" "0 \<le> rate" "0 \<le> burst"
  shows "limiter_ok rate burst (last (now # map fst calls)) (snd (limiter_run rate burst calls l))"
  using assms(1,2)
proof (induction calls arbitrary: l now)
  case (Cons call calls)
  obtain t k where c: "call = (t, k)" by fastforce
  have "limiter_ok rate burst t (snd (keyed_allow rate burst t k l))"
    using keyed_allow_ok [OF _ assms(3,4)] limiter_ok_later [OF Cons.prems(1)] Cons.prems(2) c by simp
  then show ?case using Cons.IH [of t "snd (keyed_allow rate burst t k l)"] Cons.prems(2) c by (simp add: split_beta)
qed simp

text \<open>C34: A client is held to its rate. Of the requests with one rate key, in any window that starts with one of them
  and whatever came before and from other clients, at most the burst plus the rate arrivals the length of the
  window in seconds pass: 40 and 20 a second for \<open>rateLimit\<close>.\<close>

theorem clients_are_rate_limited:
  assumes "sorted (start # map fst before @ now # map fst calls)" "0 \<le> rate" "0 \<le> burst"
    and "l = snd (limiter_run rate burst before Map.empty)"
  shows "of_nat (passed key (fst (limiter_run rate burst ((now, key) # calls) l)) ((now, key) # calls)) \<le>
    burst + of_int (last (now # client_times key calls) - now) / of_int second * rate"
proof -
  have "limiter_ok rate burst start Map.empty" by (simp add: limiter_ok_def)
  moreover have "sorted (start # map fst before)" using assms(1) by (simp add: sorted_append)
  ultimately have "limiter_ok rate burst (last (start # map fst before)) l"
    using limiter_run_ok assms(2-4) by metis
  moreover have "last (start # map fst before) \<le> now"
  proof -
    have "\<forall>t \<in> set (start # map fst before). t \<le> now" using assms(1) by (auto simp: sorted_append)
    then show ?thesis using last_in_set [of "start # map fst before"] by blast
  qed
  ultimately have l: "limiter_ok rate burst now l" using limiter_ok_later by metis
  let ?b = "bucket_of rate burst now key l"
  note b = bucket_of_ok [OF l assms(2,3), of key]
  have arrivals: "sorted (now # client_times key calls)"
  proof -
    have "sorted (map fst calls)" "\<forall>t \<in> set (map fst calls). now \<le> t" using assms(1) by (simp_all add: sorted_append)
    then show ?thesis unfolding client_times_def by (auto intro!: sorted_filter)
  qed
  define l1 where "l1 = snd (keyed_allow rate burst now key l)"
  have "l1 key = Some (snd (bucket_allow now ?b))" "fst (keyed_allow rate burst now key l) = fst (bucket_allow now ?b)"
    by (simp_all add: l1_def keyed_allow_bucket)
  moreover have "passed key (fst (limiter_run rate burst ((now, key) # calls) l)) ((now, key) # calls) =
      (if fst (keyed_allow rate burst now key l) then 1 else 0) + passed key (fst (limiter_run rate burst calls l1)) calls"
    by (simp add: passed_def split_beta l1_def)
  ultimately have "passed key (fst (limiter_run rate burst ((now, key) # calls) l)) ((now, key) # calls) =
      fst (bucket_run (now # client_times key calls) ?b)"
    by (simp add: limiter_run_client split_beta)
  then show ?thesis using bucket_run_window [OF b(1,2) arrivals] b(3,4) by simp
qed

theorem clients_are_rate_limited_witness:
  "of_nat (passed ''a'' (fst (limiter_run 20 2 [(0, ''a''), (0, ''b''), (0, ''a''), (0, ''a''), (second div 10, ''a'')] Map.empty))
     [(0, ''a''), (0, ''b''), (0, ''a''), (0, ''a''), (second div 10, ''a'')]) \<le> (4 :: rat)"
proof -
  have "sorted (0 # map fst [] @ 0 # map fst [(0, ''b''), (0, ''a''), (0, ''a''), (second div 10, ''a'')])"
    by (simp add: second_def)
  moreover have "Map.empty = snd (limiter_run 20 2 [] Map.empty)" by simp
  ultimately have "of_nat (passed ''a'' (fst (limiter_run 20 2 [(0, ''a''), (0, ''b''), (0, ''a''), (0, ''a''), (second div 10, ''a'')] Map.empty))
     [(0, ''a''), (0, ''b''), (0, ''a''), (0, ''a''), (second div 10, ''a'')]) \<le>
     2 + of_int (last (0 # client_times ''a'' [(0, ''b''), (0, ''a''), (0, ''a''), (second div 10, ''a'')]) - 0) / of_int second * (20 :: rat)"
    by (intro clients_are_rate_limited [where start = 0 and before = "[]"]) simp_all
  then show ?thesis by (simp add: client_times_def second_def)
qed

text \<open>
  The key is made of headers that the client chooses, and is looked up before the token is checked: a client that sends
  another \<open>Authorization\<close> with each request always meets a full bucket, and a bucket is kept for each.
\<close>

lemma fresh_keys_always_pass:
  assumes "1 \<le> burst" "distinct (map snd calls)" "snd ` set calls \<inter> dom l = {}"
  shows "list_all (\<lambda>ok. ok) (fst (limiter_run rate burst calls l)) \<and>
    dom (snd (limiter_run rate burst calls l)) = dom l \<union> snd ` set calls"
  using assms(2,3)
proof (induction calls arbitrary: l)
  case (Cons call calls)
  obtain t k where c: "call = (t, k)" by fastforce
  let ?r = "keyed_allow rate burst t k l"
  have "l k = None" using Cons.prems(2) c by auto
  then have r: "fst ?r" "dom (snd ?r) = insert k (dom l)"
    using assms(1) by (auto simp: keyed_allow_bucket bucket_of_def newRateLimiter_def bucket_allow_fields refilled_def)
  have "distinct (map snd calls)" "snd ` set calls \<inter> dom (snd ?r) = {}" using Cons.prems c r(2) by auto
  from Cons.IH [OF this] show ?case using r c by (simp add: split_beta)
qed simp

end
