(* ===== verification/Btprobe.thy ===== *)
theory Btprobe
  imports Http EscposCorrect
begin

text \<open>
  \<open>cmd/btprobe/main.go\<close>: the tool that tries printers before an agent is set up. Flags are arguments; what the
  transport or the port answers is given by functions; texts for the console are values.
\<close>

record probe_transport =
  pt_connect :: "string option"
  pt_write :: "nat \<Rightarrow> byte list \<Rightarrow> string option"

datatype probe_err =
    ProbeUsage string
  | ProbeRender template_error
  | ProbeEncoding string
  | ProbeConnect string
  | ProbeWrite string
  | NoReads string
  | ProbeOpen string
  | EotWrite nat string

definition probe_config :: "string \<Rightarrow> string \<Rightarrow> int \<Rightarrow> printer_config" where
  "probe_config endpoint enc_name width =
     ApplyDefaults \<lparr>pc_id = ''probe'', pc_display_name = [], pc_enabled = False, pc_transport = TransportBluetoothSerial,
       pc_device_address = [], pc_endpoint = endpoint, pc_connection_preference = [], pc_baud_rate = 0, pc_data_bits = 0,
       pc_stop_bits = 0, pc_parity = [], pc_characters_per_line = width, pc_encoding = enc_name, pc_auto_reconnect = False,
       pc_retired_at = None, pc_created_at = 0, pc_updated_at = 0\<rparr>"

definition writeOnce :: "probe_transport \<Rightarrow> byte list \<Rightarrow> probe_err + nat" where
  "writeOnce t doc =
     (case pt_connect t of
        Some e \<Rightarrow> Inl (ProbeConnect e)
      | None \<Rightarrow> (case pt_write t 0 doc of Some e \<Rightarrow> Inl (ProbeWrite e) | None \<Rightarrow> Inr (length doc)))"

definition plain_options :: render_options where
  "plain_options = \<lparr>ro_reprint = False, ro_run_number = 0, ro_accepted_at = 0\<rparr>"

definition cmdTest :: "escpos_env \<Rightarrow> probe_transport \<Rightarrow> string \<Rightarrow> int \<Rightarrow> string list \<Rightarrow> probe_err + nat" where
  "cmdTest env t enc_name width args =
     (case args of
        [endpoint] \<Rightarrow>
          (let cfg = probe_config endpoint enc_name width in
           sum_bind (map_err ProbeRender (Render env TemplateTestPage [] (pc_encoding cfg) (pc_characters_per_line cfg) plain_options))
             (writeOnce t))
      | _ \<Rightarrow> Inl (ProbeUsage ''usage: btprobe test <endpoint>''))"

text \<open>The code points of the sample line of \<open>cmdCharset\<close>, with spaces between them.\<close>

definition charset_sample :: runes where
  "charset_sample = [225, 32, 233, 32, 237, 32, 243, 32, 250, 32, 241, 32, 209, 32, 191, 32, 161, 32, 8364, 32, 252, 32, 220, 32, 231]"

definition charset_block :: "encoder \<Rightarrow> int \<Rightarrow> string \<Rightarrow> probe_err + byte list" where
  "charset_block enc width name =
     (case NewBuilder name width of
        None \<Rightarrow> Inl (ProbeEncoding name)
      | Some b \<Rightarrow> Inr (b_buf (Feed 1 (Text enc charset_sample (Bold False (Text enc (lit (''== '' @ name @ '' =='')) (Bold True (Init b))))))))"

definition charset_doc :: "encoder \<Rightarrow> int \<Rightarrow> probe_err + byte list" where
  "charset_doc enc width =
     sum_bind (fold_sum (\<lambda>doc name. sum_bind (charset_block enc width name) (\<lambda>bs. Inr (doc @ bs))) [] SupportedEncodings) (\<lambda>doc.
     case NewBuilder ''CP437'' width of
       None \<Rightarrow> Inl (ProbeEncoding ''CP437'')
     | Some b \<Rightarrow> Inr (doc @ b_buf (Cut (Feed 4 (Text enc (lit ''all characters correctly'') (Text enc (lit ''pick the block that prints'') b))))))"

definition cmdCharset :: "encoder \<Rightarrow> probe_transport \<Rightarrow> int \<Rightarrow> string list \<Rightarrow> probe_err + nat" where
  "cmdCharset enc t width args =
     (case args of
        [endpoint] \<Rightarrow> sum_bind (charset_doc enc width) (writeOnce t)
      | _ \<Rightarrow> Inl (ProbeUsage ''usage: btprobe charset <endpoint>''))"

text \<open>
  The rounds of one printer in \<open>cmdMulti\<close>: the results, one line each; \<open>cancelled r\<close> when the context ends in the pause
  after round \<open>r\<close>.
\<close>

datatype probe_line = ConnectFailed string | RenderFailed nat template_error | RoundFailed nat string | RoundOK nat nat

fun multi_rounds ::
    "(nat \<Rightarrow> template_error + byte list) \<Rightarrow> (nat \<Rightarrow> byte list \<Rightarrow> string option) \<Rightarrow> (nat \<Rightarrow> bool) \<Rightarrow> nat \<Rightarrow> nat list \<Rightarrow> probe_line list" where
  "multi_rounds document write_doc cancelled rounds [] = []"
| "multi_rounds document write_doc cancelled rounds (r # rs) =
     (case document r of
        Inl e \<Rightarrow> [RenderFailed r e]
      | Inr doc \<Rightarrow>
         (case write_doc r doc of
            Some e \<Rightarrow> [RoundFailed r e]
          | None \<Rightarrow> RoundOK r (length doc) # (if cancelled r then [] else multi_rounds document write_doc cancelled rounds rs)))"

definition multi_printer ::
    "(nat \<Rightarrow> template_error + byte list) \<Rightarrow> probe_transport \<Rightarrow> (nat \<Rightarrow> bool) \<Rightarrow> nat \<Rightarrow> probe_line list" where
  "multi_printer document t cancelled rounds =
     (case pt_connect t of
        Some e \<Rightarrow> [ConnectFailed e]
      | None \<Rightarrow> multi_rounds document (pt_write t) cancelled rounds [1..<Suc rounds])"

definition cmdMulti ::
    "escpos_env \<Rightarrow> (string \<Rightarrow> nat \<Rightarrow> nat \<Rightarrow> string) \<Rightarrow> (string \<Rightarrow> probe_transport) \<Rightarrow> (string \<Rightarrow> nat \<Rightarrow> bool) \<Rightarrow>
     string \<Rightarrow> int \<Rightarrow> nat \<Rightarrow> string list \<Rightarrow> probe_err + (string \<times> probe_line list) list" where
  "cmdMulti env payload transport_of cancelled enc_name width rounds args =
     (if length args < 2 then Inl (ProbeUsage ''usage: btprobe multi <endpoint1> <endpoint2> [...]'')
      else Inr (map (\<lambda>(i, endpoint).
        let cfg = probe_config endpoint enc_name width in
        (endpoint, multi_printer
           (\<lambda>r. Render env TemplateTestPage (payload endpoint (i + 1) r) (pc_encoding cfg) (pc_characters_per_line cfg) plain_options)
           (transport_of endpoint) (cancelled endpoint) rounds)) (enumerate 0 args)))"

text \<open>The real-time status requests: the bytes sent, and which of the four were answered.\<close>

definition dle_eot :: "nat \<Rightarrow> byte list" where
  "dle_eot n = [0x10, 0x04, of_nat n]"

fun status_loop :: "(nat \<Rightarrow> byte list \<Rightarrow> string option) \<Rightarrow> (nat \<Rightarrow> byte list) \<Rightarrow> nat list \<Rightarrow> probe_err + (nat \<times> byte list) list" where
  "status_loop write_port read_port [] = Inr []"
| "status_loop write_port read_port (n # ns) =
     (case write_port n (dle_eot n) of
        Some e \<Rightarrow> Inl (EotWrite n e)
      | None \<Rightarrow> sum_bind (status_loop write_port read_port ns) (\<lambda>rest. Inr ((n, take 8 (read_port n)) # rest)))"

definition cmdStatus ::
    "(string \<Rightarrow> string option) \<Rightarrow> (nat \<Rightarrow> byte list \<Rightarrow> string option) \<Rightarrow> (nat \<Rightarrow> byte list) \<Rightarrow> string list \<Rightarrow>
     probe_err + bool \<times> (nat \<times> byte list) list" where
  "cmdStatus open_port write_port read_port args =
     (case args of
        [endpoint] \<Rightarrow>
          if sublist ''://'' endpoint then Inl (NoReads endpoint)
          else (case open_port endpoint of
            Some e \<Rightarrow> Inl (ProbeOpen e)
          | None \<Rightarrow> sum_bind (status_loop write_port read_port [1, 2, 3, 4]) (\<lambda>answers.
              Inr (list_ex (\<lambda>(n, bs). bs \<noteq> []) answers, answers)))
      | _ \<Rightarrow> Inl (ProbeUsage ''usage: btprobe status <endpoint>''))"

section \<open>The list of candidates and the command line\<close>

text \<open>The columns of a line of \<open>cmdList\<close>, before they are padded.\<close>

definition candidate_columns :: "candidate \<Rightarrow> string list" where
  "candidate_columns c =
     [ca_endpoint c,
      (if ca_device_name c \<noteq> [] then if ca_connected c then ''connected'' else ''paired'' else ''unknown''),
      ca_device_name c, ca_device_address c, (if ca_is_printer c then ''PRINTER'' else [])]"

datatype probe_listing = NoCandidates | CandidateLines "string list list"

definition cmdList :: "string + candidate list \<Rightarrow> string + probe_listing" where
  "cmdList listed =
     sum_bind listed (\<lambda>cands. Inr (if cands = [] then NoCandidates else CandidateLines (map candidate_columns cands)))"

text \<open>The commands, each with the error it returns; \<open>pb_list\<close> takes no arguments.\<close>

record probe_commands =
  pb_list :: "string option"
  pb_test :: "string list \<Rightarrow> string option"
  pb_charset :: "string list \<Rightarrow> string option"
  pb_multi :: "string list \<Rightarrow> string option"
  pb_status :: "string list \<Rightarrow> string option"

text \<open>\<open>main\<close> on \<open>os.Args\<close>: the exit code and whether the usage or an error is printed.\<close>

datatype probe_print = NothingPrinted | UsagePrinted | ErrorPrinted string

definition probe_exit :: "string option \<Rightarrow> nat \<times> probe_print" where
  "probe_exit err = (case err of None \<Rightarrow> (0, NothingPrinted) | Some e \<Rightarrow> (1, ErrorPrinted e))"

definition probe_main :: "probe_commands \<Rightarrow> string list \<Rightarrow> nat \<times> probe_print" where
  "probe_main run args =
     (if length args < 2 then (2, UsagePrinted)
      else let cmd = args ! 1; rest = drop 2 args in
        if cmd = ''list'' then probe_exit (pb_list run)
        else if cmd = ''test'' then probe_exit (pb_test run rest)
        else if cmd = ''charset'' then probe_exit (pb_charset run rest)
        else if cmd = ''multi'' then probe_exit (pb_multi run rest)
        else if cmd = ''status'' then probe_exit (pb_status run rest)
        else (2, UsagePrinted))"

section \<open>Laws\<close>

text \<open>The four code pages of the agent are all in the charset page, whatever the width.\<close>

lemma charset_doc_total: "\<exists>doc. charset_doc enc width = Inr doc"
proof -
  have "\<exists>b. NewBuilder name width = Some b" if "name \<in> set SupportedEncodings" for name
    using that by (auto simp: SupportedEncodings_def NewBuilder_def lookupCodePage_def codePages_def to_upper_def upper_char_def)
  then have block: "\<exists>bs. charset_block enc width name = Inr bs" if "name \<in> set SupportedEncodings" for name
    using that by (fastforce simp: charset_block_def)
  obtain b1 b2 b3 b4 where "charset_block enc width ''CP437'' = Inr b1" "charset_block enc width ''CP850'' = Inr b2"
    "charset_block enc width ''CP858'' = Inr b3" "charset_block enc width ''CP1252'' = Inr b4"
    using block by (force simp: SupportedEncodings_def)
  then show ?thesis
    by (simp add: charset_doc_def SupportedEncodings_def NewBuilder_def lookupCodePage_def codePages_def to_upper_def upper_char_def)
qed

lemma multi_stops_at_failure:
  "x \<in> set (butlast (multi_rounds document write_doc cancelled rounds rs)) \<Longrightarrow> \<exists>r n. x = RoundOK r n"
  by (induction rs) (auto split: sum.split_asm option.split_asm if_split_asm)

lemma status_asks_all: "status_loop write_port read_port ns = Inr answers \<Longrightarrow> map fst answers = ns"
  by (induction ns arbitrary: answers) (auto simp: sum_bind_Inr_iff split: option.split_asm)

text \<open>The code 2 is for a command line that names no command, 1 for a command that failed.\<close>

lemma probe_codes:
  "fst (probe_main run args) = 2 \<longleftrightarrow>
     length args < 2 \<or> args ! 1 \<notin> {''list'', ''test'', ''charset'', ''multi'', ''status''}"
  "fst (probe_main run args) = 1 \<longleftrightarrow> (\<exists>e. snd (probe_main run args) = ErrorPrinted e)"
  by (auto simp: probe_main_def probe_exit_def Let_def split: option.split)

lemma one_line_for_each: "cands \<noteq> [] \<Longrightarrow> cmdList (Inr cands) = Inr (CandidateLines ls) \<Longrightarrow> map hd ls = map ca_endpoint cands"
  by (auto simp: cmdList_def candidate_columns_def)

end
