(* ===== verification/DriverSelection.thy ===== *)
theory DriverSelection
  imports PlatformDrivers
begin

text \<open>
  \<open>internal/platform/host\<close>, which picks the driver of the operating system the binary is built for, and
  \<open>driverTransportFactory\<close> of \<open>internal/printers/manager.go\<close>, which picks the transport of a printer.
\<close>

section \<open>The driver\<close>

text \<open>The build tags; another system has the name \<open>runtime.GOOS\<close> gives it.\<close>

datatype build_os = Darwin | Linux | Windows | OtherOS string

text \<open>What each driver sees of its system.\<close>

record os_view =
  ov_linux_devices :: "string + bluez_device list"
  ov_linux_known :: "string \<Rightarrow> bool option"
  ov_linux_routes :: routes
  ov_linux_text :: "driver_err \<Rightarrow> string"
  ov_darwin_exists :: "string \<Rightarrow> bool"
  ov_darwin_nodes :: "string + string list"
  ov_darwin_cache :: darwin_cache

definition host_New :: "build_os \<Rightarrow> os_view \<Rightarrow> driver" where
  "host_New os v =
     (case os of
        Darwin \<Rightarrow> darwin_driver (ov_darwin_exists v) (ov_darwin_nodes v) (ov_darwin_cache v)
      | Linux \<Rightarrow> linux_driver (ov_linux_text v) (ov_linux_devices v) (ov_linux_known v) (ov_linux_routes v)
      | Windows \<Rightarrow> unimplemented_driver ''windows''
      | OtherOS name \<Rightarrow> unimplemented_driver name)"

definition host_Name :: "build_os \<Rightarrow> string" where
  "host_Name os = (case os of Darwin \<Rightarrow> ''darwin'' | Linux \<Rightarrow> ''linux'' | Windows \<Rightarrow> ''windows'' | OtherOS name \<Rightarrow> ''unimplemented'')"

section \<open>The transport\<close>

datatype any_transport = MockPrinter mock | SerialPort printer_config | LinuxTransport linux_transport

definition unimplemented_NewTransport :: "printer_config \<Rightarrow> any_transport" where
  "unimplemented_NewTransport cfg = SerialPort cfg"

definition darwin_NewTransport :: "printer_config \<Rightarrow> any_transport" where
  "darwin_NewTransport cfg = SerialPort cfg"

definition host_NewTransport :: "build_os \<Rightarrow> printer_config \<Rightarrow> any_transport" where
  "host_NewTransport os cfg =
     (case os of Darwin \<Rightarrow> darwin_NewTransport cfg | Linux \<Rightarrow> LinuxTransport (NewTransport cfg)
      | _ \<Rightarrow> unimplemented_NewTransport cfg)"

definition driverTransportFactory :: "(printer_config \<Rightarrow> any_transport) \<Rightarrow> printer_config \<Rightarrow> any_transport" where
  "driverTransportFactory new_transport cfg =
     (if pc_transport cfg = TransportMock then MockPrinter (NewMock (pc_endpoint cfg)) else new_transport cfg)"

section \<open>Laws\<close>

text \<open>
  Link checks exist exactly on the two systems with a view of the Bluetooth devices; elsewhere a worker
  takes every link for up, and only the write can fail.
\<close>

lemma host_sees_links: "dr_link_state (host_New os v) \<noteq> None \<longleftrightarrow> os = Darwin \<or> os = Linux"
  by (cases os) (simp_all add: host_New_def darwin_driver_def linux_driver_def unimplemented_driver_def)

lemma blind_host_is_up: "os \<noteq> Darwin \<Longrightarrow> os \<noteq> Linux \<Longrightarrow> link_up (host_New os v) cfg"
  by (cases os) (simp_all add: host_New_def unimplemented_is_up)

lemma host_verified_iff_up:
  assumes "os = Darwin \<or> os = Linux" "pc_transport cfg \<noteq> TransportMock"
  shows "link_up (host_New os v) cfg \<longleftrightarrow> dr_verify (host_New os v) cfg = VerifyOK"
  using assms(1) linux.up_iff_verified [OF assms(2)] darwin.up_iff_verified [OF assms(2)]
  by (auto simp: host_New_def)

text \<open>A mock printer never reaches a driver, and only Linux has transports other than a serial port.\<close>

lemma mock_stays_in_process:
  "pc_transport cfg = TransportMock \<Longrightarrow> driverTransportFactory f cfg = MockPrinter (NewMock (pc_endpoint cfg))"
  by (simp add: driverTransportFactory_def)

lemma serial_elsewhere:
  "pc_transport cfg \<noteq> TransportMock \<Longrightarrow> os \<noteq> Linux \<Longrightarrow> driverTransportFactory (host_NewTransport os) cfg = SerialPort cfg"
  by (cases os) (simp_all add: driverTransportFactory_def host_NewTransport_def darwin_NewTransport_def unimplemented_NewTransport_def)

end
