(* ===== verification/LogFile.thy ===== *)
theory LogFile
  imports Logs GoText "HOL-Library.AList" "HOL-Library.Sublist"
begin

text \<open>
  \<open>internal/logging/rolling_file.go\<close> on the directory of the log, step by step. \<open>Logs\<close> has the file as
  its lines; here each call of the file system is a step that may fail, a purge writes a new file and
  renames it over the log, and old backups are removed. The last part shows that this refines the purge of
  \<open>Logs\<close>, and what is left when a step fails.
\<close>

section \<open>The directory\<close>

record log_file =
  fl_mode :: nat
  fl_text :: string

type_synonym log_dir = "(string \<times> log_file) list"

text \<open>The calls that may fail. \<open>io\<close> says which do, with what message; reads and writes also say where.\<close>

datatype file_op =
    CreateLog | CloseLog | ChmodLog | OpenInput | OpenTemp | ReadInput nat | WriteTemp nat | CloseInput | FlushTemp
  | SyncTemp | CloseTemp | RemoveLog | RenameTemp | RemoveTemp | ReadDir | RemoveBackup string | AppendLog

type_synonym io = "file_op \<Rightarrow> string option"

definition private_mode :: nat where "private_mode = 384"

definition try_op :: "io \<Rightarrow> file_op \<Rightarrow> (log_dir \<Rightarrow> log_dir) \<Rightarrow> log_dir \<Rightarrow> string option \<times> log_dir" where
  "try_op io op f d = (case io op of Some e \<Rightarrow> (Some e, d) | None \<Rightarrow> (None, f d))"

definition and_then :: "string option \<times> log_dir \<Rightarrow> (log_dir \<Rightarrow> string option \<times> log_dir) \<Rightarrow> string option \<times> log_dir" where
  "and_then r f = (case r of (Some e, d) \<Rightarrow> (Some e, d) | (None, d) \<Rightarrow> f d)"

definition remove_file :: "string \<Rightarrow> log_dir \<Rightarrow> log_dir" where
  "remove_file name d = AList.delete name d"

definition put_file :: "string \<Rightarrow> log_file \<Rightarrow> log_dir \<Rightarrow> log_dir" where
  "put_file name f d = AList.update name f d"

definition change_file :: "string \<Rightarrow> (log_file \<Rightarrow> log_file) \<Rightarrow> log_dir \<Rightarrow> log_dir" where
  "change_file name f d = (case map_of d name of None \<Rightarrow> d | Some x \<Rightarrow> put_file name (f x) d)"

definition rename_file :: "string \<Rightarrow> string \<Rightarrow> log_dir \<Rightarrow> log_dir" where
  "rename_file old new d = (case map_of d old of None \<Rightarrow> d | Some x \<Rightarrow> put_file new x (remove_file old d))"

text \<open>\<open>O_CREATE\<close> makes a private file where there is none and leaves the mode of one that is there.\<close>

definition create_file :: "string \<Rightarrow> log_dir \<Rightarrow> log_dir" where
  "create_file name d = (case map_of d name of None \<Rightarrow> put_file name \<lparr>fl_mode = private_mode, fl_text = []\<rparr> d | Some _ \<Rightarrow> d)"

lemma map_of_disk [simp]:
  "map_of (put_file n f d) = (map_of d)(n \<mapsto> f)"
  "map_of (remove_file n d) = (map_of d)(n := None)"
  by (simp_all add: put_file_def remove_file_def update_conv' delete_conv')

section \<open>Lines\<close>

text \<open>\<open>bufio.ScanLines\<close>: the end of a line is not part of it, an empty rest is no line, and one
  carriage return before the end is dropped.\<close>

definition line_feed :: char where "line_feed = CHR 0x0A"

definition raw_lines :: "string \<Rightarrow> string list" where
  "raw_lines s = (let ps = split_char line_feed s in if last ps = [] then butlast ps else ps)"

definition drop_cr :: "string \<Rightarrow> string" where
  "drop_cr l = (if l \<noteq> [] \<and> last l = CHR 0x0D then butlast l else l)"

definition scan_lines :: "string \<Rightarrow> string list" where
  "scan_lines s = map drop_cr (raw_lines s)"

definition unlines :: "string list \<Rightarrow> string" where
  "unlines ls = concat (map (\<lambda>l. l @ [line_feed]) ls)"

definition recent_line :: "(string \<Rightarrow> time option) \<Rightarrow> time \<Rightarrow> string \<Rightarrow> bool" where
  "recent_line time_of cutoff l = (case time_of l of None \<Rightarrow> False | Some t \<Rightarrow> \<not> t < cutoff)"

section \<open>Purging\<close>

text \<open>The loop over the lines: what was written so far goes to the buffer of the writer.\<close>

fun copy_lines :: "io \<Rightarrow> (string \<Rightarrow> time option) \<Rightarrow> time \<Rightarrow> string list \<Rightarrow> string \<Rightarrow> string option \<times> string" where
  "copy_lines io time_of cutoff [] out = (io (ReadInput 0), out)"
| "copy_lines io time_of cutoff (l # ls) out =
     (case io (ReadInput (length (l # ls))) of Some e \<Rightarrow> (Some e, out) | None \<Rightarrow>
      if length l \<ge> max_line then (Some ''token too long'', out)
      else if \<not> recent_line time_of cutoff (drop_cr l) then copy_lines io time_of cutoff ls out
      else case io (WriteTemp (length out)) of Some e \<Rightarrow> (Some e, out)
        | None \<Rightarrow> copy_lines io time_of cutoff ls (out @ drop_cr l @ [line_feed]))"

definition filepath_Ext :: "string \<Rightarrow> string" where
  "filepath_Ext base =
     (if CHR ''.'' \<in> set base then CHR ''.'' # rev (takeWhile (\<lambda>c. c \<noteq> CHR ''.'') (rev base)) else [])"

definition TrimSuffix :: "string \<Rightarrow> string \<Rightarrow> string" where
  "TrimSuffix s ext = (if suffix ext s then take (length s - length ext) s else s)"

definition temp_path :: "string \<Rightarrow> string" where
  "temp_path base = base @ ''.tmp''"

definition legacy_backup :: "string \<Rightarrow> string \<Rightarrow> bool" where
  "legacy_backup base name =
     (let extension = filepath_Ext base; stem = TrimSuffix base extension in
      (prefix (base @ ''.'') name \<or> (prefix (stem @ ''-'') name \<and> suffix extension name)) \<and>
      name \<noteq> base \<and> name \<noteq> base @ ''.tmp'')"

fun remove_backups :: "io \<Rightarrow> string list \<Rightarrow> log_dir \<Rightarrow> string option \<times> log_dir" where
  "remove_backups io [] d = (None, d)"
| "remove_backups io (n # ns) d = and_then (try_op io (RemoveBackup n) (remove_file n) d) (remove_backups io ns)"

definition removeLegacyBackups :: "io \<Rightarrow> string \<Rightarrow> log_dir \<Rightarrow> string option \<times> log_dir" where
  "removeLegacyBackups io base d =
     and_then (try_op io ReadDir (\<lambda>d. d) d) (\<lambda>d. remove_backups io (filter (legacy_backup base) (sort (map fst d))) d)"

text \<open>
  From the open temporary file on. The content of that file counts as written by \<open>Flush\<close>; how much
  of it is there earlier is not modelled, because nothing but its removal follows then.
\<close>

definition replace_log :: "io \<Rightarrow> (string \<Rightarrow> time option) \<Rightarrow> string \<Rightarrow> time \<Rightarrow> log_file \<Rightarrow> log_dir \<Rightarrow> string option \<times> log_dir" where
  "replace_log io time_of base now input d =
     (case copy_lines io time_of (now - LogRetention) (raw_lines (fl_text input)) [] of
        (Some e, _) \<Rightarrow> (Some e, d)
      | (None, out) \<Rightarrow>
          and_then (try_op io CloseInput (\<lambda>d. d) d)
         (\<lambda>d. and_then (try_op io FlushTemp (change_file (temp_path base) (\<lambda>f. f\<lparr>fl_text := out\<rparr>)) d)
         (\<lambda>d. and_then (try_op io SyncTemp (\<lambda>d. d) d)
         (\<lambda>d. and_then (try_op io CloseTemp (\<lambda>d. d) d)
         (\<lambda>d. and_then (try_op io RemoveLog (remove_file base) d)
         (\<lambda>d. and_then (try_op io RenameTemp (rename_file (temp_path base) base) d)
         (\<lambda>d. and_then (try_op io ChmodLog (change_file base (\<lambda>f. f\<lparr>fl_mode := private_mode\<rparr>)) d)
           (removeLegacyBackups io base))))))))"

definition purge_disk :: "io \<Rightarrow> (string \<Rightarrow> time option) \<Rightarrow> string \<Rightarrow> time \<Rightarrow> log_dir \<Rightarrow> string option \<times> log_dir" where
  "purge_disk io time_of base now d =
     (case io OpenInput of Some e \<Rightarrow> (Some e, d)
      | None \<Rightarrow> (case map_of d base of None \<Rightarrow> (None, d)
      | Some input \<Rightarrow> (case io OpenTemp of Some e \<Rightarrow> (Some e, d)
      | None \<Rightarrow>
          (let opened = change_file (temp_path base) (\<lambda>f. f\<lparr>fl_text := []\<rparr>) (create_file (temp_path base) d)
           in case replace_log io time_of base now input opened of
                (None, d) \<Rightarrow> (None, d)
              | (Some e, d) \<Rightarrow> (Some e, snd (try_op io RemoveTemp (remove_file (temp_path base)) d))))))"

text \<open>\<open>Write\<close>: the bytes written and the error. \<open>sent\<close> is how much a failing write appends.\<close>

definition write_disk ::
    "io \<Rightarrow> nat \<Rightarrow> (string \<Rightarrow> time option) \<Rightarrow> string \<Rightarrow> time \<Rightarrow> time \<Rightarrow> string \<Rightarrow> log_dir \<Rightarrow> (nat \<times> string option) \<times> log_dir" where
  "write_disk io sent time_of base lastPurge now data d =
     (case (if now - lastPurge \<ge> 60 * second then purge_disk io time_of base now d else (None, d)) of
        (Some e, d) \<Rightarrow> ((0, Some e), d)
      | (None, d) \<Rightarrow>
        (case try_op io CreateLog (create_file base) d of
           (Some e, d) \<Rightarrow> ((0, Some e), d)
         | (None, d) \<Rightarrow>
             (let n = (case io AppendLog of None \<Rightarrow> length data | Some _ \<Rightarrow> min sent (length data));
                  d = change_file base (\<lambda>f. f\<lparr>fl_text := fl_text f @ take n data\<rparr>) d
              in (case io AppendLog of Some e \<Rightarrow> ((n, Some e), d) | None \<Rightarrow> ((n, io CloseLog), d)))))"

definition open_disk :: "io \<Rightarrow> (string \<Rightarrow> time option) \<Rightarrow> string \<Rightarrow> time \<Rightarrow> log_dir \<Rightarrow> string option \<times> log_dir" where
  "open_disk io time_of base now d =
     and_then (try_op io CreateLog (create_file base) d)
    (\<lambda>d. and_then (try_op io CloseLog (\<lambda>d. d) d)
    (\<lambda>d. and_then (try_op io ChmodLog (change_file base (\<lambda>f. f\<lparr>fl_mode := private_mode\<rparr>)) d)
    (\<lambda>d. purge_disk io time_of base now d)))"

section \<open>What a purge leaves\<close>

lemma and_then_cases:
  assumes "and_then r f = (e, d')"
  obtains (failed) x where "r = (Some x, d')" "e = Some x" | (went_on) d1 where "r = (None, d1)" "f d1 = (e, d')"
  using assms by (auto simp: and_then_def split: prod.split_asm option.split_asm)

lemma and_then_simps [simp]: "and_then (None, d) f = f d" "and_then (Some e, d) f = (Some e, d)"
  by (simp_all add: and_then_def)

lemma try_op_eq:
  "try_op io op f d = (Some e, d') \<longleftrightarrow> io op = Some e \<and> d' = d"
  "try_op io op f d = (None, d') \<longleftrightarrow> io op = None \<and> d' = f d"
  by (auto simp: try_op_def split: option.split)

lemma and_then_try_op:
  "and_then (try_op io op f d) g = (case io op of Some e \<Rightarrow> (Some e, d) | None \<Rightarrow> g (f d))"
  by (simp add: and_then_def try_op_def split: option.split)

lemma temp_path_other [simp]: "temp_path base \<noteq> base" "base \<noteq> temp_path base"
  by (simp_all add: temp_path_def)

lemma not_legacy [simp]: "\<not> legacy_backup base base" "\<not> legacy_backup base (temp_path base)"
  by (simp_all add: legacy_backup_def temp_path_def Let_def)

lemma remove_backups_removes:
  "remove_backups io ns d = (e, d') \<Longrightarrow>
    (\<forall>n. n \<notin> set ns \<longrightarrow> map_of d' n = map_of d n) \<and> (\<forall>n. map_of d n = None \<longrightarrow> map_of d' n = None) \<and>
    (e = None \<longrightarrow> (\<forall>n \<in> set ns. map_of d' n = None))"
proof (induction ns arbitrary: d)
  case (Cons n ns)
  from Cons.prems have "and_then (try_op io (RemoveBackup n) (remove_file n) d) (remove_backups io ns) = (e, d')" by simp
  then show ?case
  proof (cases rule: and_then_cases)
    case (went_on d1)
    then show ?thesis using Cons.IH [of d1] by (auto simp: try_op_eq)
  qed (simp add: try_op_eq)
qed simp

lemma removeLegacyBackups_removes:
  assumes "removeLegacyBackups io base d = (e, d')"
  shows "\<not> legacy_backup base n \<Longrightarrow> map_of d' n = map_of d n"
    and "e = None \<Longrightarrow> legacy_backup base n \<Longrightarrow> map_of d' n = None"
proof -
  have "(\<not> legacy_backup base n \<longrightarrow> map_of d' n = map_of d n) \<and>
      (e = None \<longrightarrow> legacy_backup base n \<longrightarrow> map_of d' n = None)"
    using assms unfolding removeLegacyBackups_def
  proof (cases rule: and_then_cases)
    case (went_on d1)
    then have d1: "d1 = d" by (simp add: try_op_eq)
    note r = remove_backups_removes [OF went_on(2) [unfolded d1]]
    show ?thesis
    proof (cases "n \<in> set (filter (legacy_backup base) (sort (map fst d)))")
      case True
      then have "legacy_backup base n" by simp
      with True r show ?thesis by blast
    next
      case False
      then have "legacy_backup base n \<Longrightarrow> map_of d n = None" by (auto simp: map_of_eq_None_iff)
      with False r show ?thesis by metis
    qed
  qed (simp add: try_op_eq)
  then show "\<not> legacy_backup base n \<Longrightarrow> map_of d' n = map_of d n"
    "e = None \<Longrightarrow> legacy_backup base n \<Longrightarrow> map_of d' n = None" by simp_all
qed

lemma copy_lines_keeps:
  "copy_lines io time_of cutoff ls out = (None, out') \<Longrightarrow>
    out' = out @ unlines (filter (recent_line time_of cutoff) (map drop_cr ls)) \<and> (\<forall>l \<in> set ls. length l < max_line)"
proof (induction ls arbitrary: out)
  case (Cons l ls)
  then show ?case using Cons.IH [of out] Cons.IH [of "out @ drop_cr l @ [line_feed]"]
    by (simp add: unlines_def split: option.split_asm if_split_asm)
qed (simp add: unlines_def)

text \<open>The file a purge makes of the log, and what is true of the directory once it has replaced it.\<close>

definition recent_text :: "(string \<Rightarrow> time option) \<Rightarrow> time \<Rightarrow> string \<Rightarrow> string" where
  "recent_text time_of now s = unlines (filter (recent_line time_of (now - LogRetention)) (scan_lines s))"

definition log_replaced :: "string \<Rightarrow> string \<Rightarrow> log_dir \<Rightarrow> log_dir \<Rightarrow> bool" where
  "log_replaced base text d d' \<longleftrightarrow> map_of d' (temp_path base) = None \<and>
     (\<exists>f. map_of d' base = Some f \<and> fl_text f = text) \<and>
     (\<forall>n. n \<noteq> base \<and> n \<noteq> temp_path base \<and> \<not> legacy_backup base n \<longrightarrow> map_of d' n = map_of d n)"

definition log_purged :: "string \<Rightarrow> log_dir \<Rightarrow> bool" where
  "log_purged base d \<longleftrightarrow> (\<forall>f. map_of d base = Some f \<longrightarrow> fl_mode f = private_mode) \<and>
     (\<forall>n. legacy_backup base n \<longrightarrow> map_of d n = None)"

lemma finish_purge:
  assumes "and_then (try_op io ChmodLog (change_file base (\<lambda>f. f\<lparr>fl_mode := private_mode\<rparr>)) d)
      (removeLegacyBackups io base) = (e, d')"
    and "map_of d base = Some f" "map_of d (temp_path base) = None"
  shows "log_replaced base (fl_text f) d d' \<and> (e = None \<longrightarrow> log_purged base d')"
  using assms(1)
proof (cases rule: and_then_cases)
  case (failed x)
  then show ?thesis using assms(2,3) by (auto simp: try_op_eq log_replaced_def)
next
  case (went_on d1)
  have d1: "d1 = put_file base (f\<lparr>fl_mode := private_mode\<rparr>) d" using went_on(1) assms(2) by (simp add: try_op_eq change_file_def)
  note r = removeLegacyBackups_removes [OF went_on(2)]
  show ?thesis using assms(3) r(1) [of base] r(1) [of "temp_path base"] r
    by (auto simp: log_replaced_def log_purged_def d1)
qed

lemma steps_up_to_rename:
  assumes "and_then (try_op io op1 (\<lambda>d. d) d) (\<lambda>d. and_then (try_op io op2 f d)
      (\<lambda>d. and_then (try_op io op3 (\<lambda>d. d) d) (\<lambda>d. and_then (try_op io op4 (\<lambda>d. d) d)
      (\<lambda>d. and_then (try_op io op5 g d) (\<lambda>d. and_then (try_op io op6 h d) k))))) = (e, d')"
    and "io op6 = None"
  shows "(\<exists>x. e = Some x) \<and> (d' = d \<or> d' = f d) \<or> k (h (g (f d))) = (e, d')"
  using assms by (cases e) (auto simp: and_then_try_op split: option.split_asm)

lemma replace_log_outcome:
  assumes "replace_log io time_of base now input d = (e, d')" "io RenameTemp = None"
    and "map_of d base = Some input" "map_of d (temp_path base) = Some tmp"
  shows "(\<exists>x. e = Some x) \<and> (\<forall>n. n \<noteq> temp_path base \<longrightarrow> map_of d' n = map_of d n) \<or>
    log_replaced base (recent_text time_of now (fl_text input)) d d' \<and> (e = None \<longrightarrow> log_purged base d')"
proof (cases "copy_lines io time_of (now - LogRetention) (raw_lines (fl_text input)) []")
  case (Pair r out)
  show ?thesis
  proof (cases r)
    case None
    let ?out = "put_file (temp_path base) (tmp\<lparr>fl_text := out\<rparr>) d"
    have out: "out = recent_text time_of now (fl_text input)"
      using copy_lines_keeps [OF Pair [unfolded None]] by (simp add: recent_text_def scan_lines_def)
    let ?new = "rename_file (temp_path base) base (remove_file base ?out)"
    have new: "map_of ?new base = Some (tmp\<lparr>fl_text := out\<rparr>)" "map_of ?new (temp_path base) = None"
      "n \<noteq> base \<Longrightarrow> n \<noteq> temp_path base \<Longrightarrow> map_of ?new n = map_of d n" for n
      by (simp_all add: rename_file_def)
    have flush: "change_file (temp_path base) (\<lambda>f. f\<lparr>fl_text := out\<rparr>) d = ?out"
      using assms(4) by (simp add: change_file_def)
    from steps_up_to_rename [OF assms(1) [unfolded replace_log_def Pair None prod.case option.case] assms(2)]
    consider (kept) "\<exists>x. e = Some x" "d' = d \<or> d' = ?out"
      | (finished) "and_then (try_op io ChmodLog (change_file base (\<lambda>f. f\<lparr>fl_mode := private_mode\<rparr>)) ?new)
          (removeLegacyBackups io base) = (e, d')"
      unfolding flush by blast
    then show ?thesis
    proof cases
      case finished
      from finish_purge [OF this new(1,2)] show ?thesis using new(3) by (auto simp: log_replaced_def out)
    qed auto
  qed (use assms(1) Pair in \<open>auto simp: replace_log_def\<close>)
qed

lemma replace_log_refines:
  assumes "replace_log io time_of base now input d = (None, d')"
  shows "\<exists>ls. recent_text time_of now (fl_text input) = unlines ls \<and>
    purgeLocked time_of now \<lparr>rf_lines = scan_lines (fl_text input), rf_last_purge = p\<rparr> =
      (None, \<lparr>rf_lines = ls, rf_last_purge = now\<rparr>)"
proof -
  obtain out where "copy_lines io time_of (now - LogRetention) (raw_lines (fl_text input)) [] = (None, out)"
    using assms by (auto simp: replace_log_def split: prod.split_asm option.split_asm)
  from copy_lines_keeps [OF this] have "\<forall>l \<in> set (raw_lines (fl_text input)). length l < max_line" by simp
  moreover have "length (drop_cr l) \<le> length l" for l by (simp add: drop_cr_def)
  ultimately have "\<forall>l \<in> set (scan_lines (fl_text input)). length l < max_line"
    by (fastforce simp: scan_lines_def intro: le_less_trans)
  then show ?thesis
    by (auto simp: recent_text_def purgeLocked_def recent_line_def [abs_def] Let_def)
qed

lemma purge_disk_cases:
  assumes "purge_disk io time_of base now d = (e, d')" "map_of d base = Some f"
  obtains (untouched) "d' = d" "e \<noteq> None"
  | (ran) d1 tmp opened where "replace_log io time_of base now f opened = (e, d1)"
      "map_of opened base = Some f" "map_of opened (temp_path base) = Some tmp"
      "\<And>n. n \<noteq> temp_path base \<Longrightarrow> map_of opened n = map_of d n"
      "\<And>n. n \<noteq> temp_path base \<Longrightarrow> map_of d' n = map_of d1 n" "e = None \<Longrightarrow> d' = d1"
proof -
  let ?opened = "change_file (temp_path base) (\<lambda>f. f\<lparr>fl_text := []\<rparr>) (create_file (temp_path base) d)"
  obtain tmp where tmp: "map_of ?opened (temp_path base) = Some tmp"
    by (cases "map_of d (temp_path base)") (simp_all add: change_file_def create_file_def)
  have others: "map_of ?opened n = map_of d n" if "n \<noteq> temp_path base" for n
    using that by (simp add: change_file_def create_file_def split: option.split)
  consider "d' = d" "e \<noteq> None" | d1 where "replace_log io time_of base now f ?opened = (e, d1)"
      "d' = d1 \<or> d' = remove_file (temp_path base) d1 \<and> e \<noteq> None"
    using assms by (cases "io OpenInput"; cases "io OpenTemp")
      (auto simp: purge_disk_def Let_def try_op_def split: option.split_asm prod.split_asm)
  then show thesis
  proof cases
    case 2
    show thesis by (rule ran [OF 2(1) _ tmp others]) (use 2(2) others assms(2) in auto)
  qed (rule untouched)
qed

text \<open>C38: A purge of the log loses no recent line. Unless the renaming itself fails, whatever other call of
  the file system fails and at whatever point, the log holds afterwards either what it held before or
  exactly its recent lines in their order, and no file of the directory is touched but the log, its
  temporary file and old backups. A purge without an error refines the purge of the lines, the log is
  private to the user, and no temporary file and no old backup is left.\<close>

theorem purge_keeps_the_log_or_its_recent_lines:
  assumes "purge_disk io time_of base now d = (e, d')" "map_of d base = Some f" "io RenameTemp = None"
  shows "(\<exists>f'. map_of d' base = Some f' \<and>
      (fl_text f' = fl_text f \<or> fl_text f' = recent_text time_of now (fl_text f))) \<and>
    (\<forall>n. n \<noteq> base \<and> n \<noteq> temp_path base \<and> \<not> legacy_backup base n \<longrightarrow> map_of d' n = map_of d n) \<and>
    (e = None \<longrightarrow> map_of d' (temp_path base) = None \<and> log_purged base d' \<and>
      (\<exists>f' ls. map_of d' base = Some f' \<and> fl_text f' = unlines ls \<and>
        purgeLocked time_of now \<lparr>rf_lines = scan_lines (fl_text f), rf_last_purge = p\<rparr> =
          (None, \<lparr>rf_lines = ls, rf_last_purge = now\<rparr>)))"
proof -
  show ?thesis using assms(1,2)
  proof (cases rule: purge_disk_cases)
    case untouched
    with assms(2) show ?thesis by auto
  next
    case (ran d1 tmp opened)
    from replace_log_outcome [OF ran(1) assms(3) ran(2,3)]
    have outcome: "e \<noteq> None \<and> (\<forall>n. n \<noteq> temp_path base \<longrightarrow> map_of d1 n = map_of d n) \<or>
        log_replaced base (recent_text time_of now (fl_text f)) d d1 \<and> (e = None \<longrightarrow> log_purged base d1)"
      using ran(4) by (auto simp: log_replaced_def)
    moreover have "\<exists>ls. recent_text time_of now (fl_text f) = unlines ls \<and>
        purgeLocked time_of now \<lparr>rf_lines = scan_lines (fl_text f), rf_last_purge = p\<rparr> =
          (None, \<lparr>rf_lines = ls, rf_last_purge = now\<rparr>)" if "e = None"
      using replace_log_refines [OF ran(1) [unfolded that]] by blast
    ultimately show ?thesis using ran(5,6) assms(2) unfolding log_replaced_def by (metis temp_path_other(2))
  qed
qed

definition sample_disk :: log_dir where
  "sample_disk = [(''agent.log'', \<lparr>fl_mode = 420, fl_text = ''old'' @ [line_feed] @ ''new'' @ [line_feed]\<rparr>),
     (''agent-1.log'', \<lparr>fl_mode = 420, fl_text = ''backup''\<rparr>), (''notes.txt'', \<lparr>fl_mode = 420, fl_text = ''mine''\<rparr>)]"

definition sample_io :: io where
  "sample_io op = (if op = RemoveBackup ''agent-1.log'' then Some ''access denied'' else None)"

definition sample_time_of :: "string \<Rightarrow> time option" where
  "sample_time_of l = (if l = ''new'' then Some (3 * hour) else if l = ''old'' then Some 0 else None)"

theorem purge_keeps_the_log_or_its_recent_lines_witness:
  "(\<exists>f. map_of (snd (purge_disk sample_io sample_time_of ''agent.log'' (3 * hour) sample_disk)) ''agent.log'' = Some f) \<and>
   map_of (snd (purge_disk sample_io sample_time_of ''agent.log'' (3 * hour) sample_disk)) ''notes.txt'' =
     Some \<lparr>fl_mode = 420, fl_text = ''mine''\<rparr>"
proof -
  obtain f where f: "map_of sample_disk ''agent.log'' = Some f" by (simp add: sample_disk_def)
  have other: "\<not> legacy_backup ''agent.log'' ''notes.txt''" "''notes.txt'' \<noteq> temp_path ''agent.log''"
    "map_of sample_disk ''notes.txt'' = Some \<lparr>fl_mode = 420, fl_text = ''mine''\<rparr>"
    by (simp_all add: legacy_backup_def temp_path_def sample_disk_def Let_def filepath_Ext_def TrimSuffix_def suffix_def)
  have "sample_io RenameTemp = None" by (simp add: sample_io_def)
  moreover obtain e d' where "purge_disk sample_io sample_time_of ''agent.log'' (3 * hour) sample_disk = (e, d')" by fastforce
  ultimately show ?thesis using purge_keeps_the_log_or_its_recent_lines f other by fastforce
qed

section \<open>Writing and opening\<close>

text \<open>When the renaming fails, the log is gone, and the only copy of its lines is removed after it.\<close>

lemma a_failed_rename_loses_the_log:
  assumes "purge_disk (\<lambda>op. if op = RenameTemp then Some msg else None) time_of base now d = (e, d')"
    and "map_of d base = Some f" "\<forall>l \<in> set (raw_lines (fl_text f)). length l < max_line"
  shows "e = Some msg \<and> map_of d' base = None \<and> map_of d' (temp_path base) = None"
proof -
  have "copy_lines (\<lambda>op. if op = RenameTemp then Some msg else None) time_of cutoff ls out =
      (None, out @ unlines (filter (recent_line time_of cutoff) (map drop_cr ls)))"
    if "\<forall>l \<in> set ls. length l < max_line" for ls cutoff out
    using that by (induction ls arbitrary: out) (simp_all add: unlines_def not_le)
  from this [OF assms(3)] show ?thesis
    using assms(1,2) by (auto simp: purge_disk_def replace_log_def try_op_def Let_def change_file_def
        create_file_def split: option.split_asm)
qed

text \<open>A write without an error adds its bytes at the end of what the purge left.\<close>

lemma write_appends:
  assumes "write_disk io sent time_of base lastPurge now data d = ((n, None), d')" "map_of d base = Some f"
    and "now - lastPurge < 60 * second"
  shows "n = length data \<and> map_of d' base = Some (f\<lparr>fl_text := fl_text f @ data\<rparr>)"
  using assms by (auto simp: write_disk_def try_op_def Let_def create_file_def change_file_def split: option.split_asm)

text \<open>Opening makes a log that was readable for others private.\<close>

lemma open_makes_the_log_private:
  assumes "open_disk io time_of base now d = (None, d')" "io RenameTemp = None"
  shows "\<exists>f. map_of d' base = Some f \<and> fl_mode f = private_mode"
proof -
  obtain d1 where d1: "purge_disk io time_of base now d1 = (None, d')" "\<exists>f. map_of d1 base = Some f"
    using assms(1) unfolding open_disk_def
    by (auto simp: and_then_try_op create_file_def change_file_def split: option.split_asm)
  then obtain f where "map_of d1 base = Some f" by blast
  with d1(1) have "log_purged base d' \<and> (\<exists>f. map_of d' base = Some f)"
  proof (cases rule: purge_disk_cases)
    case (ran d2 tmp opened)
    from replace_log_outcome [OF ran(1) assms(2) ran(2,3)] ran(6) show ?thesis by (auto simp: log_replaced_def)
  qed simp
  then show ?thesis by (auto simp: log_purged_def)
qed

end
