(* ===== verification/Diagnostics.thy ===== *)
theory Diagnostics
  imports Logs
begin

text \<open>
  The report and the archive for support of \<open>internal/diagnostics/diagnostics.go\<close>. What the build and the Go
  runtime say of the program is an argument, as is which call of the zip writer fails. The entries of the
  archive are kept as the values their JSON is made of.
\<close>

record build_info =
  bi_version :: string
  bi_os :: string
  bi_arch :: string
  bi_go_version :: string

record diagnostics =
  dg_db_path :: string
  dg_started_at :: time

definition NewService :: "string \<Rightarrow> time \<Rightarrow> diagnostics" where
  "NewService dbPath now = \<lparr>dg_db_path = dbPath, dg_started_at = now\<rparr>"

record report =
  rp_version :: string
  rp_os :: string
  rp_arch :: string
  rp_go_version :: string
  rp_started_at :: time
  rp_uptime_seconds :: int
  rp_database_path :: string
  rp_database_ok :: bool

text \<open>\<open>Ping\<close> and \<open>int64(d.Seconds())\<close>, which cuts the fraction off; \<open>s\<close> started before \<open>now\<close>.\<close>

definition Report :: "build_info \<Rightarrow> bool \<Rightarrow> time \<Rightarrow> diagnostics \<Rightarrow> report" where
  "Report b ping_ok now s =
     \<lparr>rp_version = bi_version b, rp_os = bi_os b, rp_arch = bi_arch b, rp_go_version = bi_go_version b,
      rp_started_at = dg_started_at s, rp_uptime_seconds = (now - dg_started_at s) div second,
      rp_database_path = dg_db_path s, rp_database_ok = ping_ok\<rparr>"

section \<open>The archive\<close>

datatype 'x entry = ReportEntry report | EventsEntry "event_row list" | ExtraEntry 'x

datatype zip_op = CreateEntry string | EncodeEntry string | QueryEvents | CloseZip

type_synonym 'x archive = "(string \<times> 'x entry) list"

definition write_entry :: "(zip_op \<Rightarrow> string option) \<Rightarrow> string \<Rightarrow> 'x entry \<Rightarrow> 'x archive \<Rightarrow> string + 'x archive" where
  "write_entry fails name v zw =
     (case fails (CreateEntry name) of Some e \<Rightarrow> Inl e
      | None \<Rightarrow> (case fails (EncodeEntry name) of Some e \<Rightarrow> Inl e | None \<Rightarrow> Inr (zw @ [(name, v)])))"

text \<open>The extras come in the order in which Go happens to range over the map.\<close>

definition WriteExportZip ::
    "(zip_op \<Rightarrow> string option) \<Rightarrow> report \<Rightarrow> time \<Rightarrow> (string \<times> 'x) list \<Rightarrow> db \<Rightarrow> string + 'x archive" where
  "WriteExportZip fails rep now extras d =
     sum_bind (write_entry fails ''report.json'' (ReportEntry rep) []) (\<lambda>zw.
     case fails QueryEvents of Some e \<Rightarrow> Inl e | None \<Rightarrow>
     sum_bind (write_entry fails ''events.json'' (EventsEntry (RecentEvents 1000 now d)) zw) (\<lambda>zw.
     sum_bind (fold_sum (\<lambda>zw x. write_entry fails (fst x) (ExtraEntry (snd x)) zw) zw extras) (\<lambda>zw.
     case fails CloseZip of Some e \<Rightarrow> Inl e | None \<Rightarrow> Inr zw)))"

text \<open>An archive that is sent is complete: every entry is there once, and in its place.\<close>

lemma write_entry_appends: "write_entry fails name v zw = Inr zw' \<Longrightarrow> zw' = zw @ [(name, v)]"
  by (simp add: write_entry_def split: option.split_asm)

lemma fold_write_entry:
  "fold_sum (\<lambda>zw x. write_entry fails (fst x) (ExtraEntry (snd x)) zw) zw extras = Inr zw' \<Longrightarrow>
    zw' = zw @ map (\<lambda>x. (fst x, ExtraEntry (snd x))) extras"
proof (induction extras arbitrary: zw)
  case (Cons x extras)
  then show ?case by (force simp: sum_bind_Inr_iff dest: write_entry_appends)
qed simp

lemma export_is_complete:
  assumes "WriteExportZip fails rep now extras d = Inr zw"
  shows "zw = (''report.json'', ReportEntry rep) # (''events.json'', EventsEntry (RecentEvents 1000 now d)) #
    map (\<lambda>x. (fst x, ExtraEntry (snd x))) extras"
  using assms
  by (auto simp: WriteExportZip_def sum_bind_Inr_iff split: option.split_asm dest!: fold_write_entry write_entry_appends)

text \<open>No entry is written before every write up to it succeeded: the first failure is the answer.\<close>

lemma export_fails_with_a_step:
  "WriteExportZip fails rep now extras d = Inl e \<Longrightarrow> \<exists>step. fails step = Some e"
proof -
  have entry: "\<exists>step. fails step = Some e" if "write_entry fails n v zw = Inl e" for n v and zw :: "'x archive"
    using that by (auto simp: write_entry_def split: option.split_asm)
  have fold: "\<exists>step. fails step = Some e"
    if "fold_sum (\<lambda>zw x. write_entry fails (fst x) (ExtraEntry (snd x)) zw) zw xs = Inl e" for zw :: "'x archive" and xs
    using that by (induction xs arbitrary: zw) (auto simp: sum_bind_Inl_iff dest: entry)
  assume "WriteExportZip fails rep now extras d = Inl e"
  then show ?thesis
    by (auto simp: WriteExportZip_def sum_bind_Inl_iff split: option.split_asm dest: entry fold)
qed

end
