(* ===== verification/Spec2Isabelle.thy ===== *)
theory Spec2Isabelle
  imports WorkerProperties ServiceProperties RepositoryProperties DeriveProperties Tickets Draining ManagerProperties
    AuthProperties LogProperties Storage ApiProperties PagingProperties LinuxProperties Bluez AgentMain RateLimit Btprobe DriverSelection
    Rows LogFile Diagnostics
begin

text \<open>
  A verification development of the print agent: a local service that accepts Jobs from a point of sale over
  HTTP, stores them in SQLite, renders them as ESC/POS documents and sends them to Bluetooth printers. The
  definitions follow the Go code function by function; all paths below are under \<open>src/internal\<close> unless
  they start with \<open>cmd\<close>. The properties are in the theories named \<open>...Properties\<close>, and in \<open>Tickets\<close>, \<open>Draining\<close>, \<open>Storage\<close>, \<open>AppService\<close>,
  \<open>RateLimit\<close>, \<open>Rows\<close> and \<open>LogFile\<close>; each stands right after a text with its number.

  \<^bold>\<open>How the code is translated.\<close> A struct is a record, an enumeration a datatype, a \<open>(value, error)\<close> result a sum
  with the error on the left, a nullable column an option. The database is the record \<open>db\<close> of its tables
  as lists of rows, and an operation of a repository is a function from a database to an error or to
  its result and the next database, one transaction at a time: \<open>Inl\<close> means it was rolled back. Times are integers
  in nanoseconds, texts are lists of bytes, prices are 64 bit words, bytes are 8 bit words. The clock, random identifiers, SHA-256, JSON
  decoding into a struct, the character maps of golang.org/x/text, BlueZ and the operating system are not part of the repository: they
  are arguments, and most properties hold for all of them.

  \<^bold>\<open>The parts, bottom up.\<close>

  \<^item> \<open>Prelude\<close>: the error monad on sums, loops that stop at the first error, conditional updates of rows, words and texts that
    all parts share, and the collections \<open>repo_defs\<close> and \<open>keeps\<close>. \<open>TimeText\<close>, \<open>Rfc3339\<close>, \<open>GoText\<close>, \<open>Json\<close>: the parts of the Go library that
    the code relies on, as far as it does: RFC 3339 times written and read, white space, hexadecimal
    addresses, and the marshalling of JSON.
  \<^item> \<open>Config\<close>, \<open>ConfigRepository\<close>: \<open>config/\<close>, a printer's configuration, its defaults, its validation and its rows.
  \<^item> \<open>EscposText\<close>, \<open>EscposTemplates\<close>: \<open>escpos/\<close>, the builder, the wrapping of lines and the templates;
    \<open>EscposCorrect\<close> shows that what they emit is a sequence of known commands and printable text, that wrapped lines fit,
    and that money is exact.
  \<^item> \<open>JobModels\<close>, \<open>Database\<close>, \<open>JobRepository\<close>: \<open>jobs/models.go\<close>, the schema with its constraints and triggers, and
    \<open>jobs/repository.go\<close>. \<open>DatabaseSafety\<close> and \<open>RepositorySafety\<close> show that every transaction keeps the invariant \<open>db_ok\<close> and
    changes the history of a run only along the permitted edges; \<open>RepositoryLaws\<close> has what each operation
    promises; \<open>DeriveCorrect\<close> relates \<open>DeriveJob\<close> to a specification over the rows. \<open>Rows\<close> has the rows as SQLite holds them, column
    by column, and shows that scanning one returns the record that was written, and that the stored texts of
    times sort like the pairs of \<open>TimeText\<close> that \<open>Database\<close> compares.
  \<^item> \<open>JobService\<close>: \<open>jobs/service.go\<close>, acceptance, idempotency, reprints and cancellation, with its lemmas in \<open>JobServiceCorrect\<close>.
  \<^item> \<open>Gates\<close>, \<open>Transport\<close>, \<open>Worker\<close>: \<open>printers/\<close> and \<open>transport/\<close>: the persistence gate, the transmission permit, the four
    transports and the loop of a worker. The locale \<open>byte_channel\<close> is what a worker needs of a transport: an error that
    is not ambiguous means no byte can have reached the printer, and success that all were accepted. It is
    interpreted for serial, RFCOMM, BLE and mock. The locale \<open>persisted_mark\<close> is what storing an outcome needs of a
    repository operation, interpreted for the three marks.
  \<^item> \<open>Manager\<close>: \<open>printers/manager.go\<close>; it provides the locale \<open>printer_directory\<close> the Job service uses.
  \<^item> \<open>System\<close>, \<open>ProcessingRuns\<close>: all workers, clients, the operator and restarts as one step relation, interleaved in any order
    between transactions. \<open>Tickets\<close> adds the set of the runs of which bytes may have left for a printer and shows that
    such a run is never queued or retried again, so a ticket leaves at most once unless the operator asks for a reprint.
    \<open>Draining\<close> shows that the loop of a connected worker ends and leaves no queued run behind.
  \<^item> \<open>Auth\<close>, \<open>Http\<close>, \<open>Cursors\<close>, \<open>Handlers\<close>, \<open>AdminHandlers\<close>, \<open>Routes\<close>: \<open>api/\<close>: pairing codes and tokens, middleware, page cursors,
    every handler, and the route table. A handler is a function from a request and the state of the server
    to a response and the next state; \<open>Routes.Handler\<close> is the whole server. \<open>ApiSteps\<close> classifies what a request can do to
    the configuration, by the locale \<open>handler_relation\<close>; \<open>RateLimit\<close> bounds what the buckets let through.
  \<^item> \<open>Logs\<close>, \<open>LogHandler\<close>: \<open>events/\<close>, \<open>diagnostics/\<close> and \<open>logging/\<close>: events, the system log, its search and retention, and the
    redaction of secrets. \<open>LogFile\<close> has the log file's directory with every call that may fail and refines the purge
    of lines in \<open>Logs\<close>; \<open>Diagnostics\<close> has the report and the entries of the archive for support.
  \<^item> \<open>LinuxDriver\<close>, \<open>Bluez\<close>, \<open>ProfileBroker\<close>, \<open>PlatformDrivers\<close>: \<open>platform/\<close>: endpoints and link states on Linux, the calls to BlueZ,
    the broker of RFCOMM descriptors with its goroutines interleaved section by section, macOS and the
    default driver. The locale \<open>link_verifier\<close> is the contract of the link checks, interpreted for Linux and macOS.
    \<open>DriverSelection\<close> picks the driver and the transport of a system.
  \<^item> \<open>Storage\<close>, \<open>AppService\<close>: \<open>storage/sqlite.go\<close> and \<open>app/service.go\<close>: migrations, start with crash recovery, stop, retention;
    \<open>AgentMain\<close>: \<open>cmd/print-agent\<close>, its options, signals and exit codes.
  \<^item> \<open>Btprobe\<close>: \<open>cmd/btprobe\<close>. \<open>Samples\<close> holds the concrete states of the witnesses.

  \<^bold>\<open>What the properties show.\<close> Bytes leave for at most one run of a ticket and its automatic retries, whatever
  fails and whenever the agent restarts; a connected worker empties its queue. The history of Print Runs is immutable and consistent under every transaction; a document is retried
  automatically only when nothing was sent, at most the configured number of times, and never while another run of
  the target is active; an outcome that a worker stores is true of its transport, also when the database is away for
  a while; one run at a time is on its way to a printer in the whole agent; workers and stored configuration agree;
  acceptance is idempotent and repeated or foreign requests change nothing; documents contain only known commands;
  a page of another origin needs a token; stored printers are valid; pages and cursors neither skip nor
  repeat; logs hold no secrets; a link that is reported up has an open descriptor; a restart leaves no run in doubt
  and retention keeps open work; rows are read back as they were written, and a purge of the log file loses no recent line
  unless its renaming fails.

  \<^bold>\<open>Loops and fuel.\<close> Loops over data are structural or have a measure (\<open>wrap_para\<close>, \<open>serial_loop\<close>, \<open>rfcomm_loop\<close>, \<open>gatt_loop\<close>). The walk along
  the chain of retries is a partial function; \<open>retry_chains_are_bounded\<close> shows that it ends on every reachable
  database, after at most \<open>MaxAutomaticRetries\<close> steps. Loops that wait for the outside world (connecting, claiming,
  persisting, BLE resolution) consume the list of events that happen; where the events end the loop is still
  waiting, which is a value of its own and not a success.

  \<^bold>\<open>Assumptions.\<close> A statement that fails has no effect, and a commit that reports an error has not happened. Where
  a read can fail and the code reacts to it, the failure is an argument; other reads are taken to succeed. HTTP requests are served one after the other,
  because each takes effect in its transactions and in the lifecycle lock of the manager; workers do run between them,
  in \<open>System\<close>. The token buckets count exactly where the code has floating point. Case is folded for
  ASCII letters. SQLite's unique, foreign key and check constraints and the triggers of the schema are those of the migrations,
  translated by hand in \<open>Database\<close>.

  \<^bold>\<open>Not modelled.\<close> The bytes of the zip file of the diagnostics export; parsing and timeouts of the HTTP server;
  the processes of desktop programs once they are started; the assets of the dashboard (its routes are);
  the package \<open>flag\<close> and the padding of columns on the console in \<open>cmd/btprobe\<close>. They are input
  and output around the modelled parts, or code outside of the repository.
\<close>

end
